(* ===== verification/Prelude.thy ===== *)
theory Prelude
  imports Main
begin

text \<open>
  Shared vocabulary of the development.  It fixes how the backend's effects are represented
  (results that may be an exception, state threaded explicitly), the table operations of the
  TypeORM repositories that every service uses (\<open>findOne\<close>, \<open>find\<close>, \<open>save\<close>, \<open>update\<close> on the
  rows of a table), the interface those operations satisfy as a locale with its client lemmas,
  and the generic list facts the components share.
\<close>

section \<open>Types of the model\<close>

text \<open>
  Primary keys are UUID strings.  An instant is the number of milliseconds of
  \<open>Date.getTime()\<close>.  An amount of stroops is a JavaScript \<open>bigint\<close>, which is unbounded.
\<close>

type_synonym id = string
type_synonym instant = int
type_synonym stroops = int
type_synonym ('e, 'a) result = "'e + 'a"

text \<open>
  An \<open>async\<close> method that reads and writes the database is a function from the state to its
  result and the state it leaves behind.  An exception keeps the writes made before it was
  thrown; where the source wraps them in a transaction the model says so by returning the
  state the transaction started from.
\<close>

type_synonym ('w, 'e, 'a) action = "'w \<Rightarrow> ('e, 'a) result \<times> 'w"

named_theorems table_simps \<open>rewrite rules for the table operations\<close>
named_theorems guard_splits \<open>case splits of the guards of the handlers\<close>

section \<open>Tables\<close>

text \<open>
  A table is the list of its rows, in the order in which an unordered \<open>SELECT\<close> returns them.
  \<open>find_row key k\<close> is \<open>findOne({where: {id: k}})\<close>; \<open>save_row\<close> is \<open>Repository.save\<close>, which
  updates the row with the same primary key and inserts the row when there is none;
  \<open>update_row\<close> is \<open>Repository.update({id}, ...)\<close>, which touches no row when the key is absent.
\<close>

definition find_row :: "('r \<Rightarrow> 'k) \<Rightarrow> 'k \<Rightarrow> 'r list \<Rightarrow> 'r option" where
  "find_row key k rows = List.find (\<lambda>r. key r = k) rows"

definition update_row :: "('r \<Rightarrow> 'k) \<Rightarrow> 'k \<Rightarrow> ('r \<Rightarrow> 'r) \<Rightarrow> 'r list \<Rightarrow> 'r list" where
  "update_row key k f rows = map (\<lambda>r. if key r = k then f r else r) rows"

definition save_row :: "('r \<Rightarrow> 'k) \<Rightarrow> 'r \<Rightarrow> 'r list \<Rightarrow> 'r list" where
  "save_row key r rows =
     (if key r \<in> key ` set rows then update_row key (key r) (\<lambda>_. r) rows else rows @ [r])"

lemma find_row_Nil [simp]: "find_row key k [] = None"
  by (simp add: find_row_def)

lemma find_row_Cons [simp]:
  "find_row key k (r # rows) = (if key r = k then Some r else find_row key k rows)"
  by (simp add: find_row_def)

lemma find_row_SomeD: "find_row key k rows = Some r \<Longrightarrow> r \<in> set rows \<and> key r = k"
  by (induction rows) (auto split: if_splits)

lemma find_row_None_iff: "find_row key k rows = None \<longleftrightarrow> k \<notin> key ` set rows"
  by (induction rows) auto

lemma find_row_append:
  "find_row key k (xs @ ys) =
     (case find_row key k xs of None \<Rightarrow> find_row key k ys | Some r \<Rightarrow> Some r)"
  by (induction xs) auto

lemma find_row_distinct:
  "distinct (map key rows) \<Longrightarrow> r \<in> set rows \<Longrightarrow> find_row key (key r) rows = Some r"
  by (induction rows) force+

lemma update_row_Nil [simp]: "update_row key k f [] = []"
  by (simp add: update_row_def)

lemma update_row_Cons [simp]:
  "update_row key k f (r # rows) = (if key r = k then f r else r) # update_row key k f rows"
  by (simp add: update_row_def)

lemma length_update_row [simp]: "length (update_row key k f rows) = length rows"
  by (simp add: update_row_def)

lemma map_key_update_row [table_simps]:
  "(\<And>r. key r = k \<Longrightarrow> key (f r) = k) \<Longrightarrow> map key (update_row key k f rows) = map key rows"
  by (simp add: update_row_def)

lemma keys_update_row [table_simps]:
  "(\<And>r. key r = k \<Longrightarrow> key (f r) = k) \<Longrightarrow> key ` set (update_row key k f rows) = key ` set rows"
  by (metis list.set_map map_key_update_row)

lemma find_row_update_same [table_simps]:
  "(\<And>r. key r = k \<Longrightarrow> key (f r) = k) \<Longrightarrow>
   find_row key k (update_row key k f rows) = map_option f (find_row key k rows)"
  by (induction rows) auto

lemma find_row_update_other [table_simps]:
  "(\<And>r. key r = k \<Longrightarrow> key (f r) = k) \<Longrightarrow> k' \<noteq> k \<Longrightarrow>
   find_row key k' (update_row key k f rows) = find_row key k' rows"
  by (induction rows) auto

lemma set_update_row:
  "set (update_row key k f rows) = (\<lambda>r. if key r = k then f r else r) ` set rows"
  by (simp add: update_row_def)

lemma update_row_absent: "k \<notin> key ` set rows \<Longrightarrow> update_row key k f rows = rows"
  by (induction rows) auto

section \<open>The repository interface\<close>

text \<open>
  What the services rely on from a repository: a saved row is read back under its key, no other
  row is affected, and primary keys stay unique.  The client lemmas below hold for every table.
\<close>

locale repository =
  fixes key :: "'r \<Rightarrow> 'k"
    and lookup :: "'k \<Rightarrow> 'r list \<Rightarrow> 'r option"
    and save :: "'r \<Rightarrow> 'r list \<Rightarrow> 'r list"
    and valid :: "'r list \<Rightarrow> bool"
  assumes lookup_save_same: "lookup (key r) (save r rows) = Some r"
    and lookup_save_other: "k \<noteq> key r \<Longrightarrow> lookup k (save r rows) = lookup k rows"
    and valid_save: "valid rows \<Longrightarrow> valid (save r rows)"
    and lookup_key: "lookup k rows = Some r \<Longrightarrow> key r = k"
begin

lemma lookup_save: "lookup k (save r rows) = (if k = key r then Some r else lookup k rows)"
  by (simp add: lookup_save_same lookup_save_other)

text \<open>A read-modify-write cycle, the shape of nearly every handler of the backend.\<close>

lemma read_modify_write:
  assumes "lookup k rows = Some r" and "key (f r) = key r"
  shows "lookup k (save (f r) rows) = Some (f r)"
    and "k' \<noteq> k \<Longrightarrow> lookup k' (save (f r) rows) = lookup k' rows"
  using lookup_key [OF assms(1)] assms(2) by (auto simp: lookup_save)

text \<open>Saving a sequence of rows reads back, under each key, the last row written for it.\<close>

lemma lookup_fold_save_other:
  "k \<notin> key ` set rs \<Longrightarrow> lookup k (fold save rs rows) = lookup k rows"
  by (induction rs arbitrary: rows) (auto simp: lookup_save_other)

lemma lookup_fold_save_in:
  "distinct (map key rs) \<Longrightarrow> r \<in> set rs \<Longrightarrow> lookup (key r) (fold save rs rows) = Some r"
proof (induction rs arbitrary: rows)
  case Nil
  then show ?case by simp
next
  case (Cons s rs)
  show ?case
  proof (cases "r = s")
    case True
    with Cons.prems have "key r \<notin> key ` set rs" by auto
    then show ?thesis by (simp add: True lookup_fold_save_other lookup_save_same)
  next
    case False
    with Cons show ?thesis by simp
  qed
qed

lemma valid_fold_save: "valid rows \<Longrightarrow> valid (fold save rs rows)"
  by (induction rs arbitrary: rows) (auto simp: valid_save)

end

abbreviation unique_keys :: "('r \<Rightarrow> 'k) \<Rightarrow> 'r list \<Rightarrow> bool" where
  "unique_keys key rows \<equiv> distinct (map key rows)"

lemma find_row_save_same: "find_row key (key r) (save_row key r rows) = Some r"
proof (cases "key r \<in> key ` set rows")
  case True
  then obtain s where "find_row key (key r) rows = Some s"
    by (metis find_row_None_iff not_Some_eq)
  with True show ?thesis
    by (simp add: save_row_def find_row_update_same)
next
  case False
  then show ?thesis
    by (simp add: save_row_def find_row_append find_row_None_iff [THEN iffD2])
qed

lemma find_row_save_other:
  "k \<noteq> key r \<Longrightarrow> find_row key k (save_row key r rows) = find_row key k rows"
  by (auto simp: save_row_def find_row_update_other find_row_append split: option.splits)

lemma unique_keys_save: "unique_keys key rows \<Longrightarrow> unique_keys key (save_row key r rows)"
  by (simp add: save_row_def map_key_update_row)

text \<open>The list-backed tables implement the interface, whatever the entity's key.\<close>

lemma table_repository:
  "repository key (find_row key) (save_row key) (unique_keys key)"
  by unfold_locales
     (auto simp: find_row_save_same find_row_save_other unique_keys_save dest: find_row_SomeD)

lemma save_row_fresh: "find_row key (key r) rows = None \<Longrightarrow> save_row key r rows = rows @ [r]"
  by (simp add: save_row_def find_row_None_iff)

lemma set_save_row_subset: "set (save_row key r rows) \<subseteq> insert r (set rows)"
  by (auto simp: save_row_def set_update_row)

text \<open>With unique keys, saving over a stored row replaces exactly that row.\<close>

lemma save_row_replaces:
  assumes "r \<in> set rows" "unique_keys key rows" "key r' = key r"
  shows "save_row key r' rows = map (\<lambda>s. if s = r then r' else s) rows"
proof -
  have "key s = key r \<longleftrightarrow> s = r" if "s \<in> set rows" for s
    using that assms(1,2) by (auto simp: distinct_map inj_on_def)
  then show ?thesis using assms(1,3) by (auto simp: save_row_def update_row_def)
qed

lemma update_row_as_save:
  "find_row key k rows = Some r \<Longrightarrow> unique_keys key rows \<Longrightarrow> key (f r) = k \<Longrightarrow>
   update_row key k f rows = save_row key (f r) rows"
  by (auto dest!: find_row_SomeD simp: save_row_def update_row_def distinct_map inj_on_def)
     (metis imageI)

lemma set_save_row_unique:
  "unique_keys key rows \<Longrightarrow>
   set (save_row key r rows) = insert r {s \<in> set rows. key s \<noteq> key r}"
  by (auto simp: save_row_def set_update_row image_iff)

lemma update_row_split:
  assumes "unique_keys key rows" "e \<in> set rows"
  shows "\<exists>xs ys. rows = xs @ e # ys \<and> (\<forall>f. update_row key (key e) f rows = xs @ f e # ys)"
proof -
  from assms(2) obtain xs ys where split: "rows = xs @ e # ys" by (meson split_list)
  with assms(1) have "key e \<notin> key ` set xs" "key e \<notin> key ` set ys" by auto
  then have "update_row key (key e) f xs = xs" "update_row key (key e) f ys = ys" for f
    by (simp_all add: update_row_absent)
  then show ?thesis using split by (auto simp: update_row_def)
qed

lemma filter_absent: "k \<notin> key ` set rows \<Longrightarrow> filter (\<lambda>r. key r = k) rows = []"
  by (induction rows) auto

lemma unique_filter:
  assumes "unique_keys key rows"
  shows "filter (\<lambda>r. key r = k) rows = [] \<or> (\<exists>r. r \<in> set rows \<and> key r = k \<and> filter (\<lambda>r. key r = k) rows = [r])"
  using assms
proof (induction rows)
  case (Cons r rows)
  show ?case
  proof (cases "key r = k")
    case True
    with Cons.prems have "k \<notin> key ` set rows" by simp
    from filter_absent [OF this] have "filter (\<lambda>r. key r = k) rows = []" .
    with True show ?thesis by simp
  next
    case False
    with Cons show ?thesis by auto
  qed
qed simp

lemma keys_save_row: "key ` set (save_row key r rows) = insert (key r) (key ` set rows)"
  by (auto simp: save_row_def keys_update_row)

section \<open>The service interface\<close>

text \<open>
  A service that answers every request: an invariant each request keeps, and a relation between
  the state before and after it, carry over to sessions.
\<close>

locale service =
  fixes handle :: "'r \<Rightarrow> 's \<Rightarrow> 's" and inv :: "'s \<Rightarrow> bool" and rel :: "'s \<Rightarrow> 's \<Rightarrow> bool"
  assumes handle_ok: "inv s \<Longrightarrow> inv (handle r s) \<and> rel s (handle r s)"
    and rel_refl: "rel s s"
    and rel_trans: "rel s t \<Longrightarrow> rel t u \<Longrightarrow> rel s u"
begin

lemma session: "inv s \<Longrightarrow> inv (fold handle rs s) \<and> rel s (fold handle rs s)"
proof (induction rs arbitrary: s)
  case (Cons r rs)
  from handle_ok [OF Cons.prems, of r] Cons.IH [of "handle r s"] rel_trans show ?case by fastforce
qed (simp add: rel_refl)

text \<open>A quantity each request lowers until it is idle, and that idle requests leave alone, reaches its bottom.\<close>

lemma settles:
  assumes down: "\<And>s r. inv s \<Longrightarrow> r \<in> set rs \<Longrightarrow> \<not> idle s \<Longrightarrow> (m (handle r s) :: nat) < m s"
    and stay: "\<And>s r. inv s \<Longrightarrow> r \<in> set rs \<Longrightarrow> idle s \<Longrightarrow> idle (handle r s)"
  shows "inv s \<Longrightarrow> m s \<le> length rs \<Longrightarrow> (\<And>s. inv s \<Longrightarrow> m s = 0 \<Longrightarrow> idle s) \<Longrightarrow> idle (fold handle rs s)"
  using assms
proof (induction rs arbitrary: s)
  case (Cons r rs)
  have inv: "inv (handle r s)" using handle_ok Cons.prems(1) by blast
  have stays: "idle t \<Longrightarrow> inv t \<Longrightarrow> idle (fold handle qs t)" if "set qs \<subseteq> set (r # rs)" for qs t
    using that Cons.prems(5) handle_ok by (induction qs arbitrary: t) auto
  show ?case
  proof (cases "idle s")
    case True
    with stays [of "r # rs"] Cons.prems(1) show ?thesis by simp
  next
    case False
    with Cons.prems(4) [OF Cons.prems(1), of r] Cons.prems(2) have "m (handle r s) \<le> length rs" by simp
    with Cons.IH [OF inv] Cons.prems(3,4,5) show ?thesis by simp
  qed
qed simp

end

section \<open>Generic list facts\<close>

lemma sum_list_map_add:
  "sum_list (map (\<lambda>x. f x + g x) xs) = sum_list (map f xs) + (sum_list (map g xs) :: int)"
  by (induction xs) auto

lemma sum_list_filter_split:
  "sum_list (map f xs) =
   sum_list (map f (filter P xs)) + (sum_list (map f (filter (\<lambda>x. \<not> P x) xs)) :: int)"
  by (induction xs) auto

lemma sum_list_nonneg_int:
  "(\<And>x. x \<in> set xs \<Longrightarrow> 0 \<le> f x) \<Longrightarrow> 0 \<le> (sum_list (map f xs) :: int)"
  by (induction xs) (auto intro: add_nonneg_nonneg)

text \<open>Adding an amount to one row of a table adds it to the total.\<close>

lemma sum_update_row:
  assumes "unique_keys key rows" "k \<in> key ` set rows" "\<And>r. f (g r) = f r + (d :: int)"
  shows "sum_list (map f (update_row key k g rows)) = sum_list (map f rows) + d"
  using assms(1,2)
proof (induction rows)
  case (Cons r rows)
  show ?case
  proof (cases "key r = k")
    case True
    with Cons.prems(1) have "k \<notin> key ` set rows" by auto
    then have "update_row key k g rows = rows" by (rule update_row_absent)
    with True show ?thesis by (simp add: assms(3))
  next
    case False
    with Cons show ?thesis by simp
  qed
qed simp

end
