(* ===== verification/Entities.thy ===== *)
theory Entities
  imports Prelude
begin

text \<open>
  The rows of the database the modelled services work on, one record per TypeORM entity, with
  the columns those services read or write, and the world they act in: the tables, the
  in-memory caches, the outgoing webhook events, and the log of the calls made on the Soroban
  contract (an observable effect no database transaction can undo).

  A \<open>ManyToOne\<close> relation is kept as the foreign key of its row.  Whether a query loads the
  related object is explicit where it matters.  A \<open>bigint\<close> column holds an integer; it crosses
  the API as a decimal string.
\<close>

section \<open>Exceptions\<close>

text \<open>
  The exception classes the services throw, with the fixed part of their message, and the
  errors the runtime raises: reading a property of \<open>undefined\<close>, \<open>BigInt\<close> of a string that is
  no integer, and a query the database refuses.
\<close>

datatype exn =
    NotFound string
  | BadRequest string
  | Forbidden string
  | Conflict string
  | BadGateway string
  | TooManyRequests string
  | UnprocessableEntity string
  | Unauthorized string
  | MarketNotFoundException id
  | MarketClosedException string
  | InvalidOutcomeException string "string list"
  | DuplicatePredictionException id
  | PredictionNotFoundException id
  | UnauthorizedPredictionAccessException id
  | PayoutAlreadyClaimedException id
  | MarketNotResolvedException id
  | PredictionNotWonException id
  | NoClaimableRewardsException id
  | BatchSizeExceededException nat nat
  | NoteTooLongException nat nat
  | InsufficientLiquidityException string string
  | SlippageExceededException string string string string
  | InvalidKeypair string
  | SyntaxError string
  | TypeError
  | QueryFailed
  | PlainError string

section \<open>Users\<close>

record user =
  user_id :: id
  stellar_address :: string
  username :: "string option"
  total_predictions :: int
  total_staked_stroops :: stroops
  reputation_score :: int
  season_points :: int
  role :: string

section \<open>Markets\<close>

datatype market_settlement_state = PENDING | PROPOSED | SETTLING | CHALLENGED | SETTLED

record market =
  mkt_id :: id
  on_chain_market_id :: string
  creator :: "id option"
  title :: string
  description :: string
  category :: string
  outcome_options :: "string list"
  end_time :: instant
  resolution_time :: instant
  is_resolved :: bool
  resolved_outcome :: "string option"
  resolved_at :: "instant option"
  settlement_state :: market_settlement_state
  proposed_outcome :: "string option"
  resolution_proposed_at :: "instant option"
  grace_period_seconds :: int
  settlement_attempt_count :: int
  is_public :: bool
  is_cancelled :: bool
  is_featured :: bool
  is_paused :: bool
  total_pool_stroops :: stroops
  participant_count :: int

datatype settlement_attempt_status = RESOLVING | RESOLVED | FAILED

record settlement_attempt =
  attempt_id :: id
  attempt_market_id :: id
  attempt_status :: settlement_attempt_status
  attempt_proposed_outcome :: "string option"
  error_message :: "string option"
  attempt_created_at :: instant
  completed_at :: "instant option"

section \<open>Predictions\<close>

text \<open>A note is a sequence of UTF-16 code units; the other strings are only compared.\<close>

type_synonym js_text = "nat list"

record prediction =
  pred_id :: id
  pred_user :: id
  pred_market :: id
  chosen_outcome :: string
  stake_amount_stroops :: stroops
  payout_claimed :: bool
  payout_amount_stroops :: stroops
  tx_hash :: "string option"
  pred_note :: "js_text option"
  clientIdempotencyKey :: string
  device_fingerprint :: "string option"
  submitted_at :: instant

section \<open>Disputes\<close>

datatype dispute_status = OPEN | REVIEW | ESCALATED | DISPUTE_RESOLVED | DISPUTE_PENDING

datatype dispute_resolution = UPHELD | OVERTURNED

datatype dispute_sla_stage = INITIAL_REVIEW | SLA_ESCALATED

record dispute =
  dispute_id :: id
  dispute_market :: id
  disputantId :: id
  reason :: string
  dispute_status :: dispute_status
  resolution :: "dispute_resolution option"
  adminNotes :: "string option"
  resolvedById :: "id option"
  resolvedAt :: "instant option"
  onChainDisputeId :: "string option"
  onChainResolutionTx :: "string option"
  slaStage :: dispute_sla_stage
  slaDeadline :: instant
  slaBreachedAt :: "instant option"
  slaApproachingNotifiedAt :: "instant option"
  slaBreachedNotifiedAt :: "instant option"
  assignedArbiterId :: "id option"
  tier :: int
  quorumThreshold :: int
  escalatedFromId :: "id option"
  escalatedById :: "id option"
  escalatedAt :: "instant option"

record dispute_vote =
  vote_id :: id
  vote_dispute :: id
  voterId :: id
  voterAddress :: string
  vote_outcome :: dispute_resolution
  weight :: int
  vote_tier :: int

record dispute_evidence =
  evidence_id :: id
  evidence_dispute :: id
  uploadedById :: id
  fileUrl :: string
  fileName :: string
  mimeType :: string
  sizeBytes :: int
  evidence_description :: "string option"

section \<open>The world\<close>

datatype chain_call =
    SubmitPrediction string string string string
  | ClaimPayout string string
  | CreateMarket string
  | ResolveMarket string string
  | CancelMarket string
  | PauseMarket string
  | ResumeMarket string
  | RaiseDispute string string
  | ResolveDispute string string dispute_resolution

record world =
  users :: "user list"
  markets :: "market list"
  settlement_attempts :: "settlement_attempt list"
  predictions :: "prediction list"
  disputes :: "dispute list"
  votes :: "dispute_vote list"
  evidence :: "dispute_evidence list"
  trendingCache :: "(id list \<times> instant) option"
  cache_keys :: "string list"
  webhook_events :: "(string \<times> id) list"
  chain_log :: "chain_call list"

abbreviation find_market :: "id \<Rightarrow> world \<Rightarrow> market option" where
  "find_market k w \<equiv> find_row mkt_id k (markets w)"

abbreviation find_user :: "id \<Rightarrow> world \<Rightarrow> user option" where
  "find_user k w \<equiv> find_row user_id k (users w)"

abbreviation find_prediction :: "id \<Rightarrow> world \<Rightarrow> prediction option" where
  "find_prediction k w \<equiv> find_row pred_id k (predictions w)"

abbreviation find_dispute :: "id \<Rightarrow> world \<Rightarrow> dispute option" where
  "find_dispute k w \<equiv> find_row dispute_id k (disputes w)"

definition save_market :: "market \<Rightarrow> world \<Rightarrow> world" where
  "save_market m w = w\<lparr>markets := save_row mkt_id m (markets w)\<rparr>"

definition save_dispute :: "dispute \<Rightarrow> world \<Rightarrow> world" where
  "save_dispute d w = w\<lparr>disputes := save_row dispute_id d (disputes w)\<rparr>"

definition save_prediction :: "prediction \<Rightarrow> world \<Rightarrow> world" where
  "save_prediction p w = w\<lparr>predictions := save_row pred_id p (predictions w)\<rparr>"

definition call_chain :: "chain_call \<Rightarrow> world \<Rightarrow> world" where
  "call_chain c w = w\<lparr>chain_log := chain_log w @ [c]\<rparr>"

definition emit :: "string \<Rightarrow> id \<Rightarrow> world \<Rightarrow> world" where
  "emit event k w = w\<lparr>webhook_events := webhook_events w @ [(event, k)]\<rparr>"

text \<open>Each table of the world is a repository in the sense of the interface.\<close>

interpretation market_table: repository mkt_id "find_row mkt_id" "save_row mkt_id" "unique_keys mkt_id"
  by (rule table_repository)

interpretation dispute_table: repository dispute_id "find_row dispute_id" "save_row dispute_id"
    "unique_keys dispute_id"
  by (rule table_repository)

interpretation prediction_table: repository pred_id "find_row pred_id" "save_row pred_id"
    "unique_keys pred_id"
  by (rule table_repository)

lemma find_market_save [table_simps]:
  "find_market k (save_market m w) = (if k = mkt_id m then Some m else find_market k w)"
  by (simp add: save_market_def market_table.lookup_save)

lemma find_dispute_save [table_simps]:
  "find_dispute k (save_dispute d w) = (if k = dispute_id d then Some d else find_dispute k w)"
  by (simp add: save_dispute_def dispute_table.lookup_save)

lemma find_prediction_save [table_simps]:
  "find_prediction k (save_prediction p w) = (if k = pred_id p then Some p else find_prediction k w)"
  by (simp add: save_prediction_def prediction_table.lookup_save)

lemma world_frames [table_simps]:
  "markets (emit e k w) = markets w" "markets (call_chain c w) = markets w"
  "predictions (emit e k w) = predictions w" "predictions (call_chain c w) = predictions w"
  "disputes (emit e k w) = disputes w" "disputes (call_chain c w) = disputes w"
  "predictions (save_market m w) = predictions w" "disputes (save_market m w) = disputes w"
  "chain_log (emit e k w) = chain_log w" "chain_log (save_market m w) = chain_log w"
  "chain_log (call_chain c w) = chain_log w @ [c]"
  "markets (save_dispute d w) = markets w" "markets (save_prediction p w) = markets w"
  "votes (save_dispute d w) = votes w" "users (save_dispute d w) = users w"
  "users (save_market m w) = users w" "users (emit e k w) = users w"
  "users (call_chain c w) = users w" "users (save_prediction p w) = users w"
  "settlement_attempts (emit e k w) = settlement_attempts w"
  "settlement_attempts (call_chain c w) = settlement_attempts w"
  "settlement_attempts (save_market m w) = settlement_attempts w"
  "cache_keys (emit e k w) = cache_keys w" "trendingCache (emit e k w) = trendingCache w"
  by (simp_all add: emit_def call_chain_def save_market_def save_dispute_def save_prediction_def)

end
