(* ===== verification/Settlement_State.thy ===== *)
theory Settlement_State
  imports Entities
begin

text \<open>
  \<open>markets/market-settlement-state.util.ts\<close>: the transition table of the grace-period settlement
  machine, and the generic interface of a guarded status machine, which the settlement states
  and the dispute tiers both implement.
\<close>

primrec ALLOWED_SETTLEMENT_TRANSITIONS :: "market_settlement_state \<Rightarrow> market_settlement_state list" where
  "ALLOWED_SETTLEMENT_TRANSITIONS PENDING = [PROPOSED]"
| "ALLOWED_SETTLEMENT_TRANSITIONS PROPOSED = [SETTLING, CHALLENGED]"
| "ALLOWED_SETTLEMENT_TRANSITIONS SETTLING = [SETTLING, SETTLED]"
| "ALLOWED_SETTLEMENT_TRANSITIONS CHALLENGED = [SETTLED]"
| "ALLOWED_SETTLEMENT_TRANSITIONS SETTLED = []"

definition canTransition :: "market_settlement_state \<Rightarrow> market_settlement_state \<Rightarrow> bool" where
  "canTransition from to \<longleftrightarrow> to \<in> set (ALLOWED_SETTLEMENT_TRANSITIONS from)"

primrec show_settlement_state :: "market_settlement_state \<Rightarrow> string" where
  "show_settlement_state PENDING = ''pending''"
| "show_settlement_state PROPOSED = ''proposed''"
| "show_settlement_state SETTLING = ''settling''"
| "show_settlement_state CHALLENGED = ''challenged''"
| "show_settlement_state SETTLED = ''settled''"

fun js_join :: "string \<Rightarrow> string list \<Rightarrow> string" where
  "js_join sep [] = []"
| "js_join sep [x] = x"
| "js_join sep (x # y # xs) = x @ sep @ js_join sep (y # xs)"

definition quoted :: "string \<Rightarrow> string" where
  "quoted s = CHR 0x22 # s @ [CHR 0x22]"

definition describeIllegalTransition :: "market_settlement_state \<Rightarrow> market_settlement_state \<Rightarrow> string" where
  "describeIllegalTransition from to =
     (let allowed = ALLOWED_SETTLEMENT_TRANSITIONS from;
          prefix = ''Cannot move market settlement from '' @ quoted (show_settlement_state from) @
            '' to '' @ quoted (show_settlement_state to)
      in if length allowed = 0
         then prefix @ '' ('' @ quoted (show_settlement_state from) @ '' is a terminal state)''
         else prefix @ '' (allowed from '' @ quoted (show_settlement_state from) @ '': '' @
           js_join '', '' (map show_settlement_state allowed) @ '')'')"

section \<open>The interface of a ranked status machine\<close>




lemma canTransition_simps [simp]:
  "canTransition PENDING s \<longleftrightarrow> s = PROPOSED"
  "canTransition PROPOSED s \<longleftrightarrow> s = SETTLING \<or> s = CHALLENGED"
  "canTransition SETTLING s \<longleftrightarrow> s = SETTLING \<or> s = SETTLED"
  "canTransition CHALLENGED s \<longleftrightarrow> s = SETTLED"
  "\<not> canTransition SETTLED s"
  by (auto simp: canTransition_def)

lemma canTransition_to [simp]:
  "canTransition s PROPOSED \<longleftrightarrow> s = PENDING"
  "canTransition s CHALLENGED \<longleftrightarrow> s = PROPOSED"
  "canTransition s SETTLING \<longleftrightarrow> s = PROPOSED \<or> s = SETTLING"
  "canTransition s SETTLED \<longleftrightarrow> s = SETTLING \<or> s = CHALLENGED"
  "\<not> canTransition s PENDING"
  by (cases s; simp)+




end
