(* ===== verification/Js_Strings.thy ===== *)
theory Js_Strings
  imports Prelude
begin

text \<open>
  The part of the JavaScript standard library the services compute with: \<open>BigInt(string)\<close>
  (ECMA-262 StringToBigInt), \<open>BigInt.prototype.toString\<close>, \<open>String.prototype.trim\<close>,
  \<open>padStart\<close>, \<open>padEnd\<close>, and integer division on \<open>bigint\<close>, which truncates toward zero.
  A string is a list of characters with code units below 256.
\<close>

section \<open>Characters\<close>

definition code :: "char \<Rightarrow> nat" where
  "code c = of_char c"

definition digit_char :: "nat \<Rightarrow> char" where
  "digit_char d = char_of (48 + d)"

definition is_js_space :: "char \<Rightarrow> bool" where
  "is_js_space c \<longleftrightarrow> code c \<in> {9, 10, 11, 12, 13, 32, 160}"

text \<open>The value of a character as a digit of radix at most 16.\<close>

definition digit_val :: "char \<Rightarrow> nat option" where
  "digit_val c =
     (let n = code c in
      if 48 \<le> n \<and> n \<le> 57 then Some (n - 48)
      else if 97 \<le> n \<and> n \<le> 102 then Some (n - 87)
      else if 65 \<le> n \<and> n \<le> 70 then Some (n - 55)
      else None)"

lemma code_digit_char: "d < 10 \<Longrightarrow> code (digit_char d) = 48 + d"
  by (simp add: code_def digit_char_def)

lemma digit_val_digit_char [simp]: "d < 10 \<Longrightarrow> digit_val (digit_char d) = Some d"
  by (simp add: digit_val_def code_digit_char)

lemma digit_char_neq:
  assumes "d < 10"
  shows "digit_char d \<noteq> CHR ''-''" "digit_char d \<noteq> CHR ''+''" "digit_char d \<noteq> CHR ''.''"
    "\<not> is_js_space (digit_char d)" "digit_char d \<noteq> CHR ''x''" "digit_char d \<noteq> CHR ''X''"
    "digit_char d \<noteq> CHR ''o''" "digit_char d \<noteq> CHR ''O''" "digit_char d \<noteq> CHR ''b''"
    "digit_char d \<noteq> CHR ''B''"
proof -
  have "code (digit_char d) \<in> {48..57}" using assms by (simp add: code_digit_char)
  moreover have "code CHR ''-'' = 45" "code CHR ''+'' = 43" "code CHR ''.'' = 46"
    "code CHR ''x'' = 120" "code CHR ''X'' = 88" "code CHR ''o'' = 111" "code CHR ''O'' = 79"
    "code CHR ''b'' = 98" "code CHR ''B'' = 66"
    by (simp_all add: code_def)
  ultimately show "digit_char d \<noteq> CHR ''-''" "digit_char d \<noteq> CHR ''+''"
    "digit_char d \<noteq> CHR ''.''" "\<not> is_js_space (digit_char d)" "digit_char d \<noteq> CHR ''x''"
    "digit_char d \<noteq> CHR ''X''" "digit_char d \<noteq> CHR ''o''" "digit_char d \<noteq> CHR ''O''"
    "digit_char d \<noteq> CHR ''b''" "digit_char d \<noteq> CHR ''B''"
    by (auto simp: is_js_space_def)
qed

section \<open>Trimming and padding\<close>

definition js_trim :: "string \<Rightarrow> string" where
  "js_trim s = rev (dropWhile is_js_space (rev (dropWhile is_js_space s)))"

definition padStart :: "nat \<Rightarrow> char \<Rightarrow> string \<Rightarrow> string" where
  "padStart n c s = replicate (n - length s) c @ s"

definition padEnd :: "nat \<Rightarrow> char \<Rightarrow> string \<Rightarrow> string" where
  "padEnd n c s = s @ replicate (n - length s) c"

lemma js_trim_no_space:
  assumes "s = [] \<or> (\<not> is_js_space (hd s) \<and> \<not> is_js_space (last s))"
  shows "js_trim s = s"
proof (cases s)
  case Nil
  then show ?thesis by (simp add: js_trim_def)
next
  case (Cons c cs)
  with assms have "dropWhile is_js_space s = s" by simp
  moreover have "dropWhile is_js_space (rev s) = rev s"
    using assms Cons by (cases "rev s") (auto simp: last_rev hd_rev [symmetric])
  ultimately show ?thesis by (simp add: js_trim_def)
qed

section \<open>Decimal printing\<close>

fun show_nat :: "nat \<Rightarrow> string" where
  "show_nat n =
     (if n < 10 then [digit_char n] else show_nat (n div 10) @ [digit_char (n mod 10)])"

declare show_nat.simps [simp del]

text \<open>\<open>BigInt.prototype.toString()\<close>.\<close>

definition bigint_to_string :: "int \<Rightarrow> string" where
  "bigint_to_string n =
     (if n < 0 then CHR ''-'' # show_nat (nat (- n)) else show_nat (nat n))"

lemma bigint_to_string_0: "bigint_to_string 0 = ''0''"
  by (simp add: bigint_to_string_def show_nat.simps digit_char_def char_of_def bit_0)

lemma show_nat_digits: "\<forall>c \<in> set (show_nat n). \<exists>d < 10. c = digit_char d"
proof (induction n rule: show_nat.induct)
  case (1 n)
  show ?case
  proof (cases "n < 10")
    case True
    then show ?thesis by (subst show_nat.simps) auto
  next
    case False
    have "n mod 10 < 10" by simp
    with 1 [OF False] False show ?thesis
      by (subst show_nat.simps) (auto intro: exI [of _ "n mod 10"])
  qed
qed

lemma show_nat_nonempty [simp]: "show_nat n \<noteq> []"
  by (subst show_nat.simps) simp

lemma length_show_nat: "n < 10 ^ k \<Longrightarrow> 0 < k \<Longrightarrow> length (show_nat n) \<le> k"
proof (induction n arbitrary: k rule: show_nat.induct)
  case (1 n)
  show ?case
  proof (cases "n < 10")
    case True
    with "1.prems" show ?thesis by (subst show_nat.simps) simp
  next
    case False
    with "1.prems" obtain j where k: "k = Suc j" and j: "0 < j"
      by (cases k; cases "k - 1") auto
    from "1.prems"(1) have "n div 10 < 10 ^ j"
      by (simp add: k less_mult_imp_div_less mult.commute)
    from "1.IH" [OF False this j] False show ?thesis
      by (subst show_nat.simps) (simp add: k)
  qed
qed

section \<open>Parsing integers\<close>

fun parse_radix :: "nat \<Rightarrow> nat \<Rightarrow> string \<Rightarrow> nat option" where
  "parse_radix b acc [] = Some acc"
| "parse_radix b acc (c # cs) =
     (case digit_val c of
        None \<Rightarrow> None
      | Some d \<Rightarrow> if d < b then parse_radix b (acc * b + d) cs else None)"

definition parse_digits :: "nat \<Rightarrow> string \<Rightarrow> nat option" where
  "parse_digits b s = (if s = [] then None else parse_radix b 0 s)"

text \<open>\<open>parseInt(s, 10)\<close>: leading blanks, a sign, and the digits that follow; \<open>None\<close> is \<open>NaN\<close>.\<close>

definition is_digit :: "char \<Rightarrow> bool" where
  "is_digit c \<longleftrightarrow> 48 \<le> code c \<and> code c \<le> 57"

definition parse_digit_prefix :: "string \<Rightarrow> nat option" where
  "parse_digit_prefix s = parse_digits 10 (takeWhile is_digit s)"

definition parseInt :: "string \<Rightarrow> int option" where
  "parseInt s =
     (case dropWhile is_js_space s of
        [] \<Rightarrow> None
      | c # cs \<Rightarrow>
          if c = CHR ''-'' then map_option (\<lambda>n. - int n) (parse_digit_prefix cs)
          else if c = CHR ''+'' then map_option int (parse_digit_prefix cs)
          else map_option int (parse_digit_prefix (c # cs)))"

text \<open>
  \<open>BigInt(s)\<close>: surrounding white space is ignored, the empty string is \<open>0n\<close>, a decimal literal
  may carry a sign, a hexadecimal, octal or binary one may not; anything else throws a
  \<open>SyntaxError\<close>, here \<open>None\<close>.
\<close>

fun parse_bigint_literal :: "string \<Rightarrow> int option" where
  "parse_bigint_literal [] = Some 0"
| "parse_bigint_literal (c # cs) =
     (if c = CHR ''-'' then map_option (\<lambda>n. - int n) (parse_digits 10 cs)
      else if c = CHR ''+'' then map_option int (parse_digits 10 cs)
      else if c = CHR ''0'' \<and> cs \<noteq> [] \<and> hd cs \<in> {CHR ''x'', CHR ''X''}
        then map_option int (parse_digits 16 (tl cs))
      else if c = CHR ''0'' \<and> cs \<noteq> [] \<and> hd cs \<in> {CHR ''o'', CHR ''O''}
        then map_option int (parse_digits 8 (tl cs))
      else if c = CHR ''0'' \<and> cs \<noteq> [] \<and> hd cs \<in> {CHR ''b'', CHR ''B''}
        then map_option int (parse_digits 2 (tl cs))
      else map_option int (parse_digits 10 (c # cs)))"

definition bigint :: "string \<Rightarrow> int option" where
  "bigint s = parse_bigint_literal (js_trim s)"

lemma parse_radix_append:
  "parse_radix b acc (xs @ ys) =
     (case parse_radix b acc xs of None \<Rightarrow> None | Some a \<Rightarrow> parse_radix b a ys)"
  by (induction xs arbitrary: acc) (auto split: option.splits)

lemma parse_radix_show_nat:
  "parse_radix 10 acc (show_nat n) = Some (acc * 10 ^ length (show_nat n) + n)"
proof (induction n arbitrary: acc rule: show_nat.induct)
  case (1 n)
  show ?case
  proof (cases "n < 10")
    case True
    then show ?thesis by (subst (1 2) show_nat.simps) simp
  next
    case False
    let ?k = "length (show_nat (n div 10))"
    have "parse_radix 10 acc (show_nat n) = Some ((acc * 10 ^ ?k + n div 10) * 10 + n mod 10)"
      using False by (subst show_nat.simps) (simp add: parse_radix_append "1.IH" [OF False])
    moreover have "length (show_nat n) = Suc ?k"
      using False by (subst show_nat.simps) simp
    ultimately show ?thesis by (simp add: algebra_simps)
  qed
qed

lemma parse_radix_zeros: "parse_radix 10 0 (replicate k CHR ''0'' @ s) = parse_radix 10 0 s"
  by (induction k) (simp_all add: digit_val_def code_def)

lemma parse_radix_trailing_zeros:
  "parse_radix 10 acc (replicate k CHR ''0'') = Some (acc * 10 ^ k)"
  by (induction k arbitrary: acc) (simp_all add: digit_val_def code_def algebra_simps)

lemma show_nat_hd_last:
  "\<exists>d < 10. hd (show_nat n) = digit_char d" "\<exists>d < 10. last (show_nat n) = digit_char d"
  using show_nat_digits [of n] by auto

lemma show_nat_no_space:
  "\<not> is_js_space (hd (show_nat n))" "\<not> is_js_space (last (show_nat n))"
  using show_nat_hd_last digit_char_neq(4) by metis+

lemma minus_no_space: "\<not> is_js_space CHR ''-''"
  by (simp add: is_js_space_def code_def)

lemma parse_show_nat: "parse_digits 10 (show_nat n) = Some n"
  by (simp add: parse_digits_def parse_radix_show_nat)

lemma show_nat_no_dot: "c \<in> set (show_nat n) \<Longrightarrow> c \<noteq> CHR ''.''"
  using show_nat_digits [of n] digit_char_neq(3) by metis

lemma show_nat_no_minus: "c \<in> set (show_nat n) \<Longrightarrow> c \<noteq> CHR ''-''"
  using show_nat_digits [of n] digit_char_neq(1) by metis

lemma parse_bigint_literal_show_nat:
  "parse_bigint_literal (show_nat n) = Some (int n)"
proof -
  obtain c cs where s: "show_nat n = c # cs" by (cases "show_nat n") auto
  from show_nat_digits [of n] obtain d where d: "d < 10" "c = digit_char d" by (auto simp: s)
  have hd: "cs \<noteq> [] \<Longrightarrow>
      hd cs \<notin> {CHR ''x'', CHR ''X'', CHR ''o'', CHR ''O'', CHR ''b'', CHR ''B''}"
  proof -
    assume "cs \<noteq> []"
    then have "hd cs \<in> set (show_nat n)" by (simp add: s)
    then obtain e where e: "e < 10" "hd cs = digit_char e"
      using show_nat_digits [of n] by blast
    show ?thesis unfolding e(2) using digit_char_neq(5-10) [OF e(1)] by simp
  qed
  have "parse_bigint_literal (c # cs) = map_option int (parse_digits 10 (c # cs))"
    using digit_char_neq(1,2) [OF d(1)] hd by (cases "cs = []") (simp_all add: d(2))
  then show ?thesis using parse_show_nat [of n] by (simp add: s)
qed

text \<open>Printing a \<open>bigint\<close> and reading it back is the identity.\<close>

lemma bigint_to_string_inverse [simp]: "bigint (bigint_to_string n) = Some n"
proof -
  have trim: "js_trim (bigint_to_string n) = bigint_to_string n"
    by (intro js_trim_no_space)
       (simp add: bigint_to_string_def show_nat_no_space minus_no_space)
  show ?thesis
  proof (cases "n < 0")
    case True
    then show ?thesis
      using trim by (simp add: bigint_def bigint_to_string_def parse_show_nat)
  next
    case False
    then show ?thesis
      using trim by (simp add: bigint_def bigint_to_string_def parse_bigint_literal_show_nat)
  qed
qed

text \<open>The equations that evaluate \<open>bigint\<close> on a literal.\<close>

lemmas js_eval = bigint_def parse_digits_def js_trim_def is_js_space_def digit_val_def code_def

section \<open>Division of \<open>bigint\<close>\<close>

text \<open>\<open>a / b\<close> on \<open>bigint\<close> truncates toward zero; the callers guard \<open>b \<noteq> 0n\<close>.\<close>

definition bigint_div :: "int \<Rightarrow> int \<Rightarrow> int" where
  "bigint_div a b = sgn a * sgn b * (\<bar>a\<bar> div \<bar>b\<bar>)"

lemma bigint_div_nonneg: "0 \<le> a \<Longrightarrow> 0 < b \<Longrightarrow> bigint_div a b = a div b"
  by (auto simp: bigint_div_def sgn_if)

text \<open>The truth value of an optional string: absent and empty are false.\<close>

definition truthy :: "string option \<Rightarrow> bool" where
  "truthy v \<longleftrightarrow> v \<noteq> None \<and> v \<noteq> Some []"

text \<open>\<open>toUpperCase\<close> on ASCII letters.\<close>

definition to_upper :: "char \<Rightarrow> char" where
  "to_upper c = (if 97 \<le> code c \<and> code c \<le> 122 then char_of (code c - 32) else c)"

end
