(* ===== verification/Soroban.thy ===== *)
theory Soroban
  imports Entities Js_Strings Complex_Main
begin

text \<open>
  \<open>soroban/soroban.service.ts\<close>: the gateway to the contract.  The market, prediction and dispute
  calls are, in this repository, deterministic functions of their arguments, the clock and the
  validity of the configured key pair; \<open>sendTransactionWithRetry\<close> and \<open>estimateFee\<close> talk to
  the RPC node, whose answers are parameters.  Stellar's \<open>Keypair.fromSecret\<close> and
  \<open>Keypair.fromPublicKey\<close> belong to the SDK: the model takes the predicates they decide.
\<close>

section \<open>Calls on the contract\<close>

record soroban_env =
  serverSecretKey :: string
  fromSecret_ok :: "string \<Rightarrow> bool"
  fromPublicKey_ok :: "string \<Rightarrow> bool"

record soroban_prediction_result =
  res_tx_hash :: string
  res_payout_amount_stroops :: "string option"
  res_realized_price :: "string option"
  res_shares_received :: "string option"

definition utf8 :: "char \<Rightarrow> nat list" where
  "utf8 c = (if code c < 128 then [code c] else [192 + code c div 64, 128 + code c mod 64])"

definition hex_digit :: "nat \<Rightarrow> char" where
  "hex_digit n = (if n < 10 then char_of (48 + n) else char_of (87 + n))"

text \<open>\<open>Buffer.from(s).toString('hex').padEnd(64, '0').slice(0, 64)\<close>\<close>

definition stub_tx_hash :: "string \<Rightarrow> string" where
  "stub_tx_hash s =
     take 64 (padEnd 64 CHR ''0''
       (concat (map (\<lambda>b. [hex_digit (b div 16), hex_digit (b mod 16)]) (concat (map utf8 s)))))"

definition show_time :: "instant \<Rightarrow> string" where
  "show_time t = bigint_to_string t"

definition with_server_key :: "soroban_env \<Rightarrow> (exn, 'a) result \<Rightarrow> (exn, 'a) result" where
  "with_server_key env r =
     (if fromSecret_ok env (serverSecretKey env) then r
      else Inl (InvalidKeypair (serverSecretKey env)))"

definition createMarket_call :: "soroban_env \<Rightarrow> instant \<Rightarrow> string \<Rightarrow> string \<Rightarrow> (exn, string \<times> string) result" where
  "createMarket_call env now random_suffix market_description =
     (let market_id = ''market_'' @ show_time now @ ''_'' @ random_suffix
      in Inr (market_id, stub_tx_hash (market_id @ '':'' @ market_description)))"

definition cancelMarket_call :: "soroban_env \<Rightarrow> instant \<Rightarrow> string \<Rightarrow> (exn, string) result" where
  "cancelMarket_call env now marketOnChainId =
     with_server_key env
       (Inr (stub_tx_hash (''cancel:'' @ marketOnChainId @ '':'' @ show_time now)))"

definition resolveMarket_call :: "soroban_env \<Rightarrow> string \<Rightarrow> string \<Rightarrow> (exn, unit) result" where
  "resolveMarket_call env marketOnChainId outcome = with_server_key env (Inr ())"

definition pauseMarket_call :: "soroban_env \<Rightarrow> instant \<Rightarrow> string \<Rightarrow> (exn, string) result" where
  "pauseMarket_call env now marketOnChainId =
     with_server_key env (Inr (stub_tx_hash (''pause:'' @ marketOnChainId @ '':'' @ show_time now)))"

definition resumeMarket_call :: "soroban_env \<Rightarrow> instant \<Rightarrow> string \<Rightarrow> (exn, string) result" where
  "resumeMarket_call env now marketOnChainId =
     with_server_key env (Inr (stub_tx_hash (''resume:'' @ marketOnChainId @ '':'' @ show_time now)))"

definition submitPrediction_call ::
  "soroban_env \<Rightarrow> instant \<Rightarrow> string \<Rightarrow> string \<Rightarrow> string \<Rightarrow> string \<Rightarrow>
   (exn, soroban_prediction_result) result"
where
  "submitPrediction_call env now userStellarAddress marketOnChainId chosenOutcome stakeAmountStroops =
     with_server_key env
       (if \<not> fromPublicKey_ok env userStellarAddress then Inl (InvalidKeypair userStellarAddress)
        else case bigint stakeAmountStroops of
               None \<Rightarrow> Inl (SyntaxError stakeAmountStroops)
             | Some stakeAmount \<Rightarrow>
                 let sharesReceived = bigint_div (stakeAmount * 100) 50;
                     realizedPrice = (if stakeAmount > 0
                                      then bigint_div (stakeAmount * 1000000) sharesReceived else 0)
                 in Inr \<lparr>res_tx_hash =
                           stub_tx_hash (marketOnChainId @ '':'' @ userStellarAddress @ '':'' @ show_time now),
                         res_payout_amount_stroops = None,
                         res_realized_price = Some (bigint_to_string realizedPrice),
                         res_shares_received = Some (bigint_to_string sharesReceived)\<rparr>)"

definition claimPayout_call ::
  "soroban_env \<Rightarrow> instant \<Rightarrow> string \<Rightarrow> string \<Rightarrow> (exn, soroban_prediction_result) result"
where
  "claimPayout_call env now userStellarAddress marketOnChainId =
     with_server_key env
       (if \<not> fromPublicKey_ok env userStellarAddress then Inl (InvalidKeypair userStellarAddress)
        else Inr \<lparr>res_tx_hash = stub_tx_hash
                    (''claim:'' @ marketOnChainId @ '':'' @ userStellarAddress @ '':'' @ show_time now),
                  res_payout_amount_stroops = Some ''15000000'',
                  res_realized_price = None, res_shares_received = None\<rparr>)"

definition raiseDispute_call ::
  "soroban_env \<Rightarrow> instant \<Rightarrow> string \<Rightarrow> string \<Rightarrow> (exn, string \<times> string) result"
where
  "raiseDispute_call env now marketOnChainId dispute_reason =
     with_server_key env
       (let disp_id = marketOnChainId
        in Inr (disp_id, stub_tx_hash
             (''dispute:'' @ marketOnChainId @ '':'' @ disp_id @ '':'' @ show_time now)))"

fun show_resolution :: "dispute_resolution \<Rightarrow> string" where
  "show_resolution UPHELD = ''upheld''"
| "show_resolution OVERTURNED = ''overturned''"

definition resolveDispute_call ::
  "soroban_env \<Rightarrow> instant \<Rightarrow> string \<Rightarrow> string \<Rightarrow> dispute_resolution \<Rightarrow> (exn, string \<times> string) result"
where
  "resolveDispute_call env now marketOnChainId disp_id res =
     with_server_key env
       (Inr (disp_id, stub_tx_hash (''resolve_dispute:'' @ marketOnChainId @ '':'' @ disp_id @ '':''
          @ show_resolution res @ '':'' @ show_time now)))"

lemma length_stub_tx_hash: "length (stub_tx_hash s) = 64"
  by (simp add: stub_tx_hash_def padEnd_def)

text \<open>What the prediction service relies on: a stake the gateway accepts is an integer literal.\<close>

lemma submitPrediction_call_Inr:
  assumes "submitPrediction_call env now a m oc s = Inr r"
  obtains n where "bigint s = Some n" "res_shares_received r = Some (bigint_to_string (2 * n))"
    "res_realized_price r = Some (bigint_to_string (if n > 0 then 500000 else 0))"
proof -
  from assms obtain n where n: "bigint s = Some n"
    by (auto simp: submitPrediction_call_def with_server_key_def Let_def
        split: if_splits option.splits)
  have shares: "bigint_div (n * 100) 50 = 2 * n"
    by (auto simp: bigint_div_def sgn_if abs_if)
  have price: "n > 0 \<Longrightarrow> bigint_div (n * 1000000) (2 * n) = 500000"
  proof -
    assume "n > 0"
    then have "bigint_div (n * 1000000) (2 * n) = (2 * n * 500000) div (2 * n)"
      by (simp add: bigint_div_nonneg mult.commute mult.left_commute)
    also have "\<dots> = 500000" using \<open>n > 0\<close> by simp
    finally show ?thesis .
  qed
  show thesis
    using assms n shares price
    by (intro that [OF n])
       (auto simp: submitPrediction_call_def with_server_key_def Let_def split: if_splits)
qed

section \<open>Fee estimation\<close>

text \<open>
  A configuration value is missing, not a finite number, or a finite number; a finite double is
  a rational number.  \<open>readNonNegativeIntConfig\<close> rejects neither fractions nor large values.
\<close>

datatype config_value = Missing | NotFinite | Finite rat

definition readNonNegativeIntConfig :: "config_value \<Rightarrow> rat \<Rightarrow> rat" where
  "readNonNegativeIntConfig raw defaultValue =
     (case raw of Finite v \<Rightarrow> if v \<ge> 0 then v else defaultValue | _ \<Rightarrow> defaultValue)"

definition DEFAULT_SOROBAN_FALLBACK_FEE_STROOPS :: rat where
  "DEFAULT_SOROBAN_FALLBACK_FEE_STROOPS = 10000"
definition DEFAULT_SOROBAN_MAX_FEE_STROOPS :: rat where
  "DEFAULT_SOROBAN_MAX_FEE_STROOPS = 1000000"
definition MIN_BASE_FEE_STROOPS :: rat where
  "MIN_BASE_FEE_STROOPS = 100"

record fee_state =
  maxFeeStroops :: rat
  fallbackFeeStroops :: rat
  lastKnownFeeStroops :: "rat option"

text \<open>The fee part of the constructor.\<close>

definition init_fees :: "config_value \<Rightarrow> config_value \<Rightarrow> fee_state" where
  "init_fees max_raw fallback_raw =
     \<lparr>maxFeeStroops = max MIN_BASE_FEE_STROOPS
        (readNonNegativeIntConfig max_raw DEFAULT_SOROBAN_MAX_FEE_STROOPS),
      fallbackFeeStroops = max MIN_BASE_FEE_STROOPS
        (readNonNegativeIntConfig fallback_raw DEFAULT_SOROBAN_FALLBACK_FEE_STROOPS),
      lastKnownFeeStroops = None\<rparr>"

definition capFee :: "fee_state \<Rightarrow> rat \<Rightarrow> rat" where
  "capFee st fee = min fee (maxFeeStroops st)"

text \<open>
  \<open>stats\<close> is \<open>Number(sorobanInclusionFee.p90)\<close>: \<open>None\<close> when the RPC call failed or timed out.
\<close>

definition estimateFee :: "config_value option \<Rightarrow> fee_state \<Rightarrow> rat \<times> fee_state" where
  "estimateFee stats st =
     (case stats of
        Some (Finite liveFee) \<Rightarrow>
          if liveFee \<le> 0
          then (capFee st (case lastKnownFeeStroops st of Some f \<Rightarrow> f | None \<Rightarrow> fallbackFeeStroops st), st)
          else let fee = capFee st (max (of_int \<lceil>liveFee\<rceil>) MIN_BASE_FEE_STROOPS)
               in (fee, st\<lparr>lastKnownFeeStroops := Some fee\<rparr>)
      | _ \<Rightarrow> (capFee st (case lastKnownFeeStroops st of Some f \<Rightarrow> f | None \<Rightarrow> fallbackFeeStroops st), st))"

definition fee_state_ok :: "fee_state \<Rightarrow> bool" where
  "fee_state_ok st \<longleftrightarrow>
     MIN_BASE_FEE_STROOPS \<le> maxFeeStroops st \<and> MIN_BASE_FEE_STROOPS \<le> fallbackFeeStroops st \<and>
     (\<forall>f. lastKnownFeeStroops st = Some f \<longrightarrow> MIN_BASE_FEE_STROOPS \<le> f \<and> f \<le> maxFeeStroops st)"

fun estimate_run :: "config_value option list \<Rightarrow> fee_state \<Rightarrow> rat list \<times> fee_state" where
  "estimate_run [] st = ([], st)"
| "estimate_run (x # xs) st =
     (let (fee, st') = estimateFee x st; (fees, st'') = estimate_run xs st' in (fee # fees, st''))"

lemma init_fees_ok: "fee_state_ok (init_fees a b)"
  by (simp add: fee_state_ok_def init_fees_def)

lemma estimateFee_ok:
  assumes "fee_state_ok st"
  shows "fee_state_ok (snd (estimateFee x st))" "maxFeeStroops (snd (estimateFee x st)) = maxFeeStroops st"
    "MIN_BASE_FEE_STROOPS \<le> fst (estimateFee x st)" "fst (estimateFee x st) \<le> maxFeeStroops st"
  using assms
  by (auto simp: estimateFee_def fee_state_ok_def capFee_def Let_def
      split: option.splits config_value.splits)

text \<open>
  Whatever the configuration and whatever the RPC node answers or fails to answer, every fee
  the gateway estimates over its lifetime lies between the protocol minimum of 100 stroops and
  the configured cap; \<open>estimateFee\<close> never fails.
\<close>

theorem estimated_fees_bounded:
  "\<forall>fee \<in> set (fst (estimate_run answers (init_fees max_raw fallback_raw))).
     MIN_BASE_FEE_STROOPS \<le> fee \<and> fee \<le> maxFeeStroops (init_fees max_raw fallback_raw)"
proof -
  have "fee_state_ok st \<Longrightarrow>
      \<forall>fee \<in> set (fst (estimate_run answers st)). MIN_BASE_FEE_STROOPS \<le> fee \<and> fee \<le> maxFeeStroops st"
    for st
  proof (induction answers arbitrary: st)
    case Nil
    then show ?case by simp
  next
    case (Cons x xs)
    note ok = estimateFee_ok [OF Cons.prems, of x]
    from Cons.IH [OF ok(1)] ok(2-4) show ?case
      by (auto simp: Let_def split: prod.splits)
  qed
  from this [OF init_fees_ok] show ?thesis .
qed

theorem estimated_fees_bounded_witness:
  "\<exists>fee. fee \<in> set (fst (estimate_run [None, Some (Finite 250)] (init_fees (Finite 200) Missing))) \<and>
     MIN_BASE_FEE_STROOPS \<le> fee \<and> fee \<le> 200"
proof -
  let ?fees = "fst (estimate_run [None, Some (Finite 250)] (init_fees (Finite 200) Missing))"
  have "maxFeeStroops (init_fees (Finite 200) Missing) = 200"
    by (simp add: init_fees_def readNonNegativeIntConfig_def MIN_BASE_FEE_STROOPS_def)
  moreover have "hd ?fees \<in> set ?fees"
    by (rule hd_in_set) (simp add: Let_def split: prod.splits)
  ultimately show ?thesis using estimated_fees_bounded by metis
qed

end
