(* ===== verification/Markets.thy ===== *)
theory Markets
  imports Settlement_State Soroban
begin

text \<open>
  \<open>markets/markets.service.ts\<close>: creation, update, and the life cycle of a market (pause, resume,
  cancel, the immediate admin resolution, and the proposal / challenge workflow).  Every handler
  is its whole body in the order of the source: the look-up, the guards with the exception each
  throws, the call on the contract, the save, the cache invalidation and the webhook event.
  The clock is the argument \<open>now\<close>; the identifiers the database and \<open>Math.random\<close> produce are
  arguments too.
\<close>

section \<open>Shared steps of the handlers\<close>

definition CACHE_trendingEvents :: string where
  "CACHE_trendingEvents = ''cache-warming:trending-events''"
definition CACHE_activeEvents :: string where
  "CACHE_activeEvents = ''cache-warming:active-events''"
definition CACHE_popularEventDetail :: "id \<Rightarrow> string" where
  "CACHE_popularEventDetail eventId = ''cache-warming:popular-event:'' @ eventId"

definition invalidateMarketCaches :: "id \<Rightarrow> world \<Rightarrow> world" where
  "invalidateMarketCaches marketId w =
     w\<lparr>trendingCache := None,
       cache_keys := filter (\<lambda>k. k \<notin> {CACHE_trendingEvents, CACHE_activeEvents,
         CACHE_popularEventDetail marketId}) (cache_keys w)\<rparr>"

text \<open>\<open>where: [{ id }, { on_chain_market_id: id }]\<close>\<close>

definition findByIdOrOnChainId :: "id \<Rightarrow> world \<Rightarrow> market option" where
  "findByIdOrOnChainId k w = List.find (\<lambda>m. mkt_id m = k \<or> on_chain_market_id m = k) (markets w)"

definition with_market :: "id \<Rightarrow> world \<Rightarrow> (market \<Rightarrow> (exn, 'a) result \<times> world) \<Rightarrow> (exn, 'a) result \<times> world" where
  "with_market k w body =
     (case findByIdOrOnChainId k w of
        None \<Rightarrow> (Inl (NotFound ''Market not found''), w)
      | Some m \<Rightarrow> body m)"

text \<open>Save the row and drop the caches that show it.\<close>

definition store_market :: "market \<Rightarrow> world \<Rightarrow> world" where
  "store_market m w = invalidateMarketCaches (mkt_id m) (save_market m w)"

section \<open>Creation\<close>

record create_market_dto =
  dto_title :: string
  dto_description :: string
  dto_category :: string
  dto_outcome_options :: "string list"
  dto_end_time :: instant
  dto_resolution_time :: instant
  dto_is_public :: bool

definition new_market :: "id \<Rightarrow> string \<Rightarrow> create_market_dto \<Rightarrow> user \<Rightarrow> market" where
  "new_market newId onChainMarketId dto u =
     \<lparr>mkt_id = newId, on_chain_market_id = onChainMarketId, creator = Some (user_id u),
      title = dto_title dto, description = dto_description dto, category = dto_category dto,
      outcome_options = dto_outcome_options dto, end_time = dto_end_time dto,
      resolution_time = dto_resolution_time dto, is_resolved = False, resolved_outcome = None,
      resolved_at = None, settlement_state = PENDING, proposed_outcome = None,
      resolution_proposed_at = None, grace_period_seconds = 86400, settlement_attempt_count = 0,
      is_public = dto_is_public dto, is_cancelled = False, is_featured = False, is_paused = False,
      total_pool_stroops = 0, participant_count = 0\<rparr>"

text \<open>
  Inserting a row: the primary key and \<open>on_chain_market_id\<close> are unique columns, so a clash is a
  failed query.
\<close>

definition insert_market :: "market \<Rightarrow> world \<Rightarrow> world option" where
  "insert_market m w =
     (if mkt_id m \<in> mkt_id ` set (markets w) \<or>
         on_chain_market_id m \<in> on_chain_market_id ` set (markets w)
      then None else Some (w\<lparr>markets := markets w @ [m]\<rparr>))"

definition createMarket ::
  "soroban_env \<Rightarrow> instant \<Rightarrow> string \<Rightarrow> id \<Rightarrow> create_market_dto \<Rightarrow> user \<Rightarrow> (world, exn, market) action"
where
  "createMarket env now rnd newId dto u w =
     (if dto_end_time dto \<le> now then (Inl (BadRequest ''end_time must be in the future''), w)
      else case createMarket_call env now rnd (dto_description dto) of
             Inl _ \<Rightarrow> (Inl (BadGateway ''Failed to create market on Soroban''), w)
           | Inr (onChainMarketId, _) \<Rightarrow>
               let w1 = call_chain (CreateMarket onChainMarketId) w;
                   m = new_market newId onChainMarketId dto u
               in (case insert_market m w1 of
                     None \<Rightarrow> (Inl (BadGateway ''Market created on-chain but failed to save to database''), w1)
                   | Some w2 \<Rightarrow> (Inr m, emit ''market.created'' newId w2)))"

text \<open>
  \<open>createBulk\<close>: every row is validated first, then all are written in one transaction.  The
  second argument pairs each row with the random suffix and the generated key of its insert.
  A failed insert rolls the database back; the calls already made on the contract remain.
\<close>

fun bulk_insert ::
  "soroban_env \<Rightarrow> instant \<Rightarrow> (string \<times> id \<times> create_market_dto) list \<Rightarrow> user \<Rightarrow> (world, exn, market list) action"
where
  "bulk_insert env now [] u w = (Inr [], w)"
| "bulk_insert env now ((rnd, newId, dto) # rows) u w =
     (case createMarket_call env now rnd (dto_description dto) of
        Inl _ \<Rightarrow> (Inl (BadGateway ''Failed to create market on Soroban''), w)
      | Inr (onChainMarketId, _) \<Rightarrow>
          let w1 = call_chain (CreateMarket onChainMarketId) w;
              m = new_market newId onChainMarketId dto u
          in (case insert_market m w1 of
                None \<Rightarrow> (Inl QueryFailed, w1)
              | Some w2 \<Rightarrow>
                  (case bulk_insert env now rows u w2 of
                     (Inl e, w3) \<Rightarrow> (Inl e, w3)
                   | (Inr ms, w3) \<Rightarrow> (Inr (m # ms), w3))))"

definition createBulk ::
  "soroban_env \<Rightarrow> instant \<Rightarrow> (string \<times> id \<times> create_market_dto) list \<Rightarrow> user \<Rightarrow> (world, exn, market list) action"
where
  "createBulk env now rows u w =
     (if \<exists>(_, _, dto) \<in> set rows. dto_end_time dto \<le> now
      then (Inl (BadRequest ''end_time must be in the future''), w)
      else case bulk_insert env now rows u w of
             (Inr ms, w') \<Rightarrow> (Inr ms, w')
           | (Inl e, w') \<Rightarrow> (Inl e, w\<lparr>chain_log := chain_log w'\<rparr>))"

text \<open>The CSV import commits each row in a transaction of its own.\<close>

definition createMarketRowTransactional ::
  "soroban_env \<Rightarrow> instant \<Rightarrow> string \<Rightarrow> id \<Rightarrow> create_market_dto \<Rightarrow> user \<Rightarrow> (world, exn, market) action"
where
  "createMarketRowTransactional env now rnd newId dto u w =
     (if dto_end_time dto \<le> now then (Inl (BadRequest ''end_time must be in the future''), w)
      else case bulk_insert env now [(rnd, newId, dto)] u w of
             (Inr ms, w') \<Rightarrow> (Inr (hd ms), w')
           | (Inl e, w') \<Rightarrow> (Inl e, w\<lparr>chain_log := chain_log w'\<rparr>))"

section \<open>Update\<close>

record update_market_dto =
  upd_title :: "string option"
  upd_description :: "string option"
  upd_category :: "string option"

definition update :: "instant \<Rightarrow> id \<Rightarrow> id \<Rightarrow> update_market_dto \<Rightarrow> (world, exn, market) action" where
  "update now k userId dto w =
     with_market k w (\<lambda>m.
       case creator m of
         None \<Rightarrow> (Inl TypeError, w)
       | Some c \<Rightarrow>
           if c \<noteq> userId then (Inl (Forbidden ''Only the market creator can update this market''), w)
           else if now > end_time m
           then (Inl (BadRequest ''Cannot update market after end_time has passed''), w)
           else let m1 = (case upd_title dto of Some t \<Rightarrow> m\<lparr>title := t\<rparr> | None \<Rightarrow> m);
                    m2 = (case upd_description dto of Some d \<Rightarrow> m1\<lparr>description := d\<rparr> | None \<Rightarrow> m1);
                    m3 = (case upd_category dto of Some g \<Rightarrow> m2\<lparr>category := g\<rparr> | None \<Rightarrow> m2)
                in (Inr m3, store_market m3 w))"

section \<open>Resolution\<close>

definition resolveMarket :: "soroban_env \<Rightarrow> instant \<Rightarrow> id \<Rightarrow> string \<Rightarrow> (world, exn, market) action" where
  "resolveMarket env now k outcome w =
     with_market k w (\<lambda>m.
       if is_resolved m then (Inl (Conflict ''Market is already resolved''), w)
       else if settlement_state m = SETTLED
       then (Inl (Conflict ''Market settlement is already finalized''), w)
       else if outcome \<notin> set (outcome_options m) then (Inl (BadRequest ''Invalid outcome''), w)
       else case resolveMarket_call env (on_chain_market_id m) outcome of
              Inl _ \<Rightarrow> (Inl (BadGateway ''Failed to resolve market on Soroban''), w)
            | Inr _ \<Rightarrow>
                let w1 = call_chain (ResolveMarket (on_chain_market_id m) outcome) w;
                    m1 = m\<lparr>is_resolved := True, resolved_outcome := Some outcome, resolved_at := Some now\<rparr>
                in (Inr m1, emit ''market.resolved'' (mkt_id m) (store_market m1 w1)))"

record propose_dto =
  prop_outcome :: string
  prop_grace_period_seconds :: "int option"

definition proposeResolution :: "instant \<Rightarrow> id \<Rightarrow> propose_dto \<Rightarrow> user \<Rightarrow> (world, exn, market) action" where
  "proposeResolution now k dto u w =
     with_market k w (\<lambda>m.
       case creator m of
         None \<Rightarrow> (Inl TypeError, w)
       | Some c \<Rightarrow>
           if role u \<noteq> ''admin'' \<and> c \<noteq> user_id u
           then (Inl (Forbidden ''Only the market creator or an admin can propose a resolution''), w)
           else if is_cancelled m
           then (Inl (BadRequest ''Cannot propose a resolution for a cancelled market''), w)
           else if is_resolved m then (Inl (Conflict ''Market is already resolved''), w)
           else if \<not> canTransition (settlement_state m) PROPOSED
           then (Inl (Conflict (describeIllegalTransition (settlement_state m) PROPOSED)), w)
           else if now < end_time m
           then (Inl (BadRequest ''Cannot propose a resolution before end_time has passed''), w)
           else if prop_outcome dto \<notin> set (outcome_options m)
           then (Inl (BadRequest ''Invalid outcome''), w)
           else let m1 = m\<lparr>settlement_state := PROPOSED, proposed_outcome := Some (prop_outcome dto),
                           resolution_proposed_at := Some now\<rparr>;
                    m2 = (case prop_grace_period_seconds dto of
                            Some g \<Rightarrow> m1\<lparr>grace_period_seconds := g\<rparr> | None \<Rightarrow> m1)
                in (Inr m2, emit ''market.resolution_proposed'' (mkt_id m) (store_market m2 w)))"

definition graceDeadline :: "instant \<Rightarrow> market \<Rightarrow> instant" where
  "graceDeadline proposed m = proposed + grace_period_seconds m * 1000"

definition challengeResolution :: "instant \<Rightarrow> id \<Rightarrow> user \<Rightarrow> (world, exn, market) action" where
  "challengeResolution now k u w =
     with_market k w (\<lambda>m.
       if \<not> canTransition (settlement_state m) CHALLENGED
       then (Inl (BadRequest (describeIllegalTransition (settlement_state m) CHALLENGED)), w)
       else case resolution_proposed_at m of
              None \<Rightarrow> (Inl TypeError, w)
            | Some proposed \<Rightarrow>
                if now > graceDeadline proposed m
                then (Inl (BadRequest ''Challenge window has closed''), w)
                else let m1 = m\<lparr>settlement_state := CHALLENGED\<rparr>
                     in (Inr m1, emit ''market.resolution_challenged'' (mkt_id m) (store_market m1 w)))"

definition resolveChallenge ::
  "soroban_env \<Rightarrow> instant \<Rightarrow> id \<Rightarrow> string \<Rightarrow> user \<Rightarrow> (world, exn, market) action"
where
  "resolveChallenge env now k outcome adminUser w =
     (if role adminUser \<noteq> ''admin'' then (Inl (Forbidden ''Only admin can resolve a challenge''), w)
      else with_market k w (\<lambda>m.
        if \<not> canTransition (settlement_state m) SETTLED
        then (Inl (BadRequest (describeIllegalTransition (settlement_state m) SETTLED)), w)
        else if outcome \<notin> set (outcome_options m) then (Inl (BadRequest ''Invalid outcome''), w)
        else case resolveMarket_call env (on_chain_market_id m) outcome of
               Inl _ \<Rightarrow> (Inl (BadGateway ''Failed to settle market on Soroban''), w)
             | Inr _ \<Rightarrow>
                 let w1 = call_chain (ResolveMarket (on_chain_market_id m) outcome) w;
                     m1 = m\<lparr>settlement_state := SETTLED, proposed_outcome := Some outcome,
                            is_resolved := True, resolved_outcome := Some outcome, resolved_at := Some now\<rparr>
                 in (Inr m1, emit ''market.settled'' (mkt_id m) (store_market m1 w1))))"

section \<open>Cancel, pause, resume\<close>

definition cancelMarket :: "soroban_env \<Rightarrow> instant \<Rightarrow> id \<Rightarrow> user \<Rightarrow> (world, exn, market) action" where
  "cancelMarket env now k u w =
     with_market k w (\<lambda>m.
       case creator m of
         None \<Rightarrow> (Inl TypeError, w)
       | Some c \<Rightarrow>
           if role u \<noteq> ''admin'' \<and> c \<noteq> user_id u
           then (Inl (Forbidden ''Only the market creator or an admin can cancel this market''), w)
           else if is_resolved m then (Inl (BadRequest ''Resolved markets cannot be cancelled''), w)
           else if is_cancelled m then (Inl (BadRequest ''Market is already cancelled''), w)
           else if now > end_time m
           then (Inl (BadRequest ''Cannot cancel market after end_time has passed''), w)
           else case cancelMarket_call env now (on_chain_market_id m) of
                  Inl _ \<Rightarrow> (Inl (BadGateway ''Failed to cancel market on Soroban''), w)
                | Inr _ \<Rightarrow>
                    let w1 = call_chain (CancelMarket (on_chain_market_id m)) w;
                        m1 = m\<lparr>is_cancelled := True\<rparr>
                    in (Inr m1, store_market m1 w1))"

definition pauseMarket :: "soroban_env \<Rightarrow> instant \<Rightarrow> id \<Rightarrow> user \<Rightarrow> (world, exn, market) action" where
  "pauseMarket env now k u w =
     with_market k w (\<lambda>m.
       if role u \<noteq> ''admin'' then (Inl (Forbidden ''Only admin can pause markets''), w)
       else if is_resolved m then (Inl (BadRequest ''Resolved markets cannot be paused''), w)
       else if is_cancelled m then (Inl (BadRequest ''Cancelled markets cannot be paused''), w)
       else if is_paused m then (Inl (Conflict ''Market is already paused''), w)
       else case pauseMarket_call env now (on_chain_market_id m) of
              Inl _ \<Rightarrow> (Inl (BadGateway ''Failed to pause market on Soroban''), w)
            | Inr _ \<Rightarrow>
                let w1 = call_chain (PauseMarket (on_chain_market_id m)) w;
                    m1 = m\<lparr>is_paused := True\<rparr>
                in (Inr m1, store_market m1 w1))"

definition resumeMarket :: "soroban_env \<Rightarrow> instant \<Rightarrow> id \<Rightarrow> user \<Rightarrow> (world, exn, market) action" where
  "resumeMarket env now k u w =
     with_market k w (\<lambda>m.
       if role u \<noteq> ''admin'' then (Inl (Forbidden ''Only admin can resume markets''), w)
       else if is_resolved m then (Inl (BadRequest ''Resolved markets cannot be resumed''), w)
       else if is_cancelled m then (Inl (BadRequest ''Cancelled markets cannot be resumed''), w)
       else if \<not> is_paused m then (Inl (Conflict ''Market is not paused''), w)
       else if now > end_time m
       then (Inl (BadRequest ''Cannot resume market after end_time has passed''), w)
       else case resumeMarket_call env now (on_chain_market_id m) of
              Inl _ \<Rightarrow> (Inl (BadGateway ''Failed to resume market on Soroban''), w)
            | Inr _ \<Rightarrow>
                let w1 = call_chain (ResumeMarket (on_chain_market_id m)) w;
                    m1 = m\<lparr>is_paused := False\<rparr>
                in (Inr m1, store_market m1 w1))"

end
