(* ===== verification/Market_Lifecycle.thy ===== *)
theory Market_Lifecycle
  imports Markets
begin

text \<open>
  What the market handlers guarantee.  The abstract specification is the relation \<open>row_step\<close>: the
  ways in which the life of one market may advance at an instant, with nothing said about tables,
  errors, caches or the contract.  Every request handled by the service refines it: it leaves the
  table alone, inserts fresh markets, or advances one market by one \<open>row_step\<close>.  The invariant of
  a market and the facts about its life are then proved on \<open>row_step\<close> alone.
\<close>

section \<open>Requests\<close>

datatype market_cmd =
    Create string id create_market_dto user
  | Bulk "(string \<times> id \<times> create_market_dto) list" user
  | CsvRow string id create_market_dto user
  | Update id id update_market_dto
  | Resolve id string
  | Propose id propose_dto user
  | Challenge id user
  | AdjudicateChallenge id string user
  | Cancel id user
  | Pause id user
  | Resume id user

primrec handle :: "soroban_env \<Rightarrow> instant \<Rightarrow> market_cmd \<Rightarrow> world \<Rightarrow> world" where
  "handle env now (Create rnd k dto u) w = snd (createMarket env now rnd k dto u w)"
| "handle env now (Bulk rows u) w = snd (createBulk env now rows u w)"
| "handle env now (CsvRow rnd k dto u) w = snd (createMarketRowTransactional env now rnd k dto u w)"
| "handle env now (Update k userId dto) w = snd (update now k userId dto w)"
| "handle env now (Resolve k oc) w = snd (resolveMarket env now k oc w)"
| "handle env now (Propose k dto u) w = snd (proposeResolution now k dto u w)"
| "handle env now (Challenge k u) w = snd (challengeResolution now k u w)"
| "handle env now (AdjudicateChallenge k oc u) w = snd (resolveChallenge env now k oc u w)"
| "handle env now (Cancel k u) w = snd (cancelMarket env now k u w)"
| "handle env now (Pause k u) w = snd (pauseMarket env now k u w)"
| "handle env now (Resume k u) w = snd (resumeMarket env now k u w)"

section \<open>The abstract life of one market\<close>

datatype life_event = Edited | Resolved | Proposed | Challenged | Adjudicated | Cancelled | Paused | Resumed

inductive row_step :: "instant \<Rightarrow> life_event \<Rightarrow> market \<Rightarrow> market \<Rightarrow> bool" where
  edit: "now \<le> end_time m \<Longrightarrow> row_step now Edited m (m\<lparr>title := t, description := d, category := g\<rparr>)"
| resolve: "\<not> is_resolved m \<Longrightarrow> settlement_state m \<noteq> SETTLED \<Longrightarrow> oc \<in> set (outcome_options m) \<Longrightarrow>
    row_step now Resolved m (m\<lparr>is_resolved := True, resolved_outcome := Some oc, resolved_at := Some now\<rparr>)"
| propose: "\<not> is_cancelled m \<Longrightarrow> \<not> is_resolved m \<Longrightarrow> settlement_state m = PENDING \<Longrightarrow>
    end_time m \<le> now \<Longrightarrow> oc \<in> set (outcome_options m) \<Longrightarrow>
    row_step now Proposed m (m\<lparr>settlement_state := PROPOSED, proposed_outcome := Some oc,
      resolution_proposed_at := Some now, grace_period_seconds := g\<rparr>)"
| challenge: "settlement_state m = PROPOSED \<Longrightarrow> resolution_proposed_at m = Some p \<Longrightarrow>
    now \<le> graceDeadline p m \<Longrightarrow> row_step now Challenged m (m\<lparr>settlement_state := CHALLENGED\<rparr>)"
| adjudicate: "settlement_state m = SETTLING \<or> settlement_state m = CHALLENGED \<Longrightarrow>
    oc \<in> set (outcome_options m) \<Longrightarrow>
    row_step now Adjudicated m (m\<lparr>settlement_state := SETTLED, proposed_outcome := Some oc, is_resolved := True,
      resolved_outcome := Some oc, resolved_at := Some now\<rparr>)"
| cancel: "\<not> is_resolved m \<Longrightarrow> \<not> is_cancelled m \<Longrightarrow> now \<le> end_time m \<Longrightarrow>
    row_step now Cancelled m (m\<lparr>is_cancelled := True\<rparr>)"
| pause: "\<not> is_resolved m \<Longrightarrow> \<not> is_cancelled m \<Longrightarrow> \<not> is_paused m \<Longrightarrow>
    row_step now Paused m (m\<lparr>is_paused := True\<rparr>)"
| resume: "\<not> is_resolved m \<Longrightarrow> \<not> is_cancelled m \<Longrightarrow> is_paused m \<Longrightarrow> now \<le> end_time m \<Longrightarrow>
    row_step now Resumed m (m\<lparr>is_paused := False\<rparr>)"

inductive_cases row_stepE: "row_step now ev m m'"

definition fresh_market :: "instant \<Rightarrow> market \<Rightarrow> bool" where
  "fresh_market now m \<longleftrightarrow>
     now < end_time m \<and> \<not> is_resolved m \<and> resolved_outcome m = None \<and> \<not> is_cancelled m \<and>
     \<not> is_paused m \<and> settlement_state m = PENDING \<and> settlement_attempt_count m = 0 \<and>
     total_pool_stroops m = 0 \<and> participant_count m = 0"

text \<open>The cache entries that show a market, and the contract call that belongs to a step.\<close>

definition stale_keys :: "id \<Rightarrow> string set" where
  "stale_keys k = {CACHE_trendingEvents, CACHE_activeEvents, CACHE_popularEventDetail k}"

definition chain_calls :: "market \<Rightarrow> market \<Rightarrow> chain_call list" where
  "chain_calls m m' =
     (if (\<not> is_resolved m \<and> is_resolved m') \<or> (settlement_state m \<noteq> SETTLED \<and> settlement_state m' = SETTLED)
      then [ResolveMarket (on_chain_market_id m) (the (resolved_outcome m'))]
      else if \<not> is_cancelled m \<and> is_cancelled m' then [CancelMarket (on_chain_market_id m)]
      else if \<not> is_paused m \<and> is_paused m' then [PauseMarket (on_chain_market_id m)]
      else if is_paused m \<and> \<not> is_paused m' then [ResumeMarket (on_chain_market_id m)]
      else [])"

text \<open>The market a request addresses and the step of its life it asks for.\<close>

fun aims :: "market_cmd \<Rightarrow> (id \<times> life_event) option" where
  "aims (Update k _ _) = Some (k, Edited)"
| "aims (Resolve k _) = Some (k, Resolved)"
| "aims (Propose k _ _) = Some (k, Proposed)"
| "aims (Challenge k _) = Some (k, Challenged)"
| "aims (AdjudicateChallenge k _ _) = Some (k, Adjudicated)"
| "aims (Cancel k _) = Some (k, Cancelled)"
| "aims (Pause k _) = Some (k, Paused)"
| "aims (Resume k _) = Some (k, Resumed)"
| "aims _ = None"

inductive world_step :: "instant \<Rightarrow> market_cmd \<Rightarrow> world \<Rightarrow> world \<Rightarrow> bool" where
  unchanged: "markets w' = markets w \<Longrightarrow> chain_log w' = chain_log w @ map CreateMarket cs \<Longrightarrow>
    world_step now cmd w w'"
| inserted: "aims cmd = None \<Longrightarrow> list_all (fresh_market now) new \<Longrightarrow> markets w' = markets w @ new \<Longrightarrow>
    unique_keys mkt_id (markets w) \<longrightarrow> unique_keys mkt_id (markets w') \<Longrightarrow>
    unique_keys on_chain_market_id (markets w) \<longrightarrow> unique_keys on_chain_market_id (markets w') \<Longrightarrow>
    chain_log w' = chain_log w @ map (\<lambda>m. CreateMarket (on_chain_market_id m)) new \<Longrightarrow>
    world_step now cmd w w'"
| advanced: "aims cmd = Some (k, ev) \<Longrightarrow> findByIdOrOnChainId k w = Some m \<Longrightarrow> row_step now ev m m' \<Longrightarrow>
    markets w' = save_row mkt_id m' (markets w) \<Longrightarrow>
    trendingCache w' = None \<Longrightarrow> stale_keys (mkt_id m) \<inter> set (cache_keys w') = {} \<Longrightarrow>
    chain_log w' = chain_log w @ chain_calls m m' \<Longrightarrow> world_step now cmd w w'"

lemma row_step_frame:
  "row_step now ev m m' \<Longrightarrow> mkt_id m' = mkt_id m \<and> on_chain_market_id m' = on_chain_market_id m \<and>
     settlement_attempt_count m' = settlement_attempt_count m \<and> outcome_options m' = outcome_options m \<and> end_time m' = end_time m \<and>
     total_pool_stroops m' = total_pool_stroops m \<and> participant_count m' = participant_count m"
  by (induction rule: row_step.induct) auto

section \<open>The handlers refine the abstract life\<close>

lemma findByIdOrOnChainId_SomeD: "findByIdOrOnChainId k w = Some m \<Longrightarrow> m \<in> set (markets w)"
  by (auto simp: findByIdOrOnChainId_def find_Some_iff)

lemma store_market_effects [simp]:
  "markets (store_market m w) = save_row mkt_id m (markets w)"
  "trendingCache (store_market m w) = None"
  "chain_log (store_market m w) = chain_log w"
  "stale_keys (mkt_id m) \<inter> set (cache_keys (store_market m w)) = {}"
  by (auto simp: store_market_def invalidateMarketCaches_def save_market_def stale_keys_def)

lemma world_step_refl [intro]: "world_step now cmd w w"
  by (rule world_step.unchanged [of _ _ "[]"]) simp_all

lemma world_step_emit: "world_step now cmd w w' \<Longrightarrow> world_step now cmd w (emit e k w')"
proof (induction rule: world_step.induct)
  case (advanced cmd k ev w m now m' w')
  then show ?case by (intro world_step.advanced [of cmd k ev w m now m']) (simp_all add: table_simps)
qed (auto simp: table_simps intro: world_step.unchanged world_step.inserted)

text \<open>A found row that takes a step and is stored after the calls that belong to the step.\<close>

lemma world_step_store:
  assumes "findByIdOrOnChainId k w = Some m" "aims cmd = Some (k, ev)" "row_step now ev m m'"
    and "markets w1 = markets w" "chain_log w1 = chain_log w @ chain_calls m m'"
  shows "world_step now cmd w (store_market m' w1)"
  using assms row_step_frame [OF assms(3)] store_market_effects(4) [of m' w1]
  by (intro world_step.advanced [of cmd k ev w m now m']) simp_all

text \<open>A handler of one market: whatever its body does to a found row, the world takes one step.\<close>

lemma with_market_world_step:
  assumes "\<And>m. findByIdOrOnChainId k w = Some m \<Longrightarrow> world_step now cmd w (snd (body m))"
  shows "world_step now cmd w (snd (with_market k w body))"
  using assms by (auto simp: with_market_def split: option.splits)

lemmas store_intros = world_step_emit world_step_store

lemma update_world_step: "world_step now (Update k userId dto) w (snd (update now k userId dto w))"
  unfolding update_def
proof (rule with_market_world_step, goal_cases)
  case (1 m)
  define t where "t = (case upd_title dto of Some t \<Rightarrow> t | None \<Rightarrow> title m)"
  define d where "d = (case upd_description dto of Some d \<Rightarrow> d | None \<Rightarrow> description m)"
  define g where "g = (case upd_category dto of Some g \<Rightarrow> g | None \<Rightarrow> category m)"
  have "world_step now (Update k userId dto) w (store_market (m\<lparr>title := t, description := d, category := g\<rparr>) w)"
    if "now \<le> end_time m"
    using 1 _ row_step.edit [OF that] by (rule world_step_store) (simp_all add: chain_calls_def)
  then show ?case
    by (cases "upd_title dto"; cases "upd_description dto"; cases "upd_category dto")
       (auto simp: Let_def t_def d_def g_def split: option.splits)
qed

lemma resolveMarket_world_step:
  "world_step now (Resolve k oc) w (snd (resolveMarket env now k oc w))"
  unfolding resolveMarket_def
  by (rule with_market_world_step)
     (auto simp: Let_def table_simps chain_calls_def intro!: store_intros row_step.resolve
       split: sum.splits)

lemma proposeResolution_world_step:
  "world_step now (Propose k dto u) w (snd (proposeResolution now k dto u w))"
  unfolding proposeResolution_def
proof (rule with_market_world_step, goal_cases)
  case (1 m)
  have "world_step now (Propose k dto u) w (emit e k' (store_market (m\<lparr>settlement_state := PROPOSED,
      proposed_outcome := Some (prop_outcome dto), resolution_proposed_at := Some now,
      grace_period_seconds := g\<rparr>) w))"
    if "\<not> is_cancelled m" "\<not> is_resolved m" "settlement_state m = PENDING" "end_time m \<le> now"
       "prop_outcome dto \<in> set (outcome_options m)" for e k' g
    using 1 row_step.propose [OF that]
    by (intro store_intros) (auto simp: chain_calls_def)
  from this [of _ _ "grace_period_seconds m"] this [of _ _ "the (prop_grace_period_seconds dto)"]
  show ?case
    by (cases "creator m"; cases "prop_grace_period_seconds dto") (auto simp: Let_def)
qed

lemma challengeResolution_world_step:
  "world_step now (Challenge k u) w (snd (challengeResolution now k u w))"
  unfolding challengeResolution_def
  by (rule with_market_world_step)
     (auto simp: Let_def chain_calls_def intro!: store_intros intro: row_step.challenge
       split: option.splits)

lemma resolveChallenge_world_step:
  "world_step now (AdjudicateChallenge k oc u) w (snd (resolveChallenge env now k oc u w))"
proof (cases "role u = ''admin''")
  case True
  then show ?thesis
    unfolding resolveChallenge_def
    by (simp, intro with_market_world_step)
       (auto simp: Let_def table_simps chain_calls_def intro!: store_intros row_step.adjudicate
         split: sum.splits)
qed (auto simp: resolveChallenge_def)

lemma cancelMarket_world_step:
  "world_step now (Cancel k u) w (snd (cancelMarket env now k u w))"
  unfolding cancelMarket_def
  by (rule with_market_world_step)
     (auto simp: Let_def table_simps chain_calls_def intro!: store_intros row_step.cancel
       split: sum.splits option.splits)

lemma pauseMarket_world_step:
  "world_step now (Pause k u) w (snd (pauseMarket env now k u w))"
  unfolding pauseMarket_def
  by (rule with_market_world_step)
     (auto simp: Let_def table_simps chain_calls_def intro!: store_intros row_step.pause
       split: sum.splits)

lemma resumeMarket_world_step:
  "world_step now (Resume k u) w (snd (resumeMarket env now k u w))"
  unfolding resumeMarket_def
  by (rule with_market_world_step)
     (auto simp: Let_def table_simps chain_calls_def intro!: store_intros row_step.resume
       split: sum.splits)

lemma new_market_fresh: "now < dto_end_time dto \<Longrightarrow> fresh_market now (new_market k c dto u)"
  by (simp add: fresh_market_def new_market_def)

lemma insert_market_SomeD:
  "insert_market m w = Some w' \<Longrightarrow> markets w' = markets w @ [m] \<and> chain_log w' = chain_log w \<and>
     mkt_id m \<notin> mkt_id ` set (markets w) \<and>
     on_chain_market_id m \<notin> on_chain_market_id ` set (markets w)"
  by (auto simp: insert_market_def split: if_splits)

lemma on_chain_new_market [simp]: "on_chain_market_id (new_market k c dto u) = c"
  by (simp add: new_market_def)

lemma createMarket_world_step: "world_step now (Create rnd k dto u) w (snd (createMarket env now rnd k dto u w))"
proof -
  have "world_step now (Create rnd k dto u) w (call_chain (CreateMarket c) w)" for c
    by (rule world_step.unchanged [of _ _ "[c]"]) (simp_all add: table_simps)
  moreover have "world_step now (Create rnd k dto u) w w'"
    if "insert_market (new_market k c dto u) (call_chain (CreateMarket c) w) = Some w'"
       "now < dto_end_time dto" for c w'
    using insert_market_SomeD [OF that(1)] new_market_fresh [OF that(2)]
    by (intro world_step.inserted [of _ now "[new_market k c dto u]"]) (simp_all add: table_simps)
  ultimately show ?thesis
    by (auto simp: createMarket_def Let_def intro: world_step_emit split: sum.splits option.splits)
qed

text \<open>The rows a bulk insert appends when it succeeds, and the calls it leaves behind when it fails.\<close>

lemma bulk_insert_appends:
  assumes "bulk_insert env now rows u w = (Inr ms, w')" and "\<forall>(_, _, dto) \<in> set rows. now < dto_end_time dto"
  shows "markets w' = markets w @ ms \<and> list_all (fresh_market now) ms \<and> length ms = length rows \<and>
         chain_log w' = chain_log w @ map (\<lambda>m. CreateMarket (on_chain_market_id m)) ms \<and>
         (unique_keys mkt_id (markets w) \<longrightarrow> unique_keys mkt_id (markets w @ ms)) \<and>
         (unique_keys on_chain_market_id (markets w) \<longrightarrow> unique_keys on_chain_market_id (markets w @ ms))"
  using assms
proof (induction rows arbitrary: w ms)
  case Nil
  then show ?case by simp
next
  case (Cons row rows)
  obtain rnd k dto where row: "row = (rnd, k, dto)" by (cases row)
  from Cons.prems(1) obtain c w2 ms' where
    ins: "insert_market (new_market k c dto u) (call_chain (CreateMarket c) w) = Some w2" and
    rest: "bulk_insert env now rows u w2 = (Inr ms', w')" and
    ms: "ms = new_market k c dto u # ms'"
    by (auto simp: row Let_def split: sum.splits option.splits prod.splits)
  note w2 = insert_market_SomeD [OF ins]
  from Cons.prems(2) have "now < dto_end_time dto" by (simp add: row)
  with Cons.IH [OF rest] Cons.prems(2) w2 show ?case
    by (auto simp: ms new_market_fresh table_simps)
qed

lemma bulk_insert_only_creates:
  "bulk_insert env now rows u w = (r, w') \<Longrightarrow> \<exists>cs. chain_log w' = chain_log w @ map CreateMarket cs"
proof (induction rows arbitrary: w r)
  case Nil
  then show ?case by (auto intro: exI [of _ "[]"])
next
  case (Cons row rows)
  obtain rnd k dto where row: "row = (rnd, k, dto)" by (cases row)
  show ?case
  proof (cases "createMarket_call env now rnd (dto_description dto)")
    case (Inl e)
    with Cons.prems show ?thesis by (auto simp: row intro: exI [of _ "[]"])
  next
    case (Inr p)
    let ?m = "new_market k (fst p) dto u" and ?w1 = "call_chain (CreateMarket (fst p)) w"
    show ?thesis
    proof (cases "insert_market ?m ?w1")
      case None
      with Cons.prems Inr show ?thesis
        by (auto simp: row Let_def table_simps split: prod.splits intro: exI [of _ "[fst p]"])
    next
      case (Some w2)
      with Cons.prems Inr obtain r' where "bulk_insert env now rows u w2 = (r', w')"
        by (auto simp: row Let_def split: prod.splits sum.splits)
      from Cons.IH [OF this] obtain cs where "chain_log w' = chain_log w2 @ map CreateMarket cs" by blast
      with insert_market_SomeD [OF Some] show ?thesis
        by (intro exI [of _ "fst p # cs"]) (simp add: table_simps)
    qed
  qed
qed

lemma createBulk_world_step: "world_step now (Bulk rows u) w (snd (createBulk env now rows u w))"
proof (cases "\<exists>(_, _, dto) \<in> set rows. dto_end_time dto \<le> now")
  case True
  then show ?thesis by (simp add: createBulk_def world_step_refl)
next
  case False
  then have future: "\<forall>(_, _, dto) \<in> set rows. now < dto_end_time dto" by fastforce
  obtain r w' where b: "bulk_insert env now rows u w = (r, w')" by fastforce
  show ?thesis
  proof (cases r)
    case (Inl e)
    from bulk_insert_only_creates [OF b] obtain cs
      where "chain_log w' = chain_log w @ map CreateMarket cs" by blast
    with False b Inl show ?thesis
      by (simp add: createBulk_def) (rule world_step.unchanged [of _ _ cs], simp_all)
  next
    case (Inr ms)
    from bulk_insert_appends [OF b [unfolded Inr] future] False b Inr show ?thesis
      by (auto simp: createBulk_def intro: world_step.inserted [of _ now ms])
  qed
qed

lemma createMarketRowTransactional_world_step:
  "world_step now (CsvRow rnd k dto u) w (snd (createMarketRowTransactional env now rnd k dto u w))"
proof (cases "dto_end_time dto \<le> now")
  case True
  then show ?thesis by (simp add: createMarketRowTransactional_def world_step_refl)
next
  case False
  then have "snd (createMarketRowTransactional env now rnd k dto u w) =
      snd (createBulk env now [(rnd, k, dto)] u w)"
    by (auto simp: createMarketRowTransactional_def createBulk_def simp del: bulk_insert.simps
        split: prod.splits sum.splits)
  moreover have "world_step now (Bulk rows u) w w' \<Longrightarrow> world_step now (CsvRow rnd k dto u) w w'" for rows w'
    by (induction "Bulk rows u" w w' rule: world_step.induct) (auto intro: world_step.unchanged world_step.inserted)
  ultimately show ?thesis using createBulk_world_step by metis
qed

lemma handle_world_step: "world_step now cmd w (handle env now cmd w)"
  by (cases cmd)
     (simp_all add: createMarket_world_step createBulk_world_step createMarketRowTransactional_world_step
       update_world_step resolveMarket_world_step proposeResolution_world_step
       challengeResolution_world_step resolveChallenge_world_step cancelMarket_world_step
       pauseMarket_world_step resumeMarket_world_step)


section \<open>The invariant of a market\<close>

definition has_outcome :: "market \<Rightarrow> string option \<Rightarrow> bool" where
  "has_outcome m v \<longleftrightarrow> v \<in> Some ` set (outcome_options m)"

definition market_ok :: "market \<Rightarrow> bool" where
  "market_ok m \<longleftrightarrow>
     (if is_resolved m then has_outcome m (resolved_outcome m) \<and> resolved_at m \<noteq> None
      else resolved_outcome m = None) \<and>
     (settlement_state m = SETTLED \<longrightarrow> is_resolved m) \<and>
     (settlement_state m \<noteq> PENDING \<longrightarrow>
        has_outcome m (proposed_outcome m) \<and> resolution_proposed_at m \<noteq> None)"

definition markets_ok :: "market list \<Rightarrow> bool" where
  "markets_ok ms \<longleftrightarrow> unique_keys mkt_id ms \<and> unique_keys on_chain_market_id ms \<and> list_all market_ok ms"

lemma row_step_market_ok: "row_step now ev m m' \<Longrightarrow> market_ok m \<Longrightarrow> market_ok m'"
  by (induction rule: row_step.induct) (auto simp: market_ok_def has_outcome_def)

lemma fresh_market_ok: "fresh_market now m \<Longrightarrow> market_ok m"
  by (simp add: fresh_market_def market_ok_def)

lemma list_all_save_row: "list_all P ms \<Longrightarrow> P m \<Longrightarrow> list_all P (save_row key m ms)"
  using set_save_row_subset [of key m ms] by (auto simp: list_all_iff)

text \<open>Storing a row under the same on-chain id keeps those ids as they were.\<close>

lemma on_chain_ids_save_row:
  assumes "m \<in> set ms" "unique_keys mkt_id ms" "mkt_id m' = mkt_id m" "on_chain_market_id m' = on_chain_market_id m"
  shows "map on_chain_market_id (save_row mkt_id m' ms) = map on_chain_market_id ms"
  using assms by (simp add: save_row_replaces)

lemma world_step_ok: "world_step now cmd w w' \<Longrightarrow> markets_ok (markets w) \<Longrightarrow> markets_ok (markets w')"
proof (induction rule: world_step.induct)
  case (unchanged w' w cs now)
  then show ?case by simp
next
  case (inserted cmd now new w' w)
  then show ?case by (auto simp: markets_ok_def list_all_iff intro: fresh_market_ok)
next
  case (advanced cmd k ev w m now m' w')
  note m = findByIdOrOnChainId_SomeD [OF advanced(2)]
  then have "market_ok m'" using advanced by (auto simp: markets_ok_def list_all_iff intro: row_step_market_ok)
  with advanced m show ?case
    by (simp add: markets_ok_def list_all_save_row unique_keys_save on_chain_ids_save_row row_step_frame)
qed

fun handle_all :: "soroban_env \<Rightarrow> (instant \<times> market_cmd) list \<Rightarrow> world \<Rightarrow> world" where
  "handle_all env [] w = w"
| "handle_all env ((now, cmd) # cmds) w = handle_all env cmds (handle env now cmd w)"

lemma handle_all_invariant:
  assumes "\<And>now cmd w w'. world_step now cmd w w' \<Longrightarrow> P w \<Longrightarrow> P w'" "P w"
  shows "P (handle_all env cmds w)"
  using assms(2)
proof (induction cmds arbitrary: w)
  case (Cons c cmds)
  then show ?case using assms(1) [OF handle_world_step] by (cases c) auto
qed simp

text \<open>
  C3. The well-formedness of the markets table is an invariant of the service: after any sequence
  of requests primary keys and on-chain ids are unique, a market is resolved exactly when it carries a resolved
  outcome, that outcome is one of its options and has a resolution time, a settled market is
  resolved, and a market past \<open>PENDING\<close> carries a proposed outcome among its options together
  with the time of the proposal.
\<close>

theorem handle_all_markets_ok:
  "markets_ok (markets w) \<Longrightarrow> markets_ok (markets (handle_all env cmds w))"
  by (rule handle_all_invariant [where P = "\<lambda>w. markets_ok (markets w)"]) (rule world_step_ok)

text \<open>A market to try the theorems on, and the requests that take it through its life.\<close>

definition sample_dto :: create_market_dto where
  "sample_dto = \<lparr>dto_title = ''Final'', dto_description = ''Who wins?'', dto_category = ''Sports'',
     dto_outcome_options = [''A'', ''B''], dto_end_time = 1000, dto_resolution_time = 2000, dto_is_public = True\<rparr>"

definition sample_user :: user where
  "sample_user = \<lparr>user_id = ''u1'', stellar_address = ''GU1'', username = None, total_predictions = 0,
     total_staked_stroops = 0, reputation_score = 0, season_points = 0, role = ''admin''\<rparr>"

definition sample_market :: market where
  "sample_market = new_market ''m1'' ''c1'' sample_dto sample_user"

definition sample_world :: "market list \<Rightarrow> world" where
  "sample_world ms = \<lparr>users = [sample_user], markets = ms, settlement_attempts = [], predictions = [],
     disputes = [], votes = [], evidence = [], trendingCache = None, cache_keys = [],
     webhook_events = [], chain_log = []\<rparr>"

text \<open>A server whose key pair is valid.\<close>

definition sample_env :: soroban_env where
  "sample_env = \<lparr>serverSecretKey = ''S'', fromSecret_ok = (\<lambda>_. True), fromPublicKey_ok = (\<lambda>_. True)\<rparr>"

lemmas sample_simps = sample_dto_def sample_user_def sample_market_def sample_world_def
  sample_env_def new_market_def

theorem handle_all_markets_ok_witness:
  "markets_ok (markets (handle_all sample_env [(2000, Propose ''m1'' \<lparr>prop_outcome = ''A'',
     prop_grace_period_seconds = None\<rparr> sample_user), (2500, Challenge ''m1'' sample_user)]
     (sample_world [sample_market])))"
  by (rule handle_all_markets_ok) (simp add: sample_simps markets_ok_def market_ok_def)

section \<open>Finality and authorisation\<close>

text \<open>What one step may do to the row stored under a key.\<close>

lemma world_step_lookup:
  assumes "world_step now cmd w w'" "unique_keys mkt_id (markets w)" "find_market k w = Some m"
  obtains "find_market k w' = Some m"
  | k' ev m' where "aims cmd = Some (k', ev)" "findByIdOrOnChainId k' w = Some m" "row_step now ev m m'"
      "find_market k w' = Some m'" "chain_log w' = chain_log w @ chain_calls m m'"
  using assms
proof (induction rule: world_step.induct)
  case (inserted cmd now new w' w)
  then show ?case by (simp add: find_row_append)
next
  case (advanced cmd k' ev w m1 now m1' w')
  note id = row_step_frame [OF advanced(3)] and m1 = findByIdOrOnChainId_SomeD [OF advanced(2)]
  show ?case
  proof (cases "k = mkt_id m1")
    case True
    with m1 advanced.prems(3,4) have "m = m1" by (simp add: find_row_distinct)
    with advanced True id show ?thesis by (auto simp: market_table.lookup_save)
  next
    case False
    with advanced id show ?thesis by (simp add: market_table.lookup_save)
  qed
qed simp

text \<open>A settled market takes no step of its life any more except edits and pauses.\<close>

lemma row_step_settled:
  "row_step now ev m m' \<Longrightarrow> settlement_state m = SETTLED \<Longrightarrow>
     settlement_state m' = SETTLED \<and> is_resolved m' = is_resolved m \<and>
     resolved_outcome m' = resolved_outcome m \<and> resolved_at m' = resolved_at m \<and>
     is_cancelled m \<le> is_cancelled m'"
  by (induction rule: row_step.induct) auto

lemma world_step_settled:
  assumes "world_step now cmd w w'" "markets_ok (markets w)" "find_market k w = Some m"
    "settlement_state m = SETTLED"
  shows "\<exists>m'. find_market k w' = Some m' \<and> settlement_state m' = SETTLED \<and>
    resolved_outcome m' = resolved_outcome m \<and> resolved_at m' = resolved_at m"
proof -
  from assms(2) have "unique_keys mkt_id (markets w)" by (simp add: markets_ok_def)
  from assms(1) this assms(3) show ?thesis
    by (rule world_step_lookup) (use assms(4) row_step_settled in auto)
qed

text \<open>
  C4. Settlement is final: once a market is \<open>SETTLED\<close>, no later sequence of requests to the
  market service changes its settlement state, its resolved outcome or its resolution time.
\<close>

theorem settled_is_final:
  assumes "markets_ok (markets w)" "find_market k w = Some m" "settlement_state m = SETTLED"
  shows "\<exists>m'. find_market k (handle_all env cmds w) = Some m' \<and> settlement_state m' = SETTLED \<and>
    resolved_outcome m' = resolved_outcome m \<and> resolved_at m' = resolved_at m"
proof -
  let ?P = "\<lambda>w. markets_ok (markets w) \<and> (\<exists>m'. find_market k w = Some m' \<and>
    settlement_state m' = SETTLED \<and> resolved_outcome m' = resolved_outcome m \<and> resolved_at m' = resolved_at m)"
  have "?P (handle_all env cmds w)"
  proof (rule handle_all_invariant [where P = ?P])
    fix now cmd w w' assume "world_step now cmd w w'" "?P w"
    with world_step_ok world_step_settled show "?P w'" by (metis (no_types, lifting))
  qed (use assms in auto)
  then show ?thesis by blast
qed

definition sample_settled :: market where
  "sample_settled = sample_market\<lparr>settlement_state := SETTLED, proposed_outcome := Some ''A'',
     resolution_proposed_at := Some 2000, is_resolved := True, resolved_outcome := Some ''A'',
     resolved_at := Some 2500\<rparr>"

theorem settled_is_final_witness:
  "\<exists>m'. find_market ''m1'' (handle_all sample_env [(3000, Resolve ''m1'' ''B''),
      (3000, AdjudicateChallenge ''m1'' ''B'' sample_user)] (sample_world [sample_settled])) = Some m' \<and>
    resolved_outcome m' = Some ''A''"
  using settled_is_final [of "sample_world [sample_settled]" "''m1''" sample_settled]
  by (fastforce simp: sample_settled_def sample_simps markets_ok_def market_ok_def has_outcome_def)

text \<open>
  A market is marked resolved only together with the contract: whenever a request turns an
  unresolved market into a resolved one, exactly one contract call was made in it, and that call
  resolves this market on chain with the very outcome the row then carries.
\<close>

theorem resolved_with_contract:
  assumes "unique_keys mkt_id (markets w)" "find_market k w = Some m" "\<not> is_resolved m"
    and "find_market k (handle env now cmd w) = Some m'" "is_resolved m'"
  shows "chain_log (handle env now cmd w) =
    chain_log w @ [ResolveMarket (on_chain_market_id m) (the (resolved_outcome m'))]"
  by (rule world_step_lookup [OF handle_world_step [of now cmd w env] assms(1,2)])
     (use assms(3-5) in \<open>auto simp: chain_calls_def\<close>)

theorem resolved_with_contract_witness:
  "chain_log (handle sample_env 3000 (Resolve ''m1'' ''B'') (sample_world [sample_market])) =
     [ResolveMarket ''c1'' ''B'']"
proof -
  let ?w = "sample_world [sample_market]"
  let ?m = "sample_market\<lparr>is_resolved := True, resolved_outcome := Some ''B'', resolved_at := Some 3000\<rparr>"
  have "find_market ''m1'' (handle sample_env 3000 (Resolve ''m1'' ''B'') ?w) = Some ?m"
    by (simp add: sample_simps resolveMarket_def with_market_def findByIdOrOnChainId_def
        resolveMarket_call_def with_server_key_def Let_def table_simps save_row_def)
  then show ?thesis
    using resolved_with_contract [of ?w "''m1''" sample_market sample_env 3000 "Resolve ''m1'' ''B''" ?m]
    by (simp add: sample_simps)
qed




section \<open>A resolution that is overwritten\<close>

text \<open>
  The immediate admin resolution leaves the settlement state as it was, and neither the challenge
  nor its adjudication looks at \<open>is_resolved\<close>.  A market resolved by an admin while a proposal is
  open can therefore still be challenged and adjudicated, and its resolved outcome changes after
  it was published, with a second resolution sent to the contract.
\<close>

lemma published_resolution_overwritten:
  "let w = handle_all sample_env [(2000, Propose ''m1'' \<lparr>prop_outcome = ''A'', prop_grace_period_seconds = None\<rparr> sample_user),
        (2100, Resolve ''m1'' ''B'')] (sample_world [sample_market]);
       w' = handle_all sample_env [(2200, Challenge ''m1'' sample_user), (2300, AdjudicateChallenge ''m1'' ''A'' sample_user)] w
   in map resolved_outcome (markets w) = [Some ''B''] \<and> map resolved_outcome (markets w') = [Some ''A''] \<and>
      chain_log w' = [ResolveMarket ''c1'' ''B'', ResolveMarket ''c1'' ''A'']"
  by (simp add: sample_simps proposeResolution_def resolveMarket_def challengeResolution_def
      resolveChallenge_def with_market_def findByIdOrOnChainId_def resolveMarket_call_def
      with_server_key_def Let_def table_simps save_row_def graceDeadline_def)

end
