(* ===== verification/Settlement.thy ===== *)
theory Settlement
  imports Market_Lifecycle
begin

text \<open>
  \<open>markets/market-settlement.scheduler.ts\<close>: the sweep that settles proposed markets once their
  grace period has elapsed, with its retry queue.  The short database transactions (the claim and
  the finalisation) are one definition each; \<open>settleMarket\<close> composes them around the contract call
  the way the source does.  The queue is the insertion-ordered map of the source.

  What the environment decides is an argument: \<open>gotLock\<close> (the answer of
  \<open>pg_try_advisory_xact_lock\<close>), whether the contract call and the finalising transaction go through,
  the key generated for the attempt row, and the message of the error a failed call throws.
\<close>

section \<open>Constants and state\<close>

definition MAX_SETTLEMENTS_PER_TICK :: nat where "MAX_SETTLEMENTS_PER_TICK = 50"
definition MAX_RETRY_ATTEMPTS :: int where "MAX_RETRY_ATTEMPTS = 5"
definition INITIAL_BACKOFF_MS :: int where "INITIAL_BACKOFF_MS = 60000"
definition STALE_SETTLING_THRESHOLD_MS :: int where "STALE_SETTLING_THRESHOLD_MS = 5 * 60 * 1000"

record SettlementRetryInfo =
  ri_marketId :: id
  ri_attempts :: nat
  lastError :: "string option"
  nextRetryAt :: instant

type_synonym retry_queue = "(id \<times> SettlementRetryInfo) list"

record settle_env =
  soroban :: soroban_env
  gotLock :: bool
  finalize_ok :: bool
  newAttemptId :: id
  errorMsg :: string

definition update_market :: "id \<Rightarrow> (market \<Rightarrow> market) \<Rightarrow> world \<Rightarrow> world" where
  "update_market k f w = w\<lparr>markets := update_row mkt_id k f (markets w)\<rparr>"

definition update_attempt :: "id \<Rightarrow> (settlement_attempt \<Rightarrow> settlement_attempt) \<Rightarrow> world \<Rightarrow> world" where
  "update_attempt k f w = w\<lparr>settlement_attempts := update_row attempt_id k f (settlement_attempts w)\<rparr>"

section \<open>The retry queue\<close>

definition calculateNextRetry :: "instant \<Rightarrow> nat \<Rightarrow> instant" where
  "calculateNextRetry now attempts = now + INITIAL_BACKOFF_MS * 2 ^ attempts"

definition addToRetryQueue :: "instant \<Rightarrow> market \<Rightarrow> string \<Rightarrow> retry_queue \<Rightarrow> retry_queue" where
  "addToRetryQueue now m err q =
     (if mkt_id m \<in> fst ` set q then q
      else q @ [(mkt_id m, \<lparr>ri_marketId = mkt_id m, ri_attempts = 0, lastError = Some err,
                           nextRetryAt = calculateNextRetry now 0\<rparr>)])"

definition delete_entry :: "id \<Rightarrow> retry_queue \<Rightarrow> retry_queue" where
  "delete_entry k q = filter (\<lambda>e. fst e \<noteq> k) q"

definition getDeadLetterQueue :: "retry_queue \<Rightarrow> SettlementRetryInfo list" where
  "getDeadLetterQueue q = map snd q"

section \<open>The transactions\<close>

text \<open>
  The claim.  A failing query takes the \<open>catch\<close> branch, which rolls back and returns \<open>null\<close> like
  the refused lock.
\<close>

definition claimMarketForSettlement ::
  "settle_env \<Rightarrow> instant \<Rightarrow> id \<Rightarrow> world \<Rightarrow> (string \<times> id) option \<times> world"
where
  "claimMarketForSettlement env now k w =
     (if \<not> gotLock env then (None, w)
      else case find_market k w of
             None \<Rightarrow> (None, w)
           | Some fresh \<Rightarrow>
               if \<not> (canTransition (settlement_state fresh) SETTLING \<and> truthy (proposed_outcome fresh))
               then (None, w)
               else if settlement_attempt_count fresh \<ge> MAX_RETRY_ATTEMPTS then (None, w)
               else let attempt = \<lparr>attempt_id = newAttemptId env, attempt_market_id = mkt_id fresh,
                          attempt_status = RESOLVING, attempt_proposed_outcome = proposed_outcome fresh,
                          error_message = None, attempt_created_at = now, completed_at = None\<rparr>;
                        w1 = w\<lparr>settlement_attempts := settlement_attempts w @ [attempt]\<rparr>;
                        w2 = update_market (mkt_id fresh) (\<lambda>m.
                               m\<lparr>settlement_state := SETTLING,
                                 settlement_attempt_count := settlement_attempt_count fresh + 1\<rparr>) w1
                    in (Some (the (proposed_outcome fresh), newAttemptId env), w2))"

definition finalizeSettlement ::
  "settle_env \<Rightarrow> instant \<Rightarrow> id \<Rightarrow> string \<Rightarrow> id \<Rightarrow> (world, exn, unit) action"
where
  "finalizeSettlement env now k outcome attemptId w =
     (if \<not> finalize_ok env then (Inl QueryFailed, w)
      else let w1 = update_market k (\<lambda>m.
                      m\<lparr>settlement_state := SETTLED, is_resolved := True,
                        resolved_outcome := Some outcome, resolved_at := Some now\<rparr>) w;
               w2 = update_attempt attemptId (\<lambda>a.
                      a\<lparr>attempt_status := RESOLVED, completed_at := Some now\<rparr>) w1
           in (Inr (), emit ''market.settled'' k w2))"

definition recordAttemptFailure :: "instant \<Rightarrow> id \<Rightarrow> string \<Rightarrow> world \<Rightarrow> world" where
  "recordAttemptFailure now attemptId errorMessage w =
     update_attempt attemptId (\<lambda>a. a\<lparr>attempt_status := FAILED, error_message := Some errorMessage,
       completed_at := Some now\<rparr>) w"

section \<open>Settling one market\<close>

definition settleMarket ::
  "settle_env \<Rightarrow> instant \<Rightarrow> market \<Rightarrow> (retry_queue \<times> world, exn, bool) action"
where
  "settleMarket env now m qw =
     (case qw of (q, w) \<Rightarrow>
       (case claimMarketForSettlement env now (mkt_id m) w of
          (None, w1) \<Rightarrow> (Inr False, q, w1)
        | (Some (outcome, attemptId), w1) \<Rightarrow>
            (case resolveMarket_call (soroban env) (on_chain_market_id m) outcome of
               Inl _ \<Rightarrow> (Inr False, addToRetryQueue now m (errorMsg env) q,
                         recordAttemptFailure now attemptId (errorMsg env) w1)
             | Inr _ \<Rightarrow>
                 (case finalizeSettlement env now (mkt_id m) outcome attemptId
                         (call_chain (ResolveMarket (on_chain_market_id m) outcome) w1) of
                    (Inl e, w2) \<Rightarrow> (Inl e, q, w2)
                  | (Inr _, w2) \<Rightarrow> (Inr True, q, w2)))))"

definition settleMarketWithRetry ::
  "settle_env \<Rightarrow> instant \<Rightarrow> market \<Rightarrow> (retry_queue \<times> world, exn, bool) action"
where
  "settleMarketWithRetry env now m qw =
     (case settleMarket env now m qw of
        (Inr False, q1, w1) \<Rightarrow>
          (Inr False,
           update_row fst (mkt_id m) (\<lambda>(k, info).
             (k, info\<lparr>ri_attempts := ri_attempts info + 1,
                   lastError := Some ''Settlement attempt failed, see logs'',
                   nextRetryAt := calculateNextRetry now (ri_attempts info + 1)\<rparr>)) q1, w1)
      | r \<Rightarrow> r)"

definition retrySettlement :: "settle_env \<Rightarrow> instant \<Rightarrow> id \<Rightarrow> (retry_queue \<times> world, exn, bool) action" where
  "retrySettlement env now k qw =
     (case find_market k (snd qw) of
        None \<Rightarrow> (Inl (PlainError (''Market '' @ k @ '' not found'')), qw)
      | Some m \<Rightarrow>
          if k \<notin> fst ` set (fst qw)
          then (Inl (PlainError (''Market '' @ k @ '' not in retry queue'')), qw)
          else case settleMarketWithRetry env now m qw of
                 (Inr True, q1, w1) \<Rightarrow> (Inr True, delete_entry k q1, w1)
               | r \<Rightarrow> r)"

section \<open>The sweep\<close>

definition due_markets :: "instant \<Rightarrow> world \<Rightarrow> market list" where
  "due_markets now w =
     filter (\<lambda>m. case resolution_proposed_at m of
                   None \<Rightarrow> False
                 | Some p \<Rightarrow> graceDeadline p m \<le> now)
       (take MAX_SETTLEMENTS_PER_TICK (filter (\<lambda>m. settlement_state m = PROPOSED) (markets w)))"

text \<open>\<open>findOne\<close> with \<open>order: { created_at: 'DESC' }\<close>; the earlier row wins a tie.\<close>

fun latest_attempt :: "settlement_attempt list \<Rightarrow> settlement_attempt option" where
  "latest_attempt [] = None"
| "latest_attempt (a # as) =
     (case latest_attempt as of
        None \<Rightarrow> Some a
      | Some b \<Rightarrow> if attempt_created_at a \<ge> attempt_created_at b then Some a else Some b)"

definition findStaleSettlingMarkets :: "instant \<Rightarrow> world \<Rightarrow> market list" where
  "findStaleSettlingMarkets now w =
     filter (\<lambda>m. case latest_attempt (filter (\<lambda>a. attempt_market_id a = mkt_id m) (settlement_attempts w)) of
                   None \<Rightarrow> False
                 | Some a \<Rightarrow> attempt_status a = RESOLVING \<and>
                            attempt_created_at a \<le> now - STALE_SETTLING_THRESHOLD_MS)
       (take MAX_SETTLEMENTS_PER_TICK (filter (\<lambda>m. settlement_state m = SETTLING) (markets w)))"

text \<open>The loop of the sweep: an exception on one market is caught and the next one is tried.\<close>

fun settle_each ::
  "(id \<Rightarrow> settle_env) \<Rightarrow> instant \<Rightarrow> market list \<Rightarrow> retry_queue \<times> world \<Rightarrow> nat \<times> retry_queue \<times> world"
where
  "settle_each env now [] qw = (0, qw)"
| "settle_each env now (m # ms) qw =
     (case settleMarket (env (mkt_id m)) now m qw of
        (r, qw1) \<Rightarrow>
          (case settle_each env now ms qw1 of
             (n, qw2) \<Rightarrow> (if r = Inr True then n + 1 else n, qw2)))"

definition settleEligibleMarkets ::
  "(id \<Rightarrow> settle_env) \<Rightarrow> instant \<Rightarrow> retry_queue \<times> world \<Rightarrow> nat \<times> retry_queue \<times> world"
where
  "settleEligibleMarkets env now qw =
     settle_each env now (due_markets now (snd qw) @ findStaleSettlingMarkets now (snd qw)) qw"

text \<open>
  The retries: the entries due are snapshot first; \<open>retryInfo.attempts\<close> in the second test is read
  after \<open>settleMarketWithRetry\<close> has incremented it.  An exception ends the loop.
\<close>

definition emitDeadLetterAlert :: "id \<Rightarrow> world \<Rightarrow> world" where
  "emitDeadLetterAlert k w = emit ''market.settlement.failed'' k w"

fun retry_each ::
  "(id \<Rightarrow> settle_env) \<Rightarrow> instant \<Rightarrow> (id \<times> SettlementRetryInfo) list \<Rightarrow> (retry_queue \<times> world, exn, unit) action"
where
  "retry_each env now [] qw = (Inr (), qw)"
| "retry_each env now ((k, info) # es) (q, w) =
     (case find_market k w of
        None \<Rightarrow> retry_each env now es (delete_entry k q, w)
      | Some m \<Rightarrow>
          (case settleMarketWithRetry (env k) now m (q, w) of
             (Inl e, qw1) \<Rightarrow> (Inl e, qw1)
           | (Inr settled, q1, w1) \<Rightarrow>
               if settled then retry_each env now es (delete_entry k q1, w1)
               else if int (ri_attempts info + 1) \<ge> MAX_RETRY_ATTEMPTS - 1
               then retry_each env now es (q1, emitDeadLetterAlert (mkt_id m) w1)
               else retry_each env now es (q1, w1)))"

definition processRetries :: "(id \<Rightarrow> settle_env) \<Rightarrow> instant \<Rightarrow> (retry_queue \<times> world, exn, unit) action" where
  "processRetries env now qw =
     retry_each env now
       (filter (\<lambda>(_, info). nextRetryAt info \<le> now \<and> int (ri_attempts info) < MAX_RETRY_ATTEMPTS) (fst qw)) qw"

text \<open>The cron entry point; it logs whatever \<open>processRetries\<close> throws.\<close>

definition handleSettlement :: "(id \<Rightarrow> settle_env) \<Rightarrow> instant \<Rightarrow> retry_queue \<times> world \<Rightarrow> retry_queue \<times> world" where
  "handleSettlement env now qw =
     snd (processRetries env now (snd (settleEligibleMarkets env now qw)))"

end
