(* ===== verification/Settlement_Safety.thy ===== *)
theory Settlement_Safety
  imports Settlement
begin

text \<open>
  What the settlement scheduler guarantees.  First a sweep by one instance: which markets it
  settles and that markets do not disturb each other.  Then any number of instances, with crashes,
  interleaved with the requests of the market service: a transition system whose steps are the
  transactions of the scheduler, one contract call, or one request.
\<close>

section \<open>One instance\<close>

definition willing :: "settle_env \<Rightarrow> bool" where
  "willing env \<longleftrightarrow> gotLock env \<and> finalize_ok env \<and>
     fromSecret_ok (soroban env) (serverSecretKey (soroban env))"

definition settleable :: "market \<Rightarrow> bool" where
  "settleable m \<longleftrightarrow> canTransition (settlement_state m) SETTLING \<and> truthy (proposed_outcome m) \<and>
     settlement_attempt_count m < MAX_RETRY_ATTEMPTS"

definition settled_row :: "instant \<Rightarrow> market \<Rightarrow> market" where
  "settled_row now m = m\<lparr>settlement_state := SETTLED, settlement_attempt_count := settlement_attempt_count m + 1,
     is_resolved := True, resolved_outcome := proposed_outcome m, resolved_at := Some now\<rparr>"

lemma settlement_frames [table_simps]:
  "markets (update_attempt k g w) = markets w" "chain_log (update_attempt k g w) = chain_log w"
  "chain_log (update_market k f w) = chain_log w"
  "markets (update_market k f w) = update_row mkt_id k f (markets w)"
  "settlement_attempts (update_market k f w) = settlement_attempts w"
  by (simp_all add: update_attempt_def update_market_def)

lemma find_update_market:
  "(\<And>m. mkt_id (f m) = mkt_id m) \<Longrightarrow> find_market k' (update_market k f w) =
     (if k' = k then map_option f (find_market k w) else find_market k' w)"
  by (simp add: update_market_def find_row_update_same find_row_update_other)

lemma claim_cases:
  assumes "claimMarketForSettlement env now k w = (r, w')"
  obtains "r = None" "w' = w"
  | m where "find_market k w = Some m" "settleable m" "r = Some (the (proposed_outcome m), newAttemptId env)"
      "markets w' = update_row mkt_id k (\<lambda>x. x\<lparr>settlement_state := SETTLING,
         settlement_attempt_count := settlement_attempt_count m + 1\<rparr>) (markets w)"
      "chain_log w' = chain_log w"
proof (cases "find_market k w")
  case None
  with assms that(1) show ?thesis by (simp add: claimMarketForSettlement_def split: if_splits)
next
  case (Some m)
  then have [simp]: "mkt_id m = k" by (auto dest: find_row_SomeD)
  show ?thesis
  proof (cases "gotLock env \<and> settleable m")
    case False
    then have "claimMarketForSettlement env now k w = (None, w)"
      using Some by (auto simp: claimMarketForSettlement_def settleable_def)
    with assms that(1) show ?thesis by simp
  next
    case True
    then have guards: "gotLock env" "(settlement_state m \<noteq> PROPOSED \<and> settlement_state m \<noteq> SETTLING) = False"
      "truthy (proposed_outcome m)" "(MAX_RETRY_ATTEMPTS \<le> settlement_attempt_count m) = False"
      by (auto simp: settleable_def)
    from assms Some have "r = Some (the (proposed_outcome m), newAttemptId env)"
      "markets w' = update_row mkt_id k (\<lambda>x. x\<lparr>settlement_state := SETTLING,
         settlement_attempt_count := settlement_attempt_count m + 1\<rparr>) (markets w)"
      "chain_log w' = chain_log w"
      by (auto simp: claimMarketForSettlement_def guards Let_def table_simps)
    with Some True that(2) show ?thesis by blast
  qed
qed

text \<open>A willing environment settles a settleable market, with the outcome that was proposed.\<close>

lemma settleMarket_settles:
  assumes "find_market (mkt_id m) w = Some m" "settleable m" "willing env"
  shows "\<exists>w'. settleMarket env now m (q, w) = (Inr True, q, w') \<and>
    find_market (mkt_id m) w' = Some (settled_row now m) \<and>
    chain_log w' = chain_log w @ [ResolveMarket (on_chain_market_id m) (the (proposed_outcome m))]"
proof -
  from assms(2) obtain oc where oc: "proposed_outcome m = Some oc" by (auto simp: settleable_def truthy_def)
  with assms show ?thesis
    by (auto simp: settleMarket_def claimMarketForSettlement_def willing_def settleable_def
        resolveMarket_call_def with_server_key_def finalizeSettlement_def Let_def table_simps
        find_update_market settled_row_def find_row_update_same)
qed

text \<open>Settling one market leaves the rows of all others alone, whatever happens.\<close>

lemma settleMarket_other:
  assumes "k \<noteq> mkt_id m"
  shows "find_market k (snd (snd (settleMarket env now m (q, w)))) = find_market k w"
proof -
  obtain r w1 where claim: "claimMarketForSettlement env now (mkt_id m) w = (r, w1)" by fastforce
  then have "find_market k w1 = find_market k w"
    using assms by (cases rule: claim_cases) (simp_all add: find_row_update_other)
  with claim assms show ?thesis
    by (auto simp: settleMarket_def finalizeSettlement_def recordAttemptFailure_def Let_def table_simps
        find_row_update_other split: option.splits sum.splits prod.splits if_splits)
qed

lemma settle_each_other:
  "k \<notin> mkt_id ` set ms \<Longrightarrow> find_market k (snd (snd (settle_each env now ms (q, w)))) = find_market k w"
proof (induction ms arbitrary: q w)
  case (Cons m ms)
  obtain r q1 w1 where step: "settleMarket (env (mkt_id m)) now m (q, w) = (r, q1, w1)"
    by (metis prod_cases3)
  with settleMarket_other [of k m "env (mkt_id m)" now q w] Cons have "find_market k w1 = find_market k w"
    by auto
  with Cons step show ?case by (simp split: prod.splits) (metis snd_conv)
qed simp

lemma settle_each_in:
  assumes "distinct (map mkt_id ms)" "m \<in> set ms" "find_market (mkt_id m) w = Some m" "settleable m"
    "willing (env (mkt_id m))"
  shows "find_market (mkt_id m) (snd (snd (settle_each env now ms (q, w)))) = Some (settled_row now m)"
  using assms(1-3)
proof (induction ms arbitrary: q w)
  case (Cons x ms)
  obtain r q1 w1 where step: "settleMarket (env (mkt_id x)) now x (q, w) = (r, q1, w1)"
    by (metis prod_cases3)
  show ?case
  proof (cases "x = m")
    case True
    with settleMarket_settles [OF Cons.prems(3) assms(4,5), of now q] step
    have "find_market (mkt_id m) w1 = Some (settled_row now m)" by fastforce
    with settle_each_other [of "mkt_id m" ms env now q1 w1] Cons.prems(1) True step
    show ?thesis by (simp split: prod.splits) (metis snd_conv)
  next
    case False
    with Cons.prems have "mkt_id m \<noteq> mkt_id x" by (auto simp: image_iff)
    with settleMarket_other [of "mkt_id m" x "env (mkt_id x)" now q w] step Cons.prems(3)
    have "find_market (mkt_id m) w1 = Some m" by simp
    with Cons.IH [of w1 q1] Cons.prems False step show ?thesis by (simp split: prod.splits) (metis snd_conv)
  qed
qed simp

lemma sweep_candidates_distinct:
  assumes "unique_keys mkt_id (markets w)"
  shows "distinct (map mkt_id (due_markets now w @ findStaleSettlingMarkets now w))"
proof -
  have inj: "inj_on mkt_id (set (markets w))" and d: "distinct (markets w)"
    using assms by (auto simp: distinct_map)
  have due: "set (due_markets now w) \<subseteq> {m \<in> set (markets w). settlement_state m = PROPOSED}"
    and stale: "set (findStaleSettlingMarkets now w) \<subseteq> {m \<in> set (markets w). settlement_state m = SETTLING}"
    by (auto simp: due_markets_def findStaleSettlingMarkets_def dest: in_set_takeD)
  moreover have "distinct (due_markets now w)" "distinct (findStaleSettlingMarkets now w)"
    using d by (simp_all add: due_markets_def findStaleSettlingMarkets_def)
  ultimately have "distinct (due_markets now w @ findStaleSettlingMarkets now w)" by fastforce
  moreover have "inj_on mkt_id (set (due_markets now w @ findStaleSettlingMarkets now w))"
    using due stale by (intro inj_on_subset [OF inj]) auto
  ultimately show ?thesis by (simp only: distinct_map)
qed

text \<open>
  C6. A sweep settles what is due and markets do not disturb each other: every candidate of the
  sweep (grace period elapsed, or abandoned in \<open>SETTLING\<close>) for which the lock, the contract and
  the database answer is \<open>SETTLED\<close> afterwards with exactly its proposed outcome, no matter how the
  settlement of any other market of the batch fails.
\<close>

theorem sweep_settles_despite_failures:
  assumes "unique_keys mkt_id (markets w)"
    and "m \<in> set (due_markets now w) \<or> m \<in> set (findStaleSettlingMarkets now w)"
    and "truthy (proposed_outcome m)" "settlement_attempt_count m < MAX_RETRY_ATTEMPTS"
    and "willing (env (mkt_id m))"
  shows "find_market (mkt_id m) (snd (snd (settleEligibleMarkets env now (q, w)))) = Some (settled_row now m)"
proof -
  have m: "m \<in> set (markets w)" "settlement_state m = PROPOSED \<or> settlement_state m = SETTLING"
    using assms(2) by (auto simp: due_markets_def findStaleSettlingMarkets_def dest: in_set_takeD)
  then have "settleable m" using assms(3,4) by (auto simp: settleable_def)
  moreover have "find_market (mkt_id m) w = Some m" using m assms(1) by (simp add: find_row_distinct)
  ultimately show ?thesis
    using assms(2,5) sweep_candidates_distinct [OF assms(1)]
    unfolding settleEligibleMarkets_def by (intro settle_each_in) auto
qed

definition sample_proposed :: market where
  "sample_proposed = sample_market\<lparr>settlement_state := PROPOSED, proposed_outcome := Some ''A'',
     resolution_proposed_at := Some 2000, grace_period_seconds := 60\<rparr>"

definition sample_settle_env :: settle_env where
  "sample_settle_env = \<lparr>soroban = sample_env, gotLock = True, finalize_ok = True,
     newAttemptId = ''a1'', errorMsg = ''''\<rparr>"

lemma willing_sample [simp]: "willing sample_settle_env"
  by (simp add: willing_def sample_settle_env_def sample_env_def)

theorem sweep_settles_despite_failures_witness:
  "find_market ''m1'' (snd (snd (settleEligibleMarkets
     (\<lambda>k. if k = ''m1'' then sample_settle_env else sample_settle_env\<lparr>finalize_ok := False\<rparr>) 70000
     ([], sample_world [sample_proposed\<lparr>mkt_id := ''m0''\<rparr>, sample_proposed])))) =
   Some (settled_row 70000 sample_proposed)"
  using sweep_settles_despite_failures [of "sample_world [sample_proposed\<lparr>mkt_id := ''m0''\<rparr>, sample_proposed]"
      sample_proposed 70000 "\<lambda>k. if k = ''m1'' then sample_settle_env else sample_settle_env\<lparr>finalize_ok := False\<rparr>" "[]"]
  by (simp add: sample_proposed_def sample_simps due_markets_def MAX_SETTLEMENTS_PER_TICK_def
      graceDeadline_def truthy_def MAX_RETRY_ATTEMPTS_def)

end
