(* ===== verification/Settlement_Concurrency.thy ===== *)
theory Settlement_Concurrency
  imports Settlement_Safety
begin

text \<open>
  Any number of scheduler instances beside the market service.  Between the claim and the
  finalisation of a market an instance holds neither a transaction nor a lock, so every other
  instance and every request may run in between, and the instance may crash.  A job is a
  settlement in flight; a step is one claim, one contract call, one transaction, one crash or one
  request of the market service, in any order.
\<close>

section \<open>The transition system\<close>

record job =
  job_market :: id
  job_chain :: string
  job_outcome :: string
  job_attempt :: id
  job_called :: bool

inductive sched_step ::
  "(market_cmd \<Rightarrow> world \<Rightarrow> bool) \<Rightarrow> world \<times> job list \<Rightarrow> world \<times> job list \<Rightarrow> bool"
  for allow where
  request: "allow cmd w \<Longrightarrow> sched_step allow (w, js) (handle env now cmd w, js)"
| claim: "find_market k w = Some m \<Longrightarrow>
    claimMarketForSettlement senv now k w = (Some (oc, a), w') \<Longrightarrow>
    sched_step allow (w, js)
      (w', \<lparr>job_market = k, job_chain = on_chain_market_id m, job_outcome = oc, job_attempt = a,
            job_called = False\<rparr> # js)"
| call: "\<not> job_called j \<Longrightarrow> resolveMarket_call env (job_chain j) (job_outcome j) = Inr () \<Longrightarrow>
    sched_step allow (w, js1 @ j # js2)
      (call_chain (ResolveMarket (job_chain j) (job_outcome j)) w, j\<lparr>job_called := True\<rparr> # js1 @ js2)"
| call_fails: "\<not> job_called j \<Longrightarrow> resolveMarket_call env (job_chain j) (job_outcome j) = Inl e \<Longrightarrow>
    sched_step allow (w, js1 @ j # js2) (recordAttemptFailure now (job_attempt j) msg w, js1 @ js2)"
| finalize: "job_called j \<Longrightarrow>
    finalizeSettlement senv now (job_market j) (job_outcome j) (job_attempt j) w = (r, w') \<Longrightarrow>
    sched_step allow (w, js1 @ j # js2) (w', js1 @ js2)"
| crash: "sched_step allow (w, js1 @ j # js2) (w, js1 @ js2)"
| alert: "sched_step allow (w, js) (emitDeadLetterAlert k w, js)"

section \<open>The invariant\<close>

fun is_resolve :: "string \<Rightarrow> chain_call \<Rightarrow> bool" where
  "is_resolve c (ResolveMarket c' _) = (c' = c)"
| "is_resolve c _ = False"

definition resolves :: "string \<Rightarrow> chain_call list \<Rightarrow> nat" where
  "resolves c calls = length (filter (is_resolve c) calls)"

definition pending_calls :: "string \<Rightarrow> job list \<Rightarrow> nat" where
  "pending_calls c js = length (filter (\<lambda>j. job_chain j = c \<and> \<not> job_called j) js)"

text \<open>
  The calls a market may still have caused: one per attempt, one for the admin resolution, one for
  the adjudication of a challenge.
\<close>

definition call_budget :: "market \<Rightarrow> int" where
  "call_budget m = settlement_attempt_count m + of_bool (is_resolved m) + of_bool (settlement_state m = SETTLED)"

definition row_ok :: "bool \<Rightarrow> market \<Rightarrow> bool" where
  "row_ok strict m \<longleftrightarrow> market_ok m \<and> settlement_attempt_count m \<le> MAX_RETRY_ATTEMPTS \<and>
     (strict \<longrightarrow> settlement_state m = SETTLED \<longrightarrow> resolved_outcome m = proposed_outcome m)"

definition claimed :: "bool \<Rightarrow> job \<Rightarrow> market \<Rightarrow> bool" where
  "claimed strict j m \<longleftrightarrow> mkt_id m = job_market j \<and> on_chain_market_id m = job_chain j \<and>
     settlement_state m \<in> {SETTLING, SETTLED} \<and> job_outcome j \<in> set (outcome_options m) \<and>
     (strict \<longrightarrow> proposed_outcome m = Some (job_outcome j))"

definition within_budget :: "world \<Rightarrow> job list \<Rightarrow> market \<Rightarrow> bool" where
  "within_budget w js m \<longleftrightarrow> int (resolves (on_chain_market_id m) (chain_log w)) +
     int (pending_calls (on_chain_market_id m) js) \<le> call_budget m"

definition known_calls :: "world \<Rightarrow> bool" where
  "known_calls w \<longleftrightarrow> (\<forall>c. c \<notin> on_chain_market_id ` set (markets w) \<longrightarrow> resolves c (chain_log w) = 0)"

definition sched_inv :: "bool \<Rightarrow> world \<times> job list \<Rightarrow> bool" where
  "sched_inv strict s = (case s of (w, js) \<Rightarrow>
     markets_ok (markets w) \<and> known_calls w \<and>
     (\<forall>m \<in> set (markets w). row_ok strict m \<and> within_budget w js m) \<and>
     (\<forall>j \<in> set js. \<exists>m \<in> set (markets w). claimed strict j m))"

lemma resolves_append [simp]: "resolves c (xs @ ys) = resolves c xs + resolves c ys"
  by (simp add: resolves_def)

lemma resolves_creates [simp]: "resolves c (map (\<lambda>x. CreateMarket (f x)) cs) = 0"
  by (induction cs) (auto simp: resolves_def)

lemma resolves_single [simp]:
  "resolves c [] = 0" "resolves c [ResolveMarket c' oc] = of_bool (c' = c)"
  by (auto simp: resolves_def)

lemma pending_calls_Cons [simp]:
  "pending_calls c [] = 0"
  "pending_calls c (j # js) = of_bool (job_chain j = c \<and> \<not> job_called j) + pending_calls c js"
  "pending_calls c (js1 @ js2) = pending_calls c js1 + pending_calls c js2"
  by (auto simp: pending_calls_def)

lemma resolves_chain_calls:
  "resolves c (chain_calls m m') =
     of_bool (c = on_chain_market_id m \<and> ((\<not> is_resolved m \<and> is_resolved m') \<or>
       (settlement_state m \<noteq> SETTLED \<and> settlement_state m' = SETTLED)))"
  by (auto simp: chain_calls_def resolves_def)

section \<open>One row replaced, or none\<close>

lemma sched_inv_no_pending:
  assumes "sched_inv strict (w, js)" "c \<notin> on_chain_market_id ` set (markets w)"
  shows "pending_calls c js = 0"
proof -
  have "job_chain j \<in> on_chain_market_id ` set (markets w)" if "j \<in> set js" for j
  proof -
    from assms(1) that obtain m where "m \<in> set (markets w)" "on_chain_market_id m = job_chain j"
      by (auto simp: sched_inv_def claimed_def)
    then show ?thesis by (metis imageI)
  qed
  with assms(2) show ?thesis by (auto simp: pending_calls_def filter_empty_conv)
qed

text \<open>The two shapes of a step: the table keeps its rows, or one row is replaced.\<close>

lemma sched_inv_same_rows:
  assumes "sched_inv strict (w, js)" "markets w' = markets w" "chain_log w' = chain_log w @ cs"
    and "\<And>c. resolves c cs + pending_calls c js' \<le> pending_calls c js"
    and "\<And>j. j \<in> set js' \<Longrightarrow> \<exists>i \<in> set js. job_market i = job_market j \<and> job_chain i = job_chain j \<and>
      job_outcome i = job_outcome j"
  shows "sched_inv strict (w', js')"
proof -
  have jobs: "\<exists>m \<in> set (markets w). claimed strict j m" if "j \<in> set js'" for j
    using assms(5) [OF that] assms(1) by (fastforce simp: sched_inv_def claimed_def)
  have "within_budget w' js' m" if "m \<in> set (markets w)" for m
    using assms(1,3) assms(4) [of "on_chain_market_id m"] that
    by (fastforce simp: sched_inv_def within_budget_def)
  moreover have "known_calls w'"
  proof (unfold known_calls_def, intro allI impI)
    fix c assume c: "c \<notin> on_chain_market_id ` set (markets w')"
    then have "pending_calls c js = 0" using sched_inv_no_pending [OF assms(1), of c] assms(2) by simp
    with assms(4) [of c] have "resolves c cs = 0" by simp
    with c assms(1-3) show "resolves c (chain_log w') = 0" by (simp add: sched_inv_def known_calls_def)
  qed
  ultimately show ?thesis
    using assms(1,2) jobs by (simp add: sched_inv_def)
qed

lemma sched_inv_replace:
  assumes inv: "sched_inv strict (w, js)" and m: "m \<in> set (markets w)"
    and w': "markets w' = save_row mkt_id m' (markets w)" "chain_log w' = chain_log w @ cs"
    and frame: "mkt_id m' = mkt_id m" "on_chain_market_id m' = on_chain_market_id m"
    and ok: "row_ok strict m'" and jobs_m: "\<And>j. claimed strict j m \<Longrightarrow> claimed strict j m'"
    and js': "\<And>j. j \<in> set js' \<Longrightarrow> j \<in> set js \<or> claimed strict j m'"
    and other: "\<And>c. c \<noteq> on_chain_market_id m \<Longrightarrow> resolves c cs = 0 \<and> pending_calls c js' \<le> pending_calls c js"
    and budget: "int (resolves (on_chain_market_id m) cs) + int (pending_calls (on_chain_market_id m) js') +
      call_budget m \<le> int (pending_calls (on_chain_market_id m) js) + call_budget m'"
  shows "sched_inv strict (w', js')"
proof -
  from inv have ok_w: "markets_ok (markets w)" and rows: "\<And>x. x \<in> set (markets w) \<Longrightarrow> row_ok strict x \<and> within_budget w js x"
    and jobs: "\<And>j. j \<in> set js \<Longrightarrow> \<exists>x \<in> set (markets w). claimed strict j x" and known: "known_calls w"
    by (auto simp: sched_inv_def)
  then have uniq: "unique_keys mkt_id (markets w)" "inj_on on_chain_market_id (set (markets w))"
    by (auto simp: markets_ok_def distinct_map)
  have rows': "set (markets w') = insert m' (set (markets w) - {m})"
    using uniq(1) m frame(1) by (auto simp: w'(1) save_row_replaces)
  have ids: "map on_chain_market_id (markets w') = map on_chain_market_id (markets w)"
    using on_chain_ids_save_row [OF m uniq(1) frame] by (simp add: w'(1))
  have "markets_ok (markets w')"
    using ok_w ok ids by (simp add: w'(1) markets_ok_def unique_keys_save list_all_save_row row_ok_def)
  moreover have "known_calls w'"
    unfolding known_calls_def
  proof (intro allI impI)
    fix c assume "c \<notin> on_chain_market_id ` set (markets w')"
    moreover have "on_chain_market_id ` set (markets w') = on_chain_market_id ` set (markets w)"
      using arg_cong [OF ids, of set] by simp
    ultimately have "c \<notin> on_chain_market_id ` set (markets w)" by simp
    with m have "c \<noteq> on_chain_market_id m" "resolves c (chain_log w) = 0"
      using known by (auto simp: known_calls_def)
    with other show "resolves c (chain_log w') = 0" by (simp add: w'(2))
  qed
  moreover have "row_ok strict x \<and> within_budget w' js' x" if "x \<in> set (markets w')" for x
  proof (cases "x = m'")
    case True
    with rows [OF m] budget ok frame(2) show ?thesis by (simp add: within_budget_def w'(2))
  next
    case False
    with that rows' have x: "x \<in> set (markets w)" "x \<noteq> m" by auto
    with uniq(2) m have "on_chain_market_id x \<noteq> on_chain_market_id m" by (auto dest: inj_onD)
    with other [of "on_chain_market_id x"] rows [OF x(1)] show ?thesis by (simp add: within_budget_def w'(2))
  qed
  moreover have "\<exists>x \<in> set (markets w'). claimed strict j x" if "j \<in> set js'" for j
    using js' [OF that] jobs jobs_m by (fastforce simp: rows')
  ultimately show ?thesis by (simp add: sched_inv_def)
qed

section \<open>Every step keeps the invariant\<close>

text \<open>The restriction under which settled outcomes agree: no admin adjudicates a market in \<open>SETTLING\<close>.\<close>

fun spares_settling :: "market_cmd \<Rightarrow> world \<Rightarrow> bool" where
  "spares_settling (AdjudicateChallenge k _ _) w =
     (map_option settlement_state (findByIdOrOnChainId k w) \<noteq> Some SETTLING)"
| "spares_settling _ w = True"

definition allow_for :: "bool \<Rightarrow> market_cmd \<Rightarrow> world \<Rightarrow> bool" where
  "allow_for strict cmd w \<longleftrightarrow> (strict \<longrightarrow> spares_settling cmd w)"

lemma row_step_budget:
  "row_step now ev m m' \<Longrightarrow> int (resolves (on_chain_market_id m) (chain_calls m m')) + call_budget m \<le> call_budget m'"
  by (induction rule: row_step.induct) (auto simp: resolves_chain_calls call_budget_def)

lemma row_step_row_ok:
  "row_step now ev m m' \<Longrightarrow> row_ok strict m \<Longrightarrow> row_ok strict m'"
  using row_step_market_ok [of now ev m m'] row_step_frame [of now ev m m']
  by (auto simp: row_ok_def elim: row_stepE)

lemma row_step_claimed:
  "row_step now ev m m' \<Longrightarrow> claimed strict j m \<Longrightarrow> strict \<longrightarrow> ev = Adjudicated \<longrightarrow> settlement_state m \<noteq> SETTLING \<Longrightarrow>
   claimed strict j m'"
  by (cases rule: row_step.cases) (auto simp: claimed_def)

lemma sched_inv_request:
  assumes step: "world_step now cmd w w'" and inv: "sched_inv strict (w, js)" and allow: "allow_for strict cmd w"
  shows "sched_inv strict (w', js)"
  using step
proof (cases rule: world_step.cases)
  case (unchanged cs)
  show ?thesis by (rule sched_inv_same_rows [OF inv unchanged]) auto
next
  case (inserted new)
  have ok: "markets_ok (markets w')" using world_step_ok [OF step] inv by (simp add: sched_inv_def)
  have fresh: "row_ok strict m \<and> within_budget w' js m" if "m \<in> set new" for m
  proof -
    have "on_chain_market_id m \<notin> on_chain_market_id ` set (markets w)"
      using ok that inserted(3) by (auto simp: markets_ok_def)
    with sched_inv_no_pending [OF inv] inv inserted(2,6) that fresh_market_ok [of now m] show ?thesis
      by (auto simp: sched_inv_def known_calls_def within_budget_def row_ok_def call_budget_def list_all_iff
          fresh_market_def MAX_RETRY_ATTEMPTS_def)
  qed
  with inv inserted(3,6) ok show ?thesis
    by (auto simp: sched_inv_def known_calls_def within_budget_def)
next
  case (advanced k ev m m')
  have m: "m \<in> set (markets w)" "row_ok strict m"
    using findByIdOrOnChainId_SomeD [OF advanced(2)] inv by (auto simp: sched_inv_def)
  have "strict \<longrightarrow> ev = Adjudicated \<longrightarrow> settlement_state m \<noteq> SETTLING"
    using allow advanced(1,2) by (cases cmd) (auto simp: allow_for_def)
  note claimed = row_step_claimed [OF advanced(3) _ this]
  show ?thesis
    by (rule sched_inv_replace [OF inv m(1) advanced(4,7)])
       (use row_step_frame [OF advanced(3)] row_step_row_ok [OF advanced(3) m(2)] row_step_budget [OF advanced(3)]
         in \<open>auto simp: resolves_chain_calls intro: claimed\<close>)
qed

lemma sched_inv_claim:
  assumes "find_market k w = Some m" and claim: "claimMarketForSettlement senv now k w = (Some (oc, a), w')"
    and inv: "sched_inv strict (w, js)"
  shows "sched_inv strict (w', \<lparr>job_market = k, job_chain = on_chain_market_id m, job_outcome = oc,
    job_attempt = a, job_called = False\<rparr> # js)"
  using claim
proof (cases rule: claim_cases)
  case (2 x)
  with assms(1) have [simp]: "x = m" by simp
  let ?m = "m\<lparr>settlement_state := SETTLING, settlement_attempt_count := settlement_attempt_count m + 1\<rparr>"
  have m: "m \<in> set (markets w)" "mkt_id m = k" using assms(1) by (auto dest: find_row_SomeD)
  with inv have ok: "row_ok strict m" "unique_keys mkt_id (markets w)" by (auto simp: sched_inv_def markets_ok_def)
  have st: "settlement_state m = PROPOSED \<or> settlement_state m = SETTLING" "settlement_attempt_count m < MAX_RETRY_ATTEMPTS"
    using 2(2) by (auto simp: settleable_def)
  with ok(1) 2(3) have oc: "oc \<in> set (outcome_options m)" "proposed_outcome m = Some oc"
    by (auto simp: row_ok_def market_ok_def has_outcome_def)
  have "markets w' = save_row mkt_id ?m (markets w)"
    using 2(4) update_row_as_save [OF assms(1) ok(2)] m(2) by simp
  then show ?thesis
    by (rule sched_inv_replace [OF inv m(1), where cs = "[]"])
       (use 2(5) ok st oc m(2) in \<open>auto simp: claimed_def row_ok_def market_ok_def call_budget_def has_outcome_def\<close>)
qed simp

lemma sched_inv_finalize:
  assumes inv: "sched_inv strict (w, js1 @ j # js2)" and "job_called j"
    and fin: "finalizeSettlement senv now (job_market j) (job_outcome j) (job_attempt j) w = (r, w')"
  shows "sched_inv strict (w', js1 @ js2)"
proof (cases "finalize_ok senv")
  case False
  then have "w' = w" using fin by (simp add: finalizeSettlement_def)
  then show ?thesis by (intro sched_inv_same_rows [OF inv, where cs = "[]"]) auto
next
  case True
  from inv obtain m where m: "m \<in> set (markets w)" "claimed strict j m" by (auto simp: sched_inv_def)
  with inv have ok: "row_ok strict m" "unique_keys mkt_id (markets w)" by (auto simp: sched_inv_def markets_ok_def)
  let ?m = "m\<lparr>settlement_state := SETTLED, is_resolved := True, resolved_outcome := Some (job_outcome j),
    resolved_at := Some now\<rparr>"
  have k: "mkt_id m = job_market j" using m(2) by (simp add: claimed_def)
  then have "find_market (job_market j) w = Some m" using find_row_distinct [OF ok(2) m(1)] by simp
  from update_row_as_save [OF this ok(2), where f = "\<lambda>m. m\<lparr>settlement_state := SETTLED, is_resolved := True,
      resolved_outcome := Some (job_outcome j), resolved_at := Some now\<rparr>"]
  have "markets w' = save_row mkt_id ?m (markets w)" "chain_log w' = chain_log w"
    using fin True k by (auto simp: finalizeSettlement_def Let_def table_simps)
  then show ?thesis
    by (intro sched_inv_replace [OF inv m(1), where cs = "[]" and m' = ?m])
       (use ok m(2) assms(2) in \<open>auto simp: claimed_def row_ok_def market_ok_def call_budget_def has_outcome_def\<close>)
qed

lemma sched_inv_step:
  "sched_step (allow_for strict) s s' \<Longrightarrow> sched_inv strict s \<Longrightarrow> sched_inv strict s'"
proof (induction rule: sched_step.induct)
  case (request cmd w js env now)
  then show ?case using sched_inv_request [OF handle_world_step] by blast
next
  case (claim k w m senv now oc a w' js)
  then show ?case by (rule sched_inv_claim)
next
  case (call j env w js1 js2)
  show ?case
    by (rule sched_inv_same_rows [OF call(3), where cs = "[ResolveMarket (job_chain j) (job_outcome j)]"])
       (use call(1) in \<open>auto simp: table_simps\<close>)
next
  case (call_fails j env e w js1 js2 now msg)
  show ?case
    by (rule sched_inv_same_rows [OF call_fails(3), where cs = "[]"])
       (auto simp: table_simps recordAttemptFailure_def)
next
  case (finalize j senv now w r w' js1 js2)
  then show ?case using sched_inv_finalize by blast
next
  case (crash w js1 j js2)
  show ?case by (rule sched_inv_same_rows [OF crash(1), where cs = "[]"]) auto
next
  case (alert w js k)
  show ?case
    by (rule sched_inv_same_rows [OF alert(1), where cs = "[]"]) (auto simp: emitDeadLetterAlert_def table_simps)
qed

lemma sched_inv_run:
  "(sched_step (allow_for strict))\<^sup>*\<^sup>* s s' \<Longrightarrow> sched_inv strict s \<Longrightarrow> sched_inv strict s'"
  by (induction rule: rtranclp_induct) (auto intro: sched_inv_step)

lemma sched_inv_init: "markets w = [] \<Longrightarrow> chain_log w = [] \<Longrightarrow> sched_inv strict (w, [])"
  by (simp add: sched_inv_def markets_ok_def known_calls_def)

section \<open>What every interleaving guarantees\<close>


definition create_sample :: "world \<Rightarrow> world" where
  "create_sample = handle sample_env 500 (Create ''x'' ''m1'' sample_dto sample_user)"



text \<open>
  Agreement: as long as no admin adjudicates a market while its settlement is in progress,
  every settled market carries the outcome that was proposed (or adjudicated) for it, whatever the
  interleaving of instances, crashes, retries and requests, admin resolutions included.
\<close>

theorem settled_outcome_is_proposed:
  assumes "markets w0 = []" "chain_log w0 = []"
    and "(sched_step (\<lambda>cmd w. spares_settling cmd w))\<^sup>*\<^sup>* (w0, []) (w, js)"
    and "m \<in> set (markets w)" "settlement_state m = SETTLED"
  shows "resolved_outcome m = proposed_outcome m \<and> proposed_outcome m \<in> Some ` set (outcome_options m)"
proof -
  have "allow_for True = (\<lambda>cmd w. spares_settling cmd w)" by (simp add: allow_for_def fun_eq_iff)
  with assms(3) sched_inv_init [OF assms(1,2), of True] have "sched_inv True (w, js)"
    using sched_inv_run [of True] by metis
  then show ?thesis using assms(4,5)
    by (auto simp: sched_inv_def row_ok_def market_ok_def has_outcome_def)
qed

section \<open>The scheduler of one instance is a run of steps\<close>

definition chain_id :: "id \<Rightarrow> world \<Rightarrow> string option" where
  "chain_id k w = map_option on_chain_market_id (find_market k w)"

lemma settleMarket_chain_id: "chain_id k (snd (snd (settleMarket env now m (q, w)))) = chain_id k w"
proof -
  obtain r w1 where claim: "claimMarketForSettlement env now (mkt_id m) w = (r, w1)" by fastforce
  then have "chain_id k w1 = chain_id k w"
    by (cases rule: claim_cases; cases "k = mkt_id m")
       (simp_all add: chain_id_def find_row_update_other find_row_update_same option.map_comp comp_def)
  with claim show ?thesis
    by (cases "k = mkt_id m")
       (auto simp: settleMarket_def chain_id_def finalizeSettlement_def recordAttemptFailure_def Let_def
        table_simps find_row_update_other find_row_update_same option.map_comp comp_def
        split: option.splits sum.splits prod.splits if_splits)
qed

lemma settleMarket_run:
  assumes "chain_id (mkt_id m) w = Some (on_chain_market_id m)"
  shows "(sched_step allow)\<^sup>*\<^sup>* (w, js) (snd (snd (settleMarket env now m (q, w))), js)"
proof (cases "claimMarketForSettlement env now (mkt_id m) w")
  case (Pair r w1)
  show ?thesis
  proof (cases r)
    case None
    with Pair have "w1 = w" by (cases rule: claim_cases) auto
    with Pair None show ?thesis by (simp add: settleMarket_def)
  next
    case (Some c)
    obtain oc a where c: "c = (oc, a)" by (cases c)
    from assms obtain m0 where m0: "find_market (mkt_id m) w = Some m0" "on_chain_market_id m0 = on_chain_market_id m"
      by (auto simp: chain_id_def)
    let ?j = "\<lparr>job_market = mkt_id m, job_chain = on_chain_market_id m, job_outcome = oc, job_attempt = a, job_called = False\<rparr>"
    have claim: "sched_step allow (w, js) (w1, ?j # js)"
      using sched_step.claim [OF m0(1)] Pair Some c m0(2) by metis
    show ?thesis
    proof (cases "resolveMarket_call (soroban env) (on_chain_market_id m) oc")
      case (Inl e)
      then have "sched_step allow (w1, ?j # js) (recordAttemptFailure now a (errorMsg env) w1, js)"
        using sched_step.call_fails [of ?j "soroban env" e allow w1 "[]" js now "errorMsg env"] by simp
      with claim show ?thesis using Pair Some c Inl by (simp add: settleMarket_def)
    next
      case (Inr u)
      let ?w2 = "call_chain (ResolveMarket (on_chain_market_id m) oc) w1"
      obtain r' w3 where fin: "finalizeSettlement env now (mkt_id m) oc a ?w2 = (r', w3)" by fastforce
      have "sched_step allow (w1, ?j # js) (?w2, ?j\<lparr>job_called := True\<rparr> # js)"
        using sched_step.call [of ?j "soroban env" allow w1 "[]" js] Inr by simp
      moreover have "sched_step allow (?w2, ?j\<lparr>job_called := True\<rparr> # js) (w3, js)"
        using sched_step.finalize [of "?j\<lparr>job_called := True\<rparr>" env now ?w2 r' w3 allow "[]" js] fin by simp
      ultimately have "(sched_step allow)\<^sup>*\<^sup>* (w, js) (w3, js)" using claim
        by (blast intro: converse_rtranclp_into_rtranclp)
      then show ?thesis using Pair Some c Inr fin by (auto simp: settleMarket_def split: sum.splits)
    qed
  qed
qed

lemma settle_each_run:
  "(\<forall>m \<in> set ms. chain_id (mkt_id m) w = Some (on_chain_market_id m)) \<Longrightarrow>
   (sched_step allow)\<^sup>*\<^sup>* (w, js) (snd (snd (settle_each env now ms (q, w))), js)"
proof (induction ms arbitrary: q w)
  case (Cons m ms)
  obtain r q1 w1 where step: "settleMarket (env (mkt_id m)) now m (q, w) = (r, q1, w1)"
    by (metis prod_cases3)
  from settleMarket_run [of m w allow js "env (mkt_id m)" now q] Cons.prems step
  have "(sched_step allow)\<^sup>*\<^sup>* (w, js) (w1, js)" by simp
  moreover have "chain_id k w1 = chain_id k w" for k
    using settleMarket_chain_id [of k "env (mkt_id m)" now m q w] step by simp
  with Cons have "(sched_step allow)\<^sup>*\<^sup>* (w1, js) (snd (snd (settle_each env now ms (q1, w1))), js)" by simp
  ultimately show ?case using step by (auto split: prod.splits)
qed simp

lemma settleMarketWithRetry_world:
  "snd (snd (settleMarketWithRetry env now m qw)) = snd (snd (settleMarket env now m qw))"
  by (auto simp: settleMarketWithRetry_def split: prod.splits sum.splits bool.splits)

lemma retry_each_run:
  "(sched_step allow)\<^sup>*\<^sup>* (w, js) (snd (snd (retry_each env now es (q, w))), js)"
proof (induction es arbitrary: q w)
  case (Cons e es)
  obtain k info where e: "e = (k, info)" by (cases e)
  show ?case
  proof (cases "find_market k w")
    case None
    with Cons e show ?thesis by simp
  next
    case (Some m)
    obtain r q1 w1 where step: "settleMarketWithRetry (env k) now m (q, w) = (r, q1, w1)"
      by (metis prod_cases3)
    from Some have "chain_id (mkt_id m) w = Some (on_chain_market_id m)"
      by (auto simp: chain_id_def dest: find_row_SomeD)
    from settleMarket_run [OF this, of allow js "env k" now q] step
    have run: "(sched_step allow)\<^sup>*\<^sup>* (w, js) (w1, js)"
      using settleMarketWithRetry_world [of "env k" now m "(q, w)"] by simp
    moreover have "sched_step allow (w1, js) (emitDeadLetterAlert (mkt_id m) w1, js)"
      by (rule sched_step.alert)
    ultimately have "(sched_step allow)\<^sup>*\<^sup>* (w, js) (emitDeadLetterAlert (mkt_id m) w1, js)" by simp
    then show ?thesis
      using run Cons.IH step e Some by (auto split: sum.splits intro: rtranclp_trans)
  qed
qed simp

lemma handleSettlement_run:
  assumes "unique_keys mkt_id (markets w)"
  shows "(sched_step allow)\<^sup>*\<^sup>* (w, js) (snd (handleSettlement env now (q, w)), js)"
proof -
  obtain n q1 w1 where sweep: "settleEligibleMarkets env now (q, w) = (n, q1, w1)" by (metis prod_cases3)
  have "chain_id (mkt_id m) w = Some (on_chain_market_id m)"
    if "m \<in> set (due_markets now w @ findStaleSettlingMarkets now w)" for m
  proof -
    from that have "m \<in> set (markets w)"
      by (auto simp: due_markets_def findStaleSettlingMarkets_def dest: in_set_takeD)
    with assms show ?thesis by (simp add: chain_id_def find_row_distinct)
  qed
  then have "(sched_step allow)\<^sup>*\<^sup>* (w, js) (w1, js)"
    using settle_each_run [of "due_markets now w @ findStaleSettlingMarkets now w" w allow js env now q] sweep
    by (simp add: settleEligibleMarkets_def)
  moreover obtain q2 where "fst (snd (settleEligibleMarkets env now (q, w))) = q2" by simp
  ultimately show ?thesis
    using retry_each_run [of allow w1 js env now _ q1] sweep
    by (auto simp: handleSettlement_def processRetries_def intro: rtranclp_trans)
qed

text \<open>
  Refinement: one cron tick of the scheduler (the sweep followed by the retries) is a run of
  the transition system above, from any state of the other instances and back to it.  What is
  proved of every interleaving therefore holds of the code's own composition of the steps.
\<close>

theorem handleSettlement_refines_steps:
  "unique_keys mkt_id (markets w) \<Longrightarrow>
     (sched_step allow)\<^sup>*\<^sup>* (w, js) (snd (handleSettlement env now (q, w)), js)"
  by (rule handleSettlement_run)

theorem handleSettlement_refines_steps_witness:
  "(sched_step (\<lambda>_ _. True))\<^sup>*\<^sup>* (sample_world [sample_proposed], [])
     (snd (handleSettlement (\<lambda>_. sample_settle_env) 70000 ([], sample_world [sample_proposed])), [])"
  by (rule handleSettlement_refines_steps) (simp add: sample_world_def)

section \<open>A settled market, step by step\<close>

definition sample_propose :: "world \<Rightarrow> world" where
  "sample_propose = handle sample_env 2000 (Propose ''m1'' \<lparr>prop_outcome = ''A'', prop_grace_period_seconds = Some 60\<rparr> sample_user)"

definition sample_reached :: world where
  "sample_reached = snd (handleSettlement (\<lambda>_. sample_settle_env) 70000 ([], sample_propose (create_sample (sample_world []))))"

lemma sample_reached_markets:
  "\<exists>m. markets sample_reached = [m] \<and> settlement_state m = SETTLED"
  by (simp add: sample_reached_def sample_propose_def create_sample_def createMarket_def createMarket_call_def
      insert_market_def proposeResolution_def with_market_def findByIdOrOnChainId_def sample_simps Let_def table_simps
      save_row_def handleSettlement_def processRetries_def settleEligibleMarkets_def due_markets_def
      findStaleSettlingMarkets_def MAX_SETTLEMENTS_PER_TICK_def graceDeadline_def settleMarket_def
      claimMarketForSettlement_def sample_settle_env_def truthy_def MAX_RETRY_ATTEMPTS_def
      resolveMarket_call_def with_server_key_def finalizeSettlement_def)

theorem settled_outcome_is_proposed_witness:
  "map resolved_outcome (markets sample_reached) = map proposed_outcome (markets sample_reached) \<and>
   map settlement_state (markets sample_reached) = [SETTLED]"
proof -
  let ?R = "sched_step (\<lambda>cmd w. spares_settling cmd w)" and ?w1 = "create_sample (sample_world [])"
  let ?w2 = "sample_propose ?w1"
  have "?R\<^sup>*\<^sup>* (sample_world [], []) (?w1, [])"
    unfolding create_sample_def by (rule r_into_rtranclp, rule sched_step.request) simp
  moreover have "?R\<^sup>*\<^sup>* (?w1, []) (?w2, [])"
    unfolding sample_propose_def by (rule r_into_rtranclp, rule sched_step.request) simp
  moreover have "?R\<^sup>*\<^sup>* (?w2, []) (sample_reached, [])"
    unfolding sample_reached_def
  proof (rule handleSettlement_run)
    have "markets_ok (markets ?w2)"
      unfolding sample_propose_def create_sample_def
      by (intro world_step_ok [OF handle_world_step]) (simp add: sample_world_def markets_ok_def)
    then show "unique_keys mkt_id (markets ?w2)" by (simp add: markets_ok_def)
  qed
  ultimately have run: "?R\<^sup>*\<^sup>* (sample_world [], []) (sample_reached, [])" by (meson rtranclp_trans)
  obtain m where m: "markets sample_reached = [m]" "settlement_state m = SETTLED"
    using sample_reached_markets by blast
  from settled_outcome_is_proposed [OF _ _ run, of m] m show ?thesis by (simp add: sample_world_def)
qed

section \<open>Where the guarantees end\<close>

text \<open>
  The claim is not exclusive: because \<open>SETTLING\<close> may move to \<open>SETTLING\<close> and the claim does not look
  at the age of the attempt in flight, a second instance that listed the market before the first
  one claimed it claims it again right away, and both go on to call the contract.
\<close>

lemma claim_succeeds:
  assumes "find_market k w = Some m" "settleable m" "gotLock env"
  shows "fst (claimMarketForSettlement env now k w) = Some (the (proposed_outcome m), newAttemptId env)"
  using assms by (auto simp: claimMarketForSettlement_def settleable_def Let_def)

lemma claim_not_exclusive:
  assumes "find_market k w = Some m" "settleable m" "settlement_attempt_count m + 1 < MAX_RETRY_ATTEMPTS"
    and "gotLock env1" "gotLock env2"
  shows "fst (claimMarketForSettlement env1 now k w) = Some (the (proposed_outcome m), newAttemptId env1)"
    and "fst (claimMarketForSettlement env2 now k (snd (claimMarketForSettlement env1 now k w))) =
      Some (the (proposed_outcome m), newAttemptId env2)"
proof -
  let ?m = "m\<lparr>settlement_state := SETTLING, settlement_attempt_count := settlement_attempt_count m + 1\<rparr>"
  let ?w1 = "snd (claimMarketForSettlement env1 now k w)"
  show first: "fst (claimMarketForSettlement env1 now k w) = Some (the (proposed_outcome m), newAttemptId env1)"
    using assms(1,2,4) by (rule claim_succeeds)
  have claim: "claimMarketForSettlement env1 now k w = (Some (the (proposed_outcome m), newAttemptId env1), ?w1)"
    using first by (metis prod.collapse)
  then have "find_market k ?w1 = Some ?m"
    using assms(1) by (cases rule: claim_cases) (auto simp: find_row_update_same)
  moreover have "settleable ?m" using assms(2,3) by (simp add: settleable_def)
  ultimately show "fst (claimMarketForSettlement env2 now k ?w1) = Some (the (proposed_outcome m), newAttemptId env2)"
    using claim_succeeds [of k ?w1 ?m env2] assms(5) by simp
qed

text \<open>
  An adjudication that hits a market in \<open>SETTLING\<close>: the admin settles it on \<open>B\<close>, and the instance
  that was in flight overwrites the resolved outcome with \<open>A\<close>.
\<close>

lemma adjudication_overwritten_in_flight:
  "let w1 = snd (claimMarketForSettlement sample_settle_env 70000 ''m1'' (sample_world [sample_proposed]));
       w2 = handle sample_env 71000 (AdjudicateChallenge ''m1'' ''B'' sample_user) w1;
       w3 = snd (finalizeSettlement sample_settle_env 72000 ''m1'' ''A'' ''a1'' (call_chain (ResolveMarket ''c1'' ''A'') w2))
   in map resolved_outcome (markets w2) = [Some ''B''] \<and> map resolved_outcome (markets w3) = [Some ''A''] \<and>
      map proposed_outcome (markets w3) = [Some ''B'']"
  by (simp add: claimMarketForSettlement_def sample_settle_env_def sample_proposed_def sample_simps truthy_def
      MAX_RETRY_ATTEMPTS_def Let_def table_simps resolveChallenge_def with_market_def findByIdOrOnChainId_def
      resolveMarket_call_def with_server_key_def save_row_def finalizeSettlement_def)

text \<open>
  A failed call marks its attempt \<open>FAILED\<close>; only the in-memory queue brings the market back.  After
  a restart the queue is empty and no tick touches the market any more.
\<close>

lemma settleMarket_queue:
  "\<forall>e \<in> set q. nextRetryAt (snd e) > now \<Longrightarrow>
   \<forall>e \<in> set (fst (snd (settleMarket env now m (q, w)))). nextRetryAt (snd e) > now"
  by (auto simp: settleMarket_def addToRetryQueue_def calculateNextRetry_def INITIAL_BACKOFF_MS_def
      split: prod.splits option.splits sum.splits)

lemma settle_each_queue:
  "\<forall>e \<in> set q. nextRetryAt (snd e) > now \<Longrightarrow>
   \<forall>e \<in> set (fst (snd (settle_each env now ms (q, w)))). nextRetryAt (snd e) > now"
proof (induction ms arbitrary: q w)
  case (Cons m ms)
  obtain r q1 w1 where step: "settleMarket (env (mkt_id m)) now m (q, w) = (r, q1, w1)"
    by (metis prod_cases3)
  with settleMarket_queue [OF Cons.prems, of "env (mkt_id m)" m w]
  have "\<forall>e \<in> set q1. nextRetryAt (snd e) > now" by simp
  from Cons.IH [OF this, of w1] step show ?case by (auto split: prod.splits)
qed simp

lemma failed_settlement_orphaned:
  assumes "unique_keys mkt_id (markets w)" "find_market k w = Some m" "settlement_state m = SETTLING"
    and "latest_attempt (filter (\<lambda>a. attempt_market_id a = k) (settlement_attempts w)) = Some a"
    and "attempt_status a = FAILED"
  shows "find_market k (snd (handleSettlement env now ([], w))) = Some m"
proof -
  let ?ms = "due_markets now w @ findStaleSettlingMarkets now w"
  have "x = m" if "x \<in> set (markets w)" "mkt_id x = k" for x
    using that assms(1,2) by (auto dest: find_row_distinct)
  then have "k \<notin> mkt_id ` set ?ms"
    using assms(3-5) by (fastforce simp: due_markets_def findStaleSettlingMarkets_def dest: in_set_takeD)
  then have "find_market k (snd (snd (settle_each env now ?ms ([], w)))) = Some m"
    using settle_each_other assms(2) by metis
  moreover have "\<forall>e \<in> set (fst (snd (settle_each env now ?ms ([], w)))). \<not> nextRetryAt (snd e) \<le> now"
    using settle_each_queue [of "[]" now env ?ms w] by fastforce
  then have "filter (\<lambda>(_, info). nextRetryAt info \<le> now \<and> int (ri_attempts info) < MAX_RETRY_ATTEMPTS)
      (fst (snd (settle_each env now ?ms ([], w)))) = []"
    by (auto simp: filter_empty_conv)
  ultimately show ?thesis
    by (simp add: handleSettlement_def processRetries_def settleEligibleMarkets_def)
qed

text \<open>
  The alert that a market failed after five attempts is sent when the fourth retry fails and again
  when the fifth does.
\<close>

lemma retry_alert_early:
  assumes "find_market k w = Some m" "gotLock (env k) = False" "3 \<le> ri_attempts info"
  shows "webhook_events (snd (snd (retry_each env now [(k, info)] (q, w)))) =
    webhook_events w @ [(''market.settlement.failed'', k)]"
proof -
  have "settleMarket (env k) now m (q, w) = (Inr False, q, w)"
    using assms(2) by (simp add: settleMarket_def claimMarketForSettlement_def)
  moreover have "mkt_id m = k" using assms(1) by (auto dest: find_row_SomeD)
  ultimately show ?thesis
    using assms by (simp add: settleMarketWithRetry_def MAX_RETRY_ATTEMPTS_def emitDeadLetterAlert_def emit_def)
qed

end
