(* ===== verification/Slippage.thy ===== *)
theory Slippage
  imports Js_Strings
begin

text \<open>
  \<open>predictions/services/slippage-checker.service.ts\<close>: the liquidity check and the two
  slippage bounds applied to the fill the contract reported.
\<close>

datatype slippage_error =
    InsufficientLiquidity string string
  | SlippageExceeded string string string string
  | BigIntSyntaxError string

definition MIN_LIQUIDITY_SHARES_STROOPS :: int where
  "MIN_LIQUIDITY_SHARES_STROOPS = 1"

definition is_decimal_digit :: "char \<Rightarrow> bool" where
  "is_decimal_digit c \<longleftrightarrow> 48 \<le> code c \<and> code c \<le> 57"

text \<open>The regular expression \<open>/^-?\d+$/\<close>.\<close>

definition is_integer_literal :: "string \<Rightarrow> bool" where
  "is_integer_literal s =
     (let body = (case s of c # cs \<Rightarrow> if c = CHR ''-'' then cs else s | [] \<Rightarrow> [])
      in body \<noteq> [] \<and> list_all is_decimal_digit body)"

definition parseStroopsStrict :: "string \<Rightarrow> int option" where
  "parseStroopsStrict value =
     (if \<not> is_integer_literal (js_trim value) then None else bigint (js_trim value))"

definition assertSufficientLiquidity :: "string \<Rightarrow> string \<Rightarrow> (slippage_error, unit) result" where
  "assertSufficientLiquidity actualPrice actualShares =
     (case (parseStroopsStrict actualPrice, parseStroopsStrict actualShares) of
        (Some price, Some shares) \<Rightarrow>
          if price \<le> 0 \<or> shares < MIN_LIQUIDITY_SHARES_STROOPS
          then Inl (InsufficientLiquidity actualPrice actualShares) else Inr ()
      | _ \<Rightarrow> Inl (InsufficientLiquidity actualPrice actualShares))"

text \<open>
  A bound that is absent, or the empty string, is falsy and not checked.  \<open>BigInt(bound)\<close>
  throws on a bound that is not an integer literal, for instance \<open>"1.5"\<close>.
\<close>

definition or_zero :: "string option \<Rightarrow> string" where
  "or_zero v = (case v of Some (c # cs) \<Rightarrow> c # cs | _ \<Rightarrow> ''0'')"

definition check_bound ::
  "string option \<Rightarrow> string \<Rightarrow> (int \<Rightarrow> int \<Rightarrow> bool) \<Rightarrow> slippage_error \<Rightarrow> (slippage_error, unit) result"
where
  "check_bound bound actual violates err =
     (if \<not> truthy bound then Inr ()
      else case bigint (the bound) of
             None \<Rightarrow> Inl (BigIntSyntaxError (the bound))
           | Some b \<Rightarrow>
               (case bigint actual of
                  None \<Rightarrow> Inl (BigIntSyntaxError actual)
                | Some a \<Rightarrow> if violates a b then Inl err else Inr ()))"

definition checkSlippage ::
  "string option \<Rightarrow> string option \<Rightarrow> string \<Rightarrow> string \<Rightarrow> (slippage_error, unit) result"
where
  "checkSlippage maxPrice minSharesOut actualPrice actualShares =
     (case assertSufficientLiquidity actualPrice actualShares of
        Inl e \<Rightarrow> Inl e
      | Inr _ \<Rightarrow>
          (case check_bound maxPrice actualPrice (\<lambda>a b. a > b)
                  (SlippageExceeded (the maxPrice) actualPrice (or_zero minSharesOut) actualShares) of
             Inl e \<Rightarrow> Inl e
           | Inr _ \<Rightarrow>
               check_bound minSharesOut actualShares (\<lambda>a b. a < b)
                 (SlippageExceeded (or_zero maxPrice) actualPrice (the minSharesOut) actualShares)))"

section \<open>What a passed check guarantees\<close>

lemma js_trim_idem [simp]: "js_trim (js_trim s) = js_trim s"
proof -
  let ?d = "dropWhile is_js_space s"
  let ?e = "dropWhile is_js_space (rev ?d)"
  have last: "?e \<noteq> [] \<Longrightarrow> \<not> is_js_space (last (rev ?e))"
    by (simp add: last_rev hd_dropWhile)
  have "\<exists>zs. rev ?d = zs @ ?e" by (metis takeWhile_dropWhile_id)
  then have pre: "\<exists>zs. ?d = rev ?e @ zs" by (metis rev_append rev_rev_ident)
  have hd: "?e \<noteq> [] \<Longrightarrow> \<not> is_js_space (hd (rev ?e))"
  proof -
    assume ne: "?e \<noteq> []"
    from pre obtain zs where d: "?d = rev ?e @ zs" by blast
    have "hd (rev ?e @ zs) = hd (rev ?e)" using ne by (intro hd_append2) simp
    with arg_cong [OF d, of hd] have "hd ?d = hd (rev ?e)" by (rule trans)
    moreover have "?d \<noteq> []" using ne by (metis dropWhile.simps(1) rev.simps(1))
    ultimately show ?thesis using hd_dropWhile [of is_js_space s] by simp
  qed
  show ?thesis
    using last hd by (intro js_trim_no_space) (auto simp: js_trim_def)
qed

lemma bigint_js_trim [simp]: "bigint (js_trim s) = bigint s"
  by (simp add: bigint_def)

lemma parseStroopsStrict_bigint: "parseStroopsStrict s = Some n \<Longrightarrow> bigint s = Some n"
  by (simp add: parseStroopsStrict_def split: if_splits)

lemma assertSufficientLiquidity_ok_iff:
  "assertSufficientLiquidity p s = Inr () \<longleftrightarrow>
     (\<exists>price shares. parseStroopsStrict p = Some price \<and> parseStroopsStrict s = Some shares \<and>
        0 < price \<and> 1 \<le> shares)"
  by (auto simp: assertSufficientLiquidity_def MIN_LIQUIDITY_SHARES_STROOPS_def
      split: option.splits)

lemma check_bound_ok_iff:
  "check_bound bound actual violates err = Inr () \<longleftrightarrow>
     (truthy bound \<longrightarrow>
        (\<exists>a b. bigint (the bound) = Some b \<and> bigint actual = Some a \<and> \<not> violates a b))"
  by (auto simp: check_bound_def split: option.splits)

text \<open>
  A fill passes \<open>checkSlippage\<close> exactly when its price and shares are integer literals, the
  price is positive, at least one share was received, and every bound the caller supplied is an
  integer literal that the fill respects.  In particular the check never compares a bound with a
  malformed or zero-liquidity fill.
\<close>

theorem checkSlippage_passes_iff:
  "checkSlippage maxPrice minSharesOut actualPrice actualShares = Inr () \<longleftrightarrow>
     (\<exists>price shares.
        parseStroopsStrict actualPrice = Some price \<and> parseStroopsStrict actualShares = Some shares \<and>
        0 < price \<and> 1 \<le> shares \<and>
        (truthy maxPrice \<longrightarrow> (\<exists>m. bigint (the maxPrice) = Some m \<and> price \<le> m)) \<and>
        (truthy minSharesOut \<longrightarrow> (\<exists>m. bigint (the minSharesOut) = Some m \<and> m \<le> shares)))"
proof -
  have "checkSlippage maxPrice minSharesOut actualPrice actualShares = Inr () \<longleftrightarrow>
      assertSufficientLiquidity actualPrice actualShares = Inr () \<and>
      check_bound maxPrice actualPrice (\<lambda>a b. a > b)
        (SlippageExceeded (the maxPrice) actualPrice (or_zero minSharesOut) actualShares) = Inr () \<and>
      check_bound minSharesOut actualShares (\<lambda>a b. a < b)
        (SlippageExceeded (or_zero maxPrice) actualPrice (the minSharesOut) actualShares) = Inr ()"
    by (simp add: checkSlippage_def split: sum.splits)
  then show ?thesis
    unfolding assertSufficientLiquidity_ok_iff check_bound_ok_iff
    by (fastforce dest: parseStroopsStrict_bigint)
qed

theorem checkSlippage_passes_iff_witness:
  "checkSlippage (Some ''500001'') (Some ''10'') ''500000'' '' 20 '' = Inr () \<and>
   checkSlippage (Some ''1.5'') None ''500000'' ''20'' \<noteq> Inr ()"
proof -
  have "parseStroopsStrict ''500000'' = Some 500000" "parseStroopsStrict '' 20 '' = Some 20"
    "bigint ''500001'' = Some 500001" "bigint ''10'' = Some 10" "bigint ''1.5'' = None"
    by (simp_all add: parseStroopsStrict_def is_integer_literal_def is_decimal_digit_def js_eval)
  then show ?thesis
    unfolding checkSlippage_passes_iff by (simp add: truthy_def)
qed

end
