(* ===== verification/Stroops.thy ===== *)
theory Stroops
  imports Js_Strings
begin

text \<open>
  Amounts of money: \<open>predictions/dto/rewards-summary.dto.ts\<close>.  Sums are taken on integer
  stroops and converted once to a decimal XLM string.  The last step of \<open>stroopsToXlm\<close>,
  \<open>Number(...)\<close> of that exact string, is the rounding to the nearest double and is left out:
  the model stops at the exact decimal representation.
\<close>

definition STROOPS_PER_XLM :: int where
  "STROOPS_PER_XLM = 10000000"

definition XLM_DECIMALS :: nat where
  "XLM_DECIMALS = 7"

text \<open>\<open>parseStroops\<close> of a nullable column: a missing value counts as zero.\<close>

definition parseStroops :: "string option \<Rightarrow> int option" where
  "parseStroops value = bigint (case value of None \<Rightarrow> ''0'' | Some s \<Rightarrow> s)"

text \<open>\<open>.replace(/0+$/, '')\<close>\<close>

definition strip_trailing_zeros :: "string \<Rightarrow> string" where
  "strip_trailing_zeros s = rev (dropWhile (\<lambda>c. c = CHR ''0'') (rev s))"

definition formatStroopsAsXlm :: "int \<Rightarrow> string" where
  "formatStroopsAsXlm stroops =
     (let negative = stroops < 0;
          abs = (if negative then - stroops else stroops);
          whole = bigint_div abs STROOPS_PER_XLM;
          fraction = strip_trailing_zeros
            (padStart XLM_DECIMALS CHR ''0'' (bigint_to_string (abs mod STROOPS_PER_XLM)));
          body = (if fraction \<noteq> [] then bigint_to_string whole @ CHR ''.'' # fraction
                  else bigint_to_string whole)
      in if negative then CHR ''-'' # body else body)"

text \<open>\<open>stroopsToXlm\<close> up to the final conversion to a double.\<close>

abbreviation stroopsToXlm :: "int \<Rightarrow> string" where
  "stroopsToXlm \<equiv> formatStroopsAsXlm"

record rewards_summary =
  total_earned_stroops :: string
  claimable_stroops :: string
  vesting_stroops :: string
  total_earned_xlm :: string
  claimable_xlm :: string
  vesting_xlm :: string

definition fromStroops :: "int \<Rightarrow> int \<Rightarrow> int \<Rightarrow> rewards_summary" where
  "fromStroops totalEarned claimable vesting =
     \<lparr>total_earned_stroops = bigint_to_string totalEarned,
      claimable_stroops = bigint_to_string claimable,
      vesting_stroops = bigint_to_string vesting,
      total_earned_xlm = formatStroopsAsXlm totalEarned,
      claimable_xlm = formatStroopsAsXlm claimable,
      vesting_xlm = formatStroopsAsXlm vesting\<rparr>"

section \<open>Reading an XLM amount back\<close>

text \<open>
  The reference meaning of a decimal XLM string: the number of stroops it denotes.  The
  fractional part has at most seven digits, so it is a whole number of stroops.
\<close>

definition read_unsigned_xlm :: "string \<Rightarrow> int option" where
  "read_unsigned_xlm s =
     (let whole = takeWhile (\<lambda>c. c \<noteq> CHR ''.'') s;
          fraction = drop 1 (dropWhile (\<lambda>c. c \<noteq> CHR ''.'') s)
      in case (parse_digits 10 whole, parse_radix 10 0 fraction) of
           (Some w, Some f) \<Rightarrow>
             if length fraction \<le> XLM_DECIMALS
             then Some (int w * STROOPS_PER_XLM + int f * 10 ^ (XLM_DECIMALS - length fraction))
             else None
         | _ \<Rightarrow> None)"

definition read_xlm :: "string \<Rightarrow> int option" where
  "read_xlm s =
     (if s \<noteq> [] \<and> hd s = CHR ''-'' then map_option uminus (read_unsigned_xlm (tl s))
      else read_unsigned_xlm s)"

lemma strip_trailing_zeros_split:
  "s = strip_trailing_zeros s @ replicate (length s - length (strip_trailing_zeros s)) CHR ''0''"
proof (induction s rule: rev_induct)
  case Nil
  then show ?case by (simp add: strip_trailing_zeros_def)
next
  case (snoc c s)
  show ?case
  proof (cases "c = CHR ''0''")
    case True
    then have eq: "strip_trailing_zeros (s @ [c]) = strip_trailing_zeros s"
      by (simp add: strip_trailing_zeros_def)
    have "length (strip_trailing_zeros s) \<le> length s"
      by (metis snoc le_add1 length_append)
    then have "replicate (Suc (length s) - length (strip_trailing_zeros s)) CHR ''0'' =
        replicate (length s - length (strip_trailing_zeros s)) CHR ''0'' @ [c]"
      by (simp add: Suc_diff_le replicate_append_same True)
    then show ?thesis using snoc by (simp add: eq)
  next
    case False
    then show ?thesis by (simp add: strip_trailing_zeros_def)
  qed
qed

lemma length_strip_trailing_zeros: "length (strip_trailing_zeros s) \<le> length s"
  by (simp add: strip_trailing_zeros_def length_dropWhile_le [of _ "rev s", simplified])

lemma parse_strip_trailing_zeros:
  assumes "parse_radix 10 0 s = Some r"
  shows "\<exists>f. parse_radix 10 0 (strip_trailing_zeros s) = Some f \<and>
             r = f * 10 ^ (length s - length (strip_trailing_zeros s))"
  using assms
  by (subst (asm) strip_trailing_zeros_split)
     (auto simp: parse_radix_append parse_radix_trailing_zeros split: option.splits)

lemma parse_padStart_show_nat:
  "parse_radix 10 0 (padStart k CHR ''0'' (show_nat n)) = Some n"
  by (simp add: padStart_def parse_radix_zeros parse_radix_show_nat)

lemma length_padStart: "length s \<le> k \<Longrightarrow> length (padStart k c s) = k"
  by (simp add: padStart_def)

lemma takeWhile_show_nat:
  "takeWhile (\<lambda>c. c \<noteq> CHR ''.'') (show_nat w @ rest) =
     show_nat w @ takeWhile (\<lambda>c. c \<noteq> CHR ''.'') rest"
  "dropWhile (\<lambda>c. c \<noteq> CHR ''.'') (show_nat w @ rest) = dropWhile (\<lambda>c. c \<noteq> CHR ''.'') rest"
proof -
  note show_nat_no_dot [of _ w]
  then show "takeWhile (\<lambda>c. c \<noteq> CHR ''.'') (show_nat w @ rest) =
      show_nat w @ takeWhile (\<lambda>c. c \<noteq> CHR ''.'') rest"
    "dropWhile (\<lambda>c. c \<noteq> CHR ''.'') (show_nat w @ rest) = dropWhile (\<lambda>c. c \<noteq> CHR ''.'') rest"
    by (simp_all add: takeWhile_append2 dropWhile_append2)
qed

lemma whole_show_nat:
  "takeWhile (\<lambda>c. c \<noteq> CHR ''.'') (show_nat w) = show_nat w"
  "dropWhile (\<lambda>c. c \<noteq> CHR ''.'') (show_nat w) = []"
  by (simp_all add: takeWhile_eq_all_conv dropWhile_eq_Nil_conv show_nat_no_dot)

text \<open>The unsigned body reads back, for a whole part \<open>w\<close> and a remainder \<open>r\<close> below one XLM.\<close>

lemma read_unsigned_body:
  fixes w r :: nat
  defines "fraction \<equiv> strip_trailing_zeros (padStart XLM_DECIMALS CHR ''0'' (show_nat r))"
  assumes "r < 10000000"
  shows "read_unsigned_xlm (if fraction \<noteq> [] then show_nat w @ CHR ''.'' # fraction else show_nat w)
           = Some (int w * STROOPS_PER_XLM + int r)"
proof -
  let ?p = "padStart XLM_DECIMALS CHR ''0'' (show_nat r)"
  from assms(2) have len: "length ?p = 7"
    using length_show_nat [of r 7] by (simp add: length_padStart XLM_DECIMALS_def)
  obtain f where f: "parse_radix 10 0 fraction = Some f"
    and r: "r = f * 10 ^ (7 - length fraction)"
    using parse_strip_trailing_zeros [OF parse_padStart_show_nat] len
    unfolding fraction_def by metis
  have le: "length fraction \<le> 7"
    using length_strip_trailing_zeros [of ?p] len by (simp add: fraction_def)
  have r': "int f * 10 ^ (7 - length fraction) = int r"
    using arg_cong [where f = int, OF r] by simp
  show ?thesis
  proof (cases "fraction = []")
    case True
    have "f = 0" using f by (simp add: True)
    then have "r = 0" using r by simp
    then show ?thesis
      by (simp add: True read_unsigned_xlm_def parse_show_nat whole_show_nat)
  next
    case False
    then show ?thesis
      using r' by (simp add: read_unsigned_xlm_def takeWhile_show_nat parse_show_nat f le
          XLM_DECIMALS_def)
  qed
qed

text \<open>The two components of a non-negative amount, as natural numbers.\<close>

lemma split_amount:
  assumes "0 \<le> n"
  shows "bigint_to_string (bigint_div n STROOPS_PER_XLM) = show_nat (nat n div 10000000)"
    and "bigint_to_string (n mod STROOPS_PER_XLM) = show_nat (nat n mod 10000000)"
    and "int (nat n div 10000000) * STROOPS_PER_XLM + int (nat n mod 10000000) = n"
proof -
  have q: "n div 10000000 = int (nat n div 10000000)"
    and m: "n mod 10000000 = int (nat n mod 10000000)"
    using assms by (simp_all add: zdiv_int zmod_int)
  show "bigint_to_string (bigint_div n STROOPS_PER_XLM) = show_nat (nat n div 10000000)"
    "bigint_to_string (n mod STROOPS_PER_XLM) = show_nat (nat n mod 10000000)"
    using assms by (simp_all add: bigint_div_nonneg STROOPS_PER_XLM_def bigint_to_string_def q m)
  show "int (nat n div 10000000) * STROOPS_PER_XLM + int (nat n mod 10000000) = n"
    unfolding STROOPS_PER_XLM_def q [symmetric] m [symmetric] by simp
qed

lemma read_xlm_format_nonneg:
  assumes "0 \<le> n"
  shows "read_unsigned_xlm (formatStroopsAsXlm n) = Some n"
    and "\<exists>c cs. formatStroopsAsXlm n = c # cs \<and> c \<noteq> CHR ''-''"
proof -
  show "read_unsigned_xlm (formatStroopsAsXlm n) = Some n"
    using assms read_unsigned_body [of "nat n mod 10000000" "nat n div 10000000"]
    by (simp add: formatStroopsAsXlm_def Let_def split_amount cong: if_cong split del: if_split)
  obtain c cs where s: "show_nat (nat n div 10000000) = c # cs"
    by (cases "show_nat (nat n div 10000000)") auto
  then have "c \<noteq> CHR ''-''"
    using show_nat_no_minus [of c "nat n div 10000000"] by simp
  with s show "\<exists>c cs. formatStroopsAsXlm n = c # cs \<and> c \<noteq> CHR ''-''"
    using assms by (simp add: formatStroopsAsXlm_def Let_def split_amount)
qed

lemma format_negative: "n < 0 \<Longrightarrow> formatStroopsAsXlm n = CHR ''-'' # formatStroopsAsXlm (- n)"
  by (simp add: formatStroopsAsXlm_def Let_def)

text \<open>
  C13. The decimal XLM string of any amount of stroops, positive or negative, denotes exactly
  that amount: formatting never drops or rounds a stroop, so two different amounts never print
  alike.
\<close>

theorem formatStroopsAsXlm_exact: "read_xlm (formatStroopsAsXlm n) = Some n"
proof (cases "n < 0")
  case True
  then show ?thesis
    by (simp add: format_negative read_xlm_def read_xlm_format_nonneg(1))
next
  case False
  then have "0 \<le> n" by simp
  from read_xlm_format_nonneg [OF this] show ?thesis
    by (auto simp: read_xlm_def)
qed

end
