(* ===== verification/Text_Sanitizer.thy ===== *)
theory Text_Sanitizer
  imports Entities
begin

text \<open>
  \<open>common/text-sanitizer.util.ts\<close> and the note sanitizer of
  \<open>predictions/dto/update-prediction-note.dto.ts\<close>, on sequences of UTF-16 code units.  A regular
  expression with the global flag is the left-to-right scan it performs: at a position where the
  pattern matches the match is dropped and the scan goes on behind it, elsewhere the unit is kept.
\<close>

section \<open>The scans\<close>

abbreviation LT :: nat where "LT \<equiv> 60"
abbreviation GT :: nat where "GT \<equiv> 62"

text \<open>\<open>/<[^>]*>/g\<close>\<close>

function strip_tags :: "js_text \<Rightarrow> js_text" where
  "strip_tags [] = []"
| "strip_tags (c # cs) =
     (if c = LT
      then case dropWhile (\<lambda>x. x \<noteq> GT) cs of
             [] \<Rightarrow> c # strip_tags cs
           | _ # rest \<Rightarrow> strip_tags rest
      else c # strip_tags cs)"
  by pat_completeness auto
termination
proof (relation "measure length")
  fix c :: nat and cs y rest
  assume "dropWhile (\<lambda>x. x \<noteq> GT) cs = y # rest"
  then show "(rest, c # cs) \<in> measure length"
    using length_dropWhile_le [of "\<lambda>x. x \<noteq> GT" cs] by simp
qed auto

text \<open>The control characters: all below the space but tab, newline, carriage return, and delete.\<close>

definition is_control :: "nat \<Rightarrow> bool" where
  "is_control c \<longleftrightarrow> c \<le> 8 \<or> c = 11 \<or> c = 12 \<or> (14 \<le> c \<and> c \<le> 31) \<or> c = 127"

text \<open>\<open>String.prototype.trim\<close>: white space and line terminators of the language.\<close>

definition is_white :: "nat \<Rightarrow> bool" where
  "is_white c \<longleftrightarrow> (9 \<le> c \<and> c \<le> 13) \<or> c \<in> {32, 160, 5760, 8232, 8233, 8239, 8287, 12288, 65279} \<or>
     (8192 \<le> c \<and> c \<le> 8202)"

definition trim_text :: "js_text \<Rightarrow> js_text" where
  "trim_text s = rev (dropWhile is_white (rev (dropWhile is_white s)))"

definition sanitizePlainText :: "js_text \<Rightarrow> js_text" where
  "sanitizePlainText input = trim_text (filter (\<lambda>c. \<not> is_control c) (strip_tags input))"

definition sanitizeAndBoundPlainText :: "js_text \<Rightarrow> nat \<Rightarrow> js_text" where
  "sanitizeAndBoundPlainText input maxLength =
     (let sanitized = sanitizePlainText input
      in if length sanitized > maxLength then take maxLength sanitized else sanitized)"

definition PREDICTION_NOTE_MAX_LENGTH :: nat where "PREDICTION_NOTE_MAX_LENGTH = 1000"

text \<open>\<open>/<(?=[a-zA-Z!/?])/g\<close>: the look-ahead reads the next unit of the unchanged input.\<close>

definition opens_tag :: "nat \<Rightarrow> bool" where
  "opens_tag c \<longleftrightarrow> (97 \<le> c \<and> c \<le> 122) \<or> (65 \<le> c \<and> c \<le> 90) \<or> c \<in> {33, 47, 63}"

fun drop_openers :: "js_text \<Rightarrow> js_text" where
  "drop_openers [] = []"
| "drop_openers [c] = [c]"
| "drop_openers (c # d # cs) =
     (if c = LT \<and> opens_tag d then drop_openers (d # cs) else c # drop_openers (d # cs))"

definition sanitizePredictionNote :: "js_text \<Rightarrow> js_text" where
  "sanitizePredictionNote t = trim_text (drop_openers (sanitizePlainText t))"

section \<open>What the sanitizer guarantees\<close>

text \<open>A text without a complete tag: no \<open>>\<close> after a \<open><\<close>.\<close>

fun tag_free :: "js_text \<Rightarrow> bool" where
  "tag_free [] = True"
| "tag_free (c # cs) = ((c = LT \<longrightarrow> GT \<notin> set cs) \<and> tag_free cs)"

lemma dropWhile_Nil_iff: "dropWhile (\<lambda>x. x \<noteq> a) xs = [] \<longleftrightarrow> a \<notin> set xs"
  by (induction xs) auto

lemma strip_tags_set: "set (strip_tags s) \<subseteq> set s"
proof (induction s rule: strip_tags.induct)
  case (2 c cs)
  then show ?case
    by (auto split: list.splits dest: set_dropWhileD)
       (metis list.set_intros(2) set_dropWhileD subsetD)
qed simp

lemma tag_free_strip: "tag_free (strip_tags s)"
proof (induction s rule: strip_tags.induct)
  case (2 c cs)
  then show ?case
    using strip_tags_set [of cs]
    by (auto simp: dropWhile_Nil_iff split: list.splits)
qed simp

lemma strip_tag_free: "tag_free s \<Longrightarrow> strip_tags s = s"
proof (induction s)
  case (Cons c cs)
  then have "c = LT \<Longrightarrow> dropWhile (\<lambda>x. x \<noteq> GT) cs = []" by (auto simp: dropWhile_Nil_iff)
  with Cons show ?case by (simp del: dropWhile_eq_Nil_conv)
qed simp

lemma tag_free_append: "tag_free (xs @ ys) \<longleftrightarrow> tag_free xs \<and> tag_free ys \<and> (LT \<in> set xs \<longrightarrow> GT \<notin> set ys)"
  by (induction xs) auto

lemma tag_free_filter: "tag_free s \<Longrightarrow> tag_free (filter P s)"
  by (induction s) auto

lemma trim_text_part: "\<exists>as bs. s = as @ trim_text s @ bs"
proof -
  let ?d = "dropWhile is_white s"
  have "s = takeWhile is_white s @ ?d" by simp
  moreover have "?d = trim_text s @ rev (takeWhile is_white (rev ?d))"
    unfolding trim_text_def by (metis rev_append rev_rev_ident takeWhile_dropWhile_id)
  ultimately show ?thesis by metis
qed

lemma tag_free_trim: "tag_free s \<Longrightarrow> tag_free (trim_text s)"
  using trim_text_part [of s] by (metis tag_free_append)

lemma set_trim_text: "set (trim_text s) \<subseteq> set s"
  using trim_text_part [of s] by (metis Un_iff set_append subsetI)

text \<open>Neither end of a trimmed text is white.\<close>

definition trimmed :: "js_text \<Rightarrow> bool" where
  "trimmed s \<longleftrightarrow> s = [] \<or> (\<not> is_white (hd s) \<and> \<not> is_white (last s))"

lemma trimmed_id: "trimmed s \<Longrightarrow> trim_text s = s"
proof (cases "s = []")
  case False
  assume "trimmed s"
  with False have "dropWhile is_white s = s" "dropWhile is_white (rev s) = rev s"
    by (auto simp: trimmed_def dropWhile_eq_self_iff hd_rev)
  then show ?thesis by (simp add: trim_text_def)
qed (simp add: trim_text_def)

lemma trim_trimmed: "trimmed (trim_text s)"
proof -
  let ?d = "dropWhile is_white s" and ?t = "trim_text s"
  have last: "\<not> is_white (last ?t)" if "?t \<noteq> []"
    using that hd_dropWhile [of is_white "rev ?d"] by (simp add: trim_text_def last_rev)
  have "\<exists>bs. ?d = ?t @ bs"
    unfolding trim_text_def by (metis rev_append rev_rev_ident takeWhile_dropWhile_id)
  then have "\<not> is_white (hd ?t)" if "?t \<noteq> []"
    using that hd_dropWhile [of is_white s] by (metis Nil_is_append_conv hd_append2)
  with last show ?thesis by (auto simp: trimmed_def)
qed

definition plain :: "js_text \<Rightarrow> bool" where
  "plain s \<longleftrightarrow> tag_free s \<and> (\<forall>c \<in> set s. \<not> is_control c) \<and> trimmed s"

lemma sanitize_plain: "plain (sanitizePlainText s)"
  using set_trim_text [of "filter (\<lambda>c. \<not> is_control c) (strip_tags s)"]
  by (auto simp: plain_def sanitizePlainText_def tag_free_trim tag_free_filter tag_free_strip trim_trimmed)

lemma plain_sanitize: "plain s \<Longrightarrow> sanitizePlainText s = s"
  by (simp add: plain_def sanitizePlainText_def strip_tag_free trimmed_id)

lemma drop_openers_subset: "set (drop_openers s) \<subseteq> set s"
  by (induction s rule: drop_openers.induct) auto

lemma tag_free_drop_openers: "tag_free s \<Longrightarrow> tag_free (drop_openers s)"
proof (induction s rule: drop_openers.induct)
  case (3 c d cs)
  then show ?case using drop_openers_subset [of "d # cs"] by auto
qed auto

lemma drop_openers_no_LT: "LT \<notin> set s \<Longrightarrow> drop_openers s = s"
  by (induction s rule: drop_openers.induct) auto

lemma note_plain: "plain (sanitizePredictionNote s)"
proof -
  let ?s = "drop_openers (sanitizePlainText s)"
  have "tag_free ?s" "\<forall>c \<in> set ?s. \<not> is_control c"
    using sanitize_plain [of s] drop_openers_subset [of "sanitizePlainText s"]
    by (auto simp: plain_def tag_free_drop_openers)
  then show ?thesis
    using set_trim_text [of ?s] by (auto simp: plain_def sanitizePredictionNote_def tag_free_trim trim_trimmed)
qed

lemma bounded_length: "length (sanitizeAndBoundPlainText s n) \<le> n"
  by (simp add: sanitizeAndBoundPlainText_def Let_def)

text \<open>
  C8. \<open>sanitizePlainText\<close> always returns plain text (no complete tag, no control character, no
  white space at either end) and leaves exactly the plain texts unchanged, so it is idempotent; the
  bounded variant never exceeds its bound; a sanitized note is plain text too.
\<close>

theorem sanitizePlainText_projection:
  "plain (sanitizePlainText s) \<and> plain (sanitizePredictionNote s) \<and> (sanitizePlainText s = s \<longleftrightarrow> plain s) \<and>
   sanitizePlainText (sanitizePlainText s) = sanitizePlainText s \<and>
   length (sanitizeAndBoundPlainText s n) \<le> n"
  using sanitize_plain [of s] plain_sanitize [of "sanitizePlainText s"] plain_sanitize [of s] note_plain [of s]
    bounded_length [of s n] by metis

text \<open>
  A note with no \<open><\<close> and no control character in it is stored as it was written, apart from the
  white space around it.
\<close>

theorem plain_note_unchanged:
  assumes "LT \<notin> set s" "\<forall>c \<in> set s. \<not> is_control c"
  shows "sanitizePredictionNote s = trim_text s"
proof -
  have "tag_free s" using assms(1) by (induction s) auto
  with assms have "sanitizePlainText s = trim_text s"
    by (simp add: sanitizePlainText_def strip_tag_free filter_id_conv)
  moreover have "drop_openers (trim_text s) = trim_text s"
    using assms(1) set_trim_text [of s] by (blast intro: drop_openers_no_LT)
  ultimately show ?thesis by (simp add: sanitizePredictionNote_def trimmed_id [OF trim_trimmed])
qed

theorem plain_note_unchanged_witness: "sanitizePredictionNote [32, 66, 84, 67, 62, 53] = [66, 84, 67, 62, 53]"
  using plain_note_unchanged [of "[32, 66, 84, 67, 62, 53]"]
  by (simp add: is_control_def trim_text_def is_white_def)

text \<open>
  The second pass is not enough: in \<open><<img src=x\<close> the first \<open><\<close> is followed by another \<open><\<close>, which is
  kept at that moment and becomes a tag opener once its neighbour is dropped.
\<close>

lemma note_keeps_dangling_opener:
  "sanitizePredictionNote (map (\<lambda>c. of_char c) ''<<img src=x'') = map (\<lambda>c. of_char c) ''<img src=x''"
  by (simp add: sanitizePredictionNote_def sanitizePlainText_def trim_text_def is_control_def is_white_def opens_tag_def)

end
