(* ===== verification/Predictions.thy ===== *)
theory Predictions
  imports Soroban Slippage Stroops Text_Sanitizer Settlement_State
begin

text \<open>
  \<open>predictions/predictions.service.ts\<close>: submitting predictions one by one and in slips, notes,
  claims, rewards, listings, the profit and loss report and the CSV export.

  The key the database generates for a row is an argument, as is the clock.  The fraud signals, the
  fraud rules and the referral bookkeeping run detached after the transaction and their failures
  are swallowed; they touch none of the tables modelled here.  A stake string that the contract
  gateway has accepted is an integer literal, so the \<open>BigInt\<close> conversions after the call succeed.
\<close>

section \<open>Shared steps\<close>

record submit_dto =
  sub_market_id :: id
  sub_chosen_outcome :: string
  sub_stake :: string
  sub_key :: string
  sub_maxPrice :: "string option"
  sub_minSharesOut :: "string option"

definition find_by_key :: "string \<Rightarrow> world \<Rightarrow> prediction option" where
  "find_by_key key w = find_row clientIdempotencyKey key (predictions w)"

definition has_predicted :: "id \<Rightarrow> id \<Rightarrow> world \<Rightarrow> bool" where
  "has_predicted u m w \<longleftrightarrow> (\<exists>p \<in> set (predictions w). pred_user p = u \<and> pred_market p = m)"

text \<open>
  An insert the constraints of the entity refuse is a failed query: the primary key,
  \<open>UQ_prediction_user_market\<close>, \<open>UQ_prediction_client_idempotency_key\<close> and the two foreign keys.
\<close>

definition insert_prediction :: "prediction \<Rightarrow> world \<Rightarrow> world option" where
  "insert_prediction p w =
     (if pred_id p \<in> pred_id ` set (predictions w) \<or> has_predicted (pred_user p) (pred_market p) w \<or>
         clientIdempotencyKey p \<in> clientIdempotencyKey ` set (predictions w) \<or>
         pred_user p \<notin> user_id ` set (users w) \<or> pred_market p \<notin> mkt_id ` set (markets w)
      then None else Some (w\<lparr>predictions := predictions w @ [p]\<rparr>))"

text \<open>\<open>participant_count + 1\<close> and, for a stake other than zero, the pool plus the stake.\<close>

definition count_stake_market :: "id \<Rightarrow> stroops \<Rightarrow> world \<Rightarrow> world" where
  "count_stake_market k stake w =
     w\<lparr>markets := update_row mkt_id k (\<lambda>m. m\<lparr>participant_count := participant_count m + 1,
         total_pool_stroops := (if stake \<noteq> 0 then total_pool_stroops m + stake else total_pool_stroops m)\<rparr>)
       (markets w)\<rparr>"

definition count_stake_user :: "id \<Rightarrow> int \<Rightarrow> stroops \<Rightarrow> world \<Rightarrow> world" where
  "count_stake_user k n stake w =
     w\<lparr>users := update_row user_id k (\<lambda>u. u\<lparr>total_predictions := total_predictions u + n,
         total_staked_stroops := (if stake \<noteq> 0 then total_staked_stroops u + stake else total_staked_stroops u)\<rparr>)
       (users w)\<rparr>"

definition new_prediction ::
  "id \<Rightarrow> instant \<Rightarrow> user \<Rightarrow> market \<Rightarrow> string \<Rightarrow> stroops \<Rightarrow> string \<Rightarrow> string option \<Rightarrow> string \<Rightarrow> prediction"
where
  "new_prediction newId now u m outcome stake key fingerprint tx =
     \<lparr>pred_id = newId, pred_user = user_id u, pred_market = mkt_id m, chosen_outcome = outcome,
      stake_amount_stroops = stake, payout_claimed = False, payout_amount_stroops = 0,
      tx_hash = Some tx, pred_note = None, clientIdempotencyKey = key,
      device_fingerprint = fingerprint, submitted_at = now\<rparr>"

fun slippage_exn :: "slippage_error \<Rightarrow> exn" where
  "slippage_exn (InsufficientLiquidity p s) = InsufficientLiquidityException p s"
| "slippage_exn (SlippageExceeded a b c d) = SlippageExceededException a b c d"
| "slippage_exn (BigIntSyntaxError s) = SyntaxError s"

text \<open>The guarded call of the slippage checker, the same in both submission paths.\<close>

definition slippage_guard ::
  "string option \<Rightarrow> string option \<Rightarrow> soroban_prediction_result \<Rightarrow> (exn, unit) result"
where
  "slippage_guard maxPrice minSharesOut r =
     (if (truthy maxPrice \<or> truthy minSharesOut) \<and> truthy (res_realized_price r) \<and> truthy (res_shares_received r)
      then (case checkSlippage maxPrice minSharesOut (the (res_realized_price r)) (the (res_shares_received r)) of
              Inl e \<Rightarrow> Inl (slippage_exn e)
            | Inr _ \<Rightarrow> Inr ())
      else Inr ())"

section \<open>Submitting one prediction\<close>

definition submit ::
  "soroban_env \<Rightarrow> instant \<Rightarrow> id \<Rightarrow> submit_dto \<Rightarrow> user \<Rightarrow> string option \<Rightarrow>
   (world, exn, prediction \<times> string \<times> string) action"
where
  "submit env now newId dto u fingerprint w =
     (case find_market (sub_market_id dto) w of
        None \<Rightarrow> (Inl (MarketNotFoundException (sub_market_id dto)), w)
      | Some m \<Rightarrow>
          if is_resolved m \<or> is_cancelled m \<or> is_paused m \<or> now > end_time m
          then (Inl (MarketClosedException
                  (if is_paused m then ''Market is paused - predictions are no longer accepted''
                   else ''Market is closed - predictions are no longer accepted'')), w)
          else if sub_chosen_outcome dto \<notin> set (outcome_options m)
          then (Inl (InvalidOutcomeException (sub_chosen_outcome dto) (outcome_options m)), w)
          else case find_by_key (sub_key dto) w of
                 Some existing \<Rightarrow> (Inr (existing, ''0'', ''0''), w)
               | None \<Rightarrow>
                   if has_predicted (user_id u) (mkt_id m) w
                   then (Inl (DuplicatePredictionException (mkt_id m)), w)
                   else (case submitPrediction_call env now (stellar_address u) (on_chain_market_id m)
                                (sub_chosen_outcome dto) (sub_stake dto) of
                           Inl e \<Rightarrow> (Inl e, w)
                         | Inr r \<Rightarrow>
                             let w1 = call_chain (SubmitPrediction (stellar_address u) (on_chain_market_id m)
                                        (sub_chosen_outcome dto) (sub_stake dto)) w;
                                 stake = the (bigint (sub_stake dto));
                                 p = new_prediction newId now u m (sub_chosen_outcome dto) stake
                                       (sub_key dto) fingerprint (res_tx_hash r)
                             in (case slippage_guard (sub_maxPrice dto) (sub_minSharesOut dto) r of
                                   Inl e \<Rightarrow> (Inl e, w1)
                                 | Inr _ \<Rightarrow>
                                     (case insert_prediction p w1 of
                                        None \<Rightarrow> (Inl QueryFailed, w1)
                                      | Some w2 \<Rightarrow>
                                          (Inr (p, or_zero (res_realized_price r), or_zero (res_shares_received r)),
                                           count_stake_user (user_id u) 1 stake
                                             (count_stake_market (mkt_id m) stake w2))))))"

section \<open>Submitting a slip\<close>

definition MAX_BATCH_PREDICTIONS :: nat where "MAX_BATCH_PREDICTIONS = 20"

text \<open>The reasons an item is rejected for, one constructor per message of the source.\<close>

datatype batch_failure =
    ItemMarketNotFound id
  | ItemMarketPaused
  | ItemMarketClosed
  | ItemInvalidOutcome string "string list"
  | ItemAlreadyPredicted
  | ItemDuplicateMarket
  | ItemDuplicateKey
  | ItemKeyUsed
  | ItemChainFailed exn
  | BATCH_ROLLED_BACK_REASON

type_synonym failures = "(nat \<times> batch_failure) list"

datatype batch_result =
    Rejected nat id "batch_failure option"
  | Fulfilled nat id prediction string string

datatype batch_error =
    Plain exn
  | BatchValidationFailedException failures "batch_result list"
  | BatchChainSubmissionFailedException failures "batch_result list"

record batch_response =
  results :: "batch_result list"
  succeeded :: nat
  failed :: nat
  atomic_flag :: bool

text \<open>One item: its failure, and the markets and keys seen so far in the slip.\<close>

definition getBatchItemFailure ::
  "instant \<Rightarrow> submit_dto \<Rightarrow> market option \<Rightarrow> id set \<Rightarrow> string set \<Rightarrow> id list \<times> string list \<Rightarrow>
   batch_failure option \<times> id list \<times> string list"
where
  "getBatchItemFailure now item mo predictedMarketIds existingKeySet seen =
     (case seen of (seenInBatch, seenKeys) \<Rightarrow>
       (case mo of
          None \<Rightarrow> (Some (ItemMarketNotFound (sub_market_id item)), seenInBatch, seenKeys)
        | Some m \<Rightarrow>
            if is_paused m then (Some ItemMarketPaused, seenInBatch, seenKeys)
            else if is_resolved m \<or> is_cancelled m \<or> now > end_time m
            then (Some ItemMarketClosed, seenInBatch, seenKeys)
            else if sub_chosen_outcome item \<notin> set (outcome_options m)
            then (Some (ItemInvalidOutcome (sub_chosen_outcome item) (outcome_options m)), seenInBatch, seenKeys)
            else if mkt_id m \<in> predictedMarketIds then (Some ItemAlreadyPredicted, seenInBatch, seenKeys)
            else if mkt_id m \<in> set seenInBatch then (Some ItemDuplicateMarket, seenInBatch, seenKeys)
            else if sub_key item \<in> set seenKeys then (Some ItemDuplicateKey, mkt_id m # seenInBatch, seenKeys)
            else if sub_key item \<in> existingKeySet then (Some ItemKeyUsed, mkt_id m # seenInBatch, seenKeys)
            else (None, mkt_id m # seenInBatch, sub_key item # seenKeys)))"

fun validate_items ::
  "instant \<Rightarrow> world \<Rightarrow> id set \<Rightarrow> string set \<Rightarrow> id list \<times> string list \<Rightarrow> (nat \<times> submit_dto) list \<Rightarrow> failures"
where
  "validate_items now w predicted keys seen [] = []"
| "validate_items now w predicted keys seen ((i, item) # items) =
     (case getBatchItemFailure now item (find_market (sub_market_id item) w) predicted keys seen of
        (f, seen') \<Rightarrow>
          (case f of None \<Rightarrow> [] | Some e \<Rightarrow> [(i, e)]) @ validate_items now w predicted keys seen' items)"

definition buildRolledBackResults :: "(nat \<times> submit_dto) list \<Rightarrow> failures \<Rightarrow> batch_result list" where
  "buildRolledBackResults items fs =
     map (\<lambda>(i, item). Rejected i (sub_market_id item)
            (Some (case map_of fs i of Some e \<Rightarrow> e | None \<Rightarrow> BATCH_ROLLED_BACK_REASON))) items"

type_synonym chain_results = "(nat \<times> submit_dto \<times> market \<times> soroban_prediction_result) list"

text \<open>
  The on-chain phase: the items without a failure are submitted in order.  An error, of the call or
  of the slippage check behind it, stops an atomic slip and is noted for any other.
\<close>

definition submit_item ::
  "soroban_env \<Rightarrow> instant \<Rightarrow> user \<Rightarrow> submit_dto \<Rightarrow> market \<Rightarrow> (world, exn, soroban_prediction_result) action"
where
  "submit_item env now u item m w =
     (case submitPrediction_call env now (stellar_address u) (on_chain_market_id m)
             (sub_chosen_outcome item) (sub_stake item) of
        Inl e \<Rightarrow> (Inl e, w)
      | Inr r \<Rightarrow>
          let w1 = call_chain (SubmitPrediction (stellar_address u) (on_chain_market_id m)
                     (sub_chosen_outcome item) (sub_stake item)) w
          in (case slippage_guard (sub_maxPrice item) (sub_minSharesOut item) r of
                Inl e \<Rightarrow> (Inl e, w1)
              | Inr _ \<Rightarrow> (Inr r, w1)))"

fun chain_phase ::
  "soroban_env \<Rightarrow> instant \<Rightarrow> user \<Rightarrow> bool \<Rightarrow> (nat \<times> submit_dto) list \<Rightarrow> failures \<Rightarrow>
   (world, failures, chain_results \<times> failures) action"
where
  "chain_phase env now u atomic [] fs w = (Inr ([], fs), w)"
| "chain_phase env now u atomic ((i, item) # items) fs w =
     (if map_of fs i \<noteq> None then chain_phase env now u atomic items fs w
      else let m = the (find_market (sub_market_id item) w)
           in (case submit_item env now u item m w of
                 (Inl e, w1) \<Rightarrow>
                   let fs' = fs @ [(i, ItemChainFailed e)]
                   in if atomic then (Inl fs', w1) else chain_phase env now u atomic items fs' w1
               | (Inr r, w1) \<Rightarrow>
                   (case chain_phase env now u atomic items fs w1 of
                      (Inl fs', w2) \<Rightarrow> (Inl fs', w2)
                    | (Inr (rs, fs'), w2) \<Rightarrow> (Inr ((i, item, m, r) # rs, fs'), w2))))"

text \<open>The transaction: one row and one market update per item; a refused insert rolls it all back.\<close>

fun persist_items ::
  "instant \<Rightarrow> (nat \<Rightarrow> id) \<Rightarrow> user \<Rightarrow> string option \<Rightarrow> chain_results \<Rightarrow> world \<Rightarrow>
   ((nat \<times> prediction) list \<times> world) option"
where
  "persist_items now newId u fingerprint [] w = Some ([], w)"
| "persist_items now newId u fingerprint ((i, item, m, r) # rs) w =
     (let stake = the (bigint (sub_stake item));
          p = new_prediction (newId i) now u m (sub_chosen_outcome item) stake (sub_key item)
                fingerprint (res_tx_hash r)
      in (case insert_prediction p w of
            None \<Rightarrow> None
          | Some w1 \<Rightarrow>
              (case persist_items now newId u fingerprint rs (count_stake_market (mkt_id m) stake w1) of
                 None \<Rightarrow> None
               | Some (ps, w2) \<Rightarrow> Some ((i, p) # ps, w2))))"

definition total_stake :: "chain_results \<Rightarrow> stroops" where
  "total_stake rs = sum_list (map (\<lambda>(_, item, _, _). the (bigint (sub_stake item))) rs)"

definition batch_results ::
  "(nat \<times> submit_dto) list \<Rightarrow> failures \<Rightarrow> chain_results \<Rightarrow> (nat \<times> prediction) list \<Rightarrow> batch_result list"
where
  "batch_results items fs rs saved =
     map (\<lambda>(i, item).
        case map_of saved i of
          None \<Rightarrow> Rejected i (sub_market_id item) (map_of fs i)
        | Some p \<Rightarrow> (case map_of rs i of
                      None \<Rightarrow> Fulfilled i (sub_market_id item) p ''0'' ''0''
                    | Some (_, _, r) \<Rightarrow> Fulfilled i (sub_market_id item) p
                        (or_zero (res_realized_price r)) (or_zero (res_shares_received r)))) items"

fun is_fulfilled :: "batch_result \<Rightarrow> bool" where
  "is_fulfilled (Fulfilled _ _ _ _ _) = True" | "is_fulfilled (Rejected _ _ _) = False"

text \<open>
  \<open>loads_market\<close> says whether the object-relational mapper hands out \<open>prediction.market\<close> from a
  \<open>find\<close> that does not ask for the relation; when it does not, reading \<open>prediction.market.id\<close> of an
  earlier prediction throws.
\<close>

definition submitBatch ::
  "soroban_env \<Rightarrow> bool \<Rightarrow> instant \<Rightarrow> (nat \<Rightarrow> id) \<Rightarrow> submit_dto list \<Rightarrow> bool option \<Rightarrow> user \<Rightarrow> string option \<Rightarrow>
   (world, batch_error, batch_response) action"
where
  "submitBatch env loads_market now newId dtos atomic_opt u fingerprint w =
     (let atomic = (case atomic_opt of None \<Rightarrow> True | Some b \<Rightarrow> b);
          items = enumerate 0 dtos;
          marketIds = set (map sub_market_id dtos);
          existing = filter (\<lambda>p. pred_user p = user_id u \<and> pred_market p \<in> marketIds) (predictions w);
          predicted = set (map pred_market existing);
          keys = set (filter (\<lambda>k. k \<in> set (map sub_key dtos)) (map clientIdempotencyKey (predictions w)))
      in if length dtos > MAX_BATCH_PREDICTIONS
         then (Inl (Plain (BatchSizeExceededException (length dtos) MAX_BATCH_PREDICTIONS)), w)
         else if existing \<noteq> [] \<and> \<not> loads_market then (Inl (Plain TypeError), w)
         else let fs = validate_items now w predicted keys ([], []) items
              in if atomic \<and> fs \<noteq> []
                 then (Inl (BatchValidationFailedException fs (buildRolledBackResults items fs)), w)
                 else (case chain_phase env now u atomic items fs w of
                         (Inl fs', w1) \<Rightarrow>
                           (Inl (BatchChainSubmissionFailedException fs' (buildRolledBackResults items fs')), w1)
                       | (Inr (rs, fs'), w1) \<Rightarrow>
                           (case persist_items now newId u fingerprint rs w1 of
                              None \<Rightarrow> (Inl (Plain QueryFailed), w1)
                            | Some (saved, w2) \<Rightarrow>
                                let res = batch_results items fs' rs saved
                                in (Inr \<lparr>results = res, succeeded = length (filter is_fulfilled res),
                                        failed = length (filter (\<lambda>r. \<not> is_fulfilled r) res), atomic_flag = atomic\<rparr>,
                                    if rs = [] then w2
                                    else count_stake_user (user_id u) (int (length rs)) (total_stake rs) w2))))"

section \<open>Notes\<close>

text \<open>\<open>findOne({ where: { id, user: { id } }, relations: ['market'] })\<close>\<close>

definition find_own_prediction :: "id \<Rightarrow> id \<Rightarrow> world \<Rightarrow> prediction option" where
  "find_own_prediction k userId w = List.find (\<lambda>p. pred_id p = k \<and> pred_user p = userId) (predictions w)"

definition updateNote :: "id \<Rightarrow> js_text \<Rightarrow> user \<Rightarrow> (world, exn, prediction) action" where
  "updateNote predictionId txt u w =
     (case find_own_prediction predictionId (user_id u) w of
        None \<Rightarrow> (Inl (PredictionNotFoundException predictionId), w)
      | Some p \<Rightarrow>
          let sanitizedNote = sanitizePredictionNote txt
          in if length sanitizedNote > PREDICTION_NOTE_MAX_LENGTH
             then (Inl (NoteTooLongException (length sanitizedNote) PREDICTION_NOTE_MAX_LENGTH), w)
             else let p' = p\<lparr>pred_note := Some sanitizedNote\<rparr> in (Inr p', save_prediction p' w))"

section \<open>Claims and rewards\<close>

definition claim :: "soroban_env \<Rightarrow> instant \<Rightarrow> id \<Rightarrow> user \<Rightarrow> (world, exn, prediction) action" where
  "claim env now predictionId u w =
     (case find_own_prediction predictionId (user_id u) w of
        None \<Rightarrow> (Inl (PredictionNotFoundException predictionId), w)
      | Some p \<Rightarrow>
          if payout_claimed p then (Inl (PayoutAlreadyClaimedException predictionId), w)
          else case find_market (pred_market p) w of
                 None \<Rightarrow> (Inl TypeError, w)
               | Some m \<Rightarrow>
                   if \<not> is_resolved m then (Inl (MarketNotResolvedException (mkt_id m)), w)
                   else if resolved_outcome m \<noteq> Some (chosen_outcome p)
                   then (Inl (PredictionNotWonException predictionId), w)
                   else (case claimPayout_call env now (stellar_address u) (on_chain_market_id m) of
                           Inl e \<Rightarrow> (Inl e, w)
                         | Inr r \<Rightarrow>
                             let w1 = call_chain (ClaimPayout (stellar_address u) (on_chain_market_id m)) w;
                                 payout = (if truthy (res_payout_amount_stroops r)
                                           then the (bigint (the (res_payout_amount_stroops r)))
                                           else payout_amount_stroops p);
                                 p' = p\<lparr>payout_claimed := True, tx_hash := Some (res_tx_hash r),
                                        payout_amount_stroops := payout\<rparr>
                             in (Inr p', save_prediction p' w1)))"

text \<open>The market joined to a prediction; the foreign key makes it exist.\<close>

definition won :: "world \<Rightarrow> prediction \<Rightarrow> bool" where
  "won w p \<longleftrightarrow> (case find_market (pred_market p) w of
     None \<Rightarrow> False
   | Some m \<Rightarrow> is_resolved m \<and> resolved_outcome m = Some (chosen_outcome p))"

definition unresolved :: "world \<Rightarrow> prediction \<Rightarrow> bool" where
  "unresolved w p \<longleftrightarrow> (case find_market (pred_market p) w of None \<Rightarrow> False | Some m \<Rightarrow> \<not> is_resolved m)"

fun rewards_loop :: "world \<Rightarrow> prediction list \<Rightarrow> stroops \<times> stroops \<times> stroops \<Rightarrow> stroops \<times> stroops \<times> stroops" where
  "rewards_loop w [] acc = acc"
| "rewards_loop w (p # ps) (totalEarned, claimable, vesting) =
     (if payout_claimed p then rewards_loop w ps (totalEarned + payout_amount_stroops p, claimable, vesting)
      else if unresolved w p then rewards_loop w ps (totalEarned, claimable, vesting + stake_amount_stroops p)
      else if won w p then rewards_loop w ps (totalEarned, claimable + stake_amount_stroops p, vesting)
      else rewards_loop w ps (totalEarned, claimable, vesting))"

definition getRewardsSummary :: "user \<Rightarrow> world \<Rightarrow> rewards_summary" where
  "getRewardsSummary u w =
     (case rewards_loop w (filter (\<lambda>p. pred_user p = user_id u) (predictions w)) (0, 0, 0) of
        (totalEarned, claimable, vesting) \<Rightarrow> fromStroops totalEarned claimable vesting)"

datatype claim_result = ClaimFulfilled id "string option" stroops | ClaimRejected id exn

record claim_all_response =
  claimed_xlm :: string
  claimed_stroops :: stroops
  claimed_count :: nat
  transaction_hash :: string
  claim_results :: "claim_result list"
  summary :: rewards_summary

definition claimable_ids :: "user \<Rightarrow> world \<Rightarrow> id list" where
  "claimable_ids u w =
     map pred_id (filter (won w) (filter (\<lambda>p. pred_user p = user_id u \<and> \<not> payout_claimed p) (predictions w)))"

fun claim_each ::
  "soroban_env \<Rightarrow> (id \<Rightarrow> instant) \<Rightarrow> user \<Rightarrow> id list \<Rightarrow> stroops \<times> string \<times> world \<Rightarrow>
   claim_result list \<times> stroops \<times> string \<times> world"
where
  "claim_each env now u [] s = ([], s)"
| "claim_each env now u (k # ks) (claimed, lastTx, w) =
     (case claim env (now k) k u w of
        (Inr p, w1) \<Rightarrow>
          (case claim_each env now u ks (claimed + payout_amount_stroops p,
                  (case tx_hash p of Some h \<Rightarrow> h | None \<Rightarrow> lastTx), w1) of
             (rs, s) \<Rightarrow> (ClaimFulfilled k (tx_hash p) (payout_amount_stroops p) # rs, s))
      | (Inl e, w1) \<Rightarrow>
          (case claim_each env now u ks (claimed, lastTx, w1) of (rs, s) \<Rightarrow> (ClaimRejected k e # rs, s)))"

fun claim_ok :: "claim_result \<Rightarrow> bool" where
  "claim_ok (ClaimFulfilled _ _ _) = True" | "claim_ok (ClaimRejected _ _) = False"

definition claimAllRewards ::
  "soroban_env \<Rightarrow> (id \<Rightarrow> instant) \<Rightarrow> user \<Rightarrow> (world, exn, claim_all_response) action"
where
  "claimAllRewards env now u w =
     (if claimable_ids u w = [] then (Inl (NoClaimableRewardsException (user_id u)), w)
      else case claim_each env now u (claimable_ids u w) (0, [], w) of
             (rs, claimed, lastTx, w1) \<Rightarrow>
               (Inr \<lparr>claimed_xlm = stroopsToXlm claimed, claimed_stroops = claimed, claimed_count = length (filter claim_ok rs),
                     transaction_hash = lastTx, claim_results = rs, summary = getRewardsSummary u w1\<rparr>, w1))"

end
