(* ===== verification/Prediction_Facts.thy ===== *)
theory Prediction_Facts
  imports Predictions Market_Lifecycle
begin

text \<open>
  What the prediction service guarantees: the books balance (every counter and every pool is the
  count or the sum of the stored predictions), whatever request is handled; a retried submission
  is harmless; an atomic slip is all or nothing; a payout is claimed at most once and only for a
  winning prediction; claiming everything leaves nothing claimable.
\<close>

section \<open>Requests\<close>

datatype prediction_cmd =
    Submit id submit_dto user "string option"
  | SubmitSlip "nat \<Rightarrow> id" "submit_dto list" "bool option" user "string option"
  | WriteNote id js_text user
  | Claim id user
  | ClaimAll "id \<Rightarrow> instant" user

primrec handle_prediction :: "soroban_env \<Rightarrow> bool \<Rightarrow> instant \<Rightarrow> prediction_cmd \<Rightarrow> world \<Rightarrow> world" where
  "handle_prediction env lm now (Submit k dto u fp) w = snd (submit env now k dto u fp w)"
| "handle_prediction env lm now (SubmitSlip ids dtos ao u fp) w = snd (submitBatch env lm now ids dtos ao u fp w)"
| "handle_prediction env lm now (WriteNote k txt u) w = snd (updateNote k txt u w)"
| "handle_prediction env lm now (Claim k u) w = snd (claim env now k u w)"
| "handle_prediction env lm now (ClaimAll clock u) w = snd (claimAllRewards env clock u w)"

section \<open>The books\<close>

definition stake_total :: "(prediction \<Rightarrow> bool) \<Rightarrow> prediction list \<Rightarrow> stroops" where
  "stake_total P ps = sum_list (map stake_amount_stroops (filter P ps))"

definition row_count :: "(prediction \<Rightarrow> bool) \<Rightarrow> prediction list \<Rightarrow> int" where
  "row_count P ps = int (length (filter P ps))"

definition market_books :: "world \<Rightarrow> bool" where
  "market_books w \<longleftrightarrow> (\<forall>m \<in> set (markets w).
     total_pool_stroops m = stake_total (\<lambda>p. pred_market p = mkt_id m) (predictions w) \<and>
     participant_count m = row_count (\<lambda>p. pred_market p = mkt_id m) (predictions w))"

definition user_books :: "prediction list \<Rightarrow> world \<Rightarrow> bool" where
  "user_books ps w \<longleftrightarrow> (\<forall>u \<in> set (users w).
     total_staked_stroops u = stake_total (\<lambda>p. pred_user p = user_id u) ps \<and>
     total_predictions u = row_count (\<lambda>p. pred_user p = user_id u) ps)"

definition rows_ok :: "world \<Rightarrow> bool" where
  "rows_ok w \<longleftrightarrow> unique_keys mkt_id (markets w) \<and> unique_keys user_id (users w) \<and>
     unique_keys pred_id (predictions w) \<and> unique_keys clientIdempotencyKey (predictions w) \<and>
     unique_keys (\<lambda>p. (pred_user p, pred_market p)) (predictions w) \<and>
     (\<forall>p \<in> set (predictions w). pred_user p \<in> user_id ` set (users w) \<and> pred_market p \<in> mkt_id ` set (markets w))"

definition books :: "world \<Rightarrow> bool" where
  "books w \<longleftrightarrow> rows_ok w \<and> market_books w \<and> user_books (predictions w) w"

lemma stake_total_append [simp]: "stake_total P (xs @ ys) = stake_total P xs + stake_total P ys"
  by (simp add: stake_total_def)

lemma row_count_append [simp]: "row_count P (xs @ ys) = row_count P xs + row_count P ys"
  by (simp add: row_count_def)

lemma totals_simps [simp]:
  "stake_total P [] = 0" "row_count P [] = 0"
  "stake_total P (p # ps) = (if P p then stake_amount_stroops p else 0) + stake_total P ps"
  "row_count P (p # ps) = (if P p then 1 else 0) + row_count P ps"
  by (simp_all add: stake_total_def row_count_def)

text \<open>The world after one row was inserted and counted on its market.\<close>

definition enter :: "prediction \<Rightarrow> world \<Rightarrow> world" where
  "enter p w = count_stake_market (pred_market p) (stake_amount_stroops p) (w\<lparr>predictions := predictions w @ [p]\<rparr>)"

lemma enter_frames [simp]:
  "predictions (enter p w) = predictions w @ [p]" "users (enter p w) = users w" "chain_log (enter p w) = chain_log w"
  "map mkt_id (markets (enter p w)) = map mkt_id (markets w)"
  "mkt_id ` set (markets (enter p w)) = mkt_id ` set (markets w)"
  by (simp_all add: enter_def count_stake_market_def map_key_update_row keys_update_row)

lemma market_books_enter: "market_books w \<Longrightarrow> market_books (enter p w)"
  by (auto simp: market_books_def enter_def count_stake_market_def set_update_row)

lemma rows_ok_enter:
  assumes "rows_ok w" "insert_prediction p w = Some w'"
  shows "rows_ok (enter p w)"
  using assms
  by (fastforce simp: rows_ok_def insert_prediction_def has_predicted_def split: if_splits)

lemma insert_then_count:
  assumes "insert_prediction p w = Some w'"
  shows "count_stake_market (pred_market p) (stake_amount_stroops p) w' = enter p w"
  using assms by (auto simp: insert_prediction_def enter_def split: if_splits)

lemma user_books_count:
  assumes "unique_keys user_id (users w)" "user_books ps w" "\<forall>p \<in> set new. pred_user p = k"
    and "stake = sum_list (map stake_amount_stroops new)" "n = int (length new)"
  shows "user_books (ps @ new) (count_stake_user k n stake w)"
proof -
  have "filter (\<lambda>p. pred_user p = j) new = (if j = k then new else [])" for j
    using assms(3) by (auto simp: filter_id_conv filter_empty_conv)
  then have "stake_total (\<lambda>p. pred_user p = j) new = (if j = k then stake else 0)"
    "row_count (\<lambda>p. pred_user p = j) new = (if j = k then n else 0)" for j
    using assms(4,5) by (auto simp: stake_total_def row_count_def)
  with assms(2) show ?thesis
    by (auto simp: user_books_def count_stake_user_def set_update_row)
qed

lemma count_user_frames [simp]:
  "predictions (count_stake_user k n s w) = predictions w" "markets (count_stake_user k n s w) = markets w"
  "chain_log (count_stake_user k n s w) = chain_log w"
  "map user_id (users (count_stake_user k n s w)) = map user_id (users w)"
  "user_id ` set (users (count_stake_user k n s w)) = user_id ` set (users w)"
  by (simp_all add: count_stake_user_def map_key_update_row keys_update_row)

lemma rows_ok_cong:
  "rows_ok w \<Longrightarrow> predictions w' = predictions w \<Longrightarrow> map mkt_id (markets w') = map mkt_id (markets w) \<Longrightarrow>
   map user_id (users w') = map user_id (users w) \<Longrightarrow> rows_ok w'"
  unfolding rows_ok_def by (metis (no_types, lifting) list.set_map)

lemma books_call_chain [simp]: "books (call_chain c w) = books w"
  by (simp add: books_def rows_ok_def market_books_def user_books_def table_simps)

text \<open>One accepted submission: the row is entered and the user's counters follow.\<close>

lemma books_enter_count:
  assumes "books w" "insert_prediction p w = Some w'"
  shows "books (count_stake_user (pred_user p) 1 (stake_amount_stroops p) (enter p w))"
proof -
  have "rows_ok (enter p w)" using assms rows_ok_enter by (auto simp: books_def)
  moreover have "user_books (predictions w @ [p]) (count_stake_user (pred_user p) 1 (stake_amount_stroops p) (enter p w))"
    using assms(1) by (intro user_books_count) (auto simp: books_def rows_ok_def user_books_def)
  ultimately show ?thesis
    using market_books_enter [of w p] assms(1)
    by (auto simp: books_def market_books_def intro: rows_ok_cong)
qed

lemma new_prediction_simps [simp]:
  "pred_user (new_prediction k t u m oc s key fp tx) = user_id u"
  "pred_market (new_prediction k t u m oc s key fp tx) = mkt_id m"
  "stake_amount_stroops (new_prediction k t u m oc s key fp tx) = s"
  "clientIdempotencyKey (new_prediction k t u m oc s key fp tx) = key"
  "pred_id (new_prediction k t u m oc s key fp tx) = k"
  "payout_claimed (new_prediction k t u m oc s key fp tx) = False"
  by (simp_all add: new_prediction_def)

text \<open>The outcomes of \<open>submit\<close>: refused, answered from the key, or entered.\<close>

lemma submit_cases:
  assumes "submit env now newId dto u fp w = (r, w')"
  obtains (refused) e where "r = Inl e" "w' = w"
  | (submitted_only) e and m :: market where "r = Inl e" "w' = call_chain (SubmitPrediction (stellar_address u) (on_chain_market_id m)
        (sub_chosen_outcome dto) (sub_stake dto)) w"
  | (replayed) p where "r = Inr (p, ''0'', ''0'')" "find_by_key (sub_key dto) w = Some p" "w' = w"
  | (entered) m p n price shares w1 where "find_market (sub_market_id dto) w = Some m" "bigint (sub_stake dto) = Some n"
      "r = Inr (p, price, shares)" "stake_amount_stroops p = n" "pred_user p = user_id u" "pred_market p = mkt_id m"
      "clientIdempotencyKey p = sub_key dto" "\<not> payout_claimed p" "now \<le> end_time m" "sub_chosen_outcome dto \<in> set (outcome_options m)"
      "\<not> is_resolved m" "\<not> is_cancelled m" "\<not> is_paused m"
      "insert_prediction p (call_chain (SubmitPrediction (stellar_address u) (on_chain_market_id m)
        (sub_chosen_outcome dto) (sub_stake dto)) w) = Some w1"
      "w' = count_stake_user (user_id u) 1 n (enter p (call_chain (SubmitPrediction (stellar_address u)
        (on_chain_market_id m) (sub_chosen_outcome dto) (sub_stake dto)) w))"
proof (cases "find_market (sub_market_id dto) w")
  case None
  with assms show ?thesis by (intro refused [of "MarketNotFoundException (sub_market_id dto)"]) (simp_all add: submit_def)
next
  case (Some m)
  note m = Some
  show ?thesis
  proof (cases "is_resolved m \<or> is_cancelled m \<or> is_paused m \<or> now > end_time m \<or> sub_chosen_outcome dto \<notin> set (outcome_options m)")
    case True
    with assms m refused show ?thesis by (auto simp: submit_def split: if_splits)
  next
    case open_market: False
    show ?thesis
    proof (cases "find_by_key (sub_key dto) w")
      case (Some p)
      with assms m open_market replayed show ?thesis by (auto simp: submit_def)
    next
      case None
      let ?call = "submitPrediction_call env now (stellar_address u) (on_chain_market_id m) (sub_chosen_outcome dto) (sub_stake dto)"
      show ?thesis
      proof (cases ?call)
        case (Inl e)
        with assms m open_market None refused show ?thesis by (auto simp: submit_def split: if_splits)
      next
        case (Inr res)
        then obtain n where n: "bigint (sub_stake dto) = Some n" by (rule submitPrediction_call_Inr)
        let ?w1 = "call_chain (SubmitPrediction (stellar_address u) (on_chain_market_id m) (sub_chosen_outcome dto) (sub_stake dto)) w"
        let ?p = "new_prediction newId now u m (sub_chosen_outcome dto) n (sub_key dto) fp (res_tx_hash res)"
        have body: "(r, w') = (if has_predicted (user_id u) (mkt_id m) w
            then (Inl (DuplicatePredictionException (mkt_id m)), w)
            else case slippage_guard (sub_maxPrice dto) (sub_minSharesOut dto) res of
              Inl e \<Rightarrow> (Inl e, ?w1)
            | Inr _ \<Rightarrow> (case insert_prediction ?p ?w1 of
                None \<Rightarrow> (Inl QueryFailed, ?w1)
              | Some w2 \<Rightarrow> (Inr (?p, or_zero (res_realized_price res), or_zero (res_shares_received res)),
                  count_stake_user (user_id u) 1 n (count_stake_market (mkt_id m) n w2))))"
          using assms m open_market None Inr n by (simp add: submit_def Let_def cong: if_cong)
        show ?thesis
        proof (cases "insert_prediction ?p ?w1")
          case None
          with body refused submitted_only show ?thesis by (auto split: if_splits sum.splits)
        next
          case (Some w2)
          from insert_then_count [OF this] have "count_stake_market (mkt_id m) n w2 = enter ?p ?w1" by simp
          with body Some refused submitted_only entered [OF m n, of ?p] open_market show ?thesis
            by (auto split: if_splits sum.splits)
        qed
      qed
    qed
  qed
qed

lemma submit_books: "books w \<Longrightarrow> books (snd (submit env now newId dto u fp w))"
proof -
  assume b: "books w"
  obtain r w' where s: "submit env now newId dto u fp w = (r, w')" by fastforce
  from s have "books w'"
  proof (cases rule: submit_cases)
    case (entered m p n price shares w1)
    let ?w = "call_chain (SubmitPrediction (stellar_address u) (on_chain_market_id m) (sub_chosen_outcome dto) (sub_stake dto)) w"
    from b have "books ?w" by simp
    from books_enter_count [OF this entered(14)] show ?thesis
      unfolding entered(4,5) entered(15) .
  next
    case (submitted_only e m)
    then show ?thesis using b by (simp only: books_call_chain)
  qed (use b in simp_all)
  with s show ?thesis by simp
qed

section \<open>Slips\<close>

text \<open>The on-chain phase touches nothing but the log of contract calls.\<close>

definition stake_calls :: "chain_call list \<Rightarrow> bool" where
  "stake_calls cs \<longleftrightarrow> (\<forall>c \<in> set cs. \<exists>a m oc s. c = SubmitPrediction a m oc s)"

lemma stake_calls_simps [simp]:
  "stake_calls []" "stake_calls (xs @ ys) \<longleftrightarrow> stake_calls xs \<and> stake_calls ys" "stake_calls [SubmitPrediction a m oc s]"
  by (auto simp: stake_calls_def)

lemma submit_item_log:
  "submit_item env now u item m w = (r, w') \<Longrightarrow> \<exists>cs. w' = w\<lparr>chain_log := chain_log w @ cs\<rparr> \<and> stake_calls cs"
  by (auto simp: submit_item_def Let_def call_chain_def split: sum.splits intro: exI [of _ "[]"])

lemma chain_phase_log:
  "chain_phase env now u atomic items fs w = (r, w') \<Longrightarrow> \<exists>cs. w' = w\<lparr>chain_log := chain_log w @ cs\<rparr> \<and> stake_calls cs"
proof (induction items arbitrary: fs w r w')
  case Nil
  then show ?case by (auto intro: exI [of _ "[]"])
next
  case (Cons x items)
  obtain i item where x: "x = (i, item)" by (cases x)
  show ?case
  proof (cases "map_of fs i = None")
    case False
    with Cons x show ?thesis by auto
  next
    case True
    let ?m = "the (find_market (sub_market_id item) w)"
    obtain r1 w1 where step: "submit_item env now u item ?m w = (r1, w1)" by fastforce
    then obtain cs where cs: "w1 = w\<lparr>chain_log := chain_log w @ cs\<rparr>" "stake_calls cs" using submit_item_log by blast
    have "\<exists>cs'. w' = w1\<lparr>chain_log := chain_log w1 @ cs'\<rparr> \<and> stake_calls cs'"
    proof (cases r1)
      case (Inl e)
      with Cons.prems True step x Cons.IH [of "fs @ [(i, ItemChainFailed e)]" w1 r w'] show ?thesis
        by (cases atomic) (auto simp: Let_def intro: exI [of _ "[]"])
    next
      case (Inr res)
      obtain r2 w2 where rest: "chain_phase env now u atomic items fs w1 = (r2, w2)" by fastforce
      with Cons.prems True step x Inr have "w' = w2" by (auto simp: Let_def split: sum.splits)
      with Cons.IH [OF rest] show ?thesis by simp
    qed
    with cs show ?thesis by auto
  qed
qed

lemma books_log [simp]: "books (w\<lparr>chain_log := x\<rparr>) = books w"
  by (simp add: books_def rows_ok_def market_books_def user_books_def)

text \<open>What the transaction of a slip writes.\<close>

lemma persist_items_effect:
  assumes "persist_items now newId u fp rs w = Some (saved, w')" "rows_ok w" "market_books w"
  shows "rows_ok w' \<and> market_books w' \<and> users w' = users w \<and> chain_log w' = chain_log w \<and>
    predictions w' = predictions w @ map snd saved \<and> map fst saved = map fst rs \<and>
    map clientIdempotencyKey (map snd saved) = map (\<lambda>(_, item, _, _). sub_key item) rs \<and>
    map pred_market (map snd saved) = map (\<lambda>(_, _, m, _). mkt_id m) rs \<and>
    (\<forall>p \<in> set (map snd saved). pred_user p = user_id u) \<and>
    sum_list (map stake_amount_stroops (map snd saved)) = total_stake rs"
  using assms
proof (induction rs arbitrary: w saved)
  case Nil
  then show ?case by (simp add: total_stake_def)
next
  case (Cons x rs)
  obtain i item m res where x: "x = (i, item, m, res)" by (cases x)
  let ?p = "new_prediction (newId i) now u m (sub_chosen_outcome item) (the (bigint (sub_stake item))) (sub_key item) fp (res_tx_hash res)"
  from Cons.prems(1) x obtain w1 saved' where ins: "insert_prediction ?p w = Some w1" and
    rest: "persist_items now newId u fp rs (enter ?p w) = Some (saved', w')" and saved: "saved = (i, ?p) # saved'"
    using insert_then_count [of ?p w] by (auto simp: Let_def split: option.splits prod.splits)
  from Cons.IH [OF rest rows_ok_enter [OF Cons.prems(2) ins] market_books_enter [OF Cons.prems(3)]]
  show ?case by (simp add: saved x total_stake_def)
qed

lemma books_count_batch:
  assumes "rows_ok w2" "market_books w2" "user_books ps w2" "predictions w2 = ps @ new"
    and "\<forall>p \<in> set new. pred_user p = k" "stake = sum_list (map stake_amount_stroops new)" "n = int (length new)"
  shows "books (count_stake_user k n stake w2)"
proof -
  have "user_books (ps @ new) (count_stake_user k n stake w2)"
    using assms by (intro user_books_count) (auto simp: rows_ok_def)
  with assms show ?thesis by (auto simp: books_def market_books_def intro: rows_ok_cong)
qed

text \<open>The two ends of a slip: refused with only the contract calls left behind, or persisted.\<close>

lemma submitBatch_cases:
  assumes "submitBatch env lm now newId dtos ao u fp w = (r, w')"
  obtains (refused) e cs where "r = Inl e" "w' = w\<lparr>chain_log := chain_log w @ cs\<rparr>" "stake_calls cs"
  | (persisted) fs rs fs' w1 saved w2 predicted keys where
      "fs = validate_items now w predicted keys ([], []) (enumerate 0 dtos)" "ao \<noteq> Some False \<longrightarrow> fs = []"
      "chain_phase env now u (ao \<noteq> Some False) (enumerate 0 dtos) fs w = (Inr (rs, fs'), w1)"
      "persist_items now newId u fp rs w1 = Some (saved, w2)"
      "r = Inr \<lparr>results = batch_results (enumerate 0 dtos) fs' rs saved,
         succeeded = length (filter is_fulfilled (batch_results (enumerate 0 dtos) fs' rs saved)),
         failed = length (filter (\<lambda>r. \<not> is_fulfilled r) (batch_results (enumerate 0 dtos) fs' rs saved)),
         atomic_flag = (ao \<noteq> Some False)\<rparr>"
      "w' = (if rs = [] then w2 else count_stake_user (user_id u) (int (length rs)) (total_stake rs) w2)"
proof -
  let ?existing = "filter (\<lambda>p. pred_user p = user_id u \<and> pred_market p \<in> set (map sub_market_id dtos)) (predictions w)"
  let ?keys = "set (filter (\<lambda>k. k \<in> set (map sub_key dtos)) (map clientIdempotencyKey (predictions w)))"
  let ?fs = "validate_items now w (set (map pred_market ?existing)) ?keys ([], []) (enumerate 0 dtos)"
  have at: "(case ao of None \<Rightarrow> True | Some b \<Rightarrow> b) = (ao \<noteq> Some False)" by (cases ao) auto
  show ?thesis
  proof (cases "length dtos > MAX_BATCH_PREDICTIONS \<or> (?existing \<noteq> [] \<and> \<not> lm) \<or> (ao \<noteq> Some False \<and> ?fs \<noteq> [])")
    case True
    then have "\<exists>e. (r, w') = (Inl e, w)" using assms unfolding submitBatch_def Let_def at
      by (auto split: if_splits)
    then show ?thesis using refused [of _ "[]"] by auto
  next
    case False
    obtain r1 w1 where ph: "chain_phase env now u (ao \<noteq> Some False) (enumerate 0 dtos) ?fs w = (r1, w1)" by fastforce
    then obtain cs where cs: "w1 = w\<lparr>chain_log := chain_log w @ cs\<rparr>" "stake_calls cs" using chain_phase_log by blast
    show ?thesis
    proof (cases r1)
      case (Inl fs')
      with assms False ph have "\<exists>e. r = Inl e" "w' = w1"
        unfolding submitBatch_def Let_def at by (auto split: if_splits)
      with cs refused show ?thesis by blast
    next
      case (Inr rf)
      obtain rs fs' where rf: "rf = (rs, fs')" by (cases rf)
      show ?thesis
      proof (cases "persist_items now newId u fp rs w1")
        case None
        with assms False ph Inr rf have "r = Inl (Plain QueryFailed)" "w' = w1"
          unfolding submitBatch_def Let_def at by (auto split: if_splits)
        with cs refused show ?thesis by blast
      next
        case (Some sw)
        obtain saved w2 where sw: "sw = (saved, w2)" by (cases sw)
        show ?thesis
          by (rule persisted [OF refl _ _ Some [unfolded sw], of _ _ fs'])
             (use assms False ph Inr rf Some sw in \<open>auto simp: submitBatch_def Let_def at split: if_splits\<close>)
      qed
    qed
  qed
qed

lemma submitBatch_books: "books w \<Longrightarrow> books (snd (submitBatch env lm now newId dtos ao u fp w))"
proof -
  assume b: "books w"
  obtain r w' where s: "submitBatch env lm now newId dtos ao u fp w = (r, w')" by fastforce
  from s have "books w'"
  proof (cases rule: submitBatch_cases)
    case (refused e cs)
    with b show ?thesis by simp
  next
    case (persisted fs rs fs' w1 saved w2 predicted keys)
    from chain_phase_log [OF persisted(3)] b have b1: "books w1" "predictions w1 = predictions w" by auto
    then have "rows_ok w1" "market_books w1" "user_books (predictions w1) w1" by (simp_all add: books_def)
    note eff = persist_items_effect [OF persisted(4) this(1,2)] and ub = this(3)
    have "user_books (predictions w1) w2" using eff ub by (simp add: user_books_def)
    moreover have "length saved = length rs" using eff by (metis length_map)
    ultimately have "books (count_stake_user (user_id u) (int (length rs)) (total_stake rs) w2)"
      using eff by (intro books_count_batch [where ps = "predictions w1" and new = "map snd saved"]) auto
    moreover have "rs = [] \<Longrightarrow> books w2"
      using eff ub \<open>length saved = length rs\<close> by (simp add: books_def user_books_def)
    ultimately show ?thesis using persisted(6) by simp
  qed
  with s show ?thesis by simp
qed

text \<open>An atomic slip that gets through its on-chain phase has submitted every item.\<close>

lemma chain_phase_atomic:
  "chain_phase env now u True items [] w = (Inr (rs, fs'), w') \<Longrightarrow>
   map fst rs = map fst items \<and>
   map (\<lambda>(_, item, _, _). sub_key item) rs = map (\<lambda>(_, item). sub_key item) items \<and>
   map (\<lambda>(_, _, m, _). mkt_id m) rs = map (\<lambda>(_, item). mkt_id (the (find_market (sub_market_id item) w))) items"
proof (induction items arbitrary: w rs fs')
  case (Cons x items)
  obtain i item where x: "x = (i, item)" by (cases x)
  from Cons.prems x obtain res w1 rs' where
    step: "submit_item env now u item (the (find_market (sub_market_id item) w)) w = (Inr res, w1)" and
    rest: "chain_phase env now u True items [] w1 = (Inr (rs', fs'), w')" and
    rs: "rs = (i, item, the (find_market (sub_market_id item) w), res) # rs'"
    by (auto simp: Let_def split: sum.splits prod.splits)
  from submit_item_log [OF step] have "markets w1 = markets w" by auto
  with Cons.IH [OF rest] rs x show ?case by simp
qed simp

lemma validate_items_found:
  "validate_items now w predicted keys seen items = [] \<Longrightarrow> (i, item) \<in> set items \<Longrightarrow>
   \<exists>m. find_market (sub_market_id item) w = Some m \<and> mkt_id m = sub_market_id item"
proof (induction items arbitrary: seen)
  case (Cons x items)
  obtain j it where x: "x = (j, it)" by (cases x)
  obtain f seen' where g: "getBatchItemFailure now it (find_market (sub_market_id it) w) predicted keys seen = (f, seen')"
    by (cases "getBatchItemFailure now it (find_market (sub_market_id it) w) predicted keys seen")
  with Cons.prems(1) x have "f = None" and rest: "validate_items now w predicted keys seen' items = []"
    by (auto split: option.splits)
  show ?case
  proof (cases "(i, item) = x")
    case True
    with g x \<open>f = None\<close> show ?thesis
      by (cases "find_market (sub_market_id it) w")
         (auto simp: getBatchItemFailure_def split: prod.splits dest: find_row_SomeD)
  next
    case False
    with Cons.prems(2) Cons.IH [OF rest] show ?thesis by simp
  qed
qed simp

lemma batch_results_fulfilled:
  assumes "fst ` set items \<subseteq> fst ` set saved" "r \<in> set (batch_results items fs rs saved)"
  shows "is_fulfilled r"
proof -
  from assms(2) obtain i item where item: "(i, item) \<in> set items" and
    r: "r = (case map_of saved i of None \<Rightarrow> Rejected i (sub_market_id item) (map_of fs i)
        | Some p \<Rightarrow> (case map_of rs i of None \<Rightarrow> Fulfilled i (sub_market_id item) p ''0'' ''0''
           | Some (_, _, r) \<Rightarrow> Fulfilled i (sub_market_id item) p (or_zero (res_realized_price r)) (or_zero (res_shares_received r))))"
    by (auto simp: batch_results_def)
  from item assms(1) have "i \<in> fst ` set saved" by force
  then obtain p where "map_of saved i = Some p" by (metis map_of_eq_None_iff option.exhaust)
  with r show ?thesis by (cases "map_of rs i") (auto split: prod.splits)
qed

text \<open>
  C9. An atomic slip is all or nothing in the database: when it is refused, for whatever reason,
  the predictions, markets and users are exactly as before; when it is accepted, every item is
  fulfilled and one new prediction per item was stored, in the order of the slip, for this user,
  with the item's market and idempotency key.
\<close>

theorem atomic_slip_all_or_nothing:
  assumes "books w" "submitBatch env lm now newId dtos ao u fp w = (r, w')" "ao \<noteq> Some False"
  shows "case r of
      Inl _ \<Rightarrow> predictions w' = predictions w \<and> markets w' = markets w \<and> users w' = users w
    | Inr resp \<Rightarrow> succeeded resp = length dtos \<and> failed resp = 0 \<and>
        (\<exists>new. predictions w' = predictions w @ new \<and> map clientIdempotencyKey new = map sub_key dtos \<and>
           map pred_market new = map sub_market_id dtos \<and> (\<forall>p \<in> set new. pred_user p = user_id u))"
  using assms(2)
proof (cases rule: submitBatch_cases)
  case (refused e cs)
  then show ?thesis by simp
next
  case (persisted fs rs fs' w1 saved w2 predicted keys)
  let ?items = "enumerate 0 dtos"
  from assms(3) persisted(2) have fs: "fs = []" by simp
  have "chain_phase env now u True ?items [] w = (Inr (rs, fs'), w1)" using persisted(3) fs assms(3) by simp
  note rs = chain_phase_atomic [OF this]
  from chain_phase_log [OF persisted(3)] assms(1) have w1: "rows_ok w1" "market_books w1" "predictions w1 = predictions w"
    by (auto simp: books_def rows_ok_def market_books_def)
  note eff = persist_items_effect [OF persisted(4) w1(1,2)]
  have "fst ` set saved = fst ` set ?items" using eff rs by (metis list.set_map)
  from batch_results_fulfilled [OF equalityD2 [OF this]]
  have all: "is_fulfilled r" if "r \<in> set (batch_results ?items fs' rs saved)" for r
    using that by blast
  have fulfilled: "filter is_fulfilled (batch_results ?items fs' rs saved) = batch_results ?items fs' rs saved"
    "filter (\<lambda>r. \<not> is_fulfilled r) (batch_results ?items fs' rs saved) = []"
    by (rule filter_True, use all in blast) (rule filter_False, use all in blast)
  have "map (\<lambda>(_, item, _, _). sub_key item) rs = map sub_key dtos"
  proof -
    have "map (\<lambda>(_, item). sub_key item) ?items = map (sub_key \<circ> snd) ?items" by auto
    also have "\<dots> = map sub_key dtos" using map_snd_enumerate [of 0 dtos] by (metis map_map)
    finally show ?thesis using rs by simp
  qed
  moreover have "map (\<lambda>(_, _, m, _). mkt_id m) rs = map sub_market_id dtos"
  proof -
    have "mkt_id (the (find_market (sub_market_id item) w)) = sub_market_id item" if "(i, item) \<in> set ?items" for i item
      using validate_items_found [of now w predicted keys "([], [])" ?items i item] persisted(1) fs that by auto
    then have "map (\<lambda>(_, item). mkt_id (the (find_market (sub_market_id item) w))) ?items = map (sub_market_id \<circ> snd) ?items"
      by auto
    also have "\<dots> = map sub_market_id dtos" using map_snd_enumerate [of 0 dtos] by (metis map_map)
    finally show ?thesis using rs by simp
  qed
  ultimately have "map clientIdempotencyKey (map snd saved) = map sub_key dtos"
    "map pred_market (map snd saved) = map sub_market_id dtos" using eff by simp_all
  moreover have "length (batch_results ?items fs' rs saved) = length dtos" by (simp add: batch_results_def)
  moreover have "predictions w' = predictions w @ map snd saved" using eff persisted(6) w1(3) by simp
  ultimately show ?thesis
    using eff persisted(5) fulfilled by (simp add: exI [of _ "map snd saved"] del: map_map)
qed

section \<open>Notes and claims\<close>

lemma find_own_SomeD:
  "find_own_prediction k userId w = Some p \<Longrightarrow> p \<in> set (predictions w) \<and> pred_id p = k \<and> pred_user p = userId"
  by (auto simp: find_own_prediction_def find_Some_iff)

text \<open>Overwriting a row without touching what the books count.\<close>

definition same_entry :: "prediction \<Rightarrow> prediction \<Rightarrow> bool" where
  "same_entry p q \<longleftrightarrow> pred_id q = pred_id p \<and> pred_user q = pred_user p \<and> pred_market q = pred_market p \<and>
     stake_amount_stroops q = stake_amount_stroops p \<and> clientIdempotencyKey q = clientIdempotencyKey p \<and>
     chosen_outcome q = chosen_outcome p"

lemma same_entryD:
  assumes "same_entry p q"
  shows "pred_id q = pred_id p" "clientIdempotencyKey q = clientIdempotencyKey p"
    "(pred_user q, pred_market q) = (pred_user p, pred_market p)"
  using assms by (simp_all add: same_entry_def)

lemma save_prediction_frames [simp]:
  "markets (save_prediction p w) = markets w" "users (save_prediction p w) = users w"
  "chain_log (save_prediction p w) = chain_log w"
  by (simp_all add: save_prediction_def)

lemma predictions_save:
  "p \<in> set (predictions w) \<Longrightarrow> rows_ok w \<Longrightarrow> same_entry p q \<Longrightarrow>
   predictions (save_prediction q w) = map (\<lambda>s. if s = p then q else s) (predictions w)"
  by (simp add: save_prediction_def save_row_replaces rows_ok_def same_entry_def)

lemma map_replace:
  "f q = f p \<Longrightarrow> map f (map (\<lambda>s. if s = p then q else s) xs) = map f xs"
  by auto

lemma books_save:
  assumes "books w" "p \<in> set (predictions w)" "same_entry p q"
  shows "books (save_prediction q w)"
proof -
  have ps: "predictions (save_prediction q w) = map (\<lambda>s. if s = p then q else s) (predictions w)"
    using assms by (intro predictions_save) (auto simp: books_def)
  have totals: "stake_total P (map (\<lambda>s. if s = p then q else s) xs) = stake_total P xs"
    "row_count P (map (\<lambda>s. if s = p then q else s) xs) = row_count P xs"
    if "P q = P p" for P xs
    by (induction xs) (use that assms(3) in \<open>auto simp: same_entry_def\<close>)
  have maps: "map f (predictions (save_prediction q w)) = map f (predictions w)" if "f q = f p" for f :: "prediction \<Rightarrow> 'b"
    unfolding ps using that by (rule map_replace)
  have "rows_ok (save_prediction q w)"
    unfolding rows_ok_def maps [of pred_id, OF same_entryD(1) [OF assms(3)]]
      maps [of clientIdempotencyKey, OF same_entryD(2) [OF assms(3)]]
      maps [of "\<lambda>p. (pred_user p, pred_market p)", OF same_entryD(3) [OF assms(3)]]
    using assms by (auto simp: books_def rows_ok_def ps same_entry_def)
  then show ?thesis
    using assms totals by (auto simp: books_def market_books_def user_books_def ps same_entry_def)
qed

lemma claim_payout_cases:
  assumes "claim env now k u w = (r, w')"
  obtains (refused) e where "r = Inl e" "w' = w"
  | (paid) p m q where "find_own_prediction k (user_id u) w = Some p" "\<not> payout_claimed p"
      "find_market (pred_market p) w = Some m" "is_resolved m" "resolved_outcome m = Some (chosen_outcome p)"
      "r = Inr q" "same_entry p q" "payout_claimed q" "tx_hash q \<noteq> None"
      "w' = save_prediction q (call_chain (ClaimPayout (stellar_address u) (on_chain_market_id m)) w)"
proof (cases "\<exists>p m res. find_own_prediction k (user_id u) w = Some p \<and> \<not> payout_claimed p \<and>
    find_market (pred_market p) w = Some m \<and> is_resolved m \<and> resolved_outcome m = Some (chosen_outcome p) \<and>
    claimPayout_call env now (stellar_address u) (on_chain_market_id m) = Inr res")
  case True
  then obtain p m res where "find_own_prediction k (user_id u) w = Some p" "\<not> payout_claimed p"
    "find_market (pred_market p) w = Some m" "is_resolved m" "resolved_outcome m = Some (chosen_outcome p)"
    "claimPayout_call env now (stellar_address u) (on_chain_market_id m) = Inr res" by blast
  with assms paid show ?thesis by (auto simp: claim_def Let_def same_entry_def)
next
  case False
  then have "\<exists>e. (r, w') = (Inl e, w)"
    using assms by (auto simp: claim_def Let_def split: option.splits if_splits sum.splits)
  with refused show ?thesis by auto
qed

lemma claim_books: "books w \<Longrightarrow> books (snd (claim env now k u w))"
proof -
  assume b: "books w"
  obtain r w' where s: "claim env now k u w = (r, w')" by fastforce
  from s have "books w'"
  proof (cases rule: claim_payout_cases)
    case (paid p m q)
    have "books (call_chain (ClaimPayout (stellar_address u) (on_chain_market_id m)) w)" using b by simp
    moreover have "p \<in> set (predictions (call_chain (ClaimPayout (stellar_address u) (on_chain_market_id m)) w))"
      using find_own_SomeD [OF paid(1)] by (simp add: table_simps)
    ultimately show ?thesis unfolding paid(10) using paid(7) by (rule books_save)
  qed (use b in simp)
  with s show ?thesis by simp
qed

lemma claim_each_invariant:
  assumes "\<And>k w. P w \<Longrightarrow> P (snd (claim env (now k) k u w))" "P w"
  shows "P (snd (snd (snd (claim_each env now u ks (c, tx, w)))))"
  using assms(2)
proof (induction ks arbitrary: c tx w)
  case (Cons k ks)
  obtain r w1 where s: "claim env (now k) k u w = (r, w1)" by fastforce
  with assms(1) [OF Cons.prems, of k] have "P w1" by simp
  with Cons.IH s show ?case by (cases r) (auto split: prod.splits, (metis snd_conv)+)
qed simp

lemma claimAllRewards_invariant:
  assumes "\<And>k w. P w \<Longrightarrow> P (snd (claim env (now k) k u w))" "P w"
  shows "P (snd (claimAllRewards env now u w))"
  using claim_each_invariant [OF assms] assms(2) by (auto simp: claimAllRewards_def split: prod.splits, metis snd_conv)

lemma updateNote_books: "books w \<Longrightarrow> books (snd (updateNote k txt u w))"
  by (auto simp: updateNote_def Let_def same_entry_def split: option.splits dest!: find_own_SomeD
      intro!: books_save)

lemma handle_prediction_books: "books w \<Longrightarrow> books (handle_prediction env lm now cmd w)"
  by (cases cmd)
     (auto simp: submit_books submitBatch_books claim_books updateNote_books intro!: claimAllRewards_invariant [of books])

section \<open>Retries, claims and rewards\<close>

lemma find_by_key_enter:
  "find_by_key k w = None \<Longrightarrow> find_by_key k (enter p w) = (if clientIdempotencyKey p = k then Some p else None)"
  by (simp add: find_by_key_def find_row_append)

lemma find_market_enter:
  "find_market k (enter p w) = map_option (\<lambda>m. if k = pred_market p then
     m\<lparr>participant_count := participant_count m + 1,
       total_pool_stroops := (if stake_amount_stroops p \<noteq> 0 then total_pool_stroops m + stake_amount_stroops p
                              else total_pool_stroops m)\<rparr> else m) (find_market k w)"
  by (cases "k = pred_market p"; cases "find_market k w")
     (simp_all add: enter_def count_stake_market_def find_row_update_same find_row_update_other)

text \<open>
  A submission may be retried: once it was accepted, sending the same request again (with any
  fresh row id, at any time at which the market is still open) returns the stored prediction and
  changes nothing: no second row, no second contract call, no counter.
\<close>

theorem submit_retry_idempotent:
  assumes "submit env now newId dto u fp w = (Inr (p, price, shares), w')"
    and "find_market (sub_market_id dto) w = Some m" "now' \<le> end_time m"
  shows "submit env' now' newId' dto u fp' w' = (Inr (p, ''0'', ''0''), w')"
  using assms(1)
proof (cases rule: submit_cases)
  case (replayed q)
  from assms(1) replayed assms(2) have
    "\<not> (is_resolved m \<or> is_cancelled m \<or> is_paused m \<or> now > end_time m)" "sub_chosen_outcome dto \<in> set (outcome_options m)"
    by (auto simp: submit_def split: if_splits)
  then show ?thesis using replayed assms(2,3) by (auto simp: submit_def)
next
  case (entered m' q n price' shares' w1)
  let ?w = "call_chain (SubmitPrediction (stellar_address u) (on_chain_market_id m') (sub_chosen_outcome dto) (sub_stake dto)) w"
  have [simp]: "m' = m" using entered(1) assms(2) by simp
  have new: "clientIdempotencyKey q \<notin> clientIdempotencyKey ` set (predictions ?w)"
    using entered(14) by (auto simp: insert_prediction_def split: if_splits)
  have "find_by_key (sub_key dto) w' = Some q"
  proof -
    have "find_by_key (sub_key dto) ?w = None"
      using new entered(7) by (simp add: find_by_key_def find_row_None_iff)
    from find_by_key_enter [OF this, of q] show ?thesis using entered(7,15) by (simp add: find_by_key_def)
  qed
  moreover obtain m2 where "find_market (sub_market_id dto) w' = Some m2" "is_resolved m2 = is_resolved m"
    "is_cancelled m2 = is_cancelled m" "is_paused m2 = is_paused m" "end_time m2 = end_time m"
    "outcome_options m2 = outcome_options m"
    using assms(2) entered(15) find_market_enter [of "sub_market_id dto" q ?w] by (auto simp: table_simps)
  ultimately show ?thesis using entered assms(3) by (simp add: submit_def)
qed auto

text \<open>A user, a market and a submission to try the theorems on.\<close>

definition sample_submit :: submit_dto where
  "sample_submit = \<lparr>sub_market_id = ''m1'', sub_chosen_outcome = ''A'', sub_stake = ''70'', sub_key = ''k1'',
     sub_maxPrice = None, sub_minSharesOut = None\<rparr>"

definition sample_prediction :: prediction where
  "sample_prediction = new_prediction ''p1'' 500 sample_user sample_market ''A'' 70 ''k1'' None
     (stub_tx_hash (''c1:GU1:'' @ show_time 500))"

lemma bigint_70 [simp]: "bigint ''70'' = Some 70"
  by (simp add: js_eval)

lemma submit_sample:
  "submit sample_env 500 ''p1'' sample_submit sample_user None (sample_world [sample_market]) =
     (Inr (sample_prediction, bigint_to_string 500000, bigint_to_string 140),
      count_stake_user ''u1'' 1 70 (enter sample_prediction
        (call_chain (SubmitPrediction ''GU1'' ''c1'' ''A'' ''70'') (sample_world [sample_market]))))"
proof -
  have nz: "bigint_to_string 500000 \<noteq> []" "bigint_to_string 140 \<noteq> []"
    using bigint_to_string_inverse [of 500000] bigint_to_string_inverse [of 140] by (auto simp: js_eval)
  then have "or_zero (Some (bigint_to_string 500000)) = bigint_to_string 500000"
    "or_zero (Some (bigint_to_string 140)) = bigint_to_string 140"
    by (simp_all add: or_zero_def split: list.splits)
  then show ?thesis
    by (simp add: submit_def sample_submit_def sample_simps find_by_key_def has_predicted_def
        submitPrediction_call_def with_server_key_def Let_def slippage_guard_def truthy_def insert_prediction_def
        table_simps sample_prediction_def bigint_div_def enter_def new_prediction_def)
qed

theorem submit_retry_idempotent_witness:
  "let w' = snd (submit sample_env 500 ''p1'' sample_submit sample_user None (sample_world [sample_market]))
   in submit sample_env 900 ''p2'' sample_submit sample_user None w' = (Inr (sample_prediction, ''0'', ''0''), w')"
proof -
  have m: "find_market (sub_market_id sample_submit) (sample_world [sample_market]) = Some sample_market"
    by (simp add: sample_submit_def sample_simps)
  have "900 \<le> end_time sample_market" by (simp add: sample_simps)
  from submit_retry_idempotent [OF submit_sample m this, of sample_env "''p2''" None]
  show ?thesis unfolding submit_sample Let_def snd_conv .
qed

text \<open>The witness for slips: a slip of one item.\<close>

lemma books_sample: "books (sample_world [sample_market])"
  by (simp add: sample_simps books_def rows_ok_def market_books_def user_books_def)

theorem atomic_slip_all_or_nothing_witness:
  "case submitBatch sample_env True 500 (\<lambda>_. ''p1'') [sample_submit] None sample_user None (sample_world [sample_market]) of
     (Inl _, w') \<Rightarrow> predictions w' = []
   | (Inr resp, w') \<Rightarrow> succeeded resp = 1 \<and> failed resp = 0"
proof -
  obtain r w' where b: "submitBatch sample_env True 500 (\<lambda>_. ''p1'') [sample_submit] None sample_user None
      (sample_world [sample_market]) = (r, w')" by (metis prod.exhaust)
  have "predictions (sample_world [sample_market]) = []" by (simp add: sample_world_def)
  with atomic_slip_all_or_nothing [OF books_sample b] show ?thesis
    by (cases r) (simp_all add: b)
qed

lemma find_replaced:
  "p \<in> set xs \<Longrightarrow> P q \<Longrightarrow> (\<And>s. s \<in> set xs \<Longrightarrow> s \<noteq> p \<Longrightarrow> \<not> P s) \<Longrightarrow>
   List.find P (map (\<lambda>s. if s = p then q else s) xs) = Some q"
  by (induction xs) auto

lemma find_own_after_save:
  assumes "rows_ok w" "p \<in> set (predictions w)" "same_entry p q"
  shows "find_own_prediction (pred_id p) (pred_user p) (save_prediction q w) = Some q"
proof -
  have keys: "pred_id s = pred_id p \<longleftrightarrow> s = p" if "s \<in> set (predictions w)" for s
    using that assms(1,2) by (auto simp: rows_ok_def distinct_map inj_on_def)
  have "find_own_prediction (pred_id p) (pred_user p) (save_prediction q w) =
      List.find (\<lambda>x. pred_id x = pred_id p \<and> pred_user x = pred_user p) (map (\<lambda>s. if s = p then q else s) (predictions w))"
    using assms by (simp add: find_own_prediction_def predictions_save)
  also have "\<dots> = Some q"
    using assms(2) keys same_entryD [OF assms(3)] by (intro find_replaced) auto
  finally show ?thesis .
qed

text \<open>
  C10. A payout is claimed at most once and only by the winner: a successful claim means the
  prediction is the caller's own, was not claimed before and chose the outcome its market was
  resolved with; exactly one \<open>claim_payout\<close> call was made; and claiming it again, at any time and
  whatever the contract would answer, is refused and changes nothing.
\<close>

theorem claim_once_by_winner:
  assumes "books w" "claim env now k u w = (Inr q, w')"
  shows "\<exists>p m. find_own_prediction k (user_id u) w = Some p \<and> \<not> payout_claimed p \<and> payout_claimed q \<and>
      find_market (pred_market p) w = Some m \<and> is_resolved m \<and> resolved_outcome m = Some (chosen_outcome p) \<and>
      chain_log w' = chain_log w @ [ClaimPayout (stellar_address u) (on_chain_market_id m)] \<and>
      claim env' now' k u w' = (Inl (PayoutAlreadyClaimedException k), w')"
  using assms(2)
proof (cases rule: claim_payout_cases)
  case (paid p m q')
  let ?w = "call_chain (ClaimPayout (stellar_address u) (on_chain_market_id m)) w"
  have p: "p \<in> set (predictions ?w)" "pred_id p = k" "pred_user p = user_id u"
    using find_own_SomeD [OF paid(1)] by (auto simp: table_simps)
  have "rows_ok ?w" using assms(1) by (simp add: books_def rows_ok_def table_simps)
  from find_own_after_save [OF this p(1) paid(7)] have "find_own_prediction k (user_id u) w' = Some q'"
    using p paid(10) by simp
  then have "claim env' now' k u w' = (Inl (PayoutAlreadyClaimedException k), w')"
    using paid(8) by (simp add: claim_def)
  with paid show ?thesis by (auto simp: table_simps)
qed auto

definition sample_won :: world where
  "sample_won = (sample_world [sample_market\<lparr>is_resolved := True, resolved_outcome := Some ''A'', resolved_at := Some 9,
     total_pool_stroops := 70, participant_count := 1\<rparr>])
     \<lparr>predictions := [sample_prediction], users := [sample_user\<lparr>total_predictions := 1, total_staked_stroops := 70\<rparr>]\<rparr>"

lemma books_sample_won: "books sample_won"
  by (simp add: sample_won_def sample_simps sample_prediction_def new_prediction_def books_def rows_ok_def
      market_books_def user_books_def)

lemma claim_sample: "\<exists>q. fst (claim sample_env 2000 ''p1'' sample_user sample_won) = Inr q"
  by (simp add: claim_def find_own_prediction_def sample_won_def sample_simps sample_prediction_def new_prediction_def
      claimPayout_call_def with_server_key_def Let_def)

theorem claim_once_by_winner_witness:
  "claim sample_env 3000 ''p1'' sample_user (snd (claim sample_env 2000 ''p1'' sample_user sample_won)) =
     (Inl (PayoutAlreadyClaimedException ''p1''), snd (claim sample_env 2000 ''p1'' sample_user sample_won))"
proof -
  obtain q where q: "claim sample_env 2000 ''p1'' sample_user sample_won =
      (Inr q, snd (claim sample_env 2000 ''p1'' sample_user sample_won))"
    using claim_sample by (metis prod.collapse)
  from claim_once_by_winner [OF books_sample_won q, of sample_env 3000] show ?thesis by blast
qed

text \<open>The gateway accepts a claim when the server key and the user's address are valid.\<close>

definition claims_accepted :: "soroban_env \<Rightarrow> user \<Rightarrow> bool" where
  "claims_accepted env u \<longleftrightarrow> fromSecret_ok env (serverSecretKey env) \<and> fromPublicKey_ok env (stellar_address u)"

definition claimable :: "user \<Rightarrow> world \<Rightarrow> prediction \<Rightarrow> bool" where
  "claimable u w p \<longleftrightarrow> pred_user p = user_id u \<and> \<not> payout_claimed p \<and> won w p"

lemma claimable_ids_eq: "claimable_ids u w = map pred_id (filter (claimable u w) (predictions w))"
proof -
  have "(\<lambda>p. won w p \<and> pred_user p = user_id u \<and> \<not> payout_claimed p) = claimable u w"
    by (auto simp: claimable_def fun_eq_iff)
  then show ?thesis by (simp add: claimable_ids_def conj_commute)
qed

lemma claimable_replaced:
  assumes "\<And>s. s \<in> set xs \<Longrightarrow> pred_id s = pred_id p \<longleftrightarrow> s = p" "\<not> C q"
  shows "map pred_id (filter C (map (\<lambda>s. if s = p then q else s) xs)) =
    filter (\<lambda>k. k \<noteq> pred_id p) (map pred_id (filter C xs))"
  using assms(1)
proof (induction xs)
  case (Cons x xs)
  have "pred_id x = pred_id p \<longleftrightarrow> x = p" using Cons.prems [of x] by simp
  moreover have "map pred_id (filter C (map (\<lambda>s. if s = p then q else s) xs)) =
      filter (\<lambda>k. k \<noteq> pred_id p) (map pred_id (filter C xs))"
    using Cons.prems by (intro Cons.IH) simp
  ultimately show ?case using assms(2) by (cases "x = p") simp_all
qed simp

lemma claim_claimable:
  assumes "books w" "claims_accepted env u" "p \<in> set (predictions w)" "claimable u w p"
  shows "\<exists>q w'. claim env now (pred_id p) u w = (Inr q, w') \<and> books w' \<and>
    claimable_ids u w' = filter (\<lambda>k. k \<noteq> pred_id p) (claimable_ids u w)"
proof -
  from assms(1) have rows: "rows_ok w" by (simp add: books_def)
  have keys: "pred_id s = pred_id p \<longleftrightarrow> s = p" if "s \<in> set (predictions w)" for s
    using that rows assms(3) by (auto simp: rows_ok_def distinct_map inj_on_def)
  then have own: "find_own_prediction (pred_id p) (user_id u) w = Some p"
    using assms(3,4) find_replaced [of p "predictions w" "\<lambda>x. pred_id x = pred_id p \<and> pred_user x = user_id u" p]
    by (auto simp: find_own_prediction_def claimable_def map_idI)
  obtain m where m: "find_market (pred_market p) w = Some m" "is_resolved m" "resolved_outcome m = Some (chosen_outcome p)"
    using assms(4) by (auto simp: claimable_def won_def split: option.splits)
  obtain r w' where c: "claim env now (pred_id p) u w = (r, w')" by fastforce
  have "\<exists>q. r = Inr q"
    using c own m assms(2,4)
    by (auto simp: claim_def claimPayout_call_def with_server_key_def claims_accepted_def claimable_def Let_def)
  with c have "\<exists>q. claim env now (pred_id p) u w = (Inr q, w') \<and> claimable_ids u w' = filter (\<lambda>k. k \<noteq> pred_id p) (claimable_ids u w)"
  proof (cases rule: claim_payout_cases)
    case (paid p' m' q)
    from paid(1) own have [simp]: "p' = p" by simp
    let ?w = "call_chain (ClaimPayout (stellar_address u) (on_chain_market_id m')) w"
    have "predictions w' = map (\<lambda>s. if s = p then q else s) (predictions w)"
      using predictions_save [of p ?w q] rows assms(3) paid(7,10) by (simp add: table_simps rows_ok_def)
    moreover have "claimable u w' = claimable u w"
      using paid(10) by (simp add: claimable_def won_def fun_eq_iff table_simps)
    moreover have "\<not> claimable u w q" using paid(8) by (simp add: claimable_def)
    ultimately show ?thesis
      using claimable_replaced [OF keys, of "predictions w"] c paid(6) by (simp add: claimable_ids_eq)
  qed auto
  then show ?thesis using claim_books [OF assms(1), of env now "pred_id p" u] c by auto
qed

lemma claim_each_all:
  assumes "books w" "claims_accepted env u" "claimable_ids u w = ks"
  shows "\<exists>rs c' tx' w'. claim_each env now u ks (c, tx, w) = (rs, c', tx', w') \<and> list_all claim_ok rs \<and>
    length rs = length ks \<and> claimable_ids u w' = []"
  using assms(1,3)
proof (induction ks arbitrary: c tx w)
  case (Cons k ks)
  have "k \<in> pred_id ` set (filter (claimable u w) (predictions w))"
    using Cons.prems(2) by (metis claimable_ids_eq list.set_intros(1) list.set_map)
  then obtain p where p: "p \<in> set (predictions w)" "claimable u w p" "k = pred_id p" by auto
  from claim_claimable [OF Cons.prems(1) assms(2) p(1,2), of "now k"] obtain q w1 where
    q: "claim env (now k) k u w = (Inr q, w1)" "books w1"
    and ids: "claimable_ids u w1 = filter (\<lambda>j. j \<noteq> k) (claimable_ids u w)" using p(3) by auto
  have "distinct (map pred_id (predictions w))" using Cons.prems(1) by (simp add: books_def rows_ok_def)
  then have "distinct (k # ks)"
    using Cons.prems(2) by (metis claimable_ids_eq distinct_map_filter)
  with ids Cons.prems(2) have "claimable_ids u w1 = ks" by (auto simp: filter_id_conv)
  from Cons.IH [OF q(2) this, of "c + payout_amount_stroops q" "case tx_hash q of Some h \<Rightarrow> h | None \<Rightarrow> tx"] q(1)
  show ?case by auto
qed simp

lemma rewards_loop_claimable:
  "fst (snd (rewards_loop w ps (a, b, c))) =
     b + sum_list (map stake_amount_stroops (filter (\<lambda>p. \<not> payout_claimed p \<and> won w p) ps))"
proof (induction ps arbitrary: a b c)
  case (Cons p ps)
  have "won w p \<Longrightarrow> \<not> unresolved w p" by (auto simp: won_def unresolved_def split: option.splits)
  then show ?case by (simp add: Cons.IH)
qed simp

text \<open>
  Claiming everything leaves nothing claimable: when the gateway accepts the user's claims,
  \<open>claimAllRewards\<close> fulfils every claimable prediction, reports as many claims as there were
  claimable predictions, leaves none claimable, and the summary it returns shows a claimable
  amount of zero stroops.
\<close>

theorem claim_all_leaves_nothing:
  assumes "books w" "claims_accepted env u" "claimable_ids u w \<noteq> []"
  shows "\<exists>resp w'. claimAllRewards env now u w = (Inr resp, w') \<and> list_all claim_ok (claim_results resp) \<and>
    claimed_count resp = length (claimable_ids u w) \<and> claimable_ids u w' = [] \<and>
    claimable_stroops (summary resp) = ''0''"
proof -
  from claim_each_all [OF assms(1,2) refl, of now 0 "[]"] obtain rs c' tx' w' where
    each: "claim_each env now u (claimable_ids u w) (0, [], w) = (rs, c', tx', w')" and
    rs: "list_all claim_ok rs" "length rs = length (claimable_ids u w)" "claimable_ids u w' = []" by blast
  have "filter (\<lambda>p. \<not> payout_claimed p \<and> won w' p) (filter (\<lambda>p. pred_user p = user_id u) (predictions w')) = []"
    using rs(3) by (auto simp: claimable_ids_eq claimable_def filter_empty_conv)
  then have "fst (snd (rewards_loop w' (filter (\<lambda>p. pred_user p = user_id u) (predictions w')) (0, 0, 0))) = 0"
    by (simp only: rewards_loop_claimable) simp
  then have "claimable_stroops (getRewardsSummary u w') = bigint_to_string 0"
    by (auto simp: getRewardsSummary_def fromStroops_def split: prod.splits)
  then have "claimable_stroops (getRewardsSummary u w') = ''0''" by (simp add: bigint_to_string_0)
  with each rs assms(3) show ?thesis
    by (auto simp: claimAllRewards_def list_all_iff filter_id_conv)
qed

theorem claim_all_leaves_nothing_witness:
  "\<exists>resp w'. claimAllRewards sample_env (\<lambda>_. 2000) sample_user sample_won = (Inr resp, w') \<and>
     claimed_count resp = 1 \<and> claimable_ids sample_user w' = []"
proof -
  have ids: "claimable_ids sample_user sample_won = [''p1'']"
    by (simp add: claimable_ids_def won_def sample_won_def sample_simps sample_prediction_def new_prediction_def)
  have "claims_accepted sample_env sample_user" by (simp add: claims_accepted_def sample_env_def)
  from claim_all_leaves_nothing [OF books_sample_won this, of "\<lambda>_. 2000"] ids show ?thesis by auto
qed

section \<open>Where the guarantees end\<close>

text \<open>
  The idempotency key is looked up without its user and market: a stranger who sends a key that is
  in use, on any open market, is answered with the other user's prediction.
\<close>

lemma key_reuse_crosses_users:
  assumes "find_market (sub_market_id dto) w = Some m" "sub_chosen_outcome dto \<in> set (outcome_options m)"
    and "\<not> is_resolved m" "\<not> is_cancelled m" "\<not> is_paused m" "now \<le> end_time m"
    and "find_by_key (sub_key dto) w = Some p" "pred_user p \<noteq> user_id u" "pred_market p \<noteq> mkt_id m"
  shows "fst (submit env now newId dto u fp w) = Inr (p, ''0'', ''0'')"
  using assms by (simp add: submit_def)

text \<open>
  The slippage bounds are checked after the contract call: a fill outside the bounds is refused,
  its stake is locked on chain, and no row records it.
\<close>

lemma slippage_refusal_keeps_stake_on_chain:
  "let w = sample_world [sample_market];
       r = submit sample_env 500 ''p1'' (sample_submit\<lparr>sub_minSharesOut := Some ''150''\<rparr>) sample_user None w
   in (\<exists>e. fst r = Inl e) \<and> predictions (snd r) = [] \<and> chain_log (snd r) = [SubmitPrediction ''GU1'' ''c1'' ''A'' ''70'']"
proof -
  let ?r = "\<lparr>res_tx_hash = stub_tx_hash (''c1:GU1:'' @ show_time 500), res_payout_amount_stroops = None,
    res_realized_price = Some (bigint_to_string 500000), res_shares_received = Some (bigint_to_string 140)\<rparr>"
  have b: "bigint ''150'' = Some 150" by (simp add: js_eval)
  have nz: "bigint_to_string 500000 \<noteq> []" "bigint_to_string 140 \<noteq> []"
    using bigint_to_string_inverse [of 500000] bigint_to_string_inverse [of 140] by (auto simp: js_eval)
  then have "\<exists>e. slippage_guard None (Some ''150'') ?r = Inl e"
    using b by (auto simp: slippage_guard_def truthy_def checkSlippage_def check_bound_def split: sum.splits)
  then obtain e where "slippage_guard None (Some ''150'') ?r = Inl e" by blast
  then show ?thesis
    by (simp add: submit_def sample_submit_def sample_simps find_by_key_def has_predicted_def
        submitPrediction_call_def with_server_key_def Let_def bigint_div_def table_simps)
qed

text \<open>
  An atomic slip whose second item fails on chain is reported as rolled back, every other item as
  not submitted; the first item's stake is on chain all the same.
\<close>

definition sample_market2 :: market where
  "sample_market2 = sample_market\<lparr>mkt_id := ''m2'', on_chain_market_id := ''c2''\<rparr>"

definition sample_slip :: "submit_dto list" where
  "sample_slip = [sample_submit, sample_submit\<lparr>sub_market_id := ''m2'', sub_stake := ''1.5'', sub_key := ''k2''\<rparr>]"

lemma bigint_1_5 [simp]: "bigint ''1.5'' = None"
  by (simp add: js_eval)

lemma rolled_back_slip_stays_on_chain:
  "let r = submitBatch sample_env True 500 (\<lambda>i. ''p'') sample_slip None sample_user None (sample_world [sample_market, sample_market2])
   in fst r = Inl (BatchChainSubmissionFailedException [(1, ItemChainFailed (SyntaxError ''1.5''))]
        [Rejected 0 ''m1'' (Some BATCH_ROLLED_BACK_REASON), Rejected 1 ''m2'' (Some (ItemChainFailed (SyntaxError ''1.5'')))]) \<and>
      chain_log (snd r) = [SubmitPrediction ''GU1'' ''c1'' ''A'' ''70'']"
  by (simp add: submitBatch_def sample_slip_def sample_market2_def sample_submit_def sample_simps Let_def
      MAX_BATCH_PREDICTIONS_def getBatchItemFailure_def submit_item_def submitPrediction_call_def
      with_server_key_def slippage_guard_def truthy_def buildRolledBackResults_def table_simps)

text \<open>A numeric string may carry a minus sign: a negative stake is accepted and shrinks the pool.\<close>

lemma bigint_minus_5 [simp]: "bigint ''-5'' = Some (- 5)"
  by (simp add: js_eval)

lemma negative_stake_accepted:
  "map total_pool_stroops (markets (snd (submit sample_env 500 ''p1'' (sample_submit\<lparr>sub_stake := ''-5''\<rparr>)
     sample_user None (sample_world [sample_market])))) = [- 5]"
  by (simp add: submit_def sample_submit_def sample_simps find_by_key_def has_predicted_def
      submitPrediction_call_def with_server_key_def Let_def slippage_guard_def truthy_def insert_prediction_def
      table_simps bigint_div_def new_prediction_def count_stake_user_def count_stake_market_def)

end
