(* ===== verification/Prediction_Reports.thy ===== *)
theory Prediction_Reports
  imports Prediction_Facts
begin

text \<open>
  The read side of \<open>predictions/predictions.service.ts\<close>: the status of a prediction, the paginated
  listings, the profit and loss report and the rows of the CSV export.
\<close>

section \<open>Status and listings\<close>

datatype PredictionStatus = Active | Won | Lost | Pending

definition computeStatus :: "prediction \<Rightarrow> market \<Rightarrow> PredictionStatus" where
  "computeStatus p m =
     (if is_cancelled m then Pending
      else if \<not> is_resolved m then Active
      else if resolved_outcome m = Some (chosen_outcome p) then Won
      else Lost)"

record prediction_with_status =
  pws_prediction :: prediction
  pws_status :: PredictionStatus
  pws_market :: "id \<times> string \<times> instant \<times> string option \<times> bool \<times> bool"

definition enrichWithStatus :: "prediction \<Rightarrow> market \<Rightarrow> prediction_with_status" where
  "enrichWithStatus p m =
     \<lparr>pws_prediction = p, pws_status = computeStatus p m,
      pws_market = (mkt_id m, title m, end_time m, resolved_outcome m, is_resolved m, is_cancelled m)\<rparr>"

definition findById :: "id \<Rightarrow> id \<Rightarrow> world \<Rightarrow> (exn, prediction_with_status) result" where
  "findById k userId w =
     (case find_prediction k w of
        None \<Rightarrow> Inl (PredictionNotFoundException k)
      | Some p \<Rightarrow>
          if pred_user p \<noteq> userId then Inl (UnauthorizedPredictionAccessException k)
          else case find_market (pred_market p) w of
                 None \<Rightarrow> Inl TypeError
               | Some m \<Rightarrow> Inr (enrichWithStatus p m))"

text \<open>A comparison with \<open>NULL\<close> is not true in SQL, neither equal nor unequal.\<close>

fun sql_eq sql_neq :: "string option \<Rightarrow> string \<Rightarrow> bool" where
  "sql_eq (Some x) y = (x = y)" | "sql_eq None y = False"
| "sql_neq (Some x) y = (x \<noteq> y)" | "sql_neq None y = False"

fun status_filter :: "PredictionStatus \<Rightarrow> prediction \<Rightarrow> market \<Rightarrow> bool" where
  "status_filter Active p m = (\<not> is_resolved m \<and> \<not> is_cancelled m)"
| "status_filter Won p m = (is_resolved m \<and> \<not> is_cancelled m \<and> sql_eq (resolved_outcome m) (chosen_outcome p))"
| "status_filter Lost p m = (is_resolved m \<and> \<not> is_cancelled m \<and> sql_neq (resolved_outcome m) (chosen_outcome p))"
| "status_filter Pending p m = is_cancelled m"

definition joined :: "world \<Rightarrow> prediction \<Rightarrow> market" where
  "joined w p = the (find_market (pred_market p) w)"

definition newest_first :: "prediction list \<Rightarrow> prediction list" where
  "newest_first ps = sort_key (\<lambda>p. - submitted_at p) ps"

definition page_of :: "nat \<Rightarrow> nat \<Rightarrow> 'a list \<Rightarrow> 'a list" where
  "page_of page limit xs = take limit (drop ((page - 1) * limit) xs)"

record ('a) page_response =
  page_data :: "'a list"
  page_total :: nat
  page_number :: nat
  page_limit :: nat

definition findMine ::
  "user \<Rightarrow> nat option \<Rightarrow> nat option \<Rightarrow> PredictionStatus option \<Rightarrow> world \<Rightarrow> prediction_with_status page_response"
where
  "findMine u page_opt limit_opt status_opt w =
     (let page = (case page_opt of Some n \<Rightarrow> n | None \<Rightarrow> 1);
          limit = min (case limit_opt of Some n \<Rightarrow> n | None \<Rightarrow> 20) 50;
          rows = newest_first (filter (\<lambda>p. pred_user p = user_id u \<and>
                   (case status_opt of None \<Rightarrow> True | Some s \<Rightarrow> status_filter s p (joined w p))) (predictions w))
      in \<lparr>page_data = map (\<lambda>p. enrichWithStatus p (joined w p)) (page_of page limit rows),
          page_total = length rows, page_number = page, page_limit = limit\<rparr>)"

text \<open>The anonymised listing of a market: the columns returned, without the user and the note.\<close>

record market_prediction_row =
  mp_id :: id
  mp_chosen_outcome :: string
  mp_stake :: stroops
  mp_claimed :: bool
  mp_payout :: stroops
  mp_tx_hash :: "string option"
  mp_submitted_at :: instant

definition anonymise :: "prediction \<Rightarrow> market_prediction_row" where
  "anonymise p = \<lparr>mp_id = pred_id p, mp_chosen_outcome = chosen_outcome p, mp_stake = stake_amount_stroops p,
     mp_claimed = payout_claimed p, mp_payout = payout_amount_stroops p, mp_tx_hash = tx_hash p,
     mp_submitted_at = submitted_at p\<rparr>"

definition findByMarket ::
  "id \<Rightarrow> nat option \<Rightarrow> nat option \<Rightarrow> world \<Rightarrow> market_prediction_row page_response"
where
  "findByMarket k page_opt limit_opt w =
     (let page = (case page_opt of Some n \<Rightarrow> n | None \<Rightarrow> 1);
          wanted = (case limit_opt of Some n \<Rightarrow> n | None \<Rightarrow> 20)
      in case find_market k w of
           None \<Rightarrow> \<lparr>page_data = [], page_total = 0, page_number = page, page_limit = wanted\<rparr>
         | Some m \<Rightarrow>
             let limit = min wanted 50;
                 rows = newest_first (filter (\<lambda>p. pred_market p = k) (predictions w))
             in \<lparr>page_data = map anonymise (page_of page limit rows), page_total = length rows,
                 page_number = page, page_limit = limit\<rparr>)"

section \<open>Profit and loss\<close>

definition in_window :: "instant option \<Rightarrow> instant option \<Rightarrow> prediction \<Rightarrow> bool" where
  "in_window from_opt to_opt p \<longleftrightarrow>
     (case from_opt of None \<Rightarrow> True | Some t \<Rightarrow> t \<le> submitted_at p) \<and>
     (case to_opt of None \<Rightarrow> True | Some t \<Rightarrow> submitted_at p \<le> t)"

text \<open>\<open>SUM(stake) ... GROUP BY marketId, chosen_outcome\<close>, zero where there is no row.\<close>

definition outcome_stake :: "id \<Rightarrow> string \<Rightarrow> prediction list \<Rightarrow> stroops" where
  "outcome_stake k oc ps = stake_total (\<lambda>p. pred_market p = k \<and> chosen_outcome p = oc) ps"

definition implied_value :: "stroops \<Rightarrow> stroops \<Rightarrow> stroops \<Rightarrow> stroops" where
  "implied_value stake totalPool chosenOutcomeStake = bigint_div (stake * totalPool) chosenOutcomeStake"

definition realized_of :: "prediction \<Rightarrow> market \<Rightarrow> stroops" where
  "realized_of p m =
     (if is_cancelled m then 0
      else if is_resolved m
      then (if resolved_outcome m = Some (chosen_outcome p)
            then payout_amount_stroops p - stake_amount_stroops p else - stake_amount_stroops p)
      else 0)"

definition unrealized_of :: "prediction list \<Rightarrow> prediction \<Rightarrow> market \<Rightarrow> stroops" where
  "unrealized_of ps p m =
     (if is_cancelled m \<or> is_resolved m then 0
      else let chosenOutcomeStake = outcome_stake (mkt_id m) (chosen_outcome p) ps;
               totalPool = total_pool_stroops m
           in if chosenOutcomeStake > 0 \<and> totalPool > 0
              then implied_value (stake_amount_stroops p) totalPool chosenOutcomeStake - stake_amount_stroops p
              else 0)"

record pnl_entry =
  entry_market :: id
  entry_title :: string
  realizedStroops :: stroops
  unrealizedStroops :: stroops
  stakedStroops :: stroops

text \<open>The map of the breakdown keeps its markets in the order of their first prediction.\<close>

definition add_entry :: "market \<Rightarrow> stroops \<Rightarrow> stroops \<Rightarrow> stroops \<Rightarrow> pnl_entry list \<Rightarrow> pnl_entry list" where
  "add_entry m realized unrealized stake es =
     (if mkt_id m \<in> entry_market ` set es
      then update_row entry_market (mkt_id m) (\<lambda>e. e\<lparr>realizedStroops := realizedStroops e + realized,
             unrealizedStroops := unrealizedStroops e + unrealized, stakedStroops := stakedStroops e + stake\<rparr>) es
      else es @ [\<lparr>entry_market = mkt_id m, entry_title = title m, realizedStroops = realized,
                  unrealizedStroops = unrealized, stakedStroops = stake\<rparr>])"

text \<open>An entry as the response shows it, with the amounts in XLM beside the exact ones.\<close>

record market_pnl_entry = pnl_entry +
  entry_realized_xlm :: string
  entry_unrealized_xlm :: string
  entry_staked_xlm :: string

definition show_entry :: "pnl_entry \<Rightarrow> market_pnl_entry" where
  "show_entry e = pnl_entry.extend e
     \<lparr>entry_realized_xlm = stroopsToXlm (realizedStroops e),
      entry_unrealized_xlm = stroopsToXlm (unrealizedStroops e),
      entry_staked_xlm = stroopsToXlm (stakedStroops e)\<rparr>"

record pnl_response =
  pnl_realized :: stroops
  pnl_unrealized :: stroops
  pnl_staked :: stroops
  pnl_realized_xlm :: string
  pnl_unrealized_xlm :: string
  pnl_staked_xlm :: string
  per_market :: "market_pnl_entry list option"

fun pnl_loop ::
  "world \<Rightarrow> prediction list \<Rightarrow> stroops \<times> stroops \<times> stroops \<times> pnl_entry list \<Rightarrow>
   stroops \<times> stroops \<times> stroops \<times> pnl_entry list"
where
  "pnl_loop w [] acc = acc"
| "pnl_loop w (p # ps) (realized, unrealized, staked, es) =
     (let m = joined w p; r = realized_of p m; u = unrealized_of (predictions w) p m;
          stake = stake_amount_stroops p
      in pnl_loop w ps (realized + r, unrealized + u, staked + stake, add_entry m r u stake es))"

definition getPnl :: "user \<Rightarrow> instant option \<Rightarrow> instant option \<Rightarrow> bool \<Rightarrow> world \<Rightarrow> pnl_response" where
  "getPnl u from_opt to_opt breakdown w =
     (case pnl_loop w (filter (\<lambda>p. pred_user p = user_id u \<and> in_window from_opt to_opt p) (predictions w)) (0, 0, 0, []) of
        (realized, unrealized, staked, es) \<Rightarrow>
          \<lparr>pnl_realized = realized, pnl_unrealized = unrealized, pnl_staked = staked,
           pnl_realized_xlm = stroopsToXlm realized, pnl_unrealized_xlm = stroopsToXlm unrealized,
           pnl_staked_xlm = stroopsToXlm staked,
           per_market = (if breakdown then Some (map show_entry es) else None)\<rparr>)"

section \<open>The CSV export\<close>

definition EXPORT_MAX_ROWS :: nat where "EXPORT_MAX_ROWS = 50000"

record ExportCsvRawRow =
  prediction_id :: string
  prediction_chosen_outcome :: string
  prediction_stake_amount_stroops :: string
  prediction_payout_amount_stroops :: "string option"
  prediction_submitted_at :: string
  prediction_note :: "string option"
  market_title :: "string option"
  market_resolved_outcome :: "string option"
  market_is_resolved :: bool
  market_is_cancelled :: bool

definition computeExportStatus :: "string \<Rightarrow> bool \<Rightarrow> bool \<Rightarrow> string option \<Rightarrow> string" where
  "computeExportStatus chosen cancelled resolved outcome =
     (if cancelled then ''pending''
      else if \<not> resolved then ''active''
      else if outcome = Some chosen then ''won''
      else ''lost'')"

abbreviation DQUOTE :: char where "DQUOTE \<equiv> CHR 0x22"
abbreviation COMMA :: char where "COMMA \<equiv> CHR 0x2C"
abbreviation NEWLINE :: char where "NEWLINE \<equiv> CHR 0x0A"

definition or_empty :: "string option \<Rightarrow> string" where
  "or_empty v = (case v of None \<Rightarrow> [] | Some s \<Rightarrow> s)"

definition quote_csv :: "string \<Rightarrow> string" where
  "quote_csv s = DQUOTE # concat (map (\<lambda>c. if c = DQUOTE then [DQUOTE, DQUOTE] else [c]) s) @ [DQUOTE]"

definition formatExportCsvRow :: "ExportCsvRawRow \<Rightarrow> string" where
  "formatExportCsvRow raw =
     js_join [COMMA]
       [prediction_id raw, quote_csv (or_empty (market_title raw)), quote_csv (prediction_chosen_outcome raw),
        prediction_stake_amount_stroops raw,
        computeExportStatus (prediction_chosen_outcome raw) (market_is_cancelled raw) (market_is_resolved raw)
          (market_resolved_outcome raw),
        (case prediction_payout_amount_stroops raw of None \<Rightarrow> ''0'' | Some s \<Rightarrow> s),
        quote_csv (or_empty (prediction_note raw)), prediction_submitted_at raw] @ [NEWLINE]"

definition EXPORT_CSV_HEADER :: string where
  "EXPORT_CSV_HEADER = ''id,market_title,chosen_outcome,stake_stroops,status,payout_stroops,note,submitted_at'' @ [NEWLINE]"

text \<open>The chunks the stream yields, given the rows the cursor delivers.\<close>

definition generateCsv :: "ExportCsvRawRow list \<Rightarrow> string list" where
  "generateCsv rows = EXPORT_CSV_HEADER # map formatExportCsvRow (take EXPORT_MAX_ROWS rows)"

section \<open>What the reports guarantee\<close>

lemma status_filter_computeStatus:
  assumes "market_ok m"
  shows "status_filter s p m \<longleftrightarrow> computeStatus p m = s"
  using assms
  by (cases s; cases "resolved_outcome m") (auto simp: computeStatus_def market_ok_def has_outcome_def)

lemma joined_ok:
  assumes "books w" "markets_ok (markets w)" "p \<in> set (predictions w)"
  shows "market_ok (joined w p) \<and> find_market (pred_market p) w = Some (joined w p)"
proof -
  from assms(1,3) obtain m where "m \<in> set (markets w)" "mkt_id m = pred_market p"
    by (auto simp: books_def rows_ok_def)
  moreover with assms(2) have "find_market (pred_market p) w = Some m"
    by (metis find_row_distinct markets_ok_def)
  ultimately show ?thesis using assms(2) by (auto simp: joined_def markets_ok_def list_all_iff)
qed

text \<open>
  The status filter of the database query agrees with the status shown: with well-formed
  markets and balanced books, listing by a status counts exactly the user's predictions whose
  computed status it is, and every row of every page carries that status.
\<close>

theorem findMine_status_agrees:
  assumes "books w" "markets_ok (markets w)"
  shows "page_total (findMine u pg size_lim (Some s) w) =
      length (filter (\<lambda>p. pred_user p = user_id u \<and> computeStatus p (joined w p) = s) (predictions w)) \<and>
    (\<forall>x \<in> set (page_data (findMine u pg size_lim (Some s) w)). pws_status x = s)"
proof -
  have eq: "filter (\<lambda>p. pred_user p = user_id u \<and> status_filter s p (joined w p)) (predictions w) =
      filter (\<lambda>p. pred_user p = user_id u \<and> computeStatus p (joined w p) = s) (predictions w)"
    using joined_ok [OF assms] status_filter_computeStatus by (intro filter_cong) auto
  have shown: "computeStatus x (joined w x) = s"
    if "x \<in> set (page_of a b (newest_first (filter (\<lambda>p. pred_user p = user_id u \<and> status_filter s p (joined w p)) (predictions w))))"
    for x a b
  proof -
    from that have "x \<in> set (predictions w)" "status_filter s x (joined w x)"
      by (auto simp: page_of_def newest_first_def dest!: in_set_takeD in_set_dropD)
    with joined_ok [OF assms, of x] status_filter_computeStatus show ?thesis by blast
  qed
  then have "\<forall>x \<in> set (page_data (findMine u pg size_lim (Some s) w)). pws_status x = s"
    by (auto simp: findMine_def Let_def enrichWithStatus_def)
  with eq show ?thesis by (simp add: findMine_def Let_def newest_first_def)
qed

theorem findMine_status_agrees_witness:
  "page_total (findMine sample_user None None (Some Won) sample_won) = 1"
proof -
  have "markets_ok (markets sample_won)"
    by (simp add: sample_won_def sample_simps markets_ok_def market_ok_def has_outcome_def)
  from findMine_status_agrees [OF books_sample_won this, of sample_user None None Won] show ?thesis
    by (simp add: sample_won_def sample_simps sample_prediction_def new_prediction_def joined_def computeStatus_def)
qed

lemma concat_pages:
  "concat (map (\<lambda>i. page_of (Suc i) n xs) [0..<k]) = take (k * n) xs"
proof (induction k)
  case (Suc k)
  have "take (k * n) xs @ take n (drop (k * n) xs) = take (k * n + n) xs" by (simp add: take_add)
  with Suc show ?case by (simp add: page_of_def add.commute)
qed simp

text \<open>
  Pagination loses and repeats nothing: with the page size the request asks for (at most
  fifty), the pages one after the other are exactly all the user's predictions, each enriched with
  its status, from the newest to the oldest.
\<close>

theorem findMine_pages_complete:
  assumes "0 < size_lim" "size_lim \<le> 50" "page_total (findMine u (Some 1) (Some size_lim) None w) \<le> k * size_lim"
  shows "concat (map (\<lambda>i. page_data (findMine u (Some (Suc i)) (Some size_lim) None w)) [0..<k]) =
      map (\<lambda>p. enrichWithStatus p (joined w p)) (newest_first (filter (\<lambda>p. pred_user p = user_id u) (predictions w))) \<and>
    sorted (map (\<lambda>p. - submitted_at p) (newest_first (filter (\<lambda>p. pred_user p = user_id u) (predictions w))))"
proof -
  let ?rows = "newest_first (filter (\<lambda>p. pred_user p = user_id u) (predictions w))"
  let ?f = "\<lambda>p. enrichWithStatus p (joined w p)"
  have "page_data (findMine u (Some (Suc i)) (Some size_lim) None w) = map ?f (page_of (Suc i) size_lim ?rows)" for i
    using assms(2) by (simp add: findMine_def Let_def min_absorb1)
  then have "concat (map (\<lambda>i. page_data (findMine u (Some (Suc i)) (Some size_lim) None w)) [0..<k]) =
      map ?f (concat (map (\<lambda>i. page_of (Suc i) size_lim ?rows) [0..<k]))"
    by (simp add: map_concat comp_def)
  also have "\<dots> = map ?f ?rows"
    using assms(3) by (simp add: concat_pages findMine_def Let_def)
  finally show ?thesis by (simp add: newest_first_def)
qed

theorem findMine_pages_complete_witness:
  "concat (map (\<lambda>i. page_data (findMine sample_user (Some (Suc i)) (Some 1) None sample_won)) [0..<2]) =
     [enrichWithStatus sample_prediction (joined sample_won sample_prediction)]"
proof -
  have f: "filter (\<lambda>p. pred_user p = user_id sample_user) (predictions sample_won) = [sample_prediction]"
    by (simp add: sample_won_def sample_simps sample_prediction_def new_prediction_def)
  then have "page_total (findMine sample_user (Some 1) (Some 1) None sample_won) \<le> 2 * 1"
    by (simp add: findMine_def Let_def newest_first_def)
  from findMine_pages_complete [OF _ _ this] f show ?thesis by (simp add: newest_first_def)
qed

section \<open>Profit and loss add up\<close>

lemma show_entry_sel [simp]:
  "entry_market (show_entry e) = entry_market e" "realizedStroops (show_entry e) = realizedStroops e"
  "unrealizedStroops (show_entry e) = unrealizedStroops e" "stakedStroops (show_entry e) = stakedStroops e"
  by (simp_all add: show_entry_def pnl_entry.defs)

definition entry_sum :: "('a \<Rightarrow> stroops) \<Rightarrow> 'a list \<Rightarrow> stroops" where
  "entry_sum f es = sum_list (map f es)"

lemma add_entry_unique: "unique_keys entry_market es \<Longrightarrow> unique_keys entry_market (add_entry m r u s es)"
  by (auto simp: add_entry_def map_key_update_row)

lemma add_entry_sums:
  assumes "unique_keys entry_market es"
  shows "entry_sum realizedStroops (add_entry m r u s es) = entry_sum realizedStroops es + r"
    "entry_sum unrealizedStroops (add_entry m r u s es) = entry_sum unrealizedStroops es + u"
    "entry_sum stakedStroops (add_entry m r u s es) = entry_sum stakedStroops es + s"
  using assms by (auto simp: entry_sum_def add_entry_def intro!: sum_update_row)

lemma pnl_loop_sums:
  assumes "pnl_loop w ps (r, u, s, es) = (r', u', s', es')" "unique_keys entry_market es"
  shows "unique_keys entry_market es' \<and> entry_sum realizedStroops es' - entry_sum realizedStroops es = r' - r \<and>
    entry_sum unrealizedStroops es' - entry_sum unrealizedStroops es = u' - u \<and>
    entry_sum stakedStroops es' - entry_sum stakedStroops es = s' - s \<and>
    s' = s + sum_list (map stake_amount_stroops ps)"
  using assms
proof (induction ps arbitrary: r u s es)
  case (Cons p ps)
  let ?m = "joined w p" and ?st = "stake_amount_stroops p"
  let ?es = "add_entry ?m (realized_of p ?m) (unrealized_of (predictions w) p ?m) ?st es"
  have "pnl_loop w ps (r + realized_of p ?m, u + unrealized_of (predictions w) p ?m, s + ?st, ?es) = (r', u', s', es')"
    using Cons.prems(1) by (simp add: Let_def)
  from Cons.IH [OF this add_entry_unique [OF Cons.prems(2)]] add_entry_sums [OF Cons.prems(2)]
  show ?case by simp
qed simp

text \<open>
  The breakdown of the profit and loss report adds up: it lists every market once, its
  realized, unrealized and staked amounts sum exactly, to the stroop, to the totals of the report,
  and the total staked is the sum of the stakes of the selected predictions.
\<close>

theorem pnl_breakdown_sums:
  "\<exists>es. per_market (getPnl u from_opt to_opt True w) = Some es \<and> unique_keys entry_market es \<and>
     entry_sum realizedStroops es = pnl_realized (getPnl u from_opt to_opt True w) \<and>
     entry_sum unrealizedStroops es = pnl_unrealized (getPnl u from_opt to_opt True w) \<and>
     entry_sum stakedStroops es = pnl_staked (getPnl u from_opt to_opt True w) \<and>
     pnl_staked (getPnl u from_opt to_opt True w) =
       stake_total (\<lambda>p. pred_user p = user_id u \<and> in_window from_opt to_opt p) (predictions w)"
proof -
  obtain r u' s es where loop: "pnl_loop w (filter (\<lambda>p. pred_user p = user_id u \<and> in_window from_opt to_opt p)
      (predictions w)) (0, 0, 0, []) = (r, u', s, es)" by (metis prod_cases4)
  from pnl_loop_sums [OF this] loop show ?thesis
    by (simp add: getPnl_def stake_total_def entry_sum_def o_def)
qed

section \<open>Implied values stay within the pool\<close>

lemma sum_div_le:
  fixes S :: int
  assumes "0 < S"
  shows "sum_list (map (\<lambda>x. f x div S) xs) \<le> sum_list (map f xs) div S"
proof (induction xs)
  case (Cons x xs)
  have "f x div S + sum_list (map f xs) div S \<le> (f x + sum_list (map f xs)) div S"
    using assms div_add1_eq [of "f x" "sum_list (map f xs)" S] by (simp add: pos_imp_zdiv_nonneg_iff)
  with Cons show ?case by simp
qed simp

lemma stake_total_mono:
  assumes "\<forall>p \<in> set ps. 0 \<le> stake_amount_stroops p" "\<And>p. P p \<Longrightarrow> Q p"
  shows "stake_total P ps \<le> stake_total Q ps \<and> 0 \<le> stake_total P ps"
  using assms(1) by (induction ps) (use assms(2) in \<open>auto intro: add_increasing\<close>)

text \<open>
  The report never promises more than the pool holds: on an open market with no negative
  stake and balanced books, the values implied for all predictions on one outcome add up to at
  most the pool, and no open position shows a loss.
\<close>

theorem implied_values_within_pool:
  assumes "books w" "m \<in> set (markets w)" "\<forall>p \<in> set (predictions w). 0 \<le> stake_amount_stroops p"
  shows "sum_list (map (\<lambda>p. stake_amount_stroops p + unrealized_of (predictions w) p m)
      (filter (\<lambda>p. pred_market p = mkt_id m \<and> chosen_outcome p = oc) (predictions w))) \<le> total_pool_stroops m \<and>
    (\<forall>p \<in> set (predictions w). 0 \<le> unrealized_of (predictions w) p m)"
proof -
  let ?ps = "predictions w"
  let ?on = "\<lambda>oc p. pred_market p = mkt_id m \<and> chosen_outcome p = oc"
  have pool: "total_pool_stroops m = stake_total (\<lambda>p. pred_market p = mkt_id m) ?ps"
    using assms(1,2) by (simp add: books_def market_books_def)
  have le: "outcome_stake (mkt_id m) oc ?ps \<le> total_pool_stroops m" "0 \<le> outcome_stake (mkt_id m) oc ?ps" for oc
    using stake_total_mono [of ?ps "?on oc" "\<lambda>p. pred_market p = mkt_id m"] assms(3)
    by (auto simp: outcome_stake_def pool)
  have implied: "implied_value s (total_pool_stroops m) (outcome_stake (mkt_id m) oc ?ps) =
      (s * total_pool_stroops m) div outcome_stake (mkt_id m) oc ?ps"
    if "0 \<le> s" "0 < outcome_stake (mkt_id m) oc ?ps" for s oc
    unfolding implied_value_def using that le [of oc] by (intro bigint_div_nonneg) simp_all
  have gain: "0 \<le> unrealized_of ?ps p m" if "p \<in> set ?ps" for p
  proof (cases "0 < outcome_stake (mkt_id m) (chosen_outcome p) ?ps")
    case True
    let ?S = "outcome_stake (mkt_id m) (chosen_outcome p) ?ps" and ?s = "stake_amount_stroops p"
    have s: "0 \<le> ?s" using assms(3) that by blast
    have "(?s * ?S) div ?S \<le> (?s * total_pool_stroops m) div ?S"
      using le(1) [of "chosen_outcome p"] s True by (intro zdiv_mono1 mult_left_mono) auto
    with True s show ?thesis by (simp add: unrealized_of_def Let_def implied)
  qed (simp add: unrealized_of_def Let_def)
  have "sum_list (map (\<lambda>p. stake_amount_stroops p + unrealized_of ?ps p m) (filter (?on oc) ?ps)) \<le> total_pool_stroops m"
  proof (cases "is_cancelled m \<or> is_resolved m \<or> \<not> (0 < outcome_stake (mkt_id m) oc ?ps \<and> 0 < total_pool_stroops m)")
    case True
    then have same: "map (\<lambda>p. stake_amount_stroops p + unrealized_of ?ps p m) (filter (?on oc) ?ps) =
        map stake_amount_stroops (filter (?on oc) ?ps)"
      by (auto simp: unrealized_of_def Let_def)
    show ?thesis unfolding same using le(1) [of oc] by (simp add: outcome_stake_def stake_total_def)
  next
    case False
    let ?S = "outcome_stake (mkt_id m) oc ?ps"
    have scaled: "map (\<lambda>p. stake_amount_stroops p + unrealized_of ?ps p m) (filter (?on oc) ?ps) =
        map (\<lambda>p. (stake_amount_stroops p * total_pool_stroops m) div ?S) (filter (?on oc) ?ps)"
      using False assms(3) by (auto simp: unrealized_of_def Let_def implied)
    have "sum_list (map (\<lambda>p. (stake_amount_stroops p * total_pool_stroops m) div ?S) (filter (?on oc) ?ps)) \<le>
        sum_list (map (\<lambda>p. stake_amount_stroops p * total_pool_stroops m) (filter (?on oc) ?ps)) div ?S"
      using False by (intro sum_div_le) simp
    moreover have "sum_list (map (\<lambda>p. stake_amount_stroops p * total_pool_stroops m) (filter (?on oc) ?ps)) =
        ?S * total_pool_stroops m"
      by (simp add: outcome_stake_def stake_total_def sum_list_mult_const)
    ultimately show ?thesis unfolding scaled using False by simp
  qed
  with gain show ?thesis by blast
qed

theorem implied_values_within_pool_witness:
  "0 \<le> unrealized_of (predictions sample_won) sample_prediction (hd (markets sample_won))"
proof -
  have "hd (markets sample_won) \<in> set (markets sample_won)" "sample_prediction \<in> set (predictions sample_won)"
    "\<forall>p \<in> set (predictions sample_won). 0 \<le> stake_amount_stroops p"
    by (simp_all add: sample_won_def sample_simps sample_prediction_def new_prediction_def)
  with implied_values_within_pool [OF books_sample_won] show ?thesis by blast
qed

section \<open>Reading a row of the export back\<close>

text \<open>
  A reader of comma-separated values in the usual dialect: a field that starts with a quote extends
  to the closing quote, with doubled quotes standing for one; any other field extends to the next
  comma or line end.
\<close>

fun read_quoted :: "string \<Rightarrow> string \<times> string" where
  "read_quoted [] = ([], [])"
| "read_quoted [c] = (if c = DQUOTE then ([], []) else ([c], []))"
| "read_quoted (c # d # cs) =
     (if c = DQUOTE
      then (if d = DQUOTE then (case read_quoted cs of (f, r) \<Rightarrow> (DQUOTE # f, r)) else ([], d # cs))
      else (case read_quoted (d # cs) of (f, r) \<Rightarrow> (c # f, r)))"

definition read_plain :: "string \<Rightarrow> string \<times> string" where
  "read_plain s = (takeWhile (\<lambda>c. c \<noteq> COMMA \<and> c \<noteq> NEWLINE) s, dropWhile (\<lambda>c. c \<noteq> COMMA \<and> c \<noteq> NEWLINE) s)"

definition read_field :: "string \<Rightarrow> string \<times> string" where
  "read_field s = (case s of c # cs \<Rightarrow> if c = DQUOTE then read_quoted cs else read_plain s | [] \<Rightarrow> ([], []))"

text \<open>At most \<open>n\<close> fields of a line; eight are enough for a row of the export.\<close>

fun read_row :: "nat \<Rightarrow> string \<Rightarrow> string list" where
  "read_row 0 s = []"
| "read_row (Suc n) s =
     (case read_field s of (f, r) \<Rightarrow>
        f # (case r of c # cs \<Rightarrow> if c = COMMA then read_row n cs else [] | [] \<Rightarrow> []))"

definition plain_field :: "string \<Rightarrow> bool" where
  "plain_field s \<longleftrightarrow> COMMA \<notin> set s \<and> NEWLINE \<notin> set s \<and> (s = [] \<or> hd s \<noteq> DQUOTE)"

definition double_quotes :: "string \<Rightarrow> string" where
  "double_quotes s = concat (map (\<lambda>c. if c = DQUOTE then [DQUOTE, DQUOTE] else [c]) s)"

lemma read_quoted_body:
  "e \<noteq> DQUOTE \<Longrightarrow> read_quoted (double_quotes s @ DQUOTE # e # rest) = (s, e # rest)"
proof (induction s)
  case (Cons c s)
  let ?t = "double_quotes s @ DQUOTE # e # rest"
  have t: "read_quoted ?t = (s, e # rest)" using Cons by simp
  obtain d ds where d: "?t = d # ds" by (cases ?t) auto
  show ?case
  proof (cases "c = DQUOTE")
    case True
    then have "double_quotes (c # s) @ DQUOTE # e # rest = DQUOTE # DQUOTE # ?t" by (simp add: double_quotes_def)
    then show ?thesis using t True by simp
  next
    case False
    then have "double_quotes (c # s) @ DQUOTE # e # rest = c # d # ds" using d by (simp add: double_quotes_def)
    then show ?thesis using t d False by simp
  qed
qed (simp add: double_quotes_def)

lemma read_field_quoted: "e \<noteq> DQUOTE \<Longrightarrow> read_field (quote_csv s @ e # rest) = (s, e # rest)"
  using read_quoted_body [of e s rest] by (simp add: read_field_def quote_csv_def double_quotes_def)

lemma read_field_plain:
  assumes "plain_field s" "e = COMMA \<or> e = NEWLINE"
  shows "read_field (s @ e # rest) = (s, e # rest)"
proof -
  have all: "\<forall>c \<in> set s. c \<noteq> COMMA \<and> c \<noteq> NEWLINE" using assms(1) by (auto simp: plain_field_def)
  have "read_plain (s @ e # rest) = (s, e # rest)"
    using all assms(2) by (auto simp: read_plain_def takeWhile_append2 dropWhile_append2)
  with assms show ?thesis by (cases s) (auto simp: read_field_def plain_field_def)
qed

lemma plain_status: "plain_field (computeExportStatus c a b d)"
  by (simp add: computeExportStatus_def plain_field_def)

text \<open>
  A row of the export reads back: whatever quotes, commas and line breaks the market title, the
  chosen outcome and the note contain, a reader of the usual dialect recovers all eight fields of
  the row, provided the fields written without quotes (the id, the two amounts and the date) need
  none.
\<close>

theorem export_row_roundtrip:
  assumes "plain_field (prediction_id raw)" "plain_field (prediction_stake_amount_stroops raw)"
    and "plain_field (case prediction_payout_amount_stroops raw of None \<Rightarrow> ''0'' | Some s \<Rightarrow> s)"
    and "plain_field (prediction_submitted_at raw)"
  shows "read_row 8 (formatExportCsvRow raw) =
    [prediction_id raw, or_empty (market_title raw), prediction_chosen_outcome raw,
     prediction_stake_amount_stroops raw,
     computeExportStatus (prediction_chosen_outcome raw) (market_is_cancelled raw) (market_is_resolved raw)
       (market_resolved_outcome raw),
     (case prediction_payout_amount_stroops raw of None \<Rightarrow> ''0'' | Some s \<Rightarrow> s),
     or_empty (prediction_note raw), prediction_submitted_at raw]"
proof -
  have 8: "8 = Suc (Suc (Suc (Suc (Suc (Suc (Suc (Suc 0)))))))" by simp
  note plain = assms [THEN read_field_plain] plain_status [THEN read_field_plain]
  show ?thesis
    unfolding 8 formatExportCsvRow_def by (simp add: plain read_field_quoted)
qed

definition sample_row :: ExportCsvRawRow where
  "sample_row = \<lparr>prediction_id = ''p1'', prediction_chosen_outcome = ''A, B'', prediction_stake_amount_stroops = ''70'',
     prediction_payout_amount_stroops = None, prediction_submitted_at = ''2026-01-01'',
     prediction_note = Some [DQUOTE, COMMA, NEWLINE], market_title = Some ''Final'', market_resolved_outcome = None,
     market_is_resolved = False, market_is_cancelled = False\<rparr>"

theorem export_row_roundtrip_witness:
  "read_row 8 (formatExportCsvRow sample_row) =
     [''p1'', ''Final'', ''A, B'', ''70'', ''active'', ''0'', [DQUOTE, COMMA, NEWLINE], ''2026-01-01'']"
  using export_row_roundtrip [of sample_row]
  by (simp add: sample_row_def plain_field_def or_empty_def computeExportStatus_def)

end
