(* ===== verification/Disputes.thy ===== *)
theory Disputes
  imports Soroban
begin

text \<open>
  \<open>disputes/disputes.service.ts\<close>: raising, resolving and escalating disputes, reputation-weighted
  votes with quorum, evidence, arbiters and the SLA sweep.

  The settings of the service are the record \<open>dispute_env\<close>; the numeric ones are whole numbers.
  \<open>setDate\<close> and \<open>setHours\<close> add calendar days and hours in the time zone of the host, so the two
  additions are parameters as well.  \<open>loads_creator\<close> says whether the object-relational mapper loads
  \<open>market.creator\<close> although \<open>findOne\<close> does not ask for that relation.  What the service leaves to run
  in the background (the two contract recordings) is an operation of its own.
\<close>

section \<open>Settings and helpers\<close>

record dispute_env =
  d_soroban :: soroban_env
  addDays :: "instant \<Rightarrow> int \<Rightarrow> instant"
  addHours :: "instant \<Rightarrow> int \<Rightarrow> instant"
  slaInitialReviewHours :: int
  slaEscalationHours :: int
  slaApproachingWindowHours :: int
  slaReescalationIntervalHours :: int
  escalationWindowHours :: int
  tier1Quorum :: int
  quorumTierMultiplier :: int
  evidenceMaxSizeBytes :: int
  evidenceAllowedMimeTypes :: "string list"
  slaEnabled :: bool
  loads_creator :: bool

definition MAX_TIER :: int where "MAX_TIER = 3"

definition HOUR_MS :: int where "HOUR_MS = 60 * 60 * 1000"

definition quorumForTier :: "dispute_env \<Rightarrow> int \<Rightarrow> int" where
  "quorumForTier env t = tier1Quorum env * quorumTierMultiplier env ^ nat (t - 1)"

fun show_dispute_status :: "dispute_status \<Rightarrow> string" where
  "show_dispute_status OPEN = ''open''"
| "show_dispute_status REVIEW = ''review''"
| "show_dispute_status ESCALATED = ''escalated''"
| "show_dispute_status DISPUTE_RESOLVED = ''resolved''"
| "show_dispute_status DISPUTE_PENDING = ''pending''"

definition with_dispute :: "id \<Rightarrow> world \<Rightarrow> (dispute \<Rightarrow> (exn, 'a) result \<times> world) \<Rightarrow> (exn, 'a) result \<times> world" where
  "with_dispute k w body =
     (case find_dispute k w of
        None \<Rightarrow> (Inl (NotFound ''Dispute not found''), w)
      | Some d \<Rightarrow> body d)"

section \<open>Raising and resolving\<close>

definition disputeWindowEnd :: "dispute_env \<Rightarrow> instant \<Rightarrow> instant" where
  "disputeWindowEnd env resolved = addDays env resolved 7"

definition checkDisputeWindow :: "dispute_env \<Rightarrow> instant \<Rightarrow> id \<Rightarrow> world \<Rightarrow> bool" where
  "checkDisputeWindow env now k w =
     (case find_market k w of
        None \<Rightarrow> False
      | Some m \<Rightarrow> is_resolved m \<and>
          (case resolved_at m of None \<Rightarrow> now \<le> disputeWindowEnd env 0 | Some t \<Rightarrow> now \<le> disputeWindowEnd env t))"

definition new_dispute :: "dispute_env \<Rightarrow> instant \<Rightarrow> id \<Rightarrow> id \<Rightarrow> id \<Rightarrow> string \<Rightarrow> int \<Rightarrow> dispute" where
  "new_dispute env now newId k userId why t =
     \<lparr>dispute_id = newId, dispute_market = k, disputantId = userId, reason = why,
      dispute_status = DISPUTE_PENDING, resolution = None, adminNotes = None, resolvedById = None,
      resolvedAt = None, onChainDisputeId = None, onChainResolutionTx = None,
      slaStage = INITIAL_REVIEW, slaDeadline = addHours env now (slaInitialReviewHours env),
      slaBreachedAt = None, slaApproachingNotifiedAt = None, slaBreachedNotifiedAt = None,
      assignedArbiterId = None, tier = t, quorumThreshold = quorumForTier env t,
      escalatedFromId = None, escalatedById = None, escalatedAt = None\<rparr>"

text \<open>
  The database generates the key; an insert under a key in use fails, and the empty string is no
  value of the \<open>uuid\<close> column.
\<close>

definition insert_dispute :: "dispute \<Rightarrow> world \<Rightarrow> (exn, dispute) result \<times> world" where
  "insert_dispute d w =
     (if dispute_id d \<in> dispute_id ` set (disputes w) \<or> dispute_id d = [] then (Inl QueryFailed, w)
      else (Inr d, w\<lparr>disputes := disputes w @ [d]\<rparr>))"

definition create_dispute ::
  "dispute_env \<Rightarrow> instant \<Rightarrow> id \<Rightarrow> id \<Rightarrow> string \<Rightarrow> user \<Rightarrow> (world, exn, dispute) action"
where
  "create_dispute env now newId k why u w =
     (case find_market k w of
        None \<Rightarrow> (Inl (NotFound ''Market not found''), w)
      | Some m \<Rightarrow>
          if \<not> is_resolved m
          then (Inl (BadRequest ''Disputes can only be raised for resolved markets''), w)
          else if now > (case resolved_at m of None \<Rightarrow> disputeWindowEnd env 0 | Some t \<Rightarrow> disputeWindowEnd env t)
          then (Inl (BadRequest ''Dispute window has passed''), w)
          else if \<exists>d \<in> set (disputes w). dispute_market d = k
          then (Inl (Conflict ''Dispute already raised for this market''), w)
          else insert_dispute (new_dispute env now newId k (user_id u) why 1) w)"

definition recordDisputeOnChain ::
  "dispute_env \<Rightarrow> instant \<Rightarrow> id \<Rightarrow> string \<Rightarrow> string \<Rightarrow> (world, exn, unit) action"
where
  "recordDisputeOnChain env now k marketOnChainId why w =
     (case raiseDispute_call (d_soroban env) now marketOnChainId why of
        Inl e \<Rightarrow> (Inl e, w)
      | Inr (onChainId, _) \<Rightarrow>
          let w1 = call_chain (RaiseDispute marketOnChainId why) w
          in (Inr (), w1\<lparr>disputes := update_row dispute_id k (\<lambda>d. d\<lparr>onChainDisputeId := Some onChainId\<rparr>) (disputes w1)\<rparr>))"

definition recordResolutionOnChain ::
  "dispute_env \<Rightarrow> instant \<Rightarrow> id \<Rightarrow> string \<Rightarrow> dispute_resolution \<Rightarrow> (world, exn, unit) action"
where
  "recordResolutionOnChain env now k marketOnChainId res w =
     (case find_dispute k w of
        None \<Rightarrow> (Inr (), w)
      | Some d \<Rightarrow>
          if \<not> truthy (onChainDisputeId d) then (Inr (), w)
          else (case resolveDispute_call (d_soroban env) now marketOnChainId (the (onChainDisputeId d)) res of
                  Inl e \<Rightarrow> (Inl e, w)
                | Inr (_, tx) \<Rightarrow>
                    let w1 = call_chain (ResolveDispute marketOnChainId (the (onChainDisputeId d)) res) w
                    in (Inr (), w1\<lparr>disputes := update_row dispute_id k (\<lambda>d. d\<lparr>onChainResolutionTx := Some tx\<rparr>) (disputes w1)\<rparr>)))"

text \<open>\<open>handleOverturnedMarket\<close> only writes to the log.\<close>

definition resolve_dispute ::
  "instant \<Rightarrow> id \<Rightarrow> dispute_resolution \<Rightarrow> string option \<Rightarrow> user \<Rightarrow> (world, exn, dispute) action"
where
  "resolve_dispute now k res admin_notes adminUser w =
     with_dispute k w (\<lambda>d.
       if dispute_status d \<noteq> DISPUTE_PENDING then (Inl (BadRequest ''Dispute is not pending''), w)
       else let d1 = d\<lparr>dispute_status := DISPUTE_RESOLVED, resolution := Some res,
                       adminNotes := (if truthy admin_notes then admin_notes else None),
                       resolvedById := Some (user_id adminUser), resolvedAt := Some now\<rparr>
            in (Inr d1, save_dispute d1 w))"

section \<open>Status and tier transitions\<close>

primrec allowedTransitions :: "dispute_status \<Rightarrow> dispute_status list" where
  "allowedTransitions OPEN = [REVIEW]"
| "allowedTransitions DISPUTE_PENDING = [OPEN, REVIEW]"
| "allowedTransitions REVIEW = [ESCALATED, DISPUTE_RESOLVED]"
| "allowedTransitions ESCALATED = [DISPUTE_RESOLVED]"
| "allowedTransitions DISPUTE_RESOLVED = [ESCALATED]"

definition validateStatusTransition :: "dispute_status \<Rightarrow> dispute_status \<Rightarrow> (exn, unit) result" where
  "validateStatusTransition currentStatus targetStatus =
     (if currentStatus = targetStatus then Inr ()
      else if targetStatus \<notin> set (allowedTransitions currentStatus)
      then Inl (BadRequest (''Invalid status transition from '' @ show_dispute_status currentStatus @
             '' to '' @ show_dispute_status targetStatus))
      else Inr ())"

datatype tier_error = MaximumTier | NotGreater int int | TierJump int int

definition validateTierTransition :: "int \<Rightarrow> int \<Rightarrow> (tier_error, unit) result" where
  "validateTierTransition currentTier targetTier =
     (if currentTier \<ge> MAX_TIER \<or> targetTier > MAX_TIER then Inl MaximumTier
      else if targetTier \<le> currentTier then Inl (NotGreater targetTier currentTier)
      else if targetTier \<noteq> currentTier + 1 then Inl (TierJump currentTier targetTier)
      else Inr ())"

fun tier_exn :: "tier_error \<Rightarrow> exn" where
  "tier_exn MaximumTier = BadRequest ''Dispute has reached the maximum tier''"
| "tier_exn (NotGreater _ _) = BadRequest ''Target tier must be greater than current tier''"
| "tier_exn (TierJump _ _) = BadRequest ''Invalid tier jump''"

definition transitionStatus ::
  "instant \<Rightarrow> id \<Rightarrow> dispute_status \<Rightarrow> user option \<Rightarrow> (world, exn, dispute) action"
where
  "transitionStatus now k targetStatus user_opt w =
     with_dispute k w (\<lambda>d.
       case validateStatusTransition (dispute_status d) targetStatus of
         Inl e \<Rightarrow> (Inl e, w)
       | Inr _ \<Rightarrow>
           let d1 = d\<lparr>dispute_status := targetStatus\<rparr>;
               d2 = (case user_opt of
                       Some u \<Rightarrow> if targetStatus = ESCALATED
                                 then d1\<lparr>escalatedById := Some (user_id u), escalatedAt := Some now\<rparr> else d1
                     | None \<Rightarrow> d1)
           in (Inr d2, save_dispute d2 w))"

text \<open>The checks of \<open>escalate\<close> on the dispute alone, in the order of the source.\<close>

definition escalation_guard :: "dispute_env \<Rightarrow> instant \<Rightarrow> int \<Rightarrow> dispute \<Rightarrow> (exn, unit) result" where
  "escalation_guard env now nextTier d =
     (case validateTierTransition (tier d) nextTier of
        Inl e \<Rightarrow> Inl (tier_exn e)
      | Inr _ \<Rightarrow>
          if dispute_status d \<noteq> DISPUTE_RESOLVED then validateStatusTransition (dispute_status d) ESCALATED
          else (case resolvedAt d of
                  None \<Rightarrow> Inl (BadRequest ''Resolved dispute is missing a resolution timestamp'')
                | Some t \<Rightarrow> if now > t + escalationWindowHours env * HOUR_MS
                            then Inl (BadRequest ''Escalation window has passed'') else Inr ()))"

definition escalate ::
  "dispute_env \<Rightarrow> instant \<Rightarrow> id \<Rightarrow> id \<Rightarrow> user \<Rightarrow> int option \<Rightarrow> (world, exn, dispute) action"
where
  "escalate env now newId k u target_tier w =
     with_dispute k w (\<lambda>d.
       let nextTier = (case target_tier of Some t \<Rightarrow> t | None \<Rightarrow> tier d + 1)
       in (case escalation_guard env now nextTier d of
             Inl e \<Rightarrow> (Inl e, w)
           | Inr _ \<Rightarrow>
               if \<exists>c \<in> set (disputes w). escalatedFromId c = Some k
               then (Inl (Conflict ''This dispute has already been escalated''), w)
               else let d1 = d\<lparr>dispute_status := ESCALATED, escalatedById := Some (user_id u), escalatedAt := Some now\<rparr>;
                        w1 = save_dispute d1 w;
                        child = (new_dispute env now newId (dispute_market d) (disputantId d) (reason d) nextTier)
                          \<lparr>escalatedFromId := Some (dispute_id d), escalatedById := Some (user_id u), escalatedAt := Some now\<rparr>
                    in insert_dispute child w1))"

section \<open>Votes\<close>

text \<open>
  The walk up the escalation links.  It need not end on a table whose links form a cycle, and is
  \<open>None\<close> there.
\<close>

partial_function (option) walk_chain :: "dispute list \<Rightarrow> id option \<Rightarrow> id list \<Rightarrow> id list option" where
  "walk_chain ds parentId ids =
     (if \<not> truthy parentId then Some ids
      else walk_chain ds
             (case find_row dispute_id (the parentId) ds of None \<Rightarrow> None | Some parent \<Rightarrow> escalatedFromId parent)
             (ids @ [the parentId]))"

definition getChainDisputeIds :: "dispute \<Rightarrow> world \<Rightarrow> id list option" where
  "getChainDisputeIds d w = walk_chain (disputes w) (escalatedFromId d) [dispute_id d]"

fun tally :: "dispute_vote list \<Rightarrow> int \<times> int \<times> int \<Rightarrow> int \<times> int \<times> int" where
  "tally [] t = t"
| "tally (v # vs) (acc, upheld, overturned) =
     (if vote_outcome v = OVERTURNED then tally vs (acc + weight v, upheld, overturned + weight v)
      else tally vs (acc + weight v, upheld + weight v, overturned))"

definition tryFinalizeByQuorum :: "instant \<Rightarrow> dispute \<Rightarrow> world \<Rightarrow> world" where
  "tryFinalizeByQuorum now d w =
     (case tally (filter (\<lambda>v. vote_dispute v = dispute_id d) (votes w)) (0, 0, 0) of
        (totalWeight, upheldWeight, overturnedWeight) \<Rightarrow>
          if totalWeight < quorumThreshold d then w
          else save_dispute (d\<lparr>dispute_status := DISPUTE_RESOLVED,
                 resolution := Some (if overturnedWeight > upheldWeight then OVERTURNED else UPHELD),
                 resolvedAt := Some now\<rparr>) w)"

text \<open>\<open>None\<close> when the walk up the chain never returns.\<close>

definition castVote ::
  "instant \<Rightarrow> id \<Rightarrow> id \<Rightarrow> dispute_resolution \<Rightarrow> user \<Rightarrow> world \<Rightarrow> ((exn, dispute) result \<times> world) option"
where
  "castVote now newId k outcome u w =
     (case find_dispute k w of
        None \<Rightarrow> Some (Inl (NotFound ''Dispute not found''), w)
      | Some d \<Rightarrow>
          if dispute_status d \<noteq> DISPUTE_PENDING
          then Some (Inl (BadRequest ''Voting is closed for this dispute''), w)
          else if stellar_address u = []
          then Some (Inl (BadRequest ''Voter must have a wallet address to vote on a dispute''), w)
          else case getChainDisputeIds d w of
                 None \<Rightarrow> None
               | Some chainIds \<Rightarrow>
                   if \<exists>v \<in> set (votes w). voterAddress v = stellar_address u \<and> vote_dispute v \<in> set chainIds
                   then Some (Inl (Conflict ''This address has already voted in this dispute''), w)
                   else let v = \<lparr>vote_id = newId, vote_dispute = k, voterId = user_id u,
                                 voterAddress = stellar_address u, vote_outcome = outcome,
                                 weight = max 0 (reputation_score u), vote_tier = tier d\<rparr>;
                            w1 = w\<lparr>votes := votes w @ [v]\<rparr>;
                            w2 = tryFinalizeByQuorum now d w1
                        in Some (case find_dispute k w2 of Some d2 \<Rightarrow> Inr d2 | None \<Rightarrow> Inl (NotFound ''Dispute not found''), w2))"

section \<open>Evidence and arbiters\<close>

definition isDisputeParticipant :: "dispute_env \<Rightarrow> dispute \<Rightarrow> user \<Rightarrow> world \<Rightarrow> bool" where
  "isDisputeParticipant env d u w \<longleftrightarrow>
     disputantId d = user_id u \<or>
     (loads_creator env \<and> (case find_market (dispute_market d) w of
        None \<Rightarrow> False | Some m \<Rightarrow> creator m = Some (user_id u)))"

definition attachEvidence ::
  "dispute_env \<Rightarrow> id \<Rightarrow> id \<Rightarrow> string \<Rightarrow> string \<Rightarrow> string \<Rightarrow> int \<Rightarrow> string option \<Rightarrow> user \<Rightarrow> (world, exn, dispute_evidence) action"
where
  "attachEvidence env newId k url fname mime size_bytes descr u w =
     with_dispute k w (\<lambda>d.
       if \<not> isDisputeParticipant env d u w
       then (Inl (Forbidden ''Only dispute participants can access evidence for this dispute''), w)
       else if dispute_status d \<noteq> DISPUTE_PENDING
       then (Inl (BadRequest ''Evidence can only be attached to a pending dispute''), w)
       else if mime \<notin> set (evidenceAllowedMimeTypes env)
       then (Inl (BadRequest ''File type is not allowed''), w)
       else if size_bytes > evidenceMaxSizeBytes env
       then (Inl (BadRequest ''File exceeds maximum size''), w)
       else let e = \<lparr>evidence_id = newId, evidence_dispute = k, uploadedById = user_id u, fileUrl = url,
                     fileName = fname, mimeType = mime, sizeBytes = size_bytes, evidence_description = descr\<rparr>
            in (Inr e, w\<lparr>evidence := evidence w @ [e]\<rparr>))"

definition listEvidence :: "dispute_env \<Rightarrow> id \<Rightarrow> user \<Rightarrow> world \<Rightarrow> (exn, dispute_evidence list) result" where
  "listEvidence env k u w =
     (case find_dispute k w of
        None \<Rightarrow> Inl (NotFound ''Dispute not found'')
      | Some d \<Rightarrow>
          if \<not> isDisputeParticipant env d u w
          then Inl (Forbidden ''Only dispute participants can access evidence for this dispute'')
          else Inr (filter (\<lambda>e. evidence_dispute e = k) (evidence w)))"

definition assignArbiter :: "id \<Rightarrow> id \<Rightarrow> (world, exn, dispute) action" where
  "assignArbiter k arbiterId w =
     with_dispute k w (\<lambda>d.
       if dispute_status d \<noteq> DISPUTE_PENDING
       then (Inl (BadRequest ''Arbiters can only be assigned to pending disputes''), w)
       else case find_user arbiterId w of
              None \<Rightarrow> (Inl (NotFound ''Arbiter user not found''), w)
            | Some arbiter \<Rightarrow>
                if role arbiter \<noteq> ''admin'' \<and> role arbiter \<noteq> ''moderator''
                then (Inl (BadRequest ''Arbiter must have the admin or moderator role''), w)
                else let d1 = d\<lparr>assignedArbiterId := Some (user_id arbiter)\<rparr> in (Inr d1, save_dispute d1 w))"

section \<open>The SLA sweep\<close>

datatype sla_outcome = SlaNone | Approaching | Breached | EscalatedNow

record sla_notice =
  notice_dispute :: id
  notice_kind :: sla_outcome
  recipientAddresses :: "string list"

text \<open>\<open>Array.from(new Set(xs))\<close>: the first occurrence of every element, in order.\<close>

definition js_set :: "'a list \<Rightarrow> 'a list" where
  "js_set xs = rev (remdups (rev xs))"

definition getSlaRecipientAddresses :: "dispute \<Rightarrow> world \<Rightarrow> string list" where
  "getSlaRecipientAddresses d w =
     js_set
       (filter (\<lambda>a. a \<noteq> [])
         ((case assignedArbiterId d of
             None \<Rightarrow> []
           | Some k \<Rightarrow> (case find_user k w of None \<Rightarrow> [] | Some u \<Rightarrow> [stellar_address u])) @
          map stellar_address (filter (\<lambda>u. role u = ''admin'') (users w))))"

definition evaluateDisputeSla :: "dispute_env \<Rightarrow> instant \<Rightarrow> dispute \<Rightarrow> sla_outcome \<times> dispute" where
  "evaluateDisputeSla env now d =
     (if now < slaDeadline d
      then if slaDeadline d - now \<le> slaApproachingWindowHours env * HOUR_MS \<and> slaApproachingNotifiedAt d = None
           then (Approaching, d\<lparr>slaApproachingNotifiedAt := Some now\<rparr>)
           else (SlaNone, d)
      else if slaBreachedAt d = None
      then if slaStage d = INITIAL_REVIEW
           then (EscalatedNow, d\<lparr>slaBreachedAt := Some now, slaStage := SLA_ESCALATED,
                   slaDeadline := addHours env now (slaEscalationHours env), slaApproachingNotifiedAt := None,
                   slaBreachedNotifiedAt := Some now\<rparr>)
           else (Breached, d\<lparr>slaBreachedAt := Some now, slaBreachedNotifiedAt := Some now\<rparr>)
      else if (case slaBreachedNotifiedAt d of
                 None \<Rightarrow> True | Some t \<Rightarrow> now - t \<ge> slaReescalationIntervalHours env * HOUR_MS)
      then (Breached, d\<lparr>slaBreachedNotifiedAt := Some now\<rparr>)
      else (SlaNone, d))"

fun sla_each ::
  "dispute_env \<Rightarrow> instant \<Rightarrow> dispute list \<Rightarrow> (nat \<times> nat \<times> nat) \<times> sla_notice list \<times> world \<Rightarrow>
   (nat \<times> nat \<times> nat) \<times> sla_notice list \<times> world"
where
  "sla_each env now [] s = s"
| "sla_each env now (d # ds) ((approaching, breached, escalated), notices, w) =
     (case evaluateDisputeSla env now d of
        (outcome, d1) \<Rightarrow>
          let counts = (case outcome of
                  SlaNone \<Rightarrow> (approaching, breached, escalated)
                | Approaching \<Rightarrow> (approaching + 1, breached, escalated)
                | Breached \<Rightarrow> (approaching, breached + 1, escalated)
                | EscalatedNow \<Rightarrow> (approaching, breached + 1, escalated + 1))
          in if outcome = SlaNone then sla_each env now ds (counts, notices, w)
             else sla_each env now ds (counts,
                    notices @ [\<lparr>notice_dispute = dispute_id d, notice_kind = outcome,
                                recipientAddresses = getSlaRecipientAddresses d1 w\<rparr>],
                    save_dispute d1 w))"

definition runSlaCheck ::
  "dispute_env \<Rightarrow> instant \<Rightarrow> world \<Rightarrow> (nat \<times> nat \<times> nat) \<times> sla_notice list \<times> world"
where
  "runSlaCheck env now w =
     (if \<not> slaEnabled env then ((0, 0, 0), [], w)
      else sla_each env now (filter (\<lambda>d. dispute_status d = DISPUTE_PENDING) (disputes w)) ((0, 0, 0), [], w))"

end
