(* ===== verification/Dispute_Facts.thy ===== *)
theory Dispute_Facts
  imports Disputes Market_Lifecycle
begin

text \<open>
  What the dispute service guarantees: the escalation links form chains of at most three tiers, so
  the walk over them ends; an address votes at most once in a chain; a tier is finalised exactly
  when its quorum is reached, by weight; the SLA sweep does its work once.
\<close>

section \<open>Requests\<close>

datatype dispute_cmd =
    Raise id id string user
  | Adjudge id dispute_resolution "string option" user
  | Vote id id dispute_resolution user
  | Transition id dispute_status "user option"
  | Escalate id id user "int option"
  | Attach id id string string string int "string option" user
  | Assign id id
  | RecordRaise id string string
  | RecordResolution id string dispute_resolution
  | SlaSweep

primrec handle_dispute :: "dispute_env \<Rightarrow> instant \<Rightarrow> dispute_cmd \<Rightarrow> world \<Rightarrow> world option" where
  "handle_dispute env now (Raise newId k why u) w = Some (snd (create_dispute env now newId k why u w))"
| "handle_dispute env now (Adjudge k res notes u) w = Some (snd (resolve_dispute now k res notes u w))"
| "handle_dispute env now (Vote newId k oc u) w = map_option snd (castVote now newId k oc u w)"
| "handle_dispute env now (Transition k st uo) w = Some (snd (transitionStatus now k st uo w))"
| "handle_dispute env now (Escalate newId k u t) w = Some (snd (escalate env now newId k u t w))"
| "handle_dispute env now (Attach newId k url fname mime sz descr u) w =
     Some (snd (attachEvidence env newId k url fname mime sz descr u w))"
| "handle_dispute env now (Assign k a) w = Some (snd (assignArbiter k a w))"
| "handle_dispute env now (RecordRaise k c why) w = Some (snd (recordDisputeOnChain env now k c why w))"
| "handle_dispute env now (RecordResolution k c res) w = Some (snd (recordResolutionOnChain env now k c res w))"
| "handle_dispute env now SlaSweep w = Some (snd (snd (runSlaCheck env now w)))"

section \<open>Chains\<close>

definition link :: "dispute list \<Rightarrow> id \<Rightarrow> id option" where
  "link ds k = (case find_row dispute_id k ds of None \<Rightarrow> None | Some d \<Rightarrow> escalatedFromId d)"

primrec ancestors :: "nat \<Rightarrow> (id \<Rightarrow> id option) \<Rightarrow> id option \<Rightarrow> id list" where
  "ancestors 0 l p = []"
| "ancestors (Suc n) l p = (if truthy p then the p # ancestors n l (l (the p)) else [])"

text \<open>The three tiers bound the chain: itself and at most two below.\<close>

definition chain :: "dispute list \<Rightarrow> dispute \<Rightarrow> id list" where
  "chain ds d = dispute_id d # ancestors 2 (link ds) (escalatedFromId d)"

definition below :: "dispute list \<Rightarrow> dispute \<Rightarrow> dispute \<Rightarrow> bool" where
  "below ds q d \<longleftrightarrow> q \<in> set ds \<and> escalatedFromId d = Some (dispute_id q) \<and> tier d = tier q + 1 \<and>
     dispute_status q \<noteq> DISPUTE_PENDING"

definition links_ok :: "dispute list \<Rightarrow> bool" where
  "links_ok ds \<longleftrightarrow> unique_keys dispute_id ds \<and>
     (\<forall>d \<in> set ds. dispute_id d \<noteq> [] \<and> 1 \<le> tier d \<and> tier d \<le> MAX_TIER \<and>
        (if tier d = 1 then escalatedFromId d = None else \<exists>q. below ds q d))"

definition votes_ok :: "dispute list \<Rightarrow> dispute_vote list \<Rightarrow> bool" where
  "votes_ok ds vs \<longleftrightarrow> (\<forall>v \<in> set vs. 0 \<le> weight v \<and> vote_dispute v \<in> dispute_id ` set ds) \<and>
     (\<forall>d \<in> set ds. distinct (map voterAddress (filter (\<lambda>v. vote_dispute v \<in> set (chain ds d)) vs)))"

definition disputes_ok :: "world \<Rightarrow> bool" where
  "disputes_ok w \<longleftrightarrow> links_ok (disputes w) \<and> votes_ok (disputes w) (votes w)"

lemma link_found: "unique_keys dispute_id ds \<Longrightarrow> q \<in> set ds \<Longrightarrow> link ds (dispute_id q) = escalatedFromId q"
  by (simp add: link_def find_row_distinct)

lemma links_okD:
  assumes "links_ok ds" "d \<in> set ds"
  shows "dispute_id d \<noteq> []" "1 \<le> tier d" "tier d \<le> 3" "tier d = 1 \<Longrightarrow> escalatedFromId d = None"
    "tier d \<noteq> 1 \<Longrightarrow> \<exists>q. below ds q d"
  using assms by (auto simp: links_ok_def MAX_TIER_def split: if_splits)

text \<open>The walk of the source ends and returns exactly the chain.\<close>

lemma walk_chain_ancestors:
  assumes "links_ok ds" "d \<in> set ds" "tier d \<le> int n + 1"
  shows "walk_chain ds (escalatedFromId d) ids = Some (ids @ ancestors n (link ds) (escalatedFromId d))"
  using assms(2,3)
proof (induction n arbitrary: d ids)
  case 0
  then have "escalatedFromId d = None" using links_okD(2,4) [OF assms(1) 0(1)] by simp
  then show ?case by (simp add: walk_chain.simps truthy_def)
next
  case (Suc n)
  show ?case
  proof (cases "tier d = 1")
    case True
    then have "escalatedFromId d = None" using links_okD(4) [OF assms(1) Suc.prems(1)] by simp
    then show ?thesis by (simp add: walk_chain.simps truthy_def)
  next
    case False
    then obtain q where q: "below ds q d" using links_okD(5) [OF assms(1) Suc.prems(1)] by blast
    then have qs: "q \<in> set ds" "escalatedFromId d = Some (dispute_id q)" "tier q \<le> int n + 1"
      using Suc.prems(2) by (auto simp: below_def)
    have "truthy (Some (dispute_id q))" using links_okD(1) [OF assms(1) qs(1)] by (simp add: truthy_def)
    moreover have "unique_keys dispute_id ds" using assms(1) by (simp add: links_ok_def)
    ultimately show ?thesis
      using Suc.IH [OF qs(1,3), of "ids @ [dispute_id q]"] qs
      by (subst walk_chain.simps) (simp add: find_row_distinct link_found)
  qed
qed

lemma getChainDisputeIds_chain:
  assumes "links_ok (disputes w)" "d \<in> set (disputes w)"
  shows "getChainDisputeIds d w = Some (chain (disputes w) d)"
proof -
  have "tier d \<le> int 2 + 1" using links_okD(3) [OF assms] by simp
  from walk_chain_ancestors [OF assms this] show ?thesis by (simp add: getChainDisputeIds_def chain_def)
qed

lemma length_ancestors: "length (ancestors n l p) \<le> n"
  by (induction n arbitrary: p) auto

lemma castVote_returns: "disputes_ok w \<Longrightarrow> castVote now newId k oc u w \<noteq> None"
  by (auto simp: castVote_def disputes_ok_def getChainDisputeIds_chain Let_def split: option.splits
      dest!: find_row_SomeD)

section \<open>Changes that keep the links\<close>

definition mild :: "dispute \<Rightarrow> dispute \<Rightarrow> bool" where
  "mild d e \<longleftrightarrow> dispute_id e = dispute_id d \<and> escalatedFromId e = escalatedFromId d \<and> tier e = tier d \<and>
     (dispute_status e = DISPUTE_PENDING \<longrightarrow> dispute_status d = DISPUTE_PENDING)"

lemma mild_refl [simp]: "mild d d"
  by (simp add: mild_def)

lemma mild_trans: "mild a b \<Longrightarrow> mild b c \<Longrightarrow> mild a c"
  by (simp add: mild_def)

lemma mild_list:
  assumes "list_all2 mild ds es"
  shows "map dispute_id es = map dispute_id ds" "link es = link ds"
    "e \<in> set es \<Longrightarrow> \<exists>d \<in> set ds. mild d e" "d \<in> set ds \<Longrightarrow> \<exists>e \<in> set es. mild d e"
proof -
  show "map dispute_id es = map dispute_id ds"
    using assms by (induction rule: list_all2_induct) (auto simp: mild_def)
  have "link es k = link ds k" for k
    using assms by (induction rule: list_all2_induct) (auto simp: mild_def link_def)
  then show "link es = link ds" by auto
  show "e \<in> set es \<Longrightarrow> \<exists>d \<in> set ds. mild d e"
    using assms by (metis in_set_conv_nth list_all2_conv_all_nth)
  show "d \<in> set ds \<Longrightarrow> \<exists>e \<in> set es. mild d e"
    using assms by (metis in_set_conv_nth list_all2_conv_all_nth)
qed

lemma chain_mild: "list_all2 mild ds es \<Longrightarrow> mild d e \<Longrightarrow> chain es e = chain ds d"
  by (simp add: chain_def mild_list(2) mild_def)

lemma links_ok_mild:
  assumes "links_ok ds" "list_all2 mild ds es"
  shows "links_ok es"
proof -
  have "dispute_id e \<noteq> [] \<and> 1 \<le> tier e \<and> tier e \<le> MAX_TIER \<and>
      (if tier e = 1 then escalatedFromId e = None else \<exists>q. below es q e)" if "e \<in> set es" for e
  proof -
    from mild_list(3) [OF assms(2) that] obtain d where d: "d \<in> set ds" "mild d e" by blast
    note ok = links_okD [OF assms(1) d(1)]
    have "\<exists>q. below es q e" if "tier e \<noteq> 1"
    proof -
      from that d(2) ok(5) obtain q where q: "below ds q d" by (auto simp: mild_def)
      then obtain q' where "q' \<in> set es" "mild q q'" using mild_list(4) [OF assms(2)] by (auto simp: below_def)
      with q d(2) have "below es q' e" by (auto simp: below_def mild_def)
      then show ?thesis by blast
    qed
    with ok d(2) show ?thesis by (auto simp: mild_def MAX_TIER_def)
  qed
  with assms show ?thesis by (auto simp: links_ok_def mild_list(1) [OF assms(2)])
qed

lemma votes_ok_mild:
  assumes "votes_ok ds vs" "list_all2 mild ds es"
  shows "votes_ok es vs"
proof -
  have ids: "dispute_id ` set es = dispute_id ` set ds" using mild_list(1) [OF assms(2)] by (metis list.set_map)
  have "distinct (map voterAddress (filter (\<lambda>v. vote_dispute v \<in> set (chain es e)) vs))" if "e \<in> set es" for e
  proof -
    from mild_list(3) [OF assms(2) that] obtain d where "d \<in> set ds" "mild d e" by blast
    with assms chain_mild show ?thesis by (auto simp: votes_ok_def)
  qed
  with assms(1) ids show ?thesis by (auto simp: votes_ok_def)
qed

lemma disputes_ok_mild:
  "disputes_ok w \<Longrightarrow> list_all2 mild (disputes w) (disputes w') \<Longrightarrow> votes w' = votes w \<Longrightarrow> disputes_ok w'"
  by (auto simp: disputes_ok_def intro: links_ok_mild votes_ok_mild)

lemma update_mild:
  "(\<And>d. d \<in> set ds \<Longrightarrow> dispute_id d = k \<Longrightarrow> mild d (f d)) \<Longrightarrow> list_all2 mild ds (update_row dispute_id k f ds)"
  by (induction ds) (auto simp: update_row_def)

lemma save_mild:
  assumes "disputes_ok w" "d \<in> set (disputes w)" "mild d e"
  shows "list_all2 mild (disputes w) (disputes (save_dispute e w))"
proof -
  have "unique_keys dispute_id (disputes w)" using assms(1) by (simp add: disputes_ok_def links_ok_def)
  then have "disputes (save_dispute e w) = map (\<lambda>x. if x = d then e else x) (disputes w)"
    using assms by (simp add: save_dispute_def save_row_replaces mild_def)
  then show ?thesis using assms(3) by (simp add: list_all2_map2 list.rel_refl)
qed

lemma save_dispute_ok:
  "disputes_ok w \<Longrightarrow> d \<in> set (disputes w) \<Longrightarrow> mild d e \<Longrightarrow> disputes_ok (save_dispute e w)"
  using save_mild disputes_ok_mild by (simp add: table_simps)

lemma with_dispute_ok:
  assumes "disputes_ok w" "\<And>d. d \<in> set (disputes w) \<Longrightarrow> find_dispute k w = Some d \<Longrightarrow> disputes_ok (snd (body d))"
  shows "disputes_ok (snd (with_dispute k w body))"
  using assms by (auto simp: with_dispute_def split: option.splits dest: find_row_SomeD)

lemma disputes_ok_frame [simp]:
  "disputes_ok (call_chain c w) = disputes_ok w" "disputes_ok (w\<lparr>evidence := es\<rparr>) = disputes_ok w"
  by (simp_all add: disputes_ok_def call_chain_def)

section \<open>Every operation keeps the invariant\<close>

lemma resolve_dispute_ok: "disputes_ok w \<Longrightarrow> disputes_ok (snd (resolve_dispute now k res notes u w))"
  unfolding resolve_dispute_def by (rule with_dispute_ok) (auto simp: Let_def mild_def intro: save_dispute_ok)

lemma assignArbiter_ok: "disputes_ok w \<Longrightarrow> disputes_ok (snd (assignArbiter k a w))"
  unfolding assignArbiter_def
  by (rule with_dispute_ok) (auto simp: Let_def mild_def intro!: save_dispute_ok split: option.splits)

lemma attachEvidence_ok: "disputes_ok w \<Longrightarrow> disputes_ok (snd (attachEvidence env n k url f mi sz ds u w))"
  unfolding attachEvidence_def by (rule with_dispute_ok) (auto simp: Let_def)

lemma pending_not_reentered:
  "validateStatusTransition st DISPUTE_PENDING = Inr () \<Longrightarrow> st = DISPUTE_PENDING"
  by (cases st) (auto simp: validateStatusTransition_def)

lemma transitionStatus_ok: "disputes_ok w \<Longrightarrow> disputes_ok (snd (transitionStatus now k st uo w))"
  unfolding transitionStatus_def
proof (rule with_dispute_ok, assumption, goal_cases)
  case (1 d)
  show ?case
  proof (cases "validateStatusTransition (dispute_status d) st")
    case (Inr x)
    have "disputes_ok (save_dispute e w)" if "mild (d\<lparr>dispute_status := st\<rparr>) e" for e
    proof (rule save_dispute_ok [OF 1(1,2)])
      have "mild d (d\<lparr>dispute_status := st\<rparr>)" using Inr pending_not_reentered by (auto simp: mild_def)
      then show "mild d e" using that mild_trans by blast
    qed
    with Inr show ?thesis by (auto simp: Let_def mild_def split: option.splits)
  qed (use 1 in simp)
qed

lemma record_ok:
  "disputes_ok w \<Longrightarrow> disputes_ok (snd (recordDisputeOnChain env now k c why w))"
  "disputes_ok w \<Longrightarrow> disputes_ok (snd (recordResolutionOnChain env now k c res w))"
proof -
  have upd: "disputes_ok (w\<lparr>disputes := update_row dispute_id k f (disputes w)\<rparr>)"
    if "disputes_ok w" "\<And>d. mild d (f d)" for f w
    by (rule disputes_ok_mild [OF that(1)]) (auto intro: update_mild that(2))
  assume w: "disputes_ok w"
  show "disputes_ok (snd (recordDisputeOnChain env now k c why w))"
    using upd [of "call_chain (RaiseDispute c why) w"] w
    by (auto simp: recordDisputeOnChain_def Let_def mild_def split: sum.splits)
  show "disputes_ok (snd (recordResolutionOnChain env now k c res w))"
    using upd [of "call_chain _ w"] w
    by (auto simp: recordResolutionOnChain_def Let_def mild_def split: sum.splits option.splits)
qed

lemma evaluateDisputeSla_mild: "evaluateDisputeSla env now d = (oc, e) \<Longrightarrow> mild d e"
  by (auto simp: evaluateDisputeSla_def mild_def split: if_splits)

lemma sla_each_ok:
  assumes "disputes_ok w" "distinct (map dispute_id ds)" "set ds \<subseteq> set (disputes w)"
  shows "disputes_ok (snd (snd (sla_each env now ds (cs, ns, w))))"
  using assms
proof (induction ds arbitrary: cs ns w)
  case (Cons d ds)
  obtain oc e where ev: "evaluateDisputeSla env now d = (oc, e)" by fastforce
  note m = evaluateDisputeSla_mild [OF ev]
  obtain a b c where cs: "cs = (a, b, c)" by (cases cs)
  have uniq: "unique_keys dispute_id (disputes w)" using Cons.prems(1) by (simp add: disputes_ok_def links_ok_def)
  have "disputes (save_dispute e w) = map (\<lambda>x. if x = d then e else x) (disputes w)"
    using Cons.prems(3) m uniq by (simp add: save_dispute_def save_row_replaces mild_def)
  moreover have "d \<notin> set ds" using Cons.prems(2) by (auto simp: image_iff)
  ultimately have "set ds \<subseteq> set (disputes (save_dispute e w))" using Cons.prems(3) by auto
  moreover have "disputes_ok (save_dispute e w)"
    using Cons.prems(1,3) m by (intro save_dispute_ok) auto
  ultimately show ?case
    using Cons.IH Cons.prems ev cs by (cases oc) (simp_all add: Let_def)
qed simp

lemma runSlaCheck_ok: "disputes_ok w \<Longrightarrow> disputes_ok (snd (snd (runSlaCheck env now w)))"
proof -
  assume w: "disputes_ok w"
  then have "distinct (map dispute_id (filter P (disputes w)))" for P
    by (simp add: disputes_ok_def links_ok_def distinct_map_filter)
  with w show ?thesis by (simp add: runSlaCheck_def sla_each_ok)
qed

lemma ancestors_stable:
  assumes "links_ok ds" "d \<in> set ds" "tier d \<le> int n + 1" "tier d \<le> int m + 1"
  shows "ancestors n (link ds) (escalatedFromId d) = ancestors m (link ds) (escalatedFromId d)"
  using walk_chain_ancestors [OF assms(1,2,3), of "[]"] walk_chain_ancestors [OF assms(1,2,4), of "[]"] by simp

lemma ancestors_append:
  assumes "links_ok ds" "d \<in> set ds"
  shows "ancestors n (link (ds @ [c])) (escalatedFromId d) = ancestors n (link ds) (escalatedFromId d)"
  using assms(2)
proof (induction n arbitrary: d)
  case (Suc n)
  show ?case
  proof (cases "tier d = 1")
    case True
    then show ?thesis using links_okD(4) [OF assms(1) Suc.prems] by (simp add: truthy_def)
  next
    case False
    then obtain q where q: "below ds q d" using links_okD(5) [OF assms(1) Suc.prems] by blast
    have u: "unique_keys dispute_id ds" using assms(1) by (simp add: links_ok_def)
    with q have "link (ds @ [c]) (dispute_id q) = escalatedFromId q" "link ds (dispute_id q) = escalatedFromId q"
      by (simp_all add: link_def find_row_append find_row_distinct below_def)
    with Suc.IH [of q] q show ?thesis by (simp add: below_def)
  qed
qed simp

lemma insert_new_ok:
  assumes ok: "disputes_ok w" and fresh: "dispute_id c \<notin> dispute_id ` set (disputes w)" "dispute_id c \<noteq> []"
    and tier_ok: "tier c \<le> MAX_TIER" "tier c = 1 \<and> escalatedFromId c = None \<or> (\<exists>q. below (disputes w) q c)"
  shows "disputes_ok (w\<lparr>disputes := disputes w @ [c]\<rparr>)"
proof -
  let ?ds = "disputes w"
  have links: "links_ok ?ds" and votes: "votes_ok ?ds (votes w)" using ok by (auto simp: disputes_ok_def)
  then have u: "unique_keys dispute_id ?ds" by (simp add: links_ok_def)
  have low: "1 \<le> tier q" if "q \<in> set ?ds" for q using links_okD(2) [OF links that] .
  have up: "below (?ds @ [c]) q d" if "below ?ds q d" for q d using that by (auto simp: below_def)
  have "dispute_id d \<noteq> [] \<and> 1 \<le> tier d \<and> tier d \<le> MAX_TIER \<and>
      (if tier d = 1 then escalatedFromId d = None else \<exists>q. below (?ds @ [c]) q d)" if "d \<in> set (?ds @ [c])" for d
  proof (cases "d \<in> set ?ds")
    case True
    show ?thesis using links_okD [OF links True] up by (auto simp: MAX_TIER_def)
  next
    case False
    with that have "d = c" by simp
    then show ?thesis
    proof (cases "tier c = 1 \<and> escalatedFromId c = None")
      case True
      with \<open>d = c\<close> fresh(2) show ?thesis by (simp add: MAX_TIER_def)
    next
      case False
      then obtain q where q: "below ?ds q c" using tier_ok(2) by blast
      then have "2 \<le> tier c" using low [of q] by (simp add: below_def)
      with \<open>d = c\<close> fresh(2) tier_ok(1) up [OF q] show ?thesis by auto
    qed
  qed
  with u fresh(1) have links': "links_ok (?ds @ [c])" by (simp add: links_ok_def)
  have old: "chain (?ds @ [c]) d = chain ?ds d" if "d \<in> set ?ds" for d
    using ancestors_append [OF links that] by (simp add: chain_def)
  have no_votes: "\<forall>v \<in> set (votes w). vote_dispute v \<noteq> dispute_id c"
    using votes fresh(1) unfolding votes_ok_def by metis
  have "distinct (map voterAddress (filter (\<lambda>v. vote_dispute v \<in> set (chain (?ds @ [c]) c)) (votes w)))"
  proof (cases "tier c = 1 \<and> escalatedFromId c = None")
    case True
    then have "filter (\<lambda>v. vote_dispute v \<in> set (chain (?ds @ [c]) c)) (votes w) = []"
      using no_votes by (auto simp: chain_def truthy_def numeral_2_eq_2 filter_empty_conv)
    then show ?thesis by simp
  next
    case False
    then obtain q where q: "below ?ds q c" using tier_ok by blast
    then have qs: "q \<in> set ?ds" "tier q \<le> int 1 + 1" "tier q \<le> int 2 + 1"
      using tier_ok(1) by (auto simp: below_def MAX_TIER_def)
    have "link (?ds @ [c]) (dispute_id q) = escalatedFromId q"
      using qs(1) u by (simp add: link_def find_row_append find_row_distinct)
    moreover have "ancestors 1 (link ?ds) (escalatedFromId q) = ancestors 2 (link ?ds) (escalatedFromId q)"
      using ancestors_stable [OF links qs] .
    ultimately have "chain (?ds @ [c]) c = dispute_id c # chain ?ds q"
      using q ancestors_append [OF links qs(1), of 1 c] links_okD(1) [OF links qs(1)]
      by (simp add: chain_def below_def truthy_def numeral_2_eq_2)
    then have "filter (\<lambda>v. vote_dispute v \<in> set (chain (?ds @ [c]) c)) (votes w) =
        filter (\<lambda>v. vote_dispute v \<in> set (chain ?ds q)) (votes w)"
      using no_votes by (intro filter_cong) auto
    then show ?thesis using votes qs(1) by (simp add: votes_ok_def)
  qed
  with old votes have "votes_ok (?ds @ [c]) (votes w)" by (auto simp: votes_ok_def)
  with links' show ?thesis by (simp add: disputes_ok_def)
qed

lemma create_dispute_ok: "disputes_ok w \<Longrightarrow> disputes_ok (snd (create_dispute env now newId k why u w))"
proof -
  assume w: "disputes_ok w"
  have "disputes_ok (snd (insert_dispute (new_dispute env now newId k x y 1) w))" for x y
    using w insert_new_ok [OF w, of "new_dispute env now newId k x y 1"]
    by (auto simp: insert_dispute_def new_dispute_def MAX_TIER_def)
  with w show ?thesis by (auto simp: create_dispute_def split: option.splits)
qed

lemma escalate_ok: "disputes_ok w \<Longrightarrow> disputes_ok (snd (escalate env now newId k u t w))"
  unfolding escalate_def
proof (rule with_dispute_ok, assumption, goal_cases)
  case (1 d)
  define nextTier where "nextTier = (case t of Some t \<Rightarrow> t | None \<Rightarrow> tier d + 1)"
  let ?d1 = "d\<lparr>dispute_status := ESCALATED, escalatedById := Some (user_id u), escalatedAt := Some now\<rparr>"
  let ?c = "(new_dispute env now newId (dispute_market d) (disputantId d) (reason d) nextTier)
    \<lparr>escalatedFromId := Some (dispute_id d), escalatedById := Some (user_id u), escalatedAt := Some now\<rparr>"
  have w1: "disputes_ok (save_dispute ?d1 w)" using 1 by (intro save_dispute_ok) (auto simp: mild_def)
  have "disputes_ok (snd (insert_dispute ?c (save_dispute ?d1 w)))"
    if "validateTierTransition (tier d) nextTier = Inr x" for x
  proof -
    have nt: "nextTier = tier d + 1" "nextTier \<le> MAX_TIER"
      using that by (auto simp: validateTierTransition_def split: if_splits)
    have "?d1 \<in> set (disputes (save_dispute ?d1 w))"
      using 1(2) by (auto simp: save_dispute_def save_row_def update_row_def image_iff)
    then have "below (disputes (save_dispute ?d1 w)) ?d1 ?c" using nt by (simp add: below_def new_dispute_def)
    then show ?thesis
      using w1 insert_new_ok [OF w1, of ?c] nt by (auto simp: insert_dispute_def new_dispute_def)
  qed
  with 1(1) show ?case
    unfolding Let_def nextTier_def [symmetric]
    by (auto simp: escalation_guard_def split: sum.splits)
qed

text \<open>Whatever stands below another dispute in a chain is no longer pending.\<close>

lemma ancestor_not_pending:
  assumes "links_ok ds" "d \<in> set ds" "k \<in> set (ancestors n (link ds) (escalatedFromId d))"
  shows "\<exists>q \<in> set ds. dispute_id q = k \<and> dispute_status q \<noteq> DISPUTE_PENDING"
  using assms(2,3)
proof (induction n arbitrary: d)
  case (Suc n)
  have "tier d \<noteq> 1" using Suc.prems links_okD(4) [OF assms(1)] by (auto simp: truthy_def)
  then obtain q where q: "below ds q d" using links_okD(5) [OF assms(1) Suc.prems(1)] by blast
  have "unique_keys dispute_id ds" using assms(1) by (simp add: links_ok_def)
  with q have "link ds (dispute_id q) = escalatedFromId q" by (simp add: link_found below_def)
  with q Suc show ?case by (auto simp: below_def split: if_splits)
qed simp

lemma pending_only_in_own_chain:
  assumes "links_ok ds" "d \<in> set ds" "dispute_status d = DISPUTE_PENDING" "e \<in> set ds" "dispute_id d \<in> set (chain ds e)"
  shows "e = d"
proof -
  have key: "x = y" if "x \<in> set ds" "y \<in> set ds" "dispute_id x = dispute_id y" for x y
    using that assms(1) by (auto simp: links_ok_def distinct_map inj_on_def)
  from ancestor_not_pending [OF assms(1,4)] assms(2,3) have "dispute_id d \<notin> set (ancestors 2 (link ds) (escalatedFromId e))"
    using key by metis
  with assms(5) have "dispute_id d = dispute_id e" by (simp add: chain_def)
  then show ?thesis using key assms(2,4) by metis
qed

lemma cast_vote_ok:
  assumes "disputes_ok w" "d \<in> set (disputes w)" "dispute_status d = DISPUTE_PENDING"
    and "vote_dispute v = dispute_id d" "0 \<le> weight v"
    and "\<not> (\<exists>x \<in> set (votes w). voterAddress x = voterAddress v \<and> vote_dispute x \<in> set (chain (disputes w) d))"
  shows "disputes_ok (w\<lparr>votes := votes w @ [v]\<rparr>)"
proof -
  have links: "links_ok (disputes w)" and votes: "votes_ok (disputes w) (votes w)"
    using assms(1) by (auto simp: disputes_ok_def)
  have "distinct (map voterAddress (filter (\<lambda>x. vote_dispute x \<in> set (chain (disputes w) e)) (votes w @ [v])))"
    if e: "e \<in> set (disputes w)" for e
  proof (cases "vote_dispute v \<in> set (chain (disputes w) e)")
    case True
    then have "e = d" using pending_only_in_own_chain [OF links assms(2,3) e] assms(4) by simp
    with votes e assms(6) show ?thesis by (auto simp: votes_ok_def)
  next
    case False
    with votes e show ?thesis by (simp add: votes_ok_def)
  qed
  moreover have "0 \<le> weight x \<and> vote_dispute x \<in> dispute_id ` set (disputes w)" if "x \<in> set (votes w @ [v])" for x
  proof (cases "x = v")
    case True
    with assms(2,4,5) show ?thesis by auto
  next
    case False
    with that votes show ?thesis unfolding votes_ok_def by (metis Un_iff empty_iff insert_iff list.set(1) list.simps(15) set_append)
  qed
  ultimately show ?thesis using links by (simp add: disputes_ok_def votes_ok_def)
qed

lemma tryFinalize_ok:
  "disputes_ok w \<Longrightarrow> d \<in> set (disputes w) \<Longrightarrow> disputes_ok (tryFinalizeByQuorum now d w)"
  by (auto simp: tryFinalizeByQuorum_def mild_def intro: save_dispute_ok split: prod.splits)

lemma castVote_ok:
  assumes "disputes_ok w" "castVote now newId k oc u w = Some (r, w')"
  shows "disputes_ok w'"
proof (cases "find_dispute k w")
  case None
  with assms show ?thesis by (simp add: castVote_def)
next
  case (Some d)
  then have d: "d \<in> set (disputes w)" "dispute_id d = k" by (auto dest: find_row_SomeD)
  let ?v = "\<lparr>vote_id = newId, vote_dispute = k, voterId = user_id u, voterAddress = stellar_address u,
    vote_outcome = oc, weight = max 0 (reputation_score u), vote_tier = tier d\<rparr>"
  have chain: "getChainDisputeIds d w = Some (chain (disputes w) d)"
    using assms(1) d(1) by (simp add: disputes_ok_def getChainDisputeIds_chain)
  show ?thesis
  proof (cases "w' = w")
    case False
    then have c: "dispute_status d = DISPUTE_PENDING"
      "\<not> (\<exists>v \<in> set (votes w). voterAddress v = stellar_address u \<and> vote_dispute v \<in> set (chain (disputes w) d))"
      "w' = tryFinalizeByQuorum now d (w\<lparr>votes := votes w @ [?v]\<rparr>)"
      using assms(2) Some chain by (auto simp: castVote_def Let_def split: if_splits)
    have "disputes_ok (w\<lparr>votes := votes w @ [?v]\<rparr>)"
      by (rule cast_vote_ok [OF assms(1) d(1) c(1)]) (use d(2) c(2) in simp_all)
    then show ?thesis unfolding c(3) using d(1) by (intro tryFinalize_ok) simp_all
  qed (use assms(1) in simp)
qed

lemma handle_dispute_ok:
  assumes "disputes_ok w"
  shows "\<exists>w'. handle_dispute env now cmd w = Some w' \<and> disputes_ok w'"
proof (cases cmd)
  case (Vote newId k oc u)
  then obtain r w' where "castVote now newId k oc u w = Some (r, w')"
    using castVote_returns [OF assms, of now newId k oc u] by auto
  with castVote_ok [OF assms] Vote show ?thesis by auto
qed (simp_all add: assms create_dispute_ok resolve_dispute_ok transitionStatus_ok escalate_ok attachEvidence_ok
      assignArbiter_ok record_ok runSlaCheck_ok)

fun handle_disputes :: "dispute_env \<Rightarrow> (instant \<times> dispute_cmd) list \<Rightarrow> world \<Rightarrow> world option" where
  "handle_disputes env [] w = Some w"
| "handle_disputes env ((now, cmd) # cmds) w = Option.bind (handle_dispute env now cmd w) (handle_disputes env cmds)"

text \<open>
  C11. Starting without disputes, every sequence of dispute requests is handled to its end (the
  walk up an escalation chain always returns), and afterwards: every tier is between one and three,
  a tier above the first was escalated from a dispute one tier below that is no longer pending, no
  vote has negative weight, and within one escalation chain no address has voted twice.
\<close>

theorem disputes_always_ok:
  assumes "disputes w = []" "votes w = []"
  shows "\<exists>w'. handle_disputes env cmds w = Some w' \<and> links_ok (disputes w') \<and>
    (\<forall>d \<in> set (disputes w'). getChainDisputeIds d w' = Some (chain (disputes w') d) \<and>
       length (chain (disputes w') d) \<le> 3 \<and>
       distinct (map voterAddress (filter (\<lambda>v. vote_dispute v \<in> set (chain (disputes w') d)) (votes w'))))"
proof -
  have "\<exists>w'. handle_disputes env cmds w = Some w' \<and> disputes_ok w'" if "disputes_ok w" for w
    using that
  proof (induction cmds arbitrary: w)
    case (Cons c cmds)
    obtain now cmd where c: "c = (now, cmd)" by (cases c)
    obtain w1 where "handle_dispute env now cmd w = Some w1" "disputes_ok w1"
      using handle_dispute_ok [OF Cons.prems] by blast
    with Cons.IH [of w1] c show ?case by simp
  qed simp
  moreover have "disputes_ok w" using assms by (simp add: disputes_ok_def links_ok_def votes_ok_def)
  ultimately obtain w' where w': "handle_disputes env cmds w = Some w'" "disputes_ok w'" by blast
  have "length (chain (disputes w') d) \<le> 3" for d
    using length_ancestors [of 2 "link (disputes w')" "escalatedFromId d"] by (simp add: chain_def)
  with w' show ?thesis by (auto simp: disputes_ok_def votes_ok_def getChainDisputeIds_chain)
qed

definition sample_dispute_env :: dispute_env where
  "sample_dispute_env = \<lparr>d_soroban = sample_env, addDays = (\<lambda>t n. t + n * 86400000), addHours = (\<lambda>t n. t + n * HOUR_MS),
     slaInitialReviewHours = 48, slaEscalationHours = 24, slaApproachingWindowHours = 6,
     slaReescalationIntervalHours = 24, escalationWindowHours = 72, tier1Quorum = 100, quorumTierMultiplier = 2,
     evidenceMaxSizeBytes = 10485760, evidenceAllowedMimeTypes = [''application/pdf''], slaEnabled = True,
     loads_creator = False\<rparr>"

definition sample_dispute_run :: "(instant \<times> dispute_cmd) list" where
  "sample_dispute_run = [(3000, Raise ''d1'' ''m1'' ''wrong'' sample_user),
     (3100, Vote ''v1'' ''d1'' OVERTURNED (sample_user\<lparr>reputation_score := 120\<rparr>)),
     (3200, Escalate ''d2'' ''d1'' sample_user None)]"

theorem disputes_always_ok_witness:
  "\<exists>w'. handle_disputes sample_dispute_env sample_dispute_run (sample_world [sample_settled]) = Some w' \<and>
     links_ok (disputes w')"
  using disputes_always_ok [of "sample_world [sample_settled]" sample_dispute_env sample_dispute_run]
  by (auto simp: sample_world_def)

section \<open>Quorum\<close>

definition weight_of :: "(dispute_vote \<Rightarrow> bool) \<Rightarrow> dispute_vote list \<Rightarrow> int" where
  "weight_of P vs = sum_list (map weight (filter P vs))"

lemma tally_weights:
  "tally vs (a, b, c) = (a + weight_of (\<lambda>_. True) vs, b + weight_of (\<lambda>v. vote_outcome v = UPHELD) vs,
     c + weight_of (\<lambda>v. vote_outcome v = OVERTURNED) vs)"
proof (induction vs arbitrary: a b c)
  case (Cons v vs)
  then show ?case by (cases "vote_outcome v") (simp_all add: weight_of_def)
qed (simp add: weight_of_def)

definition decided :: "instant \<Rightarrow> dispute_vote list \<Rightarrow> dispute \<Rightarrow> dispute" where
  "decided now vs d = d\<lparr>dispute_status := DISPUTE_RESOLVED,
     resolution := Some (if weight_of (\<lambda>v. vote_outcome v = OVERTURNED) vs > weight_of (\<lambda>v. vote_outcome v = UPHELD) vs
                         then OVERTURNED else UPHELD),
     resolvedAt := Some now\<rparr>"

lemma tryFinalizeByQuorum_eq:
  "tryFinalizeByQuorum now d w =
     (let vs = filter (\<lambda>v. vote_dispute v = dispute_id d) (votes w)
      in if weight_of (\<lambda>_. True) vs < quorumThreshold d then w else save_dispute (decided now vs d) w)"
  by (simp add: tryFinalizeByQuorum_def tally_weights decided_def Let_def)

text \<open>
  C12. A vote is counted by weight and a tier is decided exactly at quorum: when a vote is accepted
  it is stored once, with the voter's reputation (at least zero) as its weight; if the weights
  on the dispute now reach its quorum the dispute is resolved, as overturned when more weight was
  cast for that and as upheld otherwise, ties included; below quorum it stays as it was.
\<close>

theorem castVote_decides_at_quorum:
  assumes "disputes_ok w" "find_dispute k w = Some d" "castVote now newId k oc u w = Some (Inr d', w')"
  shows "\<exists>v vs. votes w' = votes w @ [v] \<and> weight v = max 0 (reputation_score u) \<and> vote_dispute v = k \<and>
    vote_outcome v = oc \<and> voterAddress v = stellar_address u \<and> find_dispute k w' = Some d' \<and>
    vs = filter (\<lambda>v. vote_dispute v = k) (votes w @ [v]) \<and>
    d' = (if weight_of (\<lambda>_. True) vs < quorumThreshold d then d else decided now vs d)"
proof -
  have d: "d \<in> set (disputes w)" "dispute_id d = k" using assms(2) by (auto dest: find_row_SomeD)
  have chain: "getChainDisputeIds d w = Some (chain (disputes w) d)"
    using assms(1) d(1) by (simp add: disputes_ok_def getChainDisputeIds_chain)
  define v where "v = \<lparr>vote_id = newId, vote_dispute = k, voterId = user_id u, voterAddress = stellar_address u,
    vote_outcome = oc, weight = max 0 (reputation_score u), vote_tier = tier d\<rparr>"
  define vs where "vs = filter (\<lambda>v. vote_dispute v = k) (votes w @ [v])"
  have w': "w' = tryFinalizeByQuorum now d (w\<lparr>votes := votes w @ [v]\<rparr>)" and d': "find_dispute k w' = Some d'"
    using assms(2,3) chain unfolding v_def by (auto simp: castVote_def Let_def split: if_splits option.splits)
  from w' have w'': "w' = (if weight_of (\<lambda>_. True) vs < quorumThreshold d then w\<lparr>votes := votes w @ [v]\<rparr>
      else save_dispute (decided now vs d) (w\<lparr>votes := votes w @ [v]\<rparr>))"
    by (simp add: tryFinalizeByQuorum_eq Let_def vs_def d(2))
  then have "votes w' = votes w @ [v]" by (simp add: table_simps)
  moreover have "dispute_id (decided now vs d) = k" using d(2) by (simp add: decided_def)
  then have "d' = (if weight_of (\<lambda>_. True) vs < quorumThreshold d then d else decided now vs d)"
    using w'' d' assms(2) by (auto simp: find_dispute_save split: if_splits)
  moreover have "weight v = max 0 (reputation_score u)" "vote_dispute v = k" "vote_outcome v = oc"
    "voterAddress v = stellar_address u" by (simp_all add: v_def)
  ultimately show ?thesis using d' vs_def by blast
qed

definition sample_disputed :: world where
  "sample_disputed = (sample_world [sample_settled])
     \<lparr>disputes := [new_dispute sample_dispute_env 3000 ''d1'' ''m1'' ''u1'' ''wrong'' 1]\<rparr>"

lemma sample_disputed_ok: "disputes_ok sample_disputed"
  by (simp add: sample_disputed_def sample_world_def disputes_ok_def links_ok_def votes_ok_def new_dispute_def MAX_TIER_def)

theorem castVote_decides_at_quorum_witness:
  "\<exists>d' w'. castVote 3100 ''v1'' ''d1'' OVERTURNED (sample_user\<lparr>reputation_score := 120\<rparr>) sample_disputed = Some (Inr d', w') \<and>
     resolution d' = Some OVERTURNED"
proof -
  let ?d = "new_dispute sample_dispute_env 3000 ''d1'' ''m1'' ''u1'' ''wrong'' 1"
  have d: "find_dispute ''d1'' sample_disputed = Some ?d" by (simp add: sample_disputed_def new_dispute_def)
  then have chain: "getChainDisputeIds ?d sample_disputed = Some (chain (disputes sample_disputed) ?d)"
    using sample_disputed_ok by (intro getChainDisputeIds_chain) (auto simp: disputes_ok_def dest: find_row_SomeD)
  then obtain d' w' where cast: "castVote 3100 ''v1'' ''d1'' OVERTURNED (sample_user\<lparr>reputation_score := 120\<rparr>) sample_disputed =
      Some (Inr d', w')"
    using d by (auto simp: castVote_def Let_def sample_disputed_def sample_simps new_dispute_def tryFinalizeByQuorum_def
        save_dispute_def save_row_def quorumForTier_def sample_dispute_env_def)
  have "votes sample_disputed = []" by (simp add: sample_disputed_def sample_world_def)
  with castVote_decides_at_quorum [OF sample_disputed_ok d cast] have "resolution d' = Some OVERTURNED"
    by (auto simp: weight_of_def decided_def new_dispute_def quorumForTier_def sample_dispute_env_def sample_user_def)
  with cast show ?thesis by blast
qed

section \<open>The SLA sweep\<close>

text \<open>Intervals under which one sweep settles an instant: a fresh deadline is not approaching at once.\<close>

definition sla_settings_ok :: "dispute_env \<Rightarrow> instant \<Rightarrow> bool" where
  "sla_settings_ok env now \<longleftrightarrow> 0 < slaReescalationIntervalHours env \<and>
     slaApproachingWindowHours env * HOUR_MS < addHours env now (slaEscalationHours env) - now"

lemma evaluate_twice:
  assumes "sla_settings_ok env now"
  shows "evaluateDisputeSla env now (snd (evaluateDisputeSla env now d)) = (SlaNone, snd (evaluateDisputeSla env now d))"
proof -
  have "0 < slaReescalationIntervalHours env * HOUR_MS" using assms by (simp add: sla_settings_ok_def HOUR_MS_def)
  then show ?thesis using assms
    by (auto simp: evaluateDisputeSla_def sla_settings_ok_def split: option.splits)
qed

lemma sla_each_effect:
  assumes "unique_keys dispute_id (disputes w)" "distinct (map dispute_id ds)" "set ds \<subseteq> set (disputes w)"
  shows "disputes (snd (snd (sla_each env now ds (cs, ns, w)))) =
    map (\<lambda>x. if x \<in> set ds then snd (evaluateDisputeSla env now x) else x) (disputes w)"
  using assms
proof (induction ds arbitrary: cs ns w)
  case (Cons d ds)
  obtain oc e where ev: "evaluateDisputeSla env now d = (oc, e)" by fastforce
  note m = evaluateDisputeSla_mild [OF ev]
  obtain a b c where cs: "cs = (a, b, c)" by (cases cs)
  have none: "oc = SlaNone \<Longrightarrow> e = d" using ev by (auto simp: evaluateDisputeSla_def split: if_splits)
  have save: "disputes (save_dispute e w) = map (\<lambda>x. if x = d then e else x) (disputes w)"
    using Cons.prems(1,3) m by (simp add: save_dispute_def save_row_replaces mild_def)
  have "dispute_id e = dispute_id d" using m by (simp add: mild_def)
  then have d: "d \<notin> set ds" "e \<notin> set ds" using Cons.prems(2) by (auto simp: image_iff)
  let ?w = "if oc = SlaNone then w else save_dispute e w"
  have w1: "disputes ?w = map (\<lambda>x. if x = d then e else x) (disputes w)" using save none by (auto simp: map_idI)
  have "map dispute_id (disputes ?w) = map dispute_id (disputes w)" using m by (auto simp: w1 mild_def)
  then have "unique_keys dispute_id (disputes ?w)" using Cons.prems(1) by simp
  moreover have "set ds \<subseteq> set (disputes ?w)" using Cons.prems(3) d(1) by (auto simp: w1)
  ultimately have "disputes (snd (snd (sla_each env now ds (cs', ns', ?w)))) =
      map (\<lambda>x. if x \<in> set ds then snd (evaluateDisputeSla env now x) else x) (disputes ?w)" for cs' ns'
    using Cons.IH Cons.prems(2) by auto
  moreover have "map (\<lambda>x. if x \<in> set ds then snd (evaluateDisputeSla env now x) else x) (disputes ?w) =
      map (\<lambda>x. if x \<in> set (d # ds) then snd (evaluateDisputeSla env now x) else x) (disputes w)"
    using d ev by (auto simp: w1)
  ultimately show ?case using ev cs by (cases oc) (simp_all add: Let_def)
qed simp

lemma sla_each_none:
  "(\<And>d. d \<in> set ds \<Longrightarrow> fst (evaluateDisputeSla env now d) = SlaNone) \<Longrightarrow> sla_each env now ds ((a, b, c), ns, w) = ((a, b, c), ns, w)"
proof (induction ds)
  case (Cons d ds)
  obtain e where "evaluateDisputeSla env now d = (SlaNone, e)"
    using Cons.prems [of d] by (metis list.set_intros(1) prod.collapse)
  with Cons show ?case by simp
qed simp

text \<open>
  The SLA sweep does its work once: with sensible intervals, running it a second time at the
  same instant finds nothing to do; it counts nothing, sends nothing and changes nothing.
\<close>

theorem sla_sweep_idempotent:
  assumes "unique_keys dispute_id (disputes w)" "sla_settings_ok env now"
  shows "runSlaCheck env now (snd (snd (runSlaCheck env now w))) = ((0, 0, 0), [], snd (snd (runSlaCheck env now w)))"
proof (cases "slaEnabled env")
  case False
  then show ?thesis by (simp add: runSlaCheck_def)
next
  case True
  let ?P = "\<lambda>d. dispute_status d = DISPUTE_PENDING"
  define w' where "w' = snd (snd (runSlaCheck env now w))"
  have "disputes w' = map (\<lambda>x. if x \<in> set (filter ?P (disputes w)) then snd (evaluateDisputeSla env now x) else x) (disputes w)"
    using True assms(1) unfolding w'_def runSlaCheck_def
    by (simp add: sla_each_effect distinct_map_filter del: set_filter)
  then have "fst (evaluateDisputeSla env now d) = SlaNone" if "d \<in> set (filter ?P (disputes w'))" for d
    using that evaluate_twice [OF assms(2)] by (auto split: if_splits)
  then have "sla_each env now (filter ?P (disputes w')) ((0, 0, 0), [], w') = ((0, 0, 0), [], w')"
    by (rule sla_each_none)
  then have "runSlaCheck env now w' = ((0, 0, 0), [], w')" using True by (simp add: runSlaCheck_def)
  then show ?thesis unfolding w'_def .
qed

theorem sla_sweep_idempotent_witness:
  "runSlaCheck sample_dispute_env 999999999 (snd (snd (runSlaCheck sample_dispute_env 999999999 sample_disputed))) =
     ((0, 0, 0), [], snd (snd (runSlaCheck sample_dispute_env 999999999 sample_disputed)))"
  by (rule sla_sweep_idempotent)
     (simp_all add: sample_disputed_def sla_settings_ok_def sample_dispute_env_def HOUR_MS_def)

section \<open>Where the guarantees end\<close>

text \<open>
  The creator of the disputed market is meant to see and attach evidence; unless the mapper loads
  the relation that \<open>findOne\<close> does not ask for, nobody but the disputant can.
\<close>

lemma creator_locked_out:
  assumes "find_dispute k w = Some d" "disputantId d \<noteq> user_id u" "\<not> loads_creator env"
  shows "listEvidence env k u w = Inl (Forbidden ''Only dispute participants can access evidence for this dispute'')"
  using assms by (simp add: listEvidence_def isDisputeParticipant_def)

text \<open>
  A transition may mark a dispute resolved with no resolution and no time of resolution; such a
  dispute can then not be escalated.
\<close>

lemma resolved_without_resolution:
  assumes "find_dispute k w = Some d" "dispute_status d = REVIEW" "resolution d = None" "resolvedAt d = None" "tier d = 1"
  shows "\<exists>d' w'. transitionStatus now k DISPUTE_RESOLVED None w = (Inr d', w') \<and> dispute_status d' = DISPUTE_RESOLVED \<and>
    resolution d' = None \<and>
    fst (escalate env now' newId k u None w') = Inl (BadRequest ''Resolved dispute is missing a resolution timestamp'')"
proof -
  have "dispute_id d = k" using assms(1) by (auto dest: find_row_SomeD)
  then show ?thesis
    using assms by (simp add: transitionStatus_def with_dispute_def validateStatusTransition_def Let_def escalate_def
        find_dispute_save escalation_guard_def validateTierTransition_def MAX_TIER_def)
qed

end
