(* ===== verification/Platform.thy ===== *)
theory Platform
  imports Settlement_Concurrency Prediction_Reports Dispute_Facts
begin

text \<open>
  The services put together: one world, and the requests of the market, prediction and dispute
  services and the ticks of the settlement scheduler in any order.  This theory shows what each
  service leaves alone in the tables of the others; the root theory states what follows.
\<close>

section \<open>Requests\<close>

datatype request =
    MarketRequest soroban_env instant market_cmd
  | PredictionRequest soroban_env bool instant prediction_cmd
  | DisputeRequest dispute_env instant dispute_cmd
  | SettlementTick "id \<Rightarrow> settle_env" instant
  | ManualRetry settle_env instant id

text \<open>\<open>None\<close> where a dispute request does not return.\<close>

primrec serve :: "request \<Rightarrow> retry_queue \<times> world \<Rightarrow> (retry_queue \<times> world) option" where
  "serve (MarketRequest env now cmd) s = Some (fst s, handle env now cmd (snd s))"
| "serve (PredictionRequest env lm now cmd) s = Some (fst s, handle_prediction env lm now cmd (snd s))"
| "serve (DisputeRequest env now cmd) s = map_option (\<lambda>w. (fst s, w)) (handle_dispute env now cmd (snd s))"
| "serve (SettlementTick env now) s = Some (handleSettlement env now s)"
| "serve (ManualRetry env now k) s = Some (snd (retrySettlement env now k s))"

fun serve_all :: "request list \<Rightarrow> retry_queue \<times> world \<Rightarrow> (retry_queue \<times> world) option" where
  "serve_all [] s = Some s"
| "serve_all (r # rs) s = Option.bind (serve r s) (serve_all rs)"

definition platform_ok :: "world \<Rightarrow> bool" where
  "platform_ok w \<longleftrightarrow> sched_inv False (w, []) \<and> books w \<and> disputes_ok w"

section \<open>What the market service leaves alone\<close>

definition others :: "world \<Rightarrow> user list \<times> prediction list \<times> dispute list \<times> dispute_vote list" where
  "others w = (users w, predictions w, disputes w, votes w)"

lemma others_simps [simp]:
  "others (emit e k w) = others w" "others (call_chain c w) = others w" "others (save_market m w) = others w"
  "others (store_market m w) = others w" "others (w\<lparr>chain_log := cl\<rparr>) = others w"
  "others (w\<lparr>settlement_attempts := sa\<rparr>) = others w" "others (w\<lparr>markets := ms\<rparr>) = others w"
  by (simp_all add: others_def emit_def call_chain_def save_market_def store_market_def invalidateMarketCaches_def)

lemma with_market_others:
  "(\<And>m. findByIdOrOnChainId k w = Some m \<Longrightarrow> others (snd (body m)) = others w) \<Longrightarrow> others (snd (with_market k w body)) = others w"
  by (simp add: with_market_def split: option.splits)

lemma insert_market_others: "insert_market m w = Some w' \<Longrightarrow> others w' = others w"
  by (auto simp: insert_market_def split: if_splits)

lemma bulk_insert_others: "bulk_insert env now rows u w = (r, w') \<Longrightarrow> others w' = others w"
proof (induction rows arbitrary: w r w')
  case (Cons row rows)
  obtain rnd k dto where row: "row = (rnd, k, dto)" by (cases row)
  show ?case
  proof (cases "createMarket_call env now rnd (dto_description dto)")
    case (Inl e)
    with Cons.prems row show ?thesis by simp
  next
    case (Inr p)
    let ?w1 = "call_chain (CreateMarket (fst p)) w"
    show ?thesis
    proof (cases "insert_market (new_market k (fst p) dto u) ?w1")
      case None
      with Cons.prems row Inr show ?thesis by (auto simp: Let_def split: prod.splits)
    next
      case (Some w2)
      obtain r2 w3 where rest: "bulk_insert env now rows u w2 = (r2, w3)" by fastforce
      with Cons.prems row Inr Some have "w' = w3" by (auto simp: Let_def split: prod.splits sum.splits)
      with Cons.IH [OF rest] insert_market_others [OF Some] show ?thesis by simp
    qed
  qed
qed simp

lemma handle_others: "others (handle env now cmd w) = others w"
proof (cases cmd)
  case (Create rnd k dto u)
  then show ?thesis
    by (auto simp: createMarket_def Let_def split: sum.splits option.splits dest: insert_market_others)
next
  case (Bulk rows u)
  then show ?thesis
    by (auto simp: createBulk_def split: prod.splits sum.splits dest: bulk_insert_others)
next
  case (CsvRow rnd k dto u)
  then show ?thesis
    by (auto simp: createMarketRowTransactional_def simp del: bulk_insert.simps split: prod.splits sum.splits
        dest: bulk_insert_others)
next
  case (Update k u dto)
  then show ?thesis
    by (simp add: update_def) (rule with_market_others, auto simp: Let_def split: option.splits)
next
  case (Resolve k oc)
  then show ?thesis
    by (simp add: resolveMarket_def) (rule with_market_others, auto simp: Let_def split: sum.splits)
next
  case (Propose k dto u)
  then show ?thesis
    by (simp add: proposeResolution_def) (rule with_market_others, auto simp: Let_def split: option.splits)
next
  case (Challenge k u)
  then show ?thesis
    by (simp add: challengeResolution_def) (rule with_market_others, auto simp: Let_def split: option.splits)
next
  case (AdjudicateChallenge k oc u)
  then show ?thesis
    by (simp add: resolveChallenge_def) (intro impI with_market_others, auto simp: Let_def split: sum.splits)
next
  case (Cancel k u)
  then show ?thesis
    by (simp add: cancelMarket_def) (rule with_market_others, auto simp: Let_def split: sum.splits option.splits)
next
  case (Pause k u)
  then show ?thesis
    by (simp add: pauseMarket_def) (rule with_market_others, auto simp: Let_def split: sum.splits)
next
  case (Resume k u)
  then show ?thesis
    by (simp add: resumeMarket_def) (rule with_market_others, auto simp: Let_def split: sum.splits)
qed

section \<open>What the prediction and dispute services leave of the markets\<close>

text \<open>A market without the two columns the prediction service counts in.\<close>

definition row_core :: "market \<Rightarrow> market" where
  "row_core m = m\<lparr>participant_count := 0, total_pool_stroops := 0\<rparr>"

text \<open>
  A quiet change: the markets differ at most in those two columns, and the contract was not asked
  to resolve anything.
\<close>

definition quiet :: "world \<Rightarrow> world \<Rightarrow> bool" where
  "quiet w w' \<longleftrightarrow> map row_core (markets w') = map row_core (markets w) \<and>
     (\<exists>cs. chain_log w' = chain_log w @ cs \<and> (\<forall>c. resolves c cs = 0))"

lemma quiet_refl [simp]: "quiet w w"
  by (simp add: quiet_def)

lemma quiet_trans [trans]: "quiet a b \<Longrightarrow> quiet b c \<Longrightarrow> quiet a c"
  unfolding quiet_def by fastforce

lemma quiet_frame: "markets w' = markets w \<Longrightarrow> chain_log w' = chain_log w \<Longrightarrow> quiet w w'"
  by (simp add: quiet_def)

lemma quiet_call: "(\<And>c. resolves c [call] = 0) \<Longrightarrow> quiet w (call_chain call w)"
  by (auto simp: quiet_def table_simps)

lemma row_core_sel:
  "mkt_id (row_core m) = mkt_id m" "on_chain_market_id (row_core m) = on_chain_market_id m"
  "row_ok s (row_core m) = row_ok s m" "call_budget (row_core m) = call_budget m" "market_ok (row_core m) = market_ok m"
  by (simp_all add: row_core_def row_ok_def call_budget_def market_ok_def has_outcome_def)

lemma map_row_core:
  assumes "map row_core ms' = map row_core ms" "\<And>m. f (row_core m) = f m"
  shows "map f ms' = map f ms"
proof -
  have "map f xs = map f (map row_core xs)" for xs using assms(2) by simp
  with assms(1) show ?thesis by metis
qed

lemma quiet_sched_inv:
  assumes "sched_inv s (w, [])" "quiet w w'"
  shows "sched_inv s (w', [])"
proof -
  from assms(2) obtain cs where core: "map row_core (markets w') = map row_core (markets w)"
    and log: "chain_log w' = chain_log w @ cs" "\<And>c. resolves c cs = 0" by (auto simp: quiet_def)
  note maps = map_row_core [OF core]
  have res: "resolves c (chain_log w') = resolves c (chain_log w)" for c by (simp add: log)
  have ids: "map mkt_id (markets w') = map mkt_id (markets w)"
    "map on_chain_market_id (markets w') = map on_chain_market_id (markets w)"
    by (rule maps, simp add: row_core_sel)+
  have rows: "(\<forall>m \<in> set (markets w'). P m) \<longleftrightarrow> (\<forall>m \<in> set (markets w). P m)" if "\<And>m. P (row_core m) = P m" for P
  proof -
    have "(\<forall>m \<in> A. P m) \<longleftrightarrow> False \<notin> P ` A" for A by (auto simp: image_iff)
    moreover have "P ` set (markets w') = P ` set (markets w)"
      using arg_cong [OF maps [of P, OF that], of set] by simp
    ultimately show ?thesis by metis
  qed
  have "known_calls w'" using assms(1) arg_cong [OF ids(2), of set]
    by (simp add: sched_inv_def known_calls_def res)
  moreover have "markets_ok (markets w')" using assms(1) rows [of market_ok] ids
    by (simp add: sched_inv_def markets_ok_def list_all_iff row_core_sel)
  moreover have "\<forall>m \<in> set (markets w'). row_ok s m \<and> within_budget w' [] m"
    using assms(1) rows [of "\<lambda>m. row_ok s m \<and> within_budget w' [] m"]
    by (simp add: sched_inv_def within_budget_def row_core_sel res)
  ultimately show ?thesis by (simp add: sched_inv_def)
qed

lemma resolves_other [simp]:
  "resolves c [SubmitPrediction a m oc s] = 0" "resolves c [ClaimPayout a m] = 0"
  "resolves c [RaiseDispute m r] = 0" "resolves c [ResolveDispute m d res] = 0"
  by (simp_all add: resolves_def)

lemma resolves_stake_calls: "stake_calls cs \<Longrightarrow> resolves c cs = 0"
  by (auto simp: stake_calls_def resolves_def filter_empty_conv)

text \<open>The prediction service is quiet on the markets and leaves disputes and votes alone.\<close>

definition betting :: "world \<Rightarrow> world \<Rightarrow> bool" where
  "betting w w' \<longleftrightarrow> quiet w w' \<and> disputes w' = disputes w \<and> votes w' = votes w"

lemma betting_refl [simp]: "betting w w"
  by (simp add: betting_def)

lemma betting_trans: "betting a b \<Longrightarrow> betting b c \<Longrightarrow> betting a c"
  unfolding betting_def using quiet_trans by auto

lemma betting_call: "(\<And>c. resolves c [call] = 0) \<Longrightarrow> betting w (call_chain call w)"
  by (simp add: betting_def quiet_call) (simp add: call_chain_def)

lemma betting_pieces:
  "betting w (count_stake_user k n s w)" "betting w (save_prediction p w)" "betting w (enter p w)"
proof -
  have "map row_core (update_row mkt_id k f ms) = map row_core ms" if "\<And>m. row_core (f m) = row_core m"
    for k ms and f :: "market \<Rightarrow> market"
    using that by (simp add: update_row_def)
  then show "betting w (enter p w)"
    by (simp add: betting_def quiet_def enter_def count_stake_market_def row_core_def)
qed (simp_all add: betting_def quiet_frame save_prediction_def count_stake_user_def)

section \<open>The prediction service\<close>

lemma persist_items_betting:
  "persist_items now newId u fp rs w = Some (saved, w') \<Longrightarrow> betting w w'"
proof (induction rs arbitrary: w saved)
  case (Cons x rs)
  obtain i item m res where x: "x = (i, item, m, res)" by (cases x)
  let ?p = "new_prediction (newId i) now u m (sub_chosen_outcome item) (the (bigint (sub_stake item))) (sub_key item) fp (res_tx_hash res)"
  from Cons.prems x obtain saved' where "persist_items now newId u fp rs (enter ?p w) = Some (saved', w')"
    using insert_then_count [of ?p w] by (auto simp: Let_def split: option.splits prod.splits)
  with Cons.IH betting_pieces(3) [of w ?p] show ?case by (blast intro: betting_trans)
qed simp

lemma submit_betting: "betting w (snd (submit env now k dto u fp w))"
proof -
  obtain r w' where s: "submit env now k dto u fp w = (r, w')" by fastforce
  from s have "betting w w'"
  proof (cases rule: submit_cases)
    case (entered m p n price shares w1)
    let ?c = "SubmitPrediction (stellar_address u) (on_chain_market_id m) (sub_chosen_outcome dto) (sub_stake dto)"
    have "betting w (call_chain ?c w)" by (rule betting_call) simp
    then have "betting w (enter p (call_chain ?c w))" using betting_pieces(3) betting_trans by blast
    then show ?thesis unfolding entered(15) using betting_pieces(1) betting_trans by blast
  next
    case (submitted_only e m)
    show ?thesis unfolding submitted_only(2) by (rule betting_call) simp
  qed simp_all
  with s show ?thesis by simp
qed

lemma submitBatch_betting: "betting w (snd (submitBatch env lm now newId dtos ao u fp w))"
proof -
  obtain r w' where s: "submitBatch env lm now newId dtos ao u fp w = (r, w')" by fastforce
  have log: "betting w (w\<lparr>chain_log := chain_log w @ cs\<rparr>)" if "stake_calls cs" for cs
    using that by (auto simp: betting_def quiet_def resolves_stake_calls)
  from s have "betting w w'"
  proof (cases rule: submitBatch_cases)
    case (refused e cs)
    with log show ?thesis by simp
  next
    case (persisted fs rs fs' w1 saved w2 predicted keys)
    from chain_phase_log [OF persisted(3)] log have "betting w w1" by blast
    then have "betting w w2" using persist_items_betting [OF persisted(4)] betting_trans by blast
    then show ?thesis unfolding persisted(6) using betting_pieces(1) betting_trans by (cases "rs = []") auto
  qed
  with s show ?thesis by simp
qed

lemma claim_betting: "betting w (snd (claim env now k u w))"
proof -
  obtain r w' where s: "claim env now k u w = (r, w')" by fastforce
  from s have "betting w w'"
  proof (cases rule: claim_payout_cases)
    case (paid p m q)
    have "betting w (call_chain (ClaimPayout (stellar_address u) (on_chain_market_id m)) w)" by (rule betting_call) simp
    then show ?thesis unfolding paid(10) using betting_pieces(2) betting_trans by blast
  qed simp
  with s show ?thesis by simp
qed

lemma handle_prediction_betting: "betting w (handle_prediction env lm now cmd w)"
proof (cases cmd)
  case (WriteNote k body u)
  then show ?thesis by (auto simp: updateNote_def Let_def betting_pieces split: option.splits)
next
  case (ClaimAll clock u)
  have "betting w (snd (claimAllRewards env clock u w))"
    by (rule claimAllRewards_invariant [of "betting w"]) (blast intro: claim_betting betting_trans, simp)
  with ClaimAll show ?thesis by simp
qed (simp_all add: submit_betting submitBatch_betting claim_betting)

section \<open>The dispute service\<close>

text \<open>It reads markets, users and predictions and writes none of them.\<close>

definition disputing :: "world \<Rightarrow> world \<Rightarrow> bool" where
  "disputing w w' \<longleftrightarrow> markets w' = markets w \<and> users w' = users w \<and> predictions w' = predictions w \<and>
     (\<exists>cs. chain_log w' = chain_log w @ cs \<and> (\<forall>c. resolves c cs = 0))"

lemma disputing_refl [simp]: "disputing w w"
  by (simp add: disputing_def)

lemma disputing_quiet: "disputing w w' \<Longrightarrow> quiet w w'"
  by (auto simp: disputing_def quiet_def)

lemma disputing_pieces [simp]:
  "disputing w (save_dispute d w)" "disputing w (w\<lparr>disputes := ds\<rparr>)" "disputing w (w\<lparr>votes := vs\<rparr>)"
  "disputing w (w\<lparr>evidence := es\<rparr>)" "disputing w (snd (insert_dispute d (save_dispute d' w)))"
  "disputing w (snd (insert_dispute d w))"
  by (simp_all add: disputing_def save_dispute_def insert_dispute_def)

lemma sla_each_disputing:
  "disputing w0 w \<Longrightarrow> disputing w0 (snd (snd (sla_each env now ds ((a, b, e), ns, w))))"
proof (induction ds arbitrary: a b e ns w)
  case (Cons d ds)
  have "disputing w0 (save_dispute d1 w)" for d1
    using Cons.prems by (simp add: disputing_def save_dispute_def)
  with Cons show ?case by (auto simp: Let_def split: prod.splits sla_outcome.splits)
qed simp

lemma castVote_disputing: "castVote now newId k oc u w = Some (r, w') \<Longrightarrow> disputing w w'"
  by (auto simp: castVote_def tryFinalizeByQuorum_def Let_def disputing_def save_dispute_def
      split: option.splits if_splits prod.splits)

lemma handle_dispute_disputing:
  assumes "handle_dispute env now cmd w = Some w'"
  shows "disputing w w'"
proof (cases cmd)
  case (Vote newId k oc u)
  with assms castVote_disputing show ?thesis by auto
next
  case SlaSweep
  with assms sla_each_disputing [OF disputing_refl] show ?thesis by (auto simp: runSlaCheck_def split: if_splits)
next
  case (RecordRaise k c why)
  with assms show ?thesis
    by (auto simp: recordDisputeOnChain_def Let_def disputing_def table_simps split: sum.splits prod.splits)
next
  case (RecordResolution k c res)
  with assms show ?thesis
    by (auto simp: recordResolutionOnChain_def Let_def disputing_def table_simps
        split: sum.splits prod.splits option.splits if_splits)
qed (use assms in \<open>auto simp: create_dispute_def resolve_dispute_def transitionStatus_def escalate_def attachEvidence_def
      assignArbiter_def with_dispute_def Let_def split: option.splits if_splits sum.splits\<close>)

section \<open>The books under market requests and settlements\<close>

definition ledger_row :: "market \<Rightarrow> id \<times> stroops \<times> int" where
  "ledger_row m = (mkt_id m, total_pool_stroops m, participant_count m)"

lemma books_cong:
  assumes "books w" "users w' = users w" "predictions w' = predictions w"
    and "map ledger_row (markets w') = map ledger_row (markets w)"
  shows "books w'"
proof -
  have ids: "map mkt_id (markets w') = map mkt_id (markets w)"
    using arg_cong [OF assms(4), of "map fst"] by (simp add: ledger_row_def comp_def)
  then have "rows_ok w'" using assms(1-3) rows_ok_cong [of w w'] by (simp add: books_def)
  moreover have "market_books w'" unfolding market_books_def assms(3)
  proof
    fix m assume "m \<in> set (markets w')"
    then have "ledger_row m \<in> ledger_row ` set (markets w)" using arg_cong [OF assms(4), of set] by auto
    then obtain m0 where "m0 \<in> set (markets w)" "ledger_row m = ledger_row m0" by auto
    with assms(1) show "total_pool_stroops m = stake_total (\<lambda>p. pred_market p = mkt_id m) (predictions w) \<and>
        participant_count m = row_count (\<lambda>p. pred_market p = mkt_id m) (predictions w)"
      by (simp add: books_def market_books_def ledger_row_def)
  qed
  ultimately show ?thesis using assms(1-3) by (simp add: books_def user_books_def)
qed

lemma map_save_row:
  assumes "m \<in> set ms" "unique_keys mkt_id ms" "mkt_id m' = mkt_id m" "f m' = f m"
  shows "map f (save_row mkt_id m' ms) = map f ms"
  using assms by (simp add: save_row_replaces)

text \<open>A freshly inserted market has no predictions: the foreign key excludes them.\<close>

lemma books_insert:
  assumes "books w" "list_all (fresh_market now) new" "markets w' = markets w @ new"
    and "unique_keys mkt_id (markets w')" "users w' = users w" "predictions w' = predictions w"
  shows "books w'"
proof -
  have none: "stake_total (\<lambda>p. pred_market p = mkt_id m) (predictions w) = 0 \<and>
      row_count (\<lambda>p. pred_market p = mkt_id m) (predictions w) = 0" if "m \<in> set new" for m
  proof -
    have "mkt_id m \<notin> mkt_id ` set (markets w)" using assms(3,4) that by auto
    moreover have "\<forall>p \<in> set (predictions w). pred_market p \<in> mkt_id ` set (markets w)"
      using assms(1) by (simp add: books_def rows_ok_def)
    ultimately have "filter (\<lambda>p. pred_market p = mkt_id m) (predictions w) = []"
      unfolding filter_empty_conv by metis
    then show ?thesis by (simp add: stake_total_def row_count_def)
  qed
  have "market_books w'"
    using assms(1,2) none by (auto simp: market_books_def books_def assms(3,6) list_all_iff fresh_market_def)
  moreover have "rows_ok w'" using assms by (auto simp: books_def rows_ok_def)
  ultimately show ?thesis using assms(1,5,6) by (simp add: books_def user_books_def)
qed

lemma handle_books:
  assumes "books w" shows "books (handle env now cmd w)"
proof -
  have frame: "users (handle env now cmd w) = users w" "predictions (handle env now cmd w) = predictions w"
    using handle_others [of env now cmd w] by (simp_all add: others_def)
  from handle_world_step [of now cmd w env] show ?thesis
  proof (cases rule: world_step.cases)
    case (unchanged cs)
    with assms frame show ?thesis by (intro books_cong [OF assms]) simp_all
  next
    case (inserted new)
    with assms frame show ?thesis by (intro books_insert [OF assms inserted(2,3)]) (auto simp: books_def rows_ok_def)
  next
    case (advanced k ev m m')
    from row_step_frame [OF advanced(3)] findByIdOrOnChainId_SomeD [OF advanced(2)] assms
    have "map ledger_row (markets (handle env now cmd w)) = map ledger_row (markets w)"
      unfolding advanced(4) by (intro map_save_row) (auto simp: ledger_row_def books_def rows_ok_def)
    with books_cong [OF assms frame] show ?thesis .
  qed
qed

text \<open>A step of the scheduler that is no request touches neither the ledger nor the other tables.\<close>

definition ledger :: "world \<Rightarrow> (user list \<times> prediction list \<times> dispute list \<times> dispute_vote list) \<times> (id \<times> stroops \<times> int) list" where
  "ledger w = (others w, map ledger_row (markets w))"

lemma ledger_simps [simp]:
  "ledger (emit e k w) = ledger w" "ledger (call_chain c w) = ledger w" "ledger (update_attempt k f w) = ledger w"
  "ledger (w\<lparr>settlement_attempts := sa\<rparr>) = ledger w"
  by (simp_all add: ledger_def others_def emit_def call_chain_def update_attempt_def)

lemma ledger_update_market:
  "(\<And>m. ledger_row (f m) = ledger_row m) \<Longrightarrow> ledger (update_market k f w) = ledger w"
  by (simp add: ledger_def update_market_def update_row_def)

lemma sched_step_ledger: "sched_step (\<lambda>_ _. False) s s' \<Longrightarrow> ledger (fst s') = ledger (fst s)"
proof (induction rule: sched_step.induct)
  case (claim k w m senv now oc a w' js)
  from claim(2) show ?case
    by (auto simp: claimMarketForSettlement_def Let_def ledger_update_market ledger_row_def split: if_splits option.splits)
next
  case (finalize j senv now w r w' js1 js2)
  from finalize(2) show ?case
    by (auto simp: finalizeSettlement_def Let_def ledger_update_market ledger_row_def split: if_splits)
qed (simp_all add: recordAttemptFailure_def emitDeadLetterAlert_def)

lemma sched_run_ledger: "(sched_step (\<lambda>_ _. False))\<^sup>*\<^sup>* s s' \<Longrightarrow> ledger (fst s') = ledger (fst s)"
  by (induction rule: rtranclp_induct) (auto simp: sched_step_ledger)

section \<open>Every request keeps the platform well-formed\<close>

lemma disputes_ok_cong: "disputes_ok w \<Longrightarrow> disputes w' = disputes w \<Longrightarrow> votes w' = votes w \<Longrightarrow> disputes_ok w'"
  by (simp add: disputes_ok_def)

lemma allow_any: "allow_for False = (\<lambda>_ _. True)"
  by (simp add: allow_for_def fun_eq_iff)

lemma market_request_ok:
  assumes "platform_ok w" shows "platform_ok (handle env now cmd w)"
proof -
  have "sched_step (allow_for False) (w, []) (handle env now cmd w, [])"
    by (rule sched_step.request) (simp add: allow_any)
  with assms have "sched_inv False (handle env now cmd w, [])" using sched_inv_step by (auto simp: platform_ok_def)
  with assms handle_others [of env now cmd w] handle_books [of w env now cmd] show ?thesis
    by (auto simp: platform_ok_def others_def intro: disputes_ok_cong)
qed

lemma prediction_request_ok: "platform_ok w \<Longrightarrow> platform_ok (handle_prediction env lm now cmd w)"
  using handle_prediction_betting [of w env lm now cmd] handle_prediction_books [of w env lm now cmd]
  by (auto simp: platform_ok_def betting_def intro: disputes_ok_cong quiet_sched_inv)

lemma dispute_request_ok:
  assumes "platform_ok w"
  shows "\<exists>w'. handle_dispute env now cmd w = Some w' \<and> platform_ok w'"
proof -
  from assms have "disputes_ok w" by (simp add: platform_ok_def)
  then obtain w' where w': "handle_dispute env now cmd w = Some w'" "disputes_ok w'" using handle_dispute_ok by blast
  from handle_dispute_disputing [OF w'(1)] have d: "disputing w w'" .
  have "books w'" using assms d by (auto simp: platform_ok_def disputing_def intro: books_cong)
  with w' quiet_sched_inv [OF _ disputing_quiet [OF d]] assms show ?thesis by (simp add: platform_ok_def)
qed

text \<open>A run of the scheduler's own steps, whatever tick or retry it belongs to.\<close>

lemma scheduler_run_ok:
  assumes "platform_ok w" "\<And>allow. (sched_step allow)\<^sup>*\<^sup>* (w, []) (w', [])"
  shows "platform_ok w'"
proof -
  have "sched_inv False (w', [])" using assms sched_inv_run [of False "(w, [])" "(w', [])"] by (simp add: platform_ok_def)
  moreover have same: "ledger w' = ledger w" using sched_run_ledger [OF assms(2)] by simp
  then have "books w'" using assms(1) by (auto simp: platform_ok_def ledger_def others_def intro: books_cong)
  moreover have "disputes_ok w'" using assms(1) same
    by (auto simp: platform_ok_def ledger_def others_def intro: disputes_ok_cong)
  ultimately show ?thesis by (simp add: platform_ok_def)
qed

lemma tick_ok:
  assumes "platform_ok w" shows "platform_ok (snd (handleSettlement env now (q, w)))"
proof (rule scheduler_run_ok [OF assms])
  have "unique_keys mkt_id (markets w)" using assms by (simp add: platform_ok_def sched_inv_def markets_ok_def)
  then show "(sched_step allow)\<^sup>*\<^sup>* (w, []) (snd (handleSettlement env now (q, w)), [])" for allow
    by (rule handleSettlement_run)
qed

lemma manual_retry_ok:
  assumes "platform_ok w" shows "platform_ok (snd (snd (retrySettlement env now k (q, w))))"
proof (cases "find_market k w")
  case None
  with assms show ?thesis by (simp add: retrySettlement_def)
next
  case (Some m)
  then have "chain_id (mkt_id m) w = Some (on_chain_market_id m)" by (auto simp: chain_id_def dest: find_row_SomeD)
  then have "platform_ok (snd (snd (settleMarket env now m (q, w))))"
    using scheduler_run_ok [OF assms] settleMarket_run by blast
  then have "platform_ok (snd (snd (settleMarketWithRetry env now m (q, w))))"
    by (simp add: settleMarketWithRetry_world)
  with Some assms show ?thesis
    by (auto simp: retrySettlement_def split: prod.splits sum.splits bool.splits)
qed

section \<open>The platform as a server\<close>

text \<open>
  A server answers a request or does not return; an invariant that every answered request keeps,
  together with the promise to answer in it, carries over to whole sessions.
\<close>

locale total_server =
  fixes answer :: "'r \<Rightarrow> 's \<Rightarrow> 's option" and answer_all :: "'r list \<Rightarrow> 's \<Rightarrow> 's option" and inv :: "'s \<Rightarrow> bool"
  assumes answer_inv: "inv s \<Longrightarrow> \<exists>s'. answer r s = Some s' \<and> inv s'"
    and answer_all_Nil: "answer_all [] s = Some s"
    and answer_all_Cons: "answer_all (r # rs) s = Option.bind (answer r s) (answer_all rs)"
begin

lemma session_inv: "inv s \<Longrightarrow> \<exists>s'. answer_all rs s = Some s' \<and> inv s'"
proof (induction rs arbitrary: s)
  case (Cons r rs)
  from answer_inv [OF Cons.prems] obtain s1 where "answer r s = Some s1" "inv s1" by blast
  with Cons.IH show ?case by (simp add: answer_all_Cons)
qed (simp add: answer_all_Nil)

end

interpretation platform: total_server serve serve_all "\<lambda>s. platform_ok (snd s)"
proof
  fix r and s :: "retry_queue \<times> world" assume ok: "platform_ok (snd s)"
  obtain q w where s: "s = (q, w)" by (cases s)
  show "\<exists>s'. serve r s = Some s' \<and> platform_ok (snd s')"
  proof (cases r)
    case (DisputeRequest env now cmd)
    with ok s dispute_request_ok [of w env now cmd] show ?thesis by auto
  next
    case (ManualRetry env now k)
    with ok s manual_retry_ok [of w env now k q] show ?thesis by simp
  qed (use ok s in \<open>simp_all add: market_request_ok prediction_request_ok tick_ok\<close>)
qed simp_all

text \<open>The state a deployment starts in: registered users without activity, and empty tables.\<close>

definition fresh_world :: "world \<Rightarrow> bool" where
  "fresh_world w \<longleftrightarrow> markets w = [] \<and> predictions w = [] \<and> disputes w = [] \<and> votes w = [] \<and> chain_log w = [] \<and>
     unique_keys user_id (users w) \<and>
     (\<forall>u \<in> set (users w). total_predictions u = 0 \<and> total_staked_stroops u = 0)"

lemma fresh_world_ok: "fresh_world w \<Longrightarrow> platform_ok w"
  by (simp add: fresh_world_def platform_ok_def sched_inv_init books_def rows_ok_def market_books_def user_books_def
      disputes_ok_def links_ok_def votes_ok_def)

end
