(* ===== verification/Retry.thy ===== *)
theory Retry
  imports Prelude
begin

text \<open>
  Retrying of RPC calls: the error classification \<open>isTransientSorobanError\<close> and the submission
  loop \<open>sendTransactionWithRetry\<close> of \<open>soroban/soroban.service.ts\<close>, and the generic helper
  \<open>withRetry\<close> of \<open>common/retry.util.ts\<close>.  What the network answers to the \<open>k\<close>-th attempt is a
  parameter; the log of the calls the loop makes is part of its result, so that statements can
  be about what was sent, not only about what was returned.
\<close>

section \<open>Classifying errors\<close>

record js_error =
  is_Error :: bool
  is_TypeError :: bool
  err_name :: string
  err_message :: string
  cause_code :: "string option"

fun is_prefix :: "string \<Rightarrow> string \<Rightarrow> bool" where
  "is_prefix [] s = True"
| "is_prefix (c # cs) [] = False"
| "is_prefix (c # cs) (d # ds) = (c = d \<and> is_prefix cs ds)"

fun contains :: "string \<Rightarrow> string \<Rightarrow> bool" where
  "contains pat [] = (pat = [])"
| "contains pat (c # cs) = (is_prefix pat (c # cs) \<or> contains pat cs)"

definition PERMANENT_ERROR_PATTERNS :: "string list" where
  "PERMANENT_ERROR_PATTERNS =
     [''EscrowEmpty'', ''InsufficientFunds'', ''Simulation failed'', ''txMalformed'',
      ''txBadAuth'', ''txInsufficientBalance'', ''txBadSeq'']"

definition TRANSIENT_CODES :: "string list" where
  "TRANSIENT_CODES =
     [''ECONNRESET'', ''ECONNREFUSED'', ''ETIMEDOUT'', ''ENOTFOUND'', ''EPIPE'',
      ''EHOSTUNREACH'', ''EAI_AGAIN'']"

definition ascii_digit :: "char \<Rightarrow> nat option" where
  "ascii_digit c =
     (let n = of_char c :: nat in if 48 \<le> n \<and> n \<le> 57 then Some (n - 48) else None)"

text \<open>\<open>/HTTP (\d{3})/.exec(message)\<close>: the status of the first match.\<close>

fun http_status :: "string \<Rightarrow> nat option" where
  "http_status [] = None"
| "http_status (c # cs) =
     (if is_prefix ''HTTP '' (c # cs) then
        (case map ascii_digit (take 3 (drop 5 (c # cs))) of
           [Some a, Some b, Some d] \<Rightarrow> Some (a * 100 + b * 10 + d)
         | _ \<Rightarrow> http_status cs)
      else http_status cs)"

definition isTransientSorobanError :: "js_error \<Rightarrow> bool" where
  "isTransientSorobanError e =
     (if \<not> is_Error e then False
      else if \<exists>p \<in> set PERMANENT_ERROR_PATTERNS. contains p (err_message e) then False
      else if is_TypeError e then True
      else if err_name e = ''AbortError'' then True
      else if (case cause_code e of Some k \<Rightarrow> k \<in> set TRANSIENT_CODES | None \<Rightarrow> False) then True
      else case http_status (err_message e) of
             Some st \<Rightarrow> st = 429 \<or> (st \<ge> 500 \<and> st \<le> 599)
           | None \<Rightarrow> contains ''Transaction submission failed'' (err_message e))"

section \<open>Submitting a transaction\<close>

text \<open>
  The answer to one \<open>sendTransaction\<close> call: a response whose status is \<open>'ERROR'\<close> with the
  serialised error result, any other response, or an exception.
\<close>

datatype send_answer = Status_ERROR string | Accepted | Threw js_error

datatype send_error =
    SorobanPermanentError string
  | Unclassified js_error
  | SorobanUnavailable

text \<open>The answer to the status look-up by transaction hash.\<close>

datatype lookup_answer = Lookup_NOT_FOUND | Lookup_FOUND | Lookup_failed

datatype send_event = Sent nat | LookedUp nat

definition findSubmittedTransaction :: "lookup_answer \<Rightarrow> bool" where
  "findSubmittedTransaction a =
     (case a of Lookup_NOT_FOUND \<Rightarrow> False | Lookup_FOUND \<Rightarrow> True | Lookup_failed \<Rightarrow> False)"

definition submission_failed :: "string \<Rightarrow> js_error" where
  "submission_failed result =
     \<lparr>is_Error = True, is_TypeError = False, err_name = ''Error'',
      err_message = ''Transaction submission failed: '' @ result, cause_code = None\<rparr>"

text \<open>
  The \<open>catch\<close> block: a definitive rejection and an unclassified failure are thrown at once
  (\<open>Inl\<close>); anything else is ambiguous.
\<close>

definition classify :: "send_answer \<Rightarrow> send_error option" where
  "classify a =
     (case a of
        Status_ERROR result \<Rightarrow>
          if isTransientSorobanError (submission_failed result) then None
          else Some (SorobanPermanentError (err_message (submission_failed result)))
      | Threw e \<Rightarrow> if isTransientSorobanError e then None else Some (Unclassified e)
      | Accepted \<Rightarrow> None)"

function sendTransactionWithRetry ::
  "(nat \<Rightarrow> send_answer) \<Rightarrow> (nat \<Rightarrow> lookup_answer) \<Rightarrow> nat \<Rightarrow> nat \<Rightarrow>
   (send_error, unit) result \<times> send_event list"
where
  "sendTransactionWithRetry send look maxAttempts attempt =
     (if attempt < maxAttempts then
        (case send attempt of
           Accepted \<Rightarrow> (Inr (), [Sent attempt])
         | a \<Rightarrow>
             (case classify a of
                Some e \<Rightarrow> (Inl e, [Sent attempt])
              | None \<Rightarrow>
                  if findSubmittedTransaction (look attempt)
                  then (Inr (), [Sent attempt, LookedUp attempt])
                  else if attempt = maxAttempts - 1
                  then (Inl SorobanUnavailable, [Sent attempt, LookedUp attempt])
                  else let (r, log) = sendTransactionWithRetry send look maxAttempts (Suc attempt)
                       in (r, Sent attempt # LookedUp attempt # log)))
      else (Inl SorobanUnavailable, []))"
  by pat_completeness auto
termination
  by (relation "measure (\<lambda>(_, _, maxAttempts, attempt). maxAttempts - attempt)") auto

declare sendTransactionWithRetry.simps [simp del]

text \<open>The loop as the service calls it, from attempt 0 with \<open>rpcMaxRetries + 1\<close> attempts.\<close>

definition send_with_retries ::
  "(nat \<Rightarrow> send_answer) \<Rightarrow> (nat \<Rightarrow> lookup_answer) \<Rightarrow> nat \<Rightarrow> (send_error, unit) result \<times> send_event list"
where
  "send_with_retries send look rpcMaxRetries = sendTransactionWithRetry send look (rpcMaxRetries + 1) 0"

definition ambiguous :: "send_answer \<Rightarrow> bool" where
  "ambiguous a \<longleftrightarrow> a \<noteq> Accepted \<and> classify a = None"

text \<open>
  The discipline of a log: attempt \<open>k\<close> is sent, and it is followed by attempt \<open>k + 1\<close> only when its
  answer was ambiguous and the look-up by hash did not find the transaction.
\<close>

fun disciplined :: "(nat \<Rightarrow> send_answer) \<Rightarrow> (nat \<Rightarrow> lookup_answer) \<Rightarrow> nat \<Rightarrow> send_event list \<Rightarrow> bool" where
  "disciplined send look k [] = True"
| "disciplined send look k [Sent i] = (i = k \<and> \<not> ambiguous (send k))"
| "disciplined send look k (Sent i # LookedUp j # log) =
     (i = k \<and> j = k \<and> ambiguous (send k) \<and>
      (log = [] \<or> \<not> findSubmittedTransaction (look k)) \<and> disciplined send look (Suc k) log)"
| "disciplined send look k log = False"

definition sends :: "send_event list \<Rightarrow> nat list" where
  "sends log = map (\<lambda>e. case e of Sent i \<Rightarrow> i | LookedUp i \<Rightarrow> i)
                 (filter (\<lambda>e. case e of Sent i \<Rightarrow> True | LookedUp i \<Rightarrow> False) log)"

lemma sends_simps [simp]:
  "sends [] = []" "sends (Sent i # log) = i # sends log" "sends (LookedUp i # log) = sends log"
  by (simp_all add: sends_def)

lemma send_log_disciplined:
  "disciplined send look attempt (snd (sendTransactionWithRetry send look maxAttempts attempt))"
proof (induction send look maxAttempts attempt rule: sendTransactionWithRetry.induct)
  case (1 send look maxAttempts attempt)
  show ?case
    by (subst sendTransactionWithRetry.simps)
       (use 1 in \<open>auto simp: ambiguous_def Let_def split: send_answer.splits option.splits prod.splits\<close>)
qed

lemma sends_log:
  "\<exists>n. sends (snd (sendTransactionWithRetry send look maxAttempts attempt)) = [attempt..<attempt + n] \<and>
       n \<le> maxAttempts - attempt"
proof (induction send look maxAttempts attempt rule: sendTransactionWithRetry.induct)
  case (1 send look maxAttempts attempt)
  let ?rest = "sendTransactionWithRetry send look maxAttempts (Suc attempt)"
  show ?case
  proof (cases "attempt < maxAttempts \<and> ambiguous (send attempt) \<and>
      \<not> findSubmittedTransaction (look attempt) \<and> attempt \<noteq> maxAttempts - 1")
    case True
    then have "\<exists>n. sends (snd ?rest) = [Suc attempt..<Suc attempt + n] \<and> n \<le> maxAttempts - Suc attempt"
      using 1 by (cases "send attempt") (auto simp: ambiguous_def)
    then obtain n where n: "sends (snd ?rest) = [Suc attempt..<Suc attempt + n]"
      and le: "n \<le> maxAttempts - Suc attempt" by blast
    have "snd (sendTransactionWithRetry send look maxAttempts attempt) =
        Sent attempt # LookedUp attempt # snd ?rest"
      using True by (subst sendTransactionWithRetry.simps)
        (auto simp: ambiguous_def Let_def split: send_answer.splits prod.splits)
    with n have "sends (snd (sendTransactionWithRetry send look maxAttempts attempt)) =
        [attempt..<attempt + Suc n]"
      by (simp add: upt_conv_Cons)
    with le True show ?thesis by (intro exI [of _ "Suc n"]) auto
  next
    case False
    then have "sends (snd (sendTransactionWithRetry send look maxAttempts attempt)) \<in> {[], [attempt]}"
      by (subst sendTransactionWithRetry.simps)
         (auto simp: ambiguous_def Let_def split: send_answer.splits option.splits)
    moreover have "\<not> attempt < maxAttempts \<Longrightarrow>
        sends (snd (sendTransactionWithRetry send look maxAttempts attempt)) = []"
      by (simp add: sendTransactionWithRetry.simps)
    ultimately show ?thesis
      by (cases "attempt < maxAttempts") (auto intro: exI [of _ 0] exI [of _ 1])
  qed
qed

text \<open>
  C14. A transaction is submitted at most \<open>rpcMaxRetries + 1\<close> times, and it is submitted again
  only when the previous answer was ambiguous and a look-up by its hash did not find it on the
  network: a definitive rejection, an unclassified failure or a successful look-up ends the loop.
\<close>

theorem send_never_resends_blindly:
  "disciplined send look 0 (snd (send_with_retries send look rpcMaxRetries)) \<and>
   length (sends (snd (send_with_retries send look rpcMaxRetries))) \<le> rpcMaxRetries + 1"
proof -
  obtain n where "sends (snd (send_with_retries send look rpcMaxRetries)) = [0..<0 + n]"
    "n \<le> rpcMaxRetries + 1"
    using sends_log [of send look "rpcMaxRetries + 1" 0] by (auto simp: send_with_retries_def)
  then show ?thesis
    by (simp add: send_with_retries_def send_log_disciplined)
qed

text \<open>
  Termination with an answer: if attempt \<open>k \<le> rpcMaxRetries\<close> is accepted, or its look-up finds
  the transaction after an ambiguous answer, and every earlier attempt was ambiguous and not
  found, then the submission succeeds.
\<close>

theorem send_succeeds_within_budget:
  assumes "k \<le> rpcMaxRetries"
    and "\<forall>i < k. ambiguous (send i) \<and> \<not> findSubmittedTransaction (look i)"
    and "send k = Accepted \<or> (ambiguous (send k) \<and> findSubmittedTransaction (look k))"
  shows "fst (send_with_retries send look rpcMaxRetries) = Inr ()"
proof -
  have "j \<le> k \<Longrightarrow> fst (sendTransactionWithRetry send look (rpcMaxRetries + 1) (k - j)) = Inr ()" for j
  proof (induction j)
    case 0
    show ?case
      using assms(1,3) by (subst sendTransactionWithRetry.simps)
        (auto simp: ambiguous_def split: send_answer.splits)
  next
    case (Suc j)
    let ?i = "k - Suc j"
    have i: "?i < k" "Suc ?i = k - j" "?i < rpcMaxRetries" using Suc.prems assms(1) by auto
    have IH: "fst (sendTransactionWithRetry send look (rpcMaxRetries + 1) (Suc ?i)) = Inr ()"
      using Suc by (simp add: i(2))
    have "ambiguous (send ?i)" "\<not> findSubmittedTransaction (look ?i)" using assms(2) i(1) by auto
    then show ?case
      using IH i(3)
      by (subst sendTransactionWithRetry.simps)
         (auto simp: ambiguous_def Let_def split: send_answer.splits prod.splits)
  qed
  from this [of k] show ?thesis by (simp add: send_with_retries_def)
qed

theorem send_succeeds_within_budget_witness:
  "fst (send_with_retries (\<lambda>i. if i = 0 then Status_ERROR ''txTooLate'' else Accepted)
     (\<lambda>_. Lookup_NOT_FOUND) 2) = Inr ()"
proof -
  have "ambiguous (Status_ERROR ''txTooLate'')"
    by code_simp
  then show ?thesis
    by (intro send_succeeds_within_budget [of 1])
       (auto simp: findSubmittedTransaction_def)
qed

section \<open>The generic retry helper\<close>

text \<open>
  \<open>withRetry\<close>: \<open>fn\<close> is the answer of the \<open>k\<close>-th call.  With a budget of zero attempts the loop
  body never runs and \<open>lastError\<close>, still \<open>undefined\<close>, is thrown: \<open>Inl None\<close>.  The second
  component counts the calls of \<open>fn\<close>.
\<close>

function withRetry ::
  "(nat \<Rightarrow> 'e + 'a) \<Rightarrow> ('e \<Rightarrow> bool) \<Rightarrow> nat \<Rightarrow> nat \<Rightarrow> ('e option + 'a) \<times> nat"
where
  "withRetry fn isTransient maxAttempts attempt =
     (if attempt < maxAttempts then
        (case fn attempt of
           Inr a \<Rightarrow> (Inr a, 1)
         | Inl e \<Rightarrow>
             if attempt = maxAttempts - 1 \<or> \<not> isTransient e then (Inl (Some e), 1)
             else let (r, n) = withRetry fn isTransient maxAttempts (Suc attempt) in (r, Suc n))
      else (Inl None, 0))"
  by pat_completeness auto
termination
  by (relation "measure (\<lambda>(_, _, maxAttempts, attempt). maxAttempts - attempt)") auto

declare withRetry.simps [simp del]

text \<open>The abstract promise: the first answer that is a success or a permanent error decides.\<close>

definition decisive :: "('e \<Rightarrow> bool) \<Rightarrow> 'e + 'a \<Rightarrow> bool" where
  "decisive isTransient x \<longleftrightarrow> (case x of Inl e \<Rightarrow> \<not> isTransient e | Inr _ \<Rightarrow> True)"

fun first_decisive :: "('e \<Rightarrow> bool) \<Rightarrow> ('e + 'a) list \<Rightarrow> 'e option + 'a" where
  "first_decisive P [] = Inl None"
| "first_decisive P [x] = map_sum Some id x"
| "first_decisive P (x # y # xs) =
     (if decisive P x then map_sum Some id x else first_decisive P (y # xs))"

text \<open>
  \<open>withRetry\<close> returns what its specification says: the outcome of the first call that
  succeeds or fails permanently among the first \<open>maxAttempts\<close> calls, else the last error; and it
  never calls the function more often than its budget.
\<close>

theorem withRetry_refines:
  "fst (withRetry fn P maxAttempts attempt) = first_decisive P (map fn [attempt..<maxAttempts]) \<and>
   snd (withRetry fn P maxAttempts attempt) \<le> maxAttempts - attempt"
proof (induction fn P maxAttempts attempt rule: withRetry.induct)
  case (1 fn P maxAttempts attempt)
  consider "\<not> attempt < maxAttempts" | "Suc attempt = maxAttempts"
    | "Suc attempt < maxAttempts" by linarith
  then show ?case
  proof cases
    case 1
    then show ?thesis by (simp add: withRetry.simps)
  next
    case 2
    then have "[attempt..<maxAttempts] = [attempt]" by auto
    then show ?thesis using 2
      by (subst (1 2) withRetry.simps) (auto split: sum.splits)
  next
    case 3
    then have upt: "[attempt..<maxAttempts] = attempt # Suc attempt # [Suc (Suc attempt)..<maxAttempts]"
      by (metis Suc_lessD upt_conv_Cons)
    have upt': "[Suc attempt..<maxAttempts] = Suc attempt # [Suc (Suc attempt)..<maxAttempts]"
      using 3 by (simp add: upt_conv_Cons)
    show ?thesis
    proof (cases "decisive P (fn attempt)")
      case True
      then show ?thesis using 3
        by (subst (1 2) withRetry.simps) (auto simp: upt decisive_def split: sum.splits)
    next
      case False
      then obtain e where e: "fn attempt = Inl e" "P e"
        by (auto simp: decisive_def split: sum.splits)
      with 3 1 upt' have IH: "fst (withRetry fn P maxAttempts (Suc attempt)) =
          first_decisive P (fn (Suc attempt) # map fn [Suc (Suc attempt)..<maxAttempts])"
        "snd (withRetry fn P maxAttempts (Suc attempt)) \<le> maxAttempts - Suc attempt"
        by auto
      then show ?thesis using 3 e False
        by (subst (1 2) withRetry.simps) (auto simp: upt Let_def split: prod.splits)
    qed
  qed
qed

end
