(* ===== verification/Idempotency.thy ===== *)
theory Idempotency
  imports Soroban
begin

text \<open>
  Idempotency keys: \<open>common/idempotency/idempotency.service.ts\<close>, the two interceptors beside it and the
  global one of \<open>common/interceptors/idempotency.interceptor.ts\<close>.

  The service is modelled on the rows of its table; an interceptor is its decision before the
  handler runs, and the write-back after it.  The handler runs between the two while other requests
  arrive, and the write-back is not awaited, so requests interleave: the step relation below has
  one step per arrival, handler outcome, write-back, crash and clean-up.  SHA-256 and the test of
  the database's \<open>uuid\<close> type are parameters; the body of a request is the text \<open>JSON.stringify\<close>
  makes of it.
\<close>

section \<open>The service\<close>

record idem_key =
  ik_id :: id
  ik_key :: string
  ik_userId :: string
  request_hash :: string
  status_code :: "int option"
  response_body :: "string option"
  in_progress :: bool
  ik_created_at :: instant

record idem_env =
  ttlMs :: rat
  uuid_column :: "string \<Rightarrow> bool"
  sha256 :: "string \<Rightarrow> string"

definition DEFAULT_TTL_HOURS :: rat where "DEFAULT_TTL_HOURS = 24"

definition readNumberConfig :: "config_value \<Rightarrow> rat \<Rightarrow> rat" where
  "readNumberConfig raw fallback =
     (case raw of Finite parsed \<Rightarrow> if parsed > 0 then parsed else fallback | _ \<Rightarrow> fallback)"

definition ttl_of_config :: "config_value \<Rightarrow> rat" where
  "ttl_of_config raw = readNumberConfig raw DEFAULT_TTL_HOURS * 60 * 60 * 1000"

definition expired_at :: "idem_env \<Rightarrow> instant \<Rightarrow> instant \<Rightarrow> bool" where
  "expired_at env now created \<longleftrightarrow> of_int (now - created) > ttlMs env"

definition isExpired :: "idem_env \<Rightarrow> instant \<Rightarrow> idem_key \<Rightarrow> bool" where
  "isExpired env now r = expired_at env now (ik_created_at r)"

definition scope_of :: "idem_key \<Rightarrow> string \<times> string" where
  "scope_of r = (ik_key r, ik_userId r)"

text \<open>
  A key longer than the column or a user id that is no \<open>uuid\<close> is refused by the database before the
  unique index is looked at; that error, like a clash of primary keys, is rethrown.
\<close>

function acquire ::
  "idem_env \<Rightarrow> instant \<Rightarrow> id \<Rightarrow> string \<Rightarrow> string \<Rightarrow> string \<Rightarrow> (idem_key list, exn, bool \<times> idem_key) action"
where
  "acquire env now newId key userId hash rows =
     (if length key > 255 \<or> \<not> uuid_column env userId then (Inl QueryFailed, rows)
      else case find_row scope_of (key, userId) rows of
             None \<Rightarrow>
               if newId \<in> ik_id ` set rows then (Inl QueryFailed, rows)
               else let r = \<lparr>ik_id = newId, ik_key = key, ik_userId = userId, request_hash = hash,
                             status_code = None, response_body = None, in_progress = True, ik_created_at = now\<rparr>
                    in (Inr (True, r), rows @ [r])
           | Some existing \<Rightarrow>
               if isExpired env now existing
               then acquire env now newId key userId hash (filter (\<lambda>r. ik_id r \<noteq> ik_id existing) rows)
               else (Inr (False, existing), rows))"
  by pat_completeness auto
termination
  by (relation "measure (\<lambda>(_, _, _, _, _, _, rows). length rows)")
     (auto dest!: find_row_SomeD intro!: length_filter_less)

declare acquire.simps [simp del]

definition complete :: "id \<Rightarrow> int \<Rightarrow> string option \<Rightarrow> idem_key list \<Rightarrow> idem_key list" where
  "complete k statusCode responseBody rows =
     update_row ik_id k (\<lambda>r. r\<lparr>status_code := Some statusCode, response_body := responseBody, in_progress := False\<rparr>) rows"

definition release :: "id \<Rightarrow> idem_key list \<Rightarrow> idem_key list" where
  "release k rows = filter (\<lambda>r. ik_id r \<noteq> k) rows"

text \<open>The cut-off date is truncated to whole milliseconds.\<close>

definition cleanupExpiredKeys :: "idem_env \<Rightarrow> instant \<Rightarrow> idem_key list \<Rightarrow> idem_key list" where
  "cleanupExpiredKeys env now rows = filter (\<lambda>r. \<not> ik_created_at r < \<lfloor>of_int now - ttlMs env\<rfloor>) rows"

section \<open>The interceptors\<close>

record idem_request =
  http_method :: string
  originalUrl :: string
  route_path :: "string option"
  body_json :: string
  key_header :: "string option"
  request_user :: "string option"

datatype interceptor = Required | Optional | Global

datatype decision =
    PassThrough
  | Refuse exn
  | Replay "int option" "string option" bool
  | Execute id

definition MUTATING_METHODS :: "string set" where
  "MUTATING_METHODS = {''POST'', ''PUT'', ''PATCH'', ''DELETE''}"

definition buildStoredKey :: "string \<Rightarrow> string \<Rightarrow> string \<Rightarrow> string" where
  "buildStoredKey meth routePattern clientKey = meth @ '':'' @ routePattern @ '':'' @ clientKey"

definition requestHash :: "idem_env \<Rightarrow> idem_request \<Rightarrow> string" where
  "requestHash env req = sha256 env (http_method req @ '':'' @ originalUrl req @ '':'' @ body_json req)"

definition is_hex :: "char \<Rightarrow> bool" where
  "is_hex c \<longleftrightarrow> c \<in> set ''0123456789abcdefABCDEF''"

text \<open>\<open>UUID_REGEX\<close>: five groups of hexadecimal digits, version 1 to 5, variant 8, 9, a or b, in either case.\<close>

definition is_uuid :: "string \<Rightarrow> bool" where
  "is_uuid s \<longleftrightarrow> length s = 36 \<and>
     (\<forall>i < 36. if i \<in> {8, 13, 18, 23} then s ! i = CHR ''-'' else is_hex (s ! i)) \<and>
     s ! 14 \<in> set ''12345'' \<and> s ! 19 \<in> set ''89abAB''"

text \<open>What an interceptor checks before it claims a key, and the scope it claims it under.\<close>

fun precheck :: "interceptor \<Rightarrow> idem_request \<Rightarrow> decision option" where
  "precheck Required req =
     (if \<not> truthy (key_header req) then Some (Refuse (BadRequest ''idempotency-key header is required for this request''))
      else if request_user req = None then Some (Refuse TypeError) else None)"
| "precheck Optional req =
     (if \<not> truthy (key_header req) then Some PassThrough
      else if \<not> is_uuid (the (key_header req))
      then Some (Refuse (UnprocessableEntity ''idempotency-key must be a valid UUID'')) else None)"
| "precheck Global req =
     (if http_method req \<notin> MUTATING_METHODS then Some PassThrough
      else if \<not> truthy (key_header req) then Some PassThrough else None)"

fun claim_scope :: "interceptor \<Rightarrow> idem_request \<Rightarrow> string \<times> string" where
  "claim_scope Required req = (the (key_header req), the (request_user req))"
| "claim_scope Optional req =
     (the (key_header req), case request_user req of Some u \<Rightarrow> u | None \<Rightarrow> ''anonymous'')"
| "claim_scope Global req =
     (buildStoredKey (http_method req) (case route_path req of Some p \<Rightarrow> p | None \<Rightarrow> originalUrl req) (the (key_header req)),
      case request_user req of Some u \<Rightarrow> u | None \<Rightarrow> ''anonymous'')"

fun mismatch_exn :: "interceptor \<Rightarrow> exn" where
  "mismatch_exn Required = Conflict ''Idempotency-Key was already used with a different request body''"
| "mismatch_exn Optional = UnprocessableEntity ''Idempotency-Key was already used with a different request body''"
| "mismatch_exn Global = UnprocessableEntity ''Idempotency-Key was already used with a different request body or URL''"

fun replay :: "interceptor \<Rightarrow> idem_key \<Rightarrow> decision" where
  "replay Required r = Replay None (response_body r) False"
| "replay Optional r = Replay (Some (case status_code r of Some c \<Rightarrow> c | None \<Rightarrow> 200)) (response_body r) True"
| "replay Global r = Replay (status_code r) (response_body r) True"

definition intercept ::
  "interceptor \<Rightarrow> idem_env \<Rightarrow> instant \<Rightarrow> id \<Rightarrow> idem_request \<Rightarrow> idem_key list \<Rightarrow> decision \<times> idem_key list"
where
  "intercept kind env now newId req rows =
     (case precheck kind req of
        Some d \<Rightarrow> (d, rows)
      | None \<Rightarrow>
          (case acquire env now newId (fst (claim_scope kind req)) (snd (claim_scope kind req)) (requestHash env req) rows of
             (Inl e, rows') \<Rightarrow> (Refuse e, rows')
           | (Inr (acquired, r), rows') \<Rightarrow>
               (if acquired then Execute (ik_id r)
                else if request_hash r \<noteq> requestHash env req then Refuse (mismatch_exn kind)
                else if in_progress r
                then Refuse (Conflict ''A request with this Idempotency-Key is already in progress'')
                else replay kind r, rows')))"

section \<open>Requests in flight\<close>

datatype phase = Running | Succeeded int "string option" | FailedHandler

record execution =
  ex_id :: id
  ex_kind :: interceptor
  ex_request :: idem_request
  ex_started :: instant
  ex_phase :: phase

record idem_state =
  clock :: instant
  keys :: "idem_key list"
  executions :: "execution list"

text \<open>
  The purge inside \<open>acquire\<close> deletes by primary key and the insert is guarded by the unique index,
  so an arrival is one step.  A generated key is new.
\<close>

inductive idem_step :: "idem_env \<Rightarrow> idem_state \<Rightarrow> idem_state \<Rightarrow> bool" for env where
  tick: "clock s \<le> t \<Longrightarrow> idem_step env s (s\<lparr>clock := t\<rparr>)"
| answer: "intercept kind env (clock s) newId req (keys s) = (d, ks) \<Longrightarrow> \<forall>k. d \<noteq> Execute k \<Longrightarrow>
    idem_step env s (s\<lparr>keys := ks\<rparr>)"
| execute: "intercept kind env (clock s) newId req (keys s) = (Execute k, ks) \<Longrightarrow>
    newId \<notin> ex_id ` set (executions s) \<Longrightarrow>
    idem_step env s (s\<lparr>keys := ks, executions :=
      \<lparr>ex_id = k, ex_kind = kind, ex_request = req, ex_started = clock s, ex_phase = Running\<rparr> # executions s\<rparr>)"
| handled: "executions s = es1 @ e # es2 \<Longrightarrow> ex_phase e = Running \<Longrightarrow>
    idem_step env s (s\<lparr>executions := es1 @ e\<lparr>ex_phase := ph\<rparr> # es2\<rparr>)"
| write_back: "executions s = es1 @ e # es2 \<Longrightarrow> ex_phase e = Succeeded st body \<Longrightarrow>
    idem_step env s (s\<lparr>keys := complete (ex_id e) st body (keys s), executions := es1 @ es2\<rparr>)"
| free: "executions s = es1 @ e # es2 \<Longrightarrow> ex_phase e = FailedHandler \<Longrightarrow>
    idem_step env s (s\<lparr>keys := release (ex_id e) (keys s), executions := es1 @ es2\<rparr>)"
| crash: "executions s = es1 @ e # es2 \<Longrightarrow> idem_step env s (s\<lparr>executions := es1 @ es2\<rparr>)"
| sweep: "idem_step env s (s\<lparr>keys := cleanupExpiredKeys env (clock s) (keys s)\<rparr>)"

section \<open>What acquiring does to the table\<close>

definition columns_ok :: "idem_env \<Rightarrow> string \<times> string \<Rightarrow> bool" where
  "columns_ok env sc \<longleftrightarrow> length (fst sc) \<le> 255 \<and> uuid_column env (snd sc)"

definition new_key :: "id \<Rightarrow> string \<times> string \<Rightarrow> string \<Rightarrow> instant \<Rightarrow> idem_key" where
  "new_key k sc hash now = \<lparr>ik_id = k, ik_key = fst sc, ik_userId = snd sc, request_hash = hash,
     status_code = None, response_body = None, in_progress = True, ik_created_at = now\<rparr>"

lemma scope_new_key [simp]: "scope_of (new_key k sc h now) = sc"
  by (simp add: new_key_def scope_of_def)

lemma new_key_sel [simp]:
  "ik_id (new_key k sc h now) = k" "ik_created_at (new_key k sc h now) = now" "in_progress (new_key k sc h now)"
  "request_hash (new_key k sc h now) = h"
  by (simp_all add: new_key_def)

text \<open>What is left of a table after only expired rows were deleted.\<close>

definition purged :: "idem_env \<Rightarrow> instant \<Rightarrow> idem_key list \<Rightarrow> idem_key list \<Rightarrow> bool" where
  "purged env now rows base \<longleftrightarrow> (\<exists>P. base = filter P rows \<and> (\<forall>x \<in> set rows. \<not> P x \<longrightarrow> isExpired env now x))"

lemma purged_refl [simp]: "purged env now rows rows"
  unfolding purged_def by (rule exI [of _ "\<lambda>_. True"]) simp

lemma purged_filter:
  assumes "\<And>x. x \<in> set rows \<Longrightarrow> \<not> P x \<Longrightarrow> isExpired env now x" "purged env now (filter P rows) base"
  shows "purged env now rows base"
proof -
  from assms(2) obtain Q where "base = filter Q (filter P rows)" "\<forall>x \<in> set (filter P rows). \<not> Q x \<longrightarrow> isExpired env now x"
    by (auto simp: purged_def)
  then show ?thesis using assms(1) by (auto simp: purged_def filter_filter intro!: exI [of _ "\<lambda>x. P x \<and> Q x"])
qed

lemma purgedD:
  assumes "purged env now rows base"
  shows "set base \<subseteq> set rows" "x \<in> set rows \<Longrightarrow> \<not> isExpired env now x \<Longrightarrow> x \<in> set base"
    "unique_keys f rows \<Longrightarrow> unique_keys f base"
  using assms by (auto simp: purged_def distinct_map_filter)

lemma acquire_shape:
  assumes "unique_keys ik_id rows"
  shows "\<exists>base. purged env now rows base \<and>
     (acquire env now newId key userId hash rows = (Inl QueryFailed, base) \<or>
      (\<exists>x. find_row scope_of (key, userId) base = Some x \<and> \<not> isExpired env now x \<and>
         acquire env now newId key userId hash rows = (Inr (False, x), base)) \<or>
      newId \<notin> ik_id ` set base \<and> (key, userId) \<notin> scope_of ` set base \<and> columns_ok env (key, userId) \<and>
         acquire env now newId key userId hash rows =
           (Inr (True, new_key newId (key, userId) hash now), base @ [new_key newId (key, userId) hash now]))"
  using assms
proof (induction env now newId key userId hash rows rule: acquire.induct)
  case (1 env now newId key userId hash rows)
  show ?case
  proof (cases "length key > 255 \<or> \<not> uuid_column env userId")
    case True
    then have "acquire env now newId key userId hash rows = (Inl QueryFailed, rows)" by (simp add: acquire.simps)
    then show ?thesis using purged_refl by blast
  next
    case ok: False
    show ?thesis
    proof (cases "find_row scope_of (key, userId) rows")
      case None
      then have "acquire env now newId key userId hash rows = (if newId \<in> ik_id ` set rows then (Inl QueryFailed, rows)
          else (Inr (True, new_key newId (key, userId) hash now), rows @ [new_key newId (key, userId) hash now]))"
        using ok by (simp add: acquire.simps new_key_def Let_def)
      with None show ?thesis
        by (cases "newId \<in> ik_id ` set rows") (use ok in \<open>auto simp: find_row_None_iff columns_ok_def intro!: exI [of _ rows]\<close>)
    next
      case (Some x)
      show ?thesis
      proof (cases "isExpired env now x")
        case False
        with ok Some have "acquire env now newId key userId hash rows = (Inr (False, x), rows)" by (simp add: acquire.simps)
        with False Some purged_refl show ?thesis by blast
      next
        case True
        let ?rows = "filter (\<lambda>r. ik_id r \<noteq> ik_id x) rows"
        have x: "x \<in> set rows" using Some find_row_SomeD by fastforce
        have uniq: "unique_keys ik_id ?rows" using 1(2) by (rule distinct_map_filter)
        have gone: "y = x" if "y \<in> set rows" "ik_id y = ik_id x" for y
          using that x 1(2) by (auto simp: distinct_map dest: inj_onD)
        have step: "acquire env now newId key userId hash rows = acquire env now newId key userId hash ?rows"
          using ok Some True by (simp add: acquire.simps [of _ _ _ _ _ _ rows])
        have lift: "purged env now ?rows base \<Longrightarrow> purged env now rows base" for base
          by (rule purged_filter [of rows "\<lambda>r. ik_id r \<noteq> ik_id x"]) (use gone True in auto)
        from 1(1) [OF ok Some True uniq] lift show ?thesis unfolding step by blast
      qed
    qed
  qed
qed

lemma intercept_cases:
  assumes "unique_keys ik_id rows" "intercept kind env now newId req rows = (d, rows')"
  obtains (answered) "\<forall>k. d \<noteq> Execute k" "purged env now rows rows'"
  | (executed) base where "d = Execute newId" "precheck kind req = None" "purged env now rows base"
      "newId \<notin> ik_id ` set base" "claim_scope kind req \<notin> scope_of ` set base" "columns_ok env (claim_scope kind req)"
      "rows' = base @ [new_key newId (claim_scope kind req) (requestHash env req) now]"
proof (cases "precheck kind req")
  case (Some p)
  moreover have "\<forall>k. p \<noteq> Execute k" using Some by (cases kind) (auto split: if_splits)
  ultimately show thesis using assms(2) answered by (simp add: intercept_def)
next
  case None
  let ?a = "acquire env now newId (fst (claim_scope kind req)) (snd (claim_scope kind req)) (requestHash env req) rows"
  from None assms(2) have ic: "(d, rows') = (case ?a of (Inl e, ks) \<Rightarrow> (Refuse e, ks)
      | (Inr (acquired, r), ks) \<Rightarrow> (if acquired then Execute (ik_id r)
          else if request_hash r \<noteq> requestHash env req then Refuse (mismatch_exn kind)
          else if in_progress r then Refuse (Conflict ''A request with this Idempotency-Key is already in progress'')
          else replay kind r, ks))"
    by (simp add: intercept_def)
  have rep: "replay kind r \<noteq> Execute k" for r k by (cases kind) auto
  from acquire_shape [OF assms(1), of env now newId "fst (claim_scope kind req)" "snd (claim_scope kind req)" "requestHash env req"]
  obtain base where base: "purged env now rows base" and shape:
    "?a = (Inl QueryFailed, base) \<or> (\<exists>x. ?a = (Inr (False, x), base)) \<or>
     newId \<notin> ik_id ` set base \<and> claim_scope kind req \<notin> scope_of ` set base \<and> columns_ok env (claim_scope kind req) \<and>
     ?a = (Inr (True, new_key newId (claim_scope kind req) (requestHash env req) now),
           base @ [new_key newId (claim_scope kind req) (requestHash env req) now])"
    by auto
  from shape show thesis
  proof (elim disjE exE)
    assume "?a = (Inl QueryFailed, base)"
    with ic base answered show thesis by simp
  next
    fix x assume "?a = (Inr (False, x), base)"
    with ic base rep answered show thesis by (auto split: if_splits)
  next
    assume "newId \<notin> ik_id ` set base \<and> claim_scope kind req \<notin> scope_of ` set base \<and> columns_ok env (claim_scope kind req) \<and>
      ?a = (Inr (True, new_key newId (claim_scope kind req) (requestHash env req) now),
           base @ [new_key newId (claim_scope kind req) (requestHash env req) now])"
    with ic base None executed show thesis by simp
  qed
qed

section \<open>The invariant\<close>

definition row_for :: "idem_env \<Rightarrow> execution \<Rightarrow> idem_key \<Rightarrow> bool" where
  "row_for env e r \<longleftrightarrow> ik_id r = ex_id e \<and> scope_of r = claim_scope (ex_kind e) (ex_request e) \<and>
     request_hash r = requestHash env (ex_request e) \<and> ik_created_at r = ex_started e \<and> in_progress r"

text \<open>Keys are unique, and every execution that is not outlived by the window still holds its row.\<close>

definition idem_inv :: "idem_env \<Rightarrow> idem_state \<Rightarrow> bool" where
  "idem_inv env s \<longleftrightarrow> unique_keys ik_id (keys s) \<and> unique_keys scope_of (keys s) \<and> unique_keys ex_id (executions s) \<and>
     (\<forall>r \<in> set (keys s). columns_ok env (scope_of r)) \<and>
     (\<forall>e \<in> set (executions s). precheck (ex_kind e) (ex_request e) = None \<and>
        (\<forall>r \<in> set (keys s). ik_id r = ex_id e \<longrightarrow> row_for env e r) \<and>
        (\<not> expired_at env (clock s) (ex_started e) \<longrightarrow> (\<exists>r \<in> set (keys s). row_for env e r)))"

lemma expired_mono: "expired_at env t c \<Longrightarrow> t \<le> t' \<Longrightarrow> expired_at env t' c"
proof -
  assume a: "expired_at env t c" "t \<le> t'"
  have "(of_int (t - c) :: rat) \<le> of_int (t' - c)" using a(2) by (simp only: of_int_le_iff)
  with a(1) show ?thesis unfolding expired_at_def by (rule less_le_trans)
qed

lemma purged_inv:
  assumes "idem_inv env s" "purged env (clock s) (keys s) ks"
  shows "idem_inv env (s\<lparr>keys := ks\<rparr>)"
proof -
  note pd = purgedD [OF assms(2)]
  have "\<exists>r \<in> set ks. row_for env e r" if e: "e \<in> set (executions s)" "\<not> expired_at env (clock s) (ex_started e)" for e
  proof -
    from e assms(1) obtain r where r: "r \<in> set (keys s)" "row_for env e r" unfolding idem_inv_def by blast
    with e(2) have "\<not> isExpired env (clock s) r" by (simp add: row_for_def isExpired_def)
    with pd(2) r show ?thesis by blast
  qed
  with assms(1) pd(1) purgedD(3) [OF assms(2), of ik_id] purgedD(3) [OF assms(2), of scope_of]
  show ?thesis unfolding idem_inv_def by auto
qed

lemma fewer_executions_inv:
  "idem_inv env s \<Longrightarrow> executions s = es1 @ e # es2 \<Longrightarrow> idem_inv env (s\<lparr>executions := es1 @ es2\<rparr>)"
  unfolding idem_inv_def by auto

lemma sweep_purged: "purged env now rows (cleanupExpiredKeys env now rows)"
proof -
  have "isExpired env now r" if "ik_created_at r < \<lfloor>of_int now - ttlMs env\<rfloor>" for r
  proof -
    have "(of_int (ik_created_at r) :: rat) < of_int now - ttlMs env"
      using that by (metis floor_less_iff floor_of_int order.strict_trans2 less_floor_iff not_le of_int_floor_le of_int_less_iff)
    then show ?thesis by (simp add: isExpired_def expired_at_def algebra_simps)
  qed
  then show ?thesis unfolding purged_def cleanupExpiredKeys_def by blast
qed

lemma execute_inv:
  assumes "idem_inv env s" "purged env (clock s) (keys s) base" "newId \<notin> ik_id ` set base"
    and "claim_scope kind req \<notin> scope_of ` set base" "newId \<notin> ex_id ` set (executions s)" "precheck kind req = None"
    and "columns_ok env (claim_scope kind req)"
  shows "idem_inv env (s\<lparr>keys := base @ [new_key newId (claim_scope kind req) (requestHash env req) (clock s)],
    executions := \<lparr>ex_id = newId, ex_kind = kind, ex_request = req, ex_started = clock s, ex_phase = Running\<rparr> # executions s\<rparr>)"
proof -
  let ?r = "new_key newId (claim_scope kind req) (requestHash env req) (clock s)"
  from purged_inv [OF assms(1,2)] have inv: "unique_keys ik_id base" "unique_keys scope_of base" "unique_keys ex_id (executions s)"
      "\<forall>r \<in> set base. columns_ok env (scope_of r)"
    and old: "\<forall>e \<in> set (executions s). precheck (ex_kind e) (ex_request e) = None \<and>
        (\<forall>r \<in> set base. ik_id r = ex_id e \<longrightarrow> row_for env e r) \<and>
        (\<not> expired_at env (clock s) (ex_started e) \<longrightarrow> (\<exists>r \<in> set base. row_for env e r))"
    by (simp_all add: idem_inv_def)
  have fresh: "\<forall>e \<in> set (executions s). ex_id e \<noteq> newId" "\<forall>r \<in> set base. ik_id r \<noteq> newId"
    using assms(3,5) by auto
  show ?thesis unfolding idem_inv_def
    using inv old fresh assms(3-7) by (auto simp: row_for_def)
qed

lemma complete_maps: "map ik_id (complete k st body rows) = map ik_id rows" "map scope_of (complete k st body rows) = map scope_of rows"
  by (auto simp: complete_def update_row_def scope_of_def)

lemma complete_scopes: "(\<forall>r \<in> set (complete k st body rows). P (scope_of r)) \<longleftrightarrow> (\<forall>r \<in> set rows. P (scope_of r))"
proof -
  have "scope_of ` set (complete k st body rows) = scope_of ` set rows"
    using arg_cong [OF complete_maps(2), of set] by simp
  then show ?thesis by (metis (mono_tags, lifting) imageE imageI)
qed

lemma write_back_inv:
  assumes "idem_inv env s" "executions s = es1 @ e # es2"
    and ks: "ks = complete (ex_id e) st body (keys s) \<or> ks = release (ex_id e) (keys s)"
  shows "idem_inv env (s\<lparr>keys := ks, executions := es1 @ es2\<rparr>)"
proof -
  have other: "r \<in> set ks \<longleftrightarrow> r \<in> set (keys s)" if "ik_id r \<noteq> ex_id e" for r
    using ks that by (auto simp: complete_def release_def set_update_row image_iff split: if_splits)
  have uniq: "unique_keys ik_id ks" "unique_keys scope_of ks" and cols: "\<forall>r \<in> set ks. columns_ok env (scope_of r)"
    using assms(1) ks by (elim disjE; simp add: idem_inv_def complete_maps distinct_map_filter complete_scopes release_def)+
  have "precheck (ex_kind x) (ex_request x) = None \<and> (\<forall>r \<in> set ks. ik_id r = ex_id x \<longrightarrow> row_for env x r) \<and>
      (\<not> expired_at env (clock s) (ex_started x) \<longrightarrow> (\<exists>r \<in> set ks. row_for env x r))" if x: "x \<in> set (es1 @ es2)" for x
  proof -
    have "ex_id e \<notin> ex_id ` set (es1 @ es2)" using assms(1,2) by (auto simp: idem_inv_def)
    then have ne: "ex_id x \<noteq> ex_id e" using x by (metis imageI)
    have xs: "x \<in> set (executions s)" using x assms(2) by auto
    with assms(1) have old: "precheck (ex_kind x) (ex_request x) = None" "\<And>r. r \<in> set (keys s) \<Longrightarrow> ik_id r = ex_id x \<Longrightarrow> row_for env x r"
      "\<not> expired_at env (clock s) (ex_started x) \<Longrightarrow> \<exists>r \<in> set (keys s). row_for env x r" by (auto simp: idem_inv_def)
    from ne have "\<And>r. row_for env x r \<Longrightarrow> ik_id r \<noteq> ex_id e" by (simp add: row_for_def)
    with old other ne show ?thesis by metis
  qed
  with uniq cols assms(1,2) show ?thesis by (auto simp: idem_inv_def)
qed

lemma idem_step_inv: "idem_step env s s' \<Longrightarrow> idem_inv env s \<Longrightarrow> idem_inv env s'"
proof (induction rule: idem_step.induct)
  case (tick s t)
  then show ?case using expired_mono [of env "clock s" _ t] unfolding idem_inv_def by auto
next
  case (answer kind s newId req d ks)
  then have "unique_keys ik_id (keys s)" by (simp add: idem_inv_def)
  from intercept_cases [OF this answer(1)] answer(2,3) purged_inv show ?case by blast
next
  case (execute kind s newId req k ks)
  then have "unique_keys ik_id (keys s)" by (simp add: idem_inv_def)
  from this execute(1) show ?case
  proof (cases rule: intercept_cases)
    case (executed base)
    then have "k = newId" by simp
    with execute_inv [OF execute(3) executed(3,4,5) execute(2) executed(2,6)] executed(7) show ?thesis by simp
  qed auto
next
  case (handled s es1 e es2 ph)
  then show ?case by (auto simp: idem_inv_def row_for_def)
next
  case (write_back s es1 e es2 st body)
  then show ?case using write_back_inv by blast
next
  case (free s es1 e es2)
  then show ?case using write_back_inv by blast
next
  case (crash s es1 e es2)
  then show ?case using fewer_executions_inv by blast
next
  case (sweep s)
  then show ?case using purged_inv sweep_purged by blast
qed

lemma idem_run_inv: "(idem_step env)\<^sup>*\<^sup>* s s' \<Longrightarrow> idem_inv env s \<Longrightarrow> idem_inv env s'"
  by (induction rule: rtranclp_induct) (auto intro: idem_step_inv)

lemma idem_inv_init: "keys s = [] \<Longrightarrow> executions s = [] \<Longrightarrow> idem_inv env s"
  by (simp add: idem_inv_def)

section \<open>What the interceptors guarantee\<close>

lemma intercept_occupied:
  assumes "unique_keys scope_of rows" "r \<in> set rows" "scope_of r = claim_scope kind req" "columns_ok env (scope_of r)"
    and "\<not> isExpired env now r" "precheck kind req = None"
  shows "intercept kind env now newId req rows =
    (if request_hash r \<noteq> requestHash env req then Refuse (mismatch_exn kind)
     else if in_progress r then Refuse (Conflict ''A request with this Idempotency-Key is already in progress'')
     else replay kind r, rows)"
proof -
  have "find_row scope_of (claim_scope kind req) rows = Some r"
    using find_row_distinct [OF assms(1,2)] assms(3) by simp
  then have "acquire env now newId (fst (claim_scope kind req)) (snd (claim_scope kind req)) (requestHash env req) rows =
      (Inr (False, r), rows)"
    using assms(3-5) by (simp add: acquire.simps columns_ok_def)
  with assms(6) show ?thesis by (simp add: intercept_def)
qed

lemma live_row:
  assumes "idem_inv env s" "e \<in> set (executions s)" "\<not> expired_at env (clock s) (ex_started e)"
  obtains r where "r \<in> set (keys s)" "row_for env e r" "\<not> isExpired env (clock s) r" "columns_ok env (scope_of r)"
proof -
  from assms obtain r where r: "r \<in> set (keys s)" "row_for env e r" unfolding idem_inv_def by blast
  moreover have "\<not> isExpired env (clock s) r" using r(2) assms(3) by (simp add: row_for_def isExpired_def)
  moreover have "columns_ok env (scope_of r)" using assms(1) r(1) by (simp add: idem_inv_def)
  ultimately show thesis using that by blast
qed

text \<open>
  C31. Mutual exclusion: whatever requests arrive, whatever the handlers return, with any delay of
  the write-backs, any crashes and clean-ups, two executions that the window has not outlived never
  share a user and a stored key; and while such an execution is under way, the same request is
  refused as in progress and no handler runs for it.
\<close>

theorem one_execution_per_key:
  assumes "keys s0 = []" "executions s0 = []" "(idem_step env)\<^sup>*\<^sup>* s0 s"
    and "e1 \<in> set (executions s)" "\<not> expired_at env (clock s) (ex_started e1)"
  shows "(\<forall>e2 \<in> set (executions s). claim_scope (ex_kind e2) (ex_request e2) = claim_scope (ex_kind e1) (ex_request e1) \<and>
      \<not> expired_at env (clock s) (ex_started e2) \<longrightarrow> e2 = e1) \<and>
    intercept (ex_kind e1) env (clock s) newId (ex_request e1) (keys s) =
      (Refuse (Conflict ''A request with this Idempotency-Key is already in progress''), keys s)"
proof -
  have inv: "idem_inv env s" using idem_run_inv [OF assms(3) idem_inv_init [OF assms(1,2)]] .
  then have uniq: "inj_on scope_of (set (keys s))" "inj_on ex_id (set (executions s))" "unique_keys scope_of (keys s)"
    by (auto simp: idem_inv_def distinct_map)
  from live_row [OF inv assms(4,5)] obtain r1 where r1: "r1 \<in> set (keys s)" "row_for env e1 r1"
    "\<not> isExpired env (clock s) r1" "columns_ok env (scope_of r1)" .
  have "e2 = e1" if "e2 \<in> set (executions s)" "claim_scope (ex_kind e2) (ex_request e2) = claim_scope (ex_kind e1) (ex_request e1)"
    "\<not> expired_at env (clock s) (ex_started e2)" for e2
  proof -
    from live_row [OF inv that(1,3)] obtain r2 where r2: "r2 \<in> set (keys s)" "row_for env e2 r2" .
    with r1 that(2) have "r2 = r1" using inj_onD [OF uniq(1)] by (auto simp: row_for_def)
    with r1(2) r2(2) have "ex_id e2 = ex_id e1" by (simp add: row_for_def)
    with uniq(2) that(1) assms(4) show ?thesis by (auto dest: inj_onD)
  qed
  moreover have "precheck (ex_kind e1) (ex_request e1) = None" using inv assms(4) by (simp add: idem_inv_def)
  ultimately show ?thesis
    using intercept_occupied [OF uniq(3) r1(1) _ r1(4,3)] r1(2) by (simp add: row_for_def)
qed

text \<open>A row nobody works on is kept as it is until the window has passed.\<close>

definition at_rest :: "idem_key \<Rightarrow> idem_state \<Rightarrow> bool" where
  "at_rest r s \<longleftrightarrow> r \<in> set (keys s) \<and> ik_id r \<notin> ex_id ` set (executions s)"

lemma at_rest_step:
  assumes "idem_step env s s'" "idem_inv env s" "at_rest r s" "\<not> isExpired env (clock s') r"
  shows "at_rest r s'"
  using assms
proof (induction rule: idem_step.induct)
  case (answer kind s newId req d ks)
  then have "unique_keys ik_id (keys s)" by (simp add: idem_inv_def)
  from this answer(1) answer(2-) show ?case
    by (cases rule: intercept_cases) (auto simp: at_rest_def dest: purgedD(2))
next
  case (execute kind s newId req k ks)
  then have "unique_keys ik_id (keys s)" by (simp add: idem_inv_def)
  from this execute(1) show ?case
  proof (cases rule: intercept_cases)
    case (executed base)
    have "r \<in> set base" using execute(4,5) purgedD(2) [OF executed(3)] by (simp add: at_rest_def)
    with executed execute(4) show ?thesis by (auto simp: at_rest_def)
  qed auto
next
  case (write_back s es1 e es2 st body)
  then show ?case by (auto simp: at_rest_def complete_def set_update_row image_iff)
next
  case (sweep s)
  then show ?case using purgedD(2) [OF sweep_purged] by (auto simp: at_rest_def)
qed (auto simp: at_rest_def release_def)

lemma idem_step_clock: "idem_step env s s' \<Longrightarrow> clock s \<le> clock s'"
  by (induction rule: idem_step.induct) auto

lemma at_rest_run:
  "(idem_step env)\<^sup>*\<^sup>* s s' \<Longrightarrow> idem_inv env s \<Longrightarrow> at_rest r s \<Longrightarrow> \<not> isExpired env (clock s') r \<Longrightarrow> at_rest r s'"
proof (induction rule: rtranclp_induct)
  case (step y z)
  from step(2) have "clock y \<le> clock z" by (rule idem_step_clock)
  with step(6) have "\<not> isExpired env (clock y) r" using expired_mono by (auto simp: isExpired_def)
  with step show ?case using at_rest_step idem_run_inv by blast
qed simp

text \<open>
  Replay: once the response of an execution has been written back, the same request repeated
  by the same client at any later time within the window, whatever happened in between, is answered
  with exactly that response, no handler runs for it, and the table does not change.
\<close>

theorem completed_response_replayed:
  assumes "keys s0 = []" "executions s0 = []" "(idem_step env)\<^sup>*\<^sup>* s0 s"
    and "executions s = es1 @ e # es2" "ex_phase e = Succeeded st body"
    and "(idem_step env)\<^sup>*\<^sup>* (s\<lparr>keys := complete (ex_id e) st body (keys s), executions := es1 @ es2\<rparr>) s'"
    and live: "\<not> expired_at env (clock s') (ex_started e)"
  shows "intercept (ex_kind e) env (clock s') newId (ex_request e) (keys s') =
    (if ex_kind e = Required then Replay None body False else Replay (Some st) body True, keys s')"
proof -
  let ?s = "s\<lparr>keys := complete (ex_id e) st body (keys s), executions := es1 @ es2\<rparr>"
  have inv: "idem_inv env s" using idem_run_inv [OF assms(3) idem_inv_init [OF assms(1,2)]] .
  have step: "idem_step env s ?s" using idem_step.write_back [OF assms(4,5)] .
  have inv': "idem_inv env ?s" "idem_inv env s'"
    using idem_step_inv [OF step inv] idem_run_inv [OF assms(6)] by auto
  have "clock s \<le> clock s'" using assms(6)
    by (induction rule: rtranclp_induct) (auto dest: idem_step_clock)
  then have now: "\<not> expired_at env (clock s) (ex_started e)" using live expired_mono by blast
  have e: "e \<in> set (executions s)" using assms(4) by simp
  from live_row [OF inv e now] obtain r where r: "r \<in> set (keys s)" "row_for env e r" "columns_ok env (scope_of r)" .
  define r' where "r' = r\<lparr>status_code := Some st, response_body := body, in_progress := False\<rparr>"
  have same: "scope_of r' = scope_of r" "ik_created_at r' = ex_started e" "request_hash r' = requestHash env (ex_request e)"
    "\<not> in_progress r'" "ik_id r' = ex_id e"
    using r(2) by (simp_all add: r'_def scope_of_def row_for_def)
  have "ex_id e \<notin> ex_id ` set (es1 @ es2)" using inv assms(4) by (auto simp: idem_inv_def)
  then have "at_rest r' ?s"
    using r(1,2) same(5) by (auto simp: at_rest_def complete_def r'_def row_for_def set_update_row image_iff intro!: bexI [of _ r])
  with at_rest_run [OF assms(6) inv'(1)] live same(2) have rest: "at_rest r' s'" by (simp add: isExpired_def)
  have "intercept (ex_kind e) env (clock s') newId (ex_request e) (keys s') = (replay (ex_kind e) r', keys s')"
    using intercept_occupied [of "keys s'" r' "ex_kind e" "ex_request e" env "clock s'" newId] rest inv'(2) same r live
      inv e by (auto simp: at_rest_def idem_inv_def row_for_def isExpired_def)
  then show ?thesis by (cases "ex_kind e") (simp_all add: r'_def)
qed

section \<open>A request, step by step\<close>

definition sample_idem_env :: idem_env where
  "sample_idem_env = \<lparr>ttlMs = ttl_of_config Missing, uuid_column = (\<lambda>s. s \<noteq> ''anonymous''), sha256 = (\<lambda>s. s)\<rparr>"

definition sample_post :: idem_request where
  "sample_post = \<lparr>http_method = ''POST'', originalUrl = ''/predictions'', route_path = Some ''/predictions'',
     body_json = ''{}'', key_header = Some ''k1'', request_user = Some ''u1''\<rparr>"

definition sample_exec :: "phase \<Rightarrow> execution" where
  "sample_exec ph = \<lparr>ex_id = ''r1'', ex_kind = Global, ex_request = sample_post, ex_started = 0, ex_phase = ph\<rparr>"

definition sample_idle :: idem_state where
  "sample_idle = \<lparr>clock = 0, keys = [], executions = []\<rparr>"

definition sample_busy :: "phase \<Rightarrow> idem_state" where
  "sample_busy ph = \<lparr>clock = 0, keys = [new_key ''r1'' (claim_scope Global sample_post) (requestHash sample_idem_env sample_post) 0],
     executions = [sample_exec ph]\<rparr>"

lemma sample_intercept:
  "intercept Global sample_idem_env 0 ''r1'' sample_post [] =
     (Execute ''r1'', [new_key ''r1'' (claim_scope Global sample_post) (requestHash sample_idem_env sample_post) 0])"
  by (simp add: intercept_def acquire.simps new_key_def sample_idem_env_def sample_post_def MUTATING_METHODS_def truthy_def
      buildStoredKey_def Let_def)

lemma sample_run:
  "idem_step sample_idem_env sample_idle (sample_busy Running)"
  "idem_step sample_idem_env (sample_busy Running) (sample_busy ph)"
proof -
  show "idem_step sample_idem_env sample_idle (sample_busy Running)"
    using idem_step.execute [of Global sample_idem_env sample_idle "''r1''" sample_post] sample_intercept
    by (simp add: sample_idle_def sample_busy_def sample_exec_def)
  show "idem_step sample_idem_env (sample_busy Running) (sample_busy ph)"
    using idem_step.handled [of "sample_busy Running" "[]" "sample_exec Running" "[]" sample_idem_env ph]
    by (simp add: sample_busy_def sample_exec_def)
qed

lemma sample_live: "t \<le> 1000 \<Longrightarrow> \<not> expired_at sample_idem_env t 0"
proof -
  assume "t \<le> 1000"
  then have "(of_int t :: rat) \<le> of_int 1000" by (simp only: of_int_le_iff)
  then show ?thesis
    by (simp add: expired_at_def sample_idem_env_def ttl_of_config_def readNumberConfig_def DEFAULT_TTL_HOURS_def)
qed

theorem one_execution_per_key_witness:
  "intercept Global sample_idem_env 0 ''r2'' sample_post (keys (sample_busy Running)) =
     (Refuse (Conflict ''A request with this Idempotency-Key is already in progress''), keys (sample_busy Running))"
  using one_execution_per_key [of sample_idle sample_idem_env "sample_busy Running" "sample_exec Running" "''r2''"]
    sample_run(1) sample_live [of 0]
  by (simp add: r_into_rtranclp sample_idle_def sample_busy_def sample_exec_def)

theorem completed_response_replayed_witness:
  "intercept Global sample_idem_env 1000 ''r2'' sample_post (complete ''r1'' 201 (Some ''ok'') (keys (sample_busy Running))) =
     (Replay (Some 201) (Some ''ok'') True, complete ''r1'' 201 (Some ''ok'') (keys (sample_busy Running)))"
proof -
  let ?s = "sample_busy (Succeeded 201 (Some ''ok''))"
  let ?s1 = "?s\<lparr>keys := complete ''r1'' 201 (Some ''ok'') (keys ?s), executions := []\<rparr>"
  have run: "(idem_step sample_idem_env)\<^sup>*\<^sup>* sample_idle ?s"
    using sample_run by (meson converse_rtranclp_into_rtranclp rtranclp.rtrancl_refl)
  have later: "(idem_step sample_idem_env)\<^sup>*\<^sup>* ?s1 (?s1\<lparr>clock := 1000\<rparr>)"
    by (rule r_into_rtranclp, rule idem_step.tick) (simp add: sample_busy_def)
  show ?thesis
    using completed_response_replayed [of sample_idle sample_idem_env ?s "[]" "sample_exec (Succeeded 201 (Some ''ok''))" "[]"
        201 "Some ''ok''" "?s1\<lparr>clock := 1000\<rparr>" "''r2''"] run later sample_live [of 1000]
    by (simp add: sample_idle_def sample_busy_def sample_exec_def)
qed

section \<open>Behaviours the comments do not promise\<close>

text \<open>
  The user id of a request without a user is the word \<open>anonymous\<close>, which a \<open>uuid\<close> column refuses:
  such a request fails with the database error instead of being processed.
\<close>

lemma anonymous_request_fails:
  assumes "\<not> uuid_column env ''anonymous''" "request_user req = None" "http_method req = ''POST''" "truthy (key_header req)"
  shows "intercept Global env now newId req rows = (Refuse QueryFailed, rows)"
  using assms by (simp add: intercept_def acquire.simps MUTATING_METHODS_def)

text \<open>
  Two routes can share a stored key: the pattern and the client's key are joined by a colon, and
  both may contain one.
\<close>

lemma stored_keys_collide: "buildStoredKey ''POST'' ''/a'' ''b:c'' = buildStoredKey ''POST'' ''/a:b'' ''c''"
  by (simp add: buildStoredKey_def)

end
