(* ===== verification/Seasons.thy ===== *)
theory Seasons
  imports Soroban "HOL-Library.List_Lexorder" "HOL-Library.Product_Lexorder" "HOL-Library.Char_ord"
begin

text \<open>
  Seasons: \<open>seasons/seasons.service.ts\<close>, \<open>seasons/season-rollover.scheduler.ts\<close> and their entities.

  The state is the world of the other services together with the tables of the seasons, the frozen
  leaderboards, the distribution ledger, the notifications written and the rollover events emitted.
  A query with an order takes the rows in table order where the order leaves a tie.  What the
  environment decides is an argument: the clock, generated keys, whether a notification can be
  written, and whether the mapper accepts an update with empty criteria, as
  \<open>manager.update(User, {}, ...)\<close> asks it to.
\<close>

section \<open>Entities\<close>

record season =
  season_id :: id
  season_number :: int
  season_name :: string
  starts_at :: instant
  ends_at :: instant
  reward_pool_stroops :: stroops
  season_active :: bool
  season_finalized :: bool
  top_winner :: "id option"
  on_chain_season_id :: "int option"
  soroban_tx_hash :: "string option"
  rollover_processed_at :: "instant option"

record season_snapshot =
  snapshot_season :: id
  snapshot_user :: id
  snapshot_rank :: nat
  snapshot_points :: int

datatype distribution_status = LEDGER_PENDING | LEDGER_SUCCEEDED | LEDGER_FAILED

record ledger_entry =
  entry_id :: id
  entry_season :: id
  entry_recipient :: id
  entry_address :: string
  entry_amount :: stroops
  entry_status :: distribution_status
  failure_reason :: "exn option"

datatype notification_kind = EventCreatedNote | SeasonRewardsNote | SeasonRolloverNote

record notification =
  note_address :: string
  note_kind :: notification_kind
  note_season :: id

record arena =
  base :: world
  seasons :: "season list"
  snapshots :: "season_snapshot list"
  distribution :: "ledger_entry list"
  notifications :: "notification list"
  rollover_events :: "(id option \<times> id option) list"

record season_env =
  update_all_ok :: bool
  notify_error :: "notification_kind \<Rightarrow> exn option"

abbreviation find_season :: "id \<Rightarrow> arena \<Rightarrow> season option" where
  "find_season k a \<equiv> find_row season_id k (seasons a)"

definition save_season :: "season \<Rightarrow> arena \<Rightarrow> arena" where
  "save_season s a = a\<lparr>seasons := save_row season_id s (seasons a)\<rparr>"

interpretation season_table: repository season_id "find_row season_id" "save_row season_id" "unique_keys season_id"
  by (rule table_repository)

interpretation ledger_table: repository entry_id "find_row entry_id" "save_row entry_id" "unique_keys entry_id"
  by (rule table_repository)

text \<open>\<open>notificationsService.create\<close> without a user id: the row is written and broadcast.\<close>

definition notify :: "season_env \<Rightarrow> notification_kind \<Rightarrow> string \<Rightarrow> id \<Rightarrow> (arena, exn, unit) action" where
  "notify env kind address k a =
     (case notify_error env kind of
        Some e \<Rightarrow> (Inl e, a)
      | None \<Rightarrow> (Inr (), a\<lparr>notifications := notifications a @
                    [\<lparr>note_address = address, note_kind = kind, note_season = k\<rparr>]\<rparr>))"

section \<open>Listing and attribution\<close>

datatype season_status = ActiveSeasons | UpcomingSeasons | FinalizedSeasons

fun applyStatusFilter :: "season_status \<Rightarrow> instant \<Rightarrow> season \<Rightarrow> bool" where
  "applyStatusFilter ActiveSeasons now s \<longleftrightarrow> season_active s \<and> starts_at s \<le> now \<and> ends_at s > now"
| "applyStatusFilter UpcomingSeasons now s \<longleftrightarrow> starts_at s > now \<and> \<not> season_finalized s"
| "applyStatusFilter FinalizedSeasons now s \<longleftrightarrow> season_finalized s"

record season_item =
  item_season :: season
  item_winner :: "(id \<times> string option \<times> string) option"

definition toSeasonListItem :: "arena \<Rightarrow> season \<Rightarrow> season_item" where
  "toSeasonListItem a s =
     \<lparr>item_season = s,
      item_winner =
        (case Option.bind (top_winner s) (\<lambda>k. find_user k (base a)) of
           Some tw \<Rightarrow> if season_finalized s then Some (user_id tw, username tw, stellar_address tw) else None
         | None \<Rightarrow> None)\<rparr>"

definition findAllPaginated ::
  "nat option \<Rightarrow> nat option \<Rightarrow> season_status option \<Rightarrow> instant \<Rightarrow> arena \<Rightarrow> season_item list \<times> nat \<times> nat \<times> nat"
where
  "findAllPaginated page_opt limit_opt status now a =
     (let page = (case page_opt of Some p \<Rightarrow> p | None \<Rightarrow> 1);
          limit = min (case limit_opt of Some l \<Rightarrow> l | None \<Rightarrow> 20) 50;
          rows = filter (\<lambda>s. case status of Some st \<Rightarrow> applyStatusFilter st now s | None \<Rightarrow> True) (seasons a);
          ordered = sort_key (\<lambda>s. - starts_at s) rows
      in (map (toSeasonListItem a) (take limit (drop ((page - 1) * limit) ordered)), length rows, page, limit))"

definition findActive :: "instant \<Rightarrow> arena \<Rightarrow> (exn, season) result" where
  "findActive now a =
     (case sort_key (\<lambda>s. - starts_at s) (filter (applyStatusFilter ActiveSeasons now) (seasons a)) of
        [] \<Rightarrow> Inl (NotFound ''No active season exists'')
      | s # _ \<Rightarrow> Inr s)"

definition isTimestampInSeason :: "instant \<Rightarrow> season \<Rightarrow> bool" where
  "isTimestampInSeason t s \<longleftrightarrow> t \<ge> starts_at s \<and> t < ends_at s"

record timed_prediction =
  tp_submitted_at :: "instant option"
  tp_created_at :: "instant option"
  tp_timestamp :: "instant option"
  tp_is_correct :: "bool option"

definition submissionTime :: "timed_prediction \<Rightarrow> instant option" where
  "submissionTime p =
     (case tp_submitted_at p of Some t \<Rightarrow> Some t
      | None \<Rightarrow> (case tp_created_at p of Some t \<Rightarrow> Some t | None \<Rightarrow> tp_timestamp p))"

definition attributePredictionToSeason :: "timed_prediction \<Rightarrow> season list option \<Rightarrow> arena \<Rightarrow> season option" where
  "attributePredictionToSeason p candidates a =
     (case submissionTime p of
        None \<Rightarrow> None
      | Some t \<Rightarrow>
          List.find (isTimestampInSeason t)
            (case candidates of Some ss \<Rightarrow> ss | None \<Rightarrow> sort_key starts_at (seasons a)))"

definition attributePrediction :: "timed_prediction \<Rightarrow> season list option \<Rightarrow> arena \<Rightarrow> season option" where
  "attributePrediction p candidates a = attributePredictionToSeason p candidates a"

definition scorePredictionForSeason ::
  "timed_prediction \<Rightarrow> int \<Rightarrow> season list option \<Rightarrow> arena \<Rightarrow> season option \<times> int \<times> int option"
where
  "scorePredictionForSeason p points candidates a =
     (let s = attributePredictionToSeason p candidates a;
          isCorrect = (case tp_is_correct p of Some c \<Rightarrow> c | None \<Rightarrow> True)
      in (s, if s \<noteq> None \<and> isCorrect then points else 0, map_option season_number s))"

section \<open>Creation\<close>

text \<open>
  A date is what \<open>new Date\<close> makes of the text, \<open>None\<close> when it is invalid.  The validated pool is a
  string of digits; the \<open>bigint\<close> column refuses one above 63 bits.
\<close>

record create_season_dto =
  dto_season_number :: int
  dto_start_time :: "instant option"
  dto_end_time :: "instant option"
  dto_reward_pool_stroops :: string
  sync_soroban :: bool

definition bigint_column :: "string \<Rightarrow> stroops option" where
  "bigint_column s =
     (if s \<noteq> [] \<and> list_all (\<lambda>c. c \<in> set ''0123456789'') s
      then case bigint s of Some n \<Rightarrow> if n < 2 ^ 63 then Some n else None | None \<Rightarrow> None
      else None)"

unbundle bit_operations_syntax

definition createSeason_call :: "int \<Rightarrow> int \<Rightarrow> string \<Rightarrow> (exn, int \<times> string) result" where
  "createSeason_call startTimeUnix endTimeUnix rewardPoolStroops =
     (let mix = (startTimeUnix XOR endTimeUnix) AND 0x7fffffff;
          on_chain_id = (if mix = 0 then 1 else mix)
      in Inr (on_chain_id,
              stub_tx_hash (''season:'' @ bigint_to_string startTimeUnix @ '':'' @
                bigint_to_string endTimeUnix @ '':'' @ rewardPoolStroops)))"

definition hasActiveSeasonOverlappingRange :: "instant \<Rightarrow> instant \<Rightarrow> arena \<Rightarrow> bool" where
  "hasActiveSeasonOverlappingRange start end' a \<longleftrightarrow>
     list_ex (\<lambda>s. season_active s \<and> starts_at s < end' \<and> ends_at s > start) (seasons a)"

definition new_season :: "instant \<Rightarrow> id \<Rightarrow> instant \<Rightarrow> instant \<Rightarrow> stroops \<Rightarrow> create_season_dto \<Rightarrow> season" where
  "new_season now newId startsAt endsAt pool dto =
     \<lparr>season_id = newId, season_number = dto_season_number dto,
      season_name = ''Season '' @ bigint_to_string (dto_season_number dto),
      starts_at = startsAt, ends_at = endsAt, reward_pool_stroops = pool,
      season_active = (startsAt \<le> now \<and> now < endsAt), season_finalized = False,
      top_winner = None, on_chain_season_id = None, soroban_tx_hash = None,
      rollover_processed_at = None\<rparr>"

definition create_season :: "instant \<Rightarrow> id \<Rightarrow> create_season_dto \<Rightarrow> (arena, exn, season) action" where
  "create_season now newId dto a =
     (case (dto_start_time dto, dto_end_time dto) of
        (Some startsAt, Some endsAt) \<Rightarrow>
          if endsAt \<le> startsAt then (Inl (BadRequest ''end_time must be after start_time''), a)
          else if dto_season_number dto \<in> season_number ` set (seasons a)
          then (Inl (Conflict ''Season number is already in use''), a)
          else if hasActiveSeasonOverlappingRange startsAt endsAt a
          then (Inl (Conflict ''An active season already exists that overlaps this time range''), a)
          else (case bigint_column (dto_reward_pool_stroops dto) of
                  None \<Rightarrow> (Inl QueryFailed, a)
                | Some pool \<Rightarrow>
                    if newId \<in> season_id ` set (seasons a) then (Inl QueryFailed, a)
                    else
                      let saved = new_season now newId startsAt endsAt pool dto
                      in if sync_soroban dto
                         then case createSeason_call (startsAt div 1000) (endsAt div 1000) (dto_reward_pool_stroops dto) of
                                Inr (k, tx) \<Rightarrow>
                                  let s = saved\<lparr>on_chain_season_id := Some k, soroban_tx_hash := Some tx\<rparr>
                                  in (Inr s, save_season s (save_season saved a))
                              | Inl e \<Rightarrow>
                                  (Inl e, a\<lparr>seasons := filter (\<lambda>s. season_id s \<noteq> newId) (seasons (save_season saved a))\<rparr>)
                         else (Inr saved, save_season saved a))
      | _ \<Rightarrow> (Inl (BadRequest ''Invalid start_time or end_time''), a))"

definition findSeasonById :: "id \<Rightarrow> arena \<Rightarrow> (exn, season) result" where
  "findSeasonById k a = (case find_season k a of Some s \<Rightarrow> Inr s | None \<Rightarrow> Inl (NotFound (''Season not found'')))"

section \<open>Closing a season\<close>

text \<open>\<open>findOne(User, {where: {}, order: {season_points: 'DESC'}})\<close>\<close>

definition top_user :: "user list \<Rightarrow> user option" where
  "top_user us = (case sort_key (\<lambda>u. - season_points u) us of [] \<Rightarrow> None | u # _ \<Rightarrow> Some u)"

definition reset_points :: "arena \<Rightarrow> arena" where
  "reset_points a = a\<lparr>base := (base a)\<lparr>users := map (\<lambda>u. u\<lparr>season_points := 0\<rparr>) (users (base a))\<rparr>\<rparr>"

definition winner_of :: "season \<Rightarrow> arena \<Rightarrow> user option" where
  "winner_of s a = Option.bind (top_winner s) (\<lambda>k. find_user k (base a))"

text \<open>
  The notification comes after the commit but inside the \<open>try\<close>: when it fails, the rollback of the
  committed transaction is refused and that error replaces the first.
\<close>

definition finalizeSeason :: "season_env \<Rightarrow> id \<Rightarrow> (arena, exn, season) action" where
  "finalizeSeason env k a =
     (case find_season k a of
        None \<Rightarrow> (Inl (NotFound ''Season not found''), a)
      | Some s \<Rightarrow>
          if season_finalized s then (Inl (Conflict ''Season is already finalized''), a)
          else if \<not> update_all_ok env
          then (Inl (PlainError ''Empty criteria(s) are not allowed for the update method.''), a)
          else
            let topWinner = top_user (users (base a));
                a1 = reset_points (save_season (s\<lparr>season_active := False, season_finalized := True,
                                                  top_winner := map_option user_id topWinner\<rparr>) a)
            in case topWinner of
                 None \<Rightarrow> (findSeasonById k a1, a1)
               | Some u \<Rightarrow>
                   (case notify env EventCreatedNote (stellar_address u) k a1 of
                      (Inl e, a2) \<Rightarrow> (Inl (PlainError ''Transaction is not started yet''), a2)
                    | (Inr _, a2) \<Rightarrow> (findSeasonById k a2, a2)))"

text \<open>The standings: by points, ties by the user's key.\<close>

definition standings_of :: "user list \<Rightarrow> user list" where
  "standings_of us = sort_key (\<lambda>u. (- season_points u, user_id u)) us"

definition snapshotLeaderboard :: "season \<Rightarrow> arena \<Rightarrow> arena" where
  "snapshotLeaderboard s a =
     (if season_id s \<in> snapshot_season ` set (snapshots a) then a
      else a\<lparr>snapshots := snapshots a @
             map (\<lambda>(i, u). \<lparr>snapshot_season = season_id s, snapshot_user = user_id u,
                             snapshot_rank = i + 1, snapshot_points = season_points u\<rparr>)
                 (List.enumerate 0 (standings_of (users (base a))))\<rparr>)"

definition activateDueSeason :: "instant \<Rightarrow> arena \<Rightarrow> season option \<times> arena" where
  "activateDueSeason now a =
     (case sort_key season_number (filter (\<lambda>s. \<not> season_active s \<and> \<not> season_finalized s \<and>
             starts_at s \<le> now \<and> ends_at s > now) (seasons a)) of
        [] \<Rightarrow> (None, a)
      | due # _ \<Rightarrow> let s = due\<lparr>season_active := True\<rparr> in (Some s, save_season s a))"

definition activateDueSeasonWithManager :: "instant \<Rightarrow> arena \<Rightarrow> season option \<times> arena" where
  "activateDueSeasonWithManager now a =
     (case sort_key season_number (filter (\<lambda>s. \<not> season_active s \<and> \<not> season_finalized s \<and>
             starts_at s \<le> now \<and> ends_at s > now) (seasons a)) of
        [] \<Rightarrow> (None, a)
      | due # _ \<Rightarrow> let s = due\<lparr>season_active := True\<rparr> in (Some s, save_season s a))"

section \<open>Distribution of the pool\<close>

record reconciliation =
  rec_matches :: bool
  totalDistributed :: stroops
  missingRecipients :: "ledger_entry list"

definition reconcileSeasonDistribution :: "id \<Rightarrow> stroops \<Rightarrow> arena \<Rightarrow> reconciliation" where
  "reconcileSeasonDistribution k pool a =
     (let allEntries = filter (\<lambda>e. entry_season e = k) (distribution a);
          total = sum_list (map entry_amount (filter (\<lambda>e. entry_status e = LEDGER_SUCCEEDED) allEntries))
      in \<lparr>rec_matches = (total = pool), totalDistributed = total,
          missingRecipients = filter (\<lambda>e. entry_status e \<noteq> LEDGER_SUCCEEDED) allEntries\<rparr>)"

definition set_entry :: "id \<Rightarrow> distribution_status \<Rightarrow> exn option \<Rightarrow> arena \<Rightarrow> arena" where
  "set_entry k st why a =
     a\<lparr>distribution := update_row entry_id k (\<lambda>e. e\<lparr>entry_status := st,
         failure_reason := (if why = None then failure_reason e else why)\<rparr>) (distribution a)\<rparr>"

definition find_entry :: "id \<Rightarrow> id \<Rightarrow> arena \<Rightarrow> ledger_entry option" where
  "find_entry k recipient a = List.find (\<lambda>e. entry_season e = k \<and> entry_recipient e = recipient) (distribution a)"

text \<open>The ledger row is the one found, or a new one, which is stored as pending.\<close>

definition claim_entry :: "id \<Rightarrow> season \<Rightarrow> user \<Rightarrow> arena \<Rightarrow> (exn, ledger_entry) result \<times> arena" where
  "claim_entry newId s w a =
     (case find_entry (season_id s) (user_id w) a of
        Some e \<Rightarrow> (Inr e, a)
      | None \<Rightarrow>
          if newId \<in> entry_id ` set (distribution a) then (Inl QueryFailed, a)
          else let e = \<lparr>entry_id = newId, entry_season = season_id s, entry_recipient = user_id w,
                        entry_address = stellar_address w, entry_amount = reward_pool_stroops s,
                        entry_status = LEDGER_PENDING, failure_reason = None\<rparr>
               in (Inr e, a\<lparr>distribution := distribution a @ [e]\<rparr>))"

text \<open>The payout under a ledger row, and what it leaves in the row.\<close>

definition pay_entry :: "season_env \<Rightarrow> season \<Rightarrow> user \<Rightarrow> ledger_entry \<Rightarrow> (arena, exn, bool) action" where
  "pay_entry env s w e a =
     (case notify env SeasonRewardsNote (stellar_address w) (season_id s) a of
        (Inl err, a2) \<Rightarrow> (Inl err, set_entry (entry_id e) LEDGER_FAILED (Some err) a2)
      | (Inr _, a2) \<Rightarrow> (Inr True, set_entry (entry_id e) LEDGER_SUCCEEDED None a2))"

definition computeSeasonRewards ::
  "season_env \<Rightarrow> id \<Rightarrow> season \<Rightarrow> user option \<Rightarrow> (arena, exn, bool) action"
where
  "computeSeasonRewards env newId s loaded a =
     (if reward_pool_stroops s \<le> 0 then (Inr False, a)
      else
        let withWinner = (case loaded of Some u \<Rightarrow> Some u
              | None \<Rightarrow> Option.bind (find_season (season_id s) a) (\<lambda>r. winner_of r a))
        in case withWinner of
             None \<Rightarrow> (Inr False, a)
           | Some w \<Rightarrow>
               if stellar_address w = [] then (Inr False, a)
               else if (case find_entry (season_id s) (user_id w) a of
                          Some e \<Rightarrow> entry_status e = LEDGER_SUCCEEDED | None \<Rightarrow> False)
               then (Inr True, a)
               else
                 (case claim_entry newId s w a of
                    (Inl e, a1) \<Rightarrow> (Inl e, a1)
                  | (Inr entry, a1) \<Rightarrow> pay_entry env s w entry a1))"

text \<open>Rows are kept in the order of their creation.\<close>

definition getDistributionLedger :: "id \<Rightarrow> arena \<Rightarrow> ledger_entry list" where
  "getDistributionLedger k a = filter (\<lambda>e. entry_season e = k) (distribution a)"

section \<open>Rollover\<close>

record rollover_result =
  closedSeasonId :: "id option"
  openedSeasonId :: "id option"
  rewardsComputed :: bool
  skipped :: bool
  rollover_reason :: "string option"

definition emitRolloverEvents ::
  "season_env \<Rightarrow> (season \<times> user option) option \<Rightarrow> season option \<Rightarrow> (arena, exn, unit) action"
where
  "emitRolloverEvents env ended opened a =
     (let a1 = a\<lparr>rollover_events := rollover_events a @ [(map_option (season_id \<circ> fst) ended, map_option season_id opened)]\<rparr>
      in case ended of
           Some (s, Some u) \<Rightarrow>
             if stellar_address u \<noteq> [] then notify env SeasonRolloverNote (stellar_address u) (season_id s) a1
             else (Inr (), a1)
         | _ \<Rightarrow> (Inr (), a1))"

definition find_ending :: "instant \<Rightarrow> arena \<Rightarrow> season option" where
  "find_ending now a =
     (case sort_key ends_at (filter (\<lambda>s. season_active s \<and> ends_at s \<le> now \<and> rollover_processed_at s = None) (seasons a)) of
        [] \<Rightarrow> None | s # _ \<Rightarrow> Some s)"

text \<open>What the transaction does to the season it has read: the ended season, its winner, the season opened.\<close>

definition rollover_transaction ::
  "season_env \<Rightarrow> instant \<Rightarrow> season \<Rightarrow> (arena, exn, season \<times> user option \<times> season option) action"
where
  "rollover_transaction env now s a =
     (let topWinner = top_user (users (base a));
          ended = s\<lparr>season_active := False, season_finalized := True,
                     top_winner := map_option user_id topWinner, rollover_processed_at := Some now\<rparr>;
          a1 = snapshotLeaderboard ended (save_season ended a)
      in if \<not> update_all_ok env
         then (Inl (PlainError ''Empty criteria(s) are not allowed for the update method.''), a)
         else
           let a2 = reset_points a1;
               (opened, a3) =
                 (case find_row season_number (season_number ended + 1) (seasons a2) of
                    Some o' \<Rightarrow>
                      if \<not> season_finalized o'
                      then let o'' = o'\<lparr>season_active := True,
                                        starts_at := (if starts_at o' > now then now else starts_at o')\<rparr>
                           in (Some o'', save_season o'' a2)
                      else activateDueSeasonWithManager now a2
                  | None \<Rightarrow> activateDueSeasonWithManager now a2)
           in (Inr (ended, topWinner, opened), a3))"

definition after_rollover ::
  "season_env \<Rightarrow> id \<Rightarrow> season \<Rightarrow> user option \<Rightarrow> season option \<Rightarrow> (arena, exn, rollover_result) action"
where
  "after_rollover env newId ended tw opened a =
     (case computeSeasonRewards env newId ended tw a of
        (Inl e, a1) \<Rightarrow> (Inl e, a1)
      | (Inr rewards, a1) \<Rightarrow>
          (case (case tw of
                   Some u \<Rightarrow> if stellar_address u \<noteq> []
                             then notify env EventCreatedNote (stellar_address u) (season_id ended) a1 else (Inr (), a1)
                 | None \<Rightarrow> (Inr (), a1)) of
             (Inl e, a2) \<Rightarrow> (Inl e, a2)
           | (Inr _, a2) \<Rightarrow>
               (case emitRolloverEvents env (Some (ended, tw)) opened a2 of
                  (Inl e, a3) \<Rightarrow> (Inl e, a3)
                | (Inr _, a3) \<Rightarrow>
                    (Inr \<lparr>closedSeasonId = Some (season_id ended), openedSeasonId = map_option season_id opened,
                          rewardsComputed = rewards, skipped = False, rollover_reason = None\<rparr>, a3))))"

definition processSeasonRollover :: "season_env \<Rightarrow> instant \<Rightarrow> id \<Rightarrow> (arena, exn, rollover_result) action" where
  "processSeasonRollover env now newId a =
     (case find_ending now a of
        None \<Rightarrow>
          (case activateDueSeason now a of
             (Some openedOnly, a1) \<Rightarrow>
               (case emitRolloverEvents env None (Some openedOnly) a1 of
                  (Inl e, a2) \<Rightarrow> (Inl e, a2)
                | (Inr _, a2) \<Rightarrow>
                    (Inr \<lparr>closedSeasonId = None, openedSeasonId = Some (season_id openedOnly), rewardsComputed = False,
                          skipped = False, rollover_reason = Some ''activated_due_season''\<rparr>, a2))
           | (None, a1) \<Rightarrow>
               (Inr \<lparr>closedSeasonId = None, openedSeasonId = None, rewardsComputed = False, skipped = True,
                     rollover_reason = Some ''nothing_to_rollover''\<rparr>, a1))
      | Some ending \<Rightarrow>
          (case find_season (season_id ending) a of
             None \<Rightarrow> (Inl (NotFound ''Season not found''), a)
           | Some s \<Rightarrow>
               if rollover_processed_at s \<noteq> None
               then (Inr \<lparr>closedSeasonId = Some (season_id s), openedSeasonId = None, rewardsComputed = False,
                          skipped = True, rollover_reason = Some ''already_processed''\<rparr>, a)
               else
                 (case rollover_transaction env now s a of
                    (Inl e, a1) \<Rightarrow> (Inl e, a1)
                  | (Inr (ended, tw, opened), a1) \<Rightarrow> after_rollover env newId ended tw opened a1)))"

text \<open>The scheduler: overlapping ticks of one process are skipped and errors are logged.\<close>

definition handleRolloverTick :: "season_env \<Rightarrow> instant \<Rightarrow> id \<Rightarrow> bool \<times> arena \<Rightarrow> bool \<times> arena" where
  "handleRolloverTick env now newId st =
     (case st of (running, a) \<Rightarrow> if running then (running, a) else (False, snd (processSeasonRollover env now newId a)))"

end
