(* ===== verification/Season_Facts.thy ===== *)
theory Season_Facts
  imports Seasons "HOL-Library.Multiset"
begin

text \<open>
  What the season service guarantees: how a season's row may evolve, the invariant of its tables
  under any sequence of requests and ticks, that a pool is paid at most once, that a rollover
  freezes the standings, and that the scheduler catches up.
\<close>

section \<open>Requests\<close>

text \<open>The other services may change the shared world in any way between two requests.\<close>

datatype season_request =
    CreateSeason instant id create_season_dto
  | FinalizeSeason season_env id
  | Tick season_env instant id
  | Outside world

fun handle_season :: "season_request \<Rightarrow> arena \<Rightarrow> arena" where
  "handle_season (CreateSeason now newId dto) a = snd (create_season now newId dto a)"
| "handle_season (FinalizeSeason env k) a = snd (finalizeSeason env k a)"
| "handle_season (Tick env now newId) a = snd (handleRolloverTick env now newId (False, a))"
| "handle_season (Outside w) a = a\<lparr>base := w\<rparr>"

definition handle_seasons :: "season_request list \<Rightarrow> arena \<Rightarrow> arena" where
  "handle_seasons rs a = fold handle_season rs a"

section \<open>How a season evolves\<close>

definition season_ok :: "season \<Rightarrow> bool" where
  "season_ok s \<longleftrightarrow> starts_at s < ends_at s \<and> (season_active s \<longrightarrow> \<not> season_finalized s) \<and>
     (rollover_processed_at s \<noteq> None \<longrightarrow> season_finalized s) \<and> (\<not> season_finalized s \<longrightarrow> top_winner s = None)"

definition season_evolves :: "season \<Rightarrow> season \<Rightarrow> bool" where
  "season_evolves s s' \<longleftrightarrow> s' = s \<or>
     \<not> season_finalized s \<and> season_id s' = season_id s \<and> season_number s' = season_number s \<and>
     season_name s' = season_name s \<and> ends_at s' = ends_at s \<and> reward_pool_stroops s' = reward_pool_stroops s \<and>
     starts_at s' \<le> starts_at s \<and> (season_ok s \<longrightarrow> season_ok s')"

lemma season_evolves_refl [simp]: "season_evolves s s"
  by (simp add: season_evolves_def)

lemma season_evolves_trans: "season_evolves s t \<Longrightarrow> season_evolves t u \<Longrightarrow> season_evolves s u"
  unfolding season_evolves_def by auto

lemma season_evolves_keys: "season_evolves s s' \<Longrightarrow> season_id s' = season_id s \<and> season_number s' = season_number s"
  by (auto simp: season_evolves_def)

lemma season_evolves_ok: "season_evolves s s' \<Longrightarrow> season_ok s \<Longrightarrow> season_ok s'"
  by (auto simp: season_evolves_def)

definition seasons_ok :: "season list \<Rightarrow> bool" where
  "seasons_ok rows \<longleftrightarrow> unique_keys season_id rows \<and> unique_keys season_number rows \<and> list_all season_ok rows"

text \<open>A table evolves row by row, and new seasons are added at its end.\<close>

definition table_evolves :: "season list \<Rightarrow> season list \<Rightarrow> bool" where
  "table_evolves rows rows' \<longleftrightarrow>
     (\<exists>old new. rows' = old @ new \<and> list_all2 season_evolves rows old) \<and> (seasons_ok rows \<longrightarrow> seasons_ok rows')"

lemma table_evolves_refl [simp]: "table_evolves rows rows"
  unfolding table_evolves_def using list.rel_refl [of season_evolves rows] by (metis append_Nil2 season_evolves_refl)

lemma table_evolves_trans: "table_evolves r1 r2 \<Longrightarrow> table_evolves r2 r3 \<Longrightarrow> table_evolves r1 r3"
proof -
  assume a: "table_evolves r1 r2" "table_evolves r2 r3"
  then obtain o1 n1 o2 n2 where e: "r2 = o1 @ n1" "list_all2 season_evolves r1 o1" "r3 = o2 @ n2" "list_all2 season_evolves r2 o2"
    by (auto simp: table_evolves_def)
  then obtain p q where pq: "o2 = p @ q" "list_all2 season_evolves o1 p"
    by (auto simp: list_all2_append1)
  have "list_all2 season_evolves r1 p"
    using list_all2_trans [of season_evolves season_evolves season_evolves r1 o1 p] season_evolves_trans e(2) pq(2) by blast
  then show ?thesis using a e pq unfolding table_evolves_def by (metis append.assoc)
qed

lemma evolves_in_place:
  assumes "list_all2 season_evolves rows rows'"
  shows "table_evolves rows rows'"
proof -
  have "map season_id rows' = map season_id rows" "map season_number rows' = map season_number rows"
    using assms by (induction rule: list_all2_induct) (auto dest: season_evolves_keys)
  moreover have "list_all season_ok rows \<Longrightarrow> list_all season_ok rows'"
    using assms by (induction rule: list_all2_induct) (auto dest: season_evolves_ok)
  ultimately show ?thesis using assms by (auto simp: table_evolves_def seasons_ok_def)
qed

lemma evolves_save:
  assumes "seasons_ok rows" "s \<in> set rows" "season_evolves s s'"
  shows "table_evolves rows (save_row season_id s' rows)"
proof -
  have "save_row season_id s' rows = map (\<lambda>r. if r = s then s' else r) rows"
    using assms season_evolves_keys by (intro save_row_replaces) (auto simp: seasons_ok_def)
  then show ?thesis using assms(3)
    by (auto intro!: evolves_in_place simp: list_all2_map2 list.rel_refl_strong)
qed

lemma evolves_kept:
  assumes "table_evolves rows rows'" "s \<in> set rows" "season_finalized s"
  shows "s \<in> set rows'"
proof -
  from assms(1) obtain old new where e: "rows' = old @ new" "list_all2 season_evolves rows old" by (auto simp: table_evolves_def)
  from e(2) assms(2) obtain s' where "s' \<in> set old" "season_evolves s s'"
    by (metis in_set_conv_nth list_all2_conv_all_nth)
  with assms(3) e(1) show ?thesis by (auto simp: season_evolves_def)
qed

section \<open>The invariant\<close>

definition reward_notes :: "id \<Rightarrow> arena \<Rightarrow> nat" where
  "reward_notes k a = length (filter (\<lambda>n. note_kind n = SeasonRewardsNote \<and> note_season n = k) (notifications a))"

definition paid_entries :: "id \<Rightarrow> arena \<Rightarrow> ledger_entry list" where
  "paid_entries k a = filter (\<lambda>e. entry_season e = k \<and> entry_status e = LEDGER_SUCCEEDED) (distribution a)"

definition entry_ok :: "season list \<Rightarrow> ledger_entry \<Rightarrow> bool" where
  "entry_ok rows e \<longleftrightarrow> (\<exists>s \<in> set rows. season_id s = entry_season e \<and> season_finalized s \<and> rollover_processed_at s \<noteq> None \<and>
     top_winner s = Some (entry_recipient e) \<and> entry_amount e = reward_pool_stroops s \<and> 0 < entry_amount e)"

definition ledger_ok :: "arena \<Rightarrow> bool" where
  "ledger_ok a \<longleftrightarrow> unique_keys entry_id (distribution a) \<and> unique_keys entry_season (distribution a) \<and>
     list_all (entry_ok (seasons a)) (distribution a) \<and> (\<forall>k. reward_notes k a = length (paid_entries k a))"

definition snapshot_ok :: "season list \<Rightarrow> season_snapshot \<Rightarrow> bool" where
  "snapshot_ok rows r \<longleftrightarrow>
     (\<exists>s \<in> set rows. season_id s = snapshot_season r \<and> season_finalized s \<and> rollover_processed_at s \<noteq> None)"

definition season_inv :: "arena \<Rightarrow> bool" where
  "season_inv a \<longleftrightarrow> seasons_ok (seasons a) \<and> ledger_ok a \<and> list_all (snapshot_ok (seasons a)) (snapshots a)"

text \<open>Every request evolves the seasons and only adds snapshots of seasons it rolls over.\<close>

definition keeps :: "arena \<Rightarrow> arena \<Rightarrow> bool" where
  "keeps a a' \<longleftrightarrow> table_evolves (seasons a) (seasons a') \<and>
     (\<exists>new. snapshots a' = snapshots a @ new \<and>
        list_all (\<lambda>r. snapshot_ok (seasons a') r \<and> \<not> snapshot_ok (seasons a) r) new)"

text \<open>A step that leaves the ledger and the reward notifications alone.\<close>

definition advances :: "arena \<Rightarrow> arena \<Rightarrow> bool" where
  "advances a a' \<longleftrightarrow> keeps a a' \<and> distribution a' = distribution a \<and> (\<forall>k. reward_notes k a' = reward_notes k a)"

lemma entry_ok_evolves: "table_evolves rows rows' \<Longrightarrow> entry_ok rows e \<Longrightarrow> entry_ok rows' e"
  unfolding entry_ok_def using evolves_kept by meson

lemma snapshot_ok_evolves: "table_evolves rows rows' \<Longrightarrow> snapshot_ok rows r \<Longrightarrow> snapshot_ok rows' r"
  unfolding snapshot_ok_def using evolves_kept by meson

lemma keeps_refl [simp]: "keeps a a"
  by (simp add: keeps_def)

lemma keeps_trans:
  assumes "keeps a b" "keeps b c"
  shows "keeps a c"
proof -
  have ev: "table_evolves (seasons a) (seasons b)" "table_evolves (seasons b) (seasons c)" using assms by (simp_all add: keeps_def)
  from assms obtain new1 new2 where new: "snapshots b = snapshots a @ new1" "snapshots c = snapshots b @ new2"
    "list_all (\<lambda>r. snapshot_ok (seasons b) r \<and> \<not> snapshot_ok (seasons a) r) new1"
    "list_all (\<lambda>r. snapshot_ok (seasons c) r \<and> \<not> snapshot_ok (seasons b) r) new2" by (auto simp: keeps_def)
  then have "list_all (\<lambda>r. snapshot_ok (seasons c) r \<and> \<not> snapshot_ok (seasons a) r) (new1 @ new2)"
    using snapshot_ok_evolves [OF ev(1)] snapshot_ok_evolves [OF ev(2)] by (auto simp: list_all_iff)
  with new table_evolves_trans [OF ev] show ?thesis by (auto simp: keeps_def)
qed

lemma keeps_snapshots_ok:
  "keeps a a' \<Longrightarrow> list_all (snapshot_ok (seasons a)) (snapshots a) \<Longrightarrow> list_all (snapshot_ok (seasons a')) (snapshots a')"
  using snapshot_ok_evolves by (fastforce simp: keeps_def list_all_iff)

lemma advances_inv:
  assumes "advances a a'" "season_inv a"
  shows "season_inv a'"
proof -
  have ev: "table_evolves (seasons a) (seasons a')" using assms(1) by (simp add: advances_def keeps_def)
  have "seasons_ok (seasons a')" using ev assms(2) by (simp add: table_evolves_def season_inv_def)
  moreover have "ledger_ok a'"
    using assms entry_ok_evolves [OF ev]
    by (auto simp: season_inv_def ledger_ok_def advances_def paid_entries_def list_all_iff)
  moreover have "list_all (snapshot_ok (seasons a')) (snapshots a')"
    using assms keeps_snapshots_ok by (auto simp: season_inv_def advances_def)
  ultimately show ?thesis by (simp add: season_inv_def)
qed

lemma advances_trans: "advances a b \<Longrightarrow> advances b c \<Longrightarrow> advances a c"
  using keeps_trans by (auto simp: advances_def)

lemma advances_refl [simp]: "advances a a"
  by (simp add: advances_def)

lemma advances_base [simp]: "advances a (a'\<lparr>base := w\<rparr>) = advances a a'" "advances (a\<lparr>base := w\<rparr>) a' = advances a a'"
  by (simp_all add: advances_def keeps_def reward_notes_def)

lemma advances_reset [simp]: "advances a (reset_points a') = advances a a'"
  by (simp add: reset_points_def)

lemma advances_event [simp]: "advances a (a'\<lparr>rollover_events := es\<rparr>) = advances a a'"
  by (simp add: advances_def keeps_def reward_notes_def)

lemma advances_save:
  "seasons_ok (seasons a) \<Longrightarrow> s \<in> set (seasons a) \<Longrightarrow> season_evolves s s' \<Longrightarrow> advances a (save_season s' a)"
  by (simp add: advances_def keeps_def save_season_def evolves_save reward_notes_def)

lemma advances_told:
  "notify env kind addr k b = (r, c) \<Longrightarrow> kind \<noteq> SeasonRewardsNote \<Longrightarrow> advances a b \<Longrightarrow> advances a c"
  by (auto simp: notify_def advances_def keeps_def reward_notes_def split: option.splits)

section \<open>Every request keeps the invariant\<close>

lemma advances_new_season:
  assumes "seasons_ok (seasons a) \<Longrightarrow> season_id s \<notin> season_id ` set (seasons a) \<and> season_number s \<notin> season_number ` set (seasons a)"
    and "season_ok s"
  shows "advances a (a\<lparr>seasons := seasons a @ [s]\<rparr>)"
proof -
  have "list_all2 season_evolves (seasons a) (seasons a)" by (simp add: list.rel_refl)
  then show ?thesis using assms by (auto simp: advances_def keeps_def table_evolves_def reward_notes_def seasons_ok_def)
qed

lemma save_new_season:
  "season_id s \<notin> season_id ` set (seasons a) \<Longrightarrow> save_season s a = a\<lparr>seasons := seasons a @ [s]\<rparr>"
  by (simp add: save_season_def save_row_def)

lemma save_new_season_again:
  assumes "season_id s \<notin> season_id ` set (seasons a)" "season_id s' = season_id s"
  shows "save_season s' (save_season s a) = a\<lparr>seasons := seasons a @ [s']\<rparr>"
proof -
  have "update_row season_id (season_id s) (\<lambda>_. s') (seasons a @ [s]) = seasons a @ [s']"
    using update_row_absent [OF assms(1), of "\<lambda>_. s'"] by (simp add: update_row_def)
  then show ?thesis using assms by (simp add: save_new_season) (simp add: save_season_def save_row_def)
qed

lemma create_season_cases:
  obtains (refused) "snd (create_season now newId dto a) = a"
  | (created) s where "snd (create_season now newId dto a) = a\<lparr>seasons := seasons a @ [s]\<rparr>"
      "season_id s \<notin> season_id ` set (seasons a)" "season_number s \<notin> season_number ` set (seasons a)" "season_ok s"
proof (cases "(\<exists>st en pool. dto_start_time dto = Some st \<and> dto_end_time dto = Some en \<and> st < en \<and>
    dto_season_number dto \<notin> season_number ` set (seasons a) \<and> newId \<notin> season_id ` set (seasons a) \<and>
    \<not> hasActiveSeasonOverlappingRange st en a \<and> bigint_column (dto_reward_pool_stroops dto) = Some pool)")
  case False
  then have "snd (create_season now newId dto a) = a"
    by (auto simp: create_season_def split: option.splits)
  then show thesis by (rule refused)
next
  case True
  then obtain st en pool where c: "dto_start_time dto = Some st" "dto_end_time dto = Some en" "st < en"
    "dto_season_number dto \<notin> season_number ` set (seasons a)" "newId \<notin> season_id ` set (seasons a)"
    "\<not> hasActiveSeasonOverlappingRange st en a" "bigint_column (dto_reward_pool_stroops dto) = Some pool" by blast
  let ?s = "new_season now newId st en pool dto"
  have s: "season_id ?s = newId" "season_number ?s = dto_season_number dto" "season_ok ?s" "season_ok (?s\<lparr>on_chain_season_id := x, soroban_tx_hash := y\<rparr>)"
    for x y using c(3) by (simp_all add: new_season_def season_ok_def)
  show thesis
  proof (cases "sync_soroban dto")
    case False
    with c s have "snd (create_season now newId dto a) = a\<lparr>seasons := seasons a @ [?s]\<rparr>"
      by (simp add: create_season_def save_new_season Let_def)
    with c s show thesis by (intro created) auto
  next
    case True
    with c obtain x y where "snd (create_season now newId dto a) =
        save_season (?s\<lparr>on_chain_season_id := x, soroban_tx_hash := y\<rparr>) (save_season ?s a)"
      by (simp add: create_season_def createSeason_call_def Let_def)
    with c s have "snd (create_season now newId dto a) = a\<lparr>seasons := seasons a @ [?s\<lparr>on_chain_season_id := x, soroban_tx_hash := y\<rparr>]\<rparr>"
      by (simp add: save_new_season_again)
    from created [OF this] c s show thesis by simp
  qed
qed

lemma create_season_advances: "advances a (snd (create_season now newId dto a))"
  by (cases rule: create_season_cases [of now newId dto a]) (simp_all add: advances_new_season)

lemma finalize_evolves:
  assumes "find_season k a = Some s" "\<not> season_finalized s" "seasons_ok (seasons a)"
  shows "advances a (save_season (s\<lparr>season_active := False, season_finalized := True, top_winner := tw\<rparr>) a)"
  using assms by (auto dest!: find_row_SomeD intro!: advances_save [of a s] simp: season_evolves_def season_ok_def)

lemma finalizeSeason_advances:
  assumes "seasons_ok (seasons a)"
  shows "advances a (snd (finalizeSeason env k a))"
  using assms by (auto simp: finalizeSeason_def Let_def finalize_evolves split: option.splits sum.splits prod.splits
      elim!: advances_told)


lemma sorted_head:
  assumes "sort_key f xs = x # ys"
  shows "x \<in> set xs" "\<forall>y \<in> set xs. f x \<le> f y"
proof -
  have "set (x # ys) = set xs" using assms set_sort [of f xs] by (simp only:)
  moreover have "sorted (map f (x # ys))" using assms sorted_sort_key [of f xs] by (simp only:)
  ultimately show "x \<in> set xs" "\<forall>y \<in> set xs. f x \<le> f y" by (auto simp flip: \<open>set (x # ys) = set xs\<close>)
qed

lemma activate_same: "activateDueSeasonWithManager now a = activateDueSeason now a"
  by (simp add: activateDueSeasonWithManager_def activateDueSeason_def)

lemma activateDueSeason_cases:
  obtains (none) "activateDueSeason now a = (None, a)"
      "\<forall>s \<in> set (seasons a). \<not> season_active s \<longrightarrow> season_finalized s \<or> starts_at s > now \<or> ends_at s \<le> now"
  | (opened) s where "s \<in> set (seasons a)" "\<not> season_active s" "\<not> season_finalized s" "starts_at s \<le> now" "ends_at s > now"
      "activateDueSeason now a = (Some (s\<lparr>season_active := True\<rparr>), save_season (s\<lparr>season_active := True\<rparr>) a)"
proof (cases "sort_key season_number (filter (\<lambda>s. \<not> season_active s \<and> \<not> season_finalized s \<and>
    starts_at s \<le> now \<and> ends_at s > now) (seasons a))")
  case Nil
  then have "activateDueSeason now a = (None, a)" by (simp add: activateDueSeason_def)
  moreover have "filter (\<lambda>s. \<not> season_active s \<and> \<not> season_finalized s \<and> starts_at s \<le> now \<and> ends_at s > now) (seasons a) = []"
    using arg_cong [OF Nil, of length] by simp
  then have "\<forall>s \<in> set (seasons a). \<not> season_active s \<longrightarrow> season_finalized s \<or> starts_at s > now \<or> ends_at s \<le> now"
    unfolding filter_empty_conv by force
  ultimately show thesis by (rule none)
next
  case (Cons s rest)
  from sorted_head(1) [OF this] Cons show thesis by (intro opened [of s]) (auto simp: activateDueSeason_def Let_def)
qed

lemma open_advances:
  assumes "seasons_ok (seasons a)" "s \<in> set (seasons a)" "\<not> season_finalized s"
  shows "advances a (save_season (s\<lparr>season_active := True\<rparr>) a)"
    "now < starts_at s \<Longrightarrow> advances a (save_season (s\<lparr>season_active := True, starts_at := now\<rparr>) a)"
  using assms by (auto intro!: advances_save [of a s] simp: season_evolves_def season_ok_def)

lemma activateDueSeason_advances: "seasons_ok (seasons a) \<Longrightarrow> advances a (snd (activateDueSeason now a))"
  by (cases rule: activateDueSeason_cases [of now a]) (simp_all add: open_advances)

lemma in_save_season: "s \<in> set (seasons (save_season s a))"
  by (auto simp: save_season_def save_row_def update_row_def image_iff)

lemma snapshot_advances:
  assumes "seasons_ok (seasons a)" "s \<in> set (seasons a)" "\<not> season_finalized s" "season_evolves s s'" "season_finalized s'"
    "rollover_processed_at s' \<noteq> None"
  shows "advances a (snapshotLeaderboard s' (save_season s' a))"
proof -
  have "\<not> snapshot_ok (seasons a) r" if "snapshot_season r = season_id s" for r
    using that assms(1-3) by (auto simp: snapshot_ok_def seasons_ok_def distinct_map dest: inj_onD)
  moreover have "snapshot_ok (seasons (save_season s' a)) r" if "snapshot_season r = season_id s'" for r
    using that assms(5,6) in_save_season by (auto simp: snapshot_ok_def)
  moreover have "season_id s' = season_id s" using assms(4) season_evolves_keys by blast
  ultimately show ?thesis using advances_save [OF assms(1,2,4)]
    by (auto simp: snapshotLeaderboard_def advances_def keeps_def reward_notes_def list_all_iff save_season_def split: if_splits)
qed

lemma find_ending_SomeD:
  assumes "find_ending now a = Some s"
  shows "s \<in> set (seasons a)" "season_active s" "ends_at s \<le> now" "rollover_processed_at s = None"
  using assms sorted_head(1) [of ends_at "filter (\<lambda>s. season_active s \<and> ends_at s \<le> now \<and> rollover_processed_at s = None) (seasons a)" s]
  by (auto simp: find_ending_def split: list.splits)

text \<open>The row a rollover leaves of the season it closes.\<close>

definition rolled :: "instant \<Rightarrow> user option \<Rightarrow> season \<Rightarrow> season" where
  "rolled now tw s = s\<lparr>season_active := False, season_finalized := True, top_winner := map_option user_id tw,
     rollover_processed_at := Some now\<rparr>"

lemma rolled_sel [simp]:
  "season_id (rolled now tw s) = season_id s" "season_number (rolled now tw s) = season_number s"
  "season_finalized (rolled now tw s)" "\<not> season_active (rolled now tw s)"
  "top_winner (rolled now tw s) = map_option user_id tw" "rollover_processed_at (rolled now tw s) = Some now"
  "reward_pool_stroops (rolled now tw s) = reward_pool_stroops s"
  "starts_at (rolled now tw s) = starts_at s" "ends_at (rolled now tw s) = ends_at s"
  by (simp_all add: rolled_def)

text \<open>The second half of the transaction: the next season by number, or one that is due.\<close>

definition open_next :: "instant \<Rightarrow> int \<Rightarrow> arena \<Rightarrow> season option \<times> arena" where
  "open_next now n a =
     (case find_row season_number n (seasons a) of
        Some s \<Rightarrow> if \<not> season_finalized s
          then let s' = s\<lparr>season_active := True, starts_at := (if starts_at s > now then now else starts_at s)\<rparr>
               in (Some s', save_season s' a)
          else activateDueSeason now a
      | None \<Rightarrow> activateDueSeason now a)"

lemma rollover_transaction_eq:
  "rollover_transaction env now s a =
     (if \<not> update_all_ok env then (Inl (PlainError ''Empty criteria(s) are not allowed for the update method.''), a)
      else let tw = top_user (users (base a));
               (opened, a') = open_next now (season_number s + 1)
                 (reset_points (snapshotLeaderboard (rolled now tw s) (save_season (rolled now tw s) a)))
           in (Inr (rolled now tw s, tw, opened), a'))"
  by (simp add: rollover_transaction_def open_next_def rolled_def activate_same Let_def case_prod_unfold split: option.splits)

lemma open_next_advances: "seasons_ok (seasons a) \<Longrightarrow> advances a (snd (open_next now n a))"
  by (auto simp: open_next_def activateDueSeason_advances Let_def open_advances dest!: find_row_SomeD split: option.splits)

lemma rolled_evolves: "season_active s \<Longrightarrow> season_ok s \<Longrightarrow> season_evolves s (rolled now tw s)"
  by (auto simp: season_evolves_def season_ok_def rolled_def)

lemma seasons_reset [simp]: "seasons (reset_points a) = seasons a"
  by (simp add: reset_points_def)

lemma seasons_snapshot [simp]: "seasons (snapshotLeaderboard s a) = seasons a"
  by (simp add: snapshotLeaderboard_def)

lemma rollover_transaction_advances:
  assumes "season_inv a" "s \<in> set (seasons a)" "season_active s"
    and "rollover_transaction env now s a = (Inr (ended, tw, opened), a')"
  shows "advances a a'" "ended \<in> set (seasons a')" "ended = rolled now tw s" "tw = top_user (users (base a))"
proof -
  let ?r = "rolled now tw s"
  let ?b = "reset_points (snapshotLeaderboard ?r (save_season ?r a))"
  have eq: "ended = ?r" "tw = top_user (users (base a))" "(opened, a') = open_next now (season_number s + 1) ?b"
    using assms(4) by (auto simp: rollover_transaction_eq Let_def split: if_splits prod.splits)
  have ok: "seasons_ok (seasons a)" using assms(1) by (simp add: season_inv_def)
  have "season_evolves s ?r" using assms(2,3) ok by (auto simp: seasons_ok_def list_all_iff intro: rolled_evolves)
  then have b: "advances a ?b"
    using snapshot_advances [of a s ?r] ok assms(2,3) by (auto simp: seasons_ok_def list_all_iff season_ok_def)
  then have "seasons_ok (seasons ?b)" using ok by (simp add: advances_def keeps_def table_evolves_def)
  from open_next_advances [OF this, of now "season_number s + 1"] have c: "advances ?b a'" using eq(3) by (metis snd_conv)
  from advances_trans [OF b c] show "advances a a'" .
  have "?r \<in> set (seasons ?b)" by (simp add: in_save_season)
  with c show "ended \<in> set (seasons a')" unfolding eq(1) using evolves_kept [of "seasons ?b" "seasons a'" ?r] by (simp add: advances_def keeps_def)
  show "ended = ?r" "tw = top_user (users (base a))" by (fact eq)+
qed


section \<open>The ledger\<close>

lemma season_entry:
  assumes "ledger_ok a" "seasons_ok (seasons a)" "s \<in> set (seasons a)" "e \<in> set (distribution a)" "entry_season e = season_id s"
  shows "top_winner s = Some (entry_recipient e)"
proof -
  from assms(1,4) obtain s' where s': "s' \<in> set (seasons a)" "season_id s' = entry_season e" "top_winner s' = Some (entry_recipient e)"
    by (auto simp: ledger_ok_def list_all_iff entry_ok_def)
  with assms(2,3,5) have "s' = s" by (auto simp: seasons_ok_def distinct_map dest: inj_onD)
  with s'(3) show ?thesis by simp
qed

definition payable :: "season \<Rightarrow> user \<Rightarrow> arena \<Rightarrow> bool" where
  "payable s w a \<longleftrightarrow> s \<in> set (seasons a) \<and> season_finalized s \<and> rollover_processed_at s \<noteq> None \<and>
     top_winner s = Some (user_id w) \<and> 0 < reward_pool_stroops s"

lemma claim_entry_ok:
  assumes inv: "season_inv a" and s: "payable s w a"
    and unpaid: "\<And>e. find_entry (season_id s) (user_id w) a = Some e \<Longrightarrow> entry_status e \<noteq> LEDGER_SUCCEEDED"
    and claim: "claim_entry newId s w a = (Inr e, a1)"
  shows "season_inv a1" "e \<in> set (distribution a1)" "entry_season e = season_id s" "entry_status e \<noteq> LEDGER_SUCCEEDED"
    "payable s w a1"
proof -
  have ok: "ledger_ok a" "seasons_ok (seasons a)" using inv by (simp_all add: season_inv_def)
  have "season_inv a1 \<and> e \<in> set (distribution a1) \<and> entry_season e = season_id s \<and> entry_status e \<noteq> LEDGER_SUCCEEDED \<and> payable s w a1"
  proof (cases "find_entry (season_id s) (user_id w) a")
    case (Some x)
    then have "x \<in> set (distribution a)" "entry_season x = season_id s" by (auto simp: find_entry_def find_Some_iff)
    with Some claim inv unpaid s show ?thesis by (auto simp: claim_entry_def)
  next
    case None
    let ?e = "\<lparr>entry_id = newId, entry_season = season_id s, entry_recipient = user_id w, entry_address = stellar_address w,
      entry_amount = reward_pool_stroops s, entry_status = LEDGER_PENDING, failure_reason = None\<rparr>"
    from None claim have e: "e = ?e" "a1 = a\<lparr>distribution := distribution a @ [?e]\<rparr>" "newId \<notin> entry_id ` set (distribution a)"
      by (auto simp: claim_entry_def Let_def split: if_splits)
    have "season_id s \<notin> entry_season ` set (distribution a)"
    proof
      assume "season_id s \<in> entry_season ` set (distribution a)"
      then obtain x where x: "x \<in> set (distribution a)" "entry_season x = season_id s" by auto
      with season_entry [OF ok _ x] s have "entry_recipient x = user_id w" by (auto simp: payable_def)
      with None x show False by (auto simp: find_entry_def find_None_iff)
    qed
    moreover have "entry_ok (seasons a) ?e" using s by (auto simp: entry_ok_def payable_def)
    ultimately have "ledger_ok a1" using ok(1) e by (auto simp: ledger_ok_def reward_notes_def paid_entries_def)
    with e inv s show ?thesis by (simp add: season_inv_def payable_def)
  qed
  then show "season_inv a1" "e \<in> set (distribution a1)" "entry_season e = season_id s" "entry_status e \<noteq> LEDGER_SUCCEEDED"
    "payable s w a1" by simp_all
qed

lemma set_entry_inv:
  assumes inv: "season_inv a" and e: "e \<in> set (distribution a)" "entry_status e \<noteq> LEDGER_SUCCEEDED"
    and b: "seasons b = seasons a" "snapshots b = snapshots a" "distribution b = distribution a"
    and told: "\<And>k. reward_notes k b = reward_notes k a + of_bool (st = LEDGER_SUCCEEDED \<and> k = entry_season e)"
  shows "season_inv (set_entry (entry_id e) st why b)"
proof -
  let ?f = "\<lambda>e. e\<lparr>entry_status := st, failure_reason := (if why = None then failure_reason e else why)\<rparr>"
  have ok: "ledger_ok a" using inv by (simp add: season_inv_def)
  then have "unique_keys entry_id (distribution a)" by (simp add: ledger_ok_def)
  from update_row_split [OF this e(1)] obtain xs ys where split: "distribution a = xs @ e # ys"
    "\<And>f. update_row entry_id (entry_id e) f (distribution a) = xs @ f e # ys" by blast
  have dist: "distribution (set_entry (entry_id e) st why b) = xs @ ?f e # ys"
    by (simp add: set_entry_def b split(2))
  have "entry_ok (seasons a) (?f e)" using ok split(1) by (simp add: ledger_ok_def entry_ok_def)
  moreover have "reward_notes k b = length (paid_entries k (set_entry (entry_id e) st why b))" for k
  proof -
    have "reward_notes k a = length (paid_entries k a)" using ok by (simp add: ledger_ok_def)
    then show ?thesis using told [of k] e(2) by (auto simp: paid_entries_def dist split(1))
  qed
  ultimately have "ledger_ok (set_entry (entry_id e) st why b)"
    using ok split(1) dist b(1) by (auto simp: ledger_ok_def reward_notes_def set_entry_def)
  with inv b show ?thesis by (simp add: season_inv_def set_entry_def)
qed

lemma pay_entry_inv:
  assumes "season_inv a" "e \<in> set (distribution a)" "entry_status e \<noteq> LEDGER_SUCCEEDED" "entry_season e = season_id s"
  shows "season_inv (snd (pay_entry env s w e a))"
proof (cases "notify_error env SeasonRewardsNote")
  case None
  have "season_inv (set_entry (entry_id e) LEDGER_SUCCEEDED None (a\<lparr>notifications := notifications a @
      [\<lparr>note_address = stellar_address w, note_kind = SeasonRewardsNote, note_season = season_id s\<rparr>]\<rparr>))"
    by (rule set_entry_inv [OF assms(1-3)]) (simp_all add: reward_notes_def assms(4))
  then show ?thesis using None by (simp add: pay_entry_def notify_def)
next
  case (Some err)
  have "season_inv (set_entry (entry_id e) LEDGER_FAILED (Some err) a)"
    by (rule set_entry_inv [OF assms(1-3)]) simp_all
  then show ?thesis using Some by (simp add: pay_entry_def notify_def)
qed

lemma pay_entry_frames: "seasons (snd (pay_entry env s w e a)) = seasons a" "snapshots (snd (pay_entry env s w e a)) = snapshots a"
  by (simp_all add: pay_entry_def notify_def set_entry_def split: option.splits)

text \<open>A call either changes nothing or pays the winner through a row it claims.\<close>

lemma computeSeasonRewards_cases:
  obtains (skips) r where "computeSeasonRewards env newId s tw a = (r, a)"
  | (pays) w e a1 where "tw = Some w \<or> tw = None \<and> Option.bind (find_season (season_id s) a) (\<lambda>r. winner_of r a) = Some w"
      "0 < reward_pool_stroops s"
      "\<And>x. find_entry (season_id s) (user_id w) a = Some x \<Longrightarrow> entry_status x \<noteq> LEDGER_SUCCEEDED"
      "claim_entry newId s w a = (Inr e, a1)" "computeSeasonRewards env newId s tw a = pay_entry env s w e a1"
proof (cases "reward_pool_stroops s \<le> 0")
  case False
  define ww where "ww = (case tw of Some u \<Rightarrow> Some u | None \<Rightarrow> Option.bind (find_season (season_id s) a) (\<lambda>r. winner_of r a))"
  show thesis
  proof (cases ww)
    case None
    with False show thesis by (intro skips) (simp add: computeSeasonRewards_def ww_def [symmetric])
  next
    case (Some w)
    have tw: "tw = Some w \<or> tw = None \<and> Option.bind (find_season (season_id s) a) (\<lambda>r. winner_of r a) = Some w"
      using Some by (auto simp: ww_def split: option.splits)
    define paid where "paid = (case find_entry (season_id s) (user_id w) a of
      Some e \<Rightarrow> entry_status e = LEDGER_SUCCEEDED | None \<Rightarrow> False)"
    have run: "computeSeasonRewards env newId s tw a = (if stellar_address w = [] then (Inr False, a) else if paid then (Inr True, a)
        else case claim_entry newId s w a of (Inl e, a1) \<Rightarrow> (Inl e, a1) | (Inr e, a1) \<Rightarrow> pay_entry env s w e a1)"
      using False Some by (simp add: computeSeasonRewards_def ww_def [symmetric] paid_def Let_def)
    show thesis
    proof (cases "stellar_address w = [] \<or> paid \<or> isl (fst (claim_entry newId s w a))")
      case True
      then have "snd (computeSeasonRewards env newId s tw a) = a" unfolding run
        by (auto simp: claim_entry_def Let_def split: option.splits)
      then show thesis using skips by (metis prod.collapse)
    next
      case open': False
      then obtain e a1 where c: "claim_entry newId s w a = (Inr e, a1)" by (metis isl_def prod.collapse sum.collapse(2))
      then show thesis using tw False open' run by (intro pays [of w e a1]) (auto simp: paid_def)
    qed
  qed
qed (auto intro: skips simp: computeSeasonRewards_def)

lemma computeSeasonRewards_inv:
  assumes "season_inv a" "s \<in> set (seasons a)" "season_finalized s" "rollover_processed_at s \<noteq> None"
    "top_winner s = map_option user_id tw"
  shows "season_inv (snd (computeSeasonRewards env newId s tw a)) \<and> keeps a (snd (computeSeasonRewards env newId s tw a))"
proof (cases rule: computeSeasonRewards_cases [of env newId s tw a])
  case (skips r)
  then show ?thesis using assms(1) by simp
next
  case (pays w e a1)
  have "find_season (season_id s) a = Some s"
    using assms(1,2) find_row_distinct by (auto simp: season_inv_def seasons_ok_def)
  with pays(1) assms(5) have "tw = Some w" by (auto simp: winner_of_def)
  with assms pays(2) have "payable s w a" by (simp add: payable_def)
  note c = claim_entry_ok [OF assms(1) this pays(3,4)]
  have "seasons a1 = seasons a" "snapshots a1 = snapshots a"
    using pays(4) by (auto simp: claim_entry_def Let_def split: option.splits if_splits)
  then have "keeps a (snd (pay_entry env s w e a1))" by (simp add: keeps_def pay_entry_frames)
  with pay_entry_inv [OF c(1,2,4,3)] pays(5) show ?thesis by simp
qed


section \<open>The whole rollover\<close>

lemma emit_advances: "advances a b \<Longrightarrow> advances a (snd (emitRolloverEvents env ended opened b))"
  by (auto simp: emitRolloverEvents_def Let_def notify_def advances_def keeps_def reward_notes_def split: option.splits)

lemma after_rollover_shape: "advances (snd (computeSeasonRewards env newId s tw a)) (snd (after_rollover env newId s tw opened a))"
proof (cases "computeSeasonRewards env newId s tw a")
  case (Pair r a1)
  have emit: "advances a1 c" if "emitRolloverEvents env x y b = (z, c)" "advances a1 b" for x y b z c
    using emit_advances [OF that(2), of env x y] that(1) by simp
  show ?thesis using Pair
    by (auto simp: after_rollover_def split: sum.splits prod.splits option.splits if_splits
        elim!: advances_told emit)
qed

definition step_ok :: "arena \<Rightarrow> arena \<Rightarrow> bool" where
  "step_ok a a' \<longleftrightarrow> season_inv a' \<and> keeps a a'"

lemma advances_step_ok: "advances a a' \<Longrightarrow> season_inv a \<Longrightarrow> step_ok a a'"
  using advances_inv by (auto simp: step_ok_def advances_def)

lemma step_ok_trans: "step_ok a b \<Longrightarrow> step_ok b c \<Longrightarrow> step_ok a c"
  using keeps_trans by (auto simp: step_ok_def)

text \<open>A tick closes the season that has ended, or opens one that is due, or does nothing.\<close>

lemma processSeasonRollover_cases:
  assumes "season_inv a"
  obtains (idle) "find_ending now a = None" "fst (activateDueSeason now a) = None" "snd (processSeasonRollover env now newId a) = a"
  | (opens) s where "find_ending now a = None" "fst (activateDueSeason now a) = Some s"
      "advances (snd (activateDueSeason now a)) (snd (processSeasonRollover env now newId a))"
      "seasons (snd (processSeasonRollover env now newId a)) = seasons (snd (activateDueSeason now a))"
  | (fails) "\<not> update_all_ok env" "snd (processSeasonRollover env now newId a) = a"
  | (rolls) s tw opened a1 where "find_ending now a = Some s" "update_all_ok env"
      "rollover_transaction env now s a = (Inr (rolled now tw s, tw, opened), a1)"
      "snd (processSeasonRollover env now newId a) = snd (after_rollover env newId (rolled now tw s) tw opened a1)"
proof (cases "find_ending now a")
  case None
  show thesis
  proof (cases rule: activateDueSeason_cases [of now a])
    case none
    then show thesis using None by (intro idle) (auto simp: processSeasonRollover_def)
  next
    case (opened s)
    then show thesis using None emit_advances [OF advances_refl, of _ env None "Some (s\<lparr>season_active := True\<rparr>)"]
      by (intro opens [of "s\<lparr>season_active := True\<rparr>"])
         (auto simp: processSeasonRollover_def emitRolloverEvents_def Let_def)
  qed
next
  case (Some s)
  have found: "find_season (season_id s) a = Some s"
    using find_ending_SomeD(1) [OF Some] assms find_row_distinct by (auto simp: season_inv_def seasons_ok_def)
  show thesis
  proof (cases "update_all_ok env")
    case False
    then show thesis using Some found find_ending_SomeD(4) [OF Some]
      by (intro fails) (auto simp: processSeasonRollover_def rollover_transaction_eq)
  next
    case True
    let ?tw = "top_user (users (base a))"
    obtain opened a1 where "open_next now (season_number s + 1)
        (reset_points (snapshotLeaderboard (rolled now ?tw s) (save_season (rolled now ?tw s) a))) = (opened, a1)" by fastforce
    with True have tx: "rollover_transaction env now s a = (Inr (rolled now ?tw s, ?tw, opened), a1)"
      by (simp add: rollover_transaction_eq Let_def)
    with Some found find_ending_SomeD(4) [OF Some]
    have "snd (processSeasonRollover env now newId a) = snd (after_rollover env newId (rolled now ?tw s) ?tw opened a1)"
      by (simp add: processSeasonRollover_def)
    with Some True tx show thesis by (rule rolls)
  qed
qed

lemma rollover_step_ok:
  assumes "season_inv a"
  shows "step_ok a (snd (processSeasonRollover env now newId a))"
  using assms
proof (cases rule: processSeasonRollover_cases [of a now env newId])
  case (opens s)
  have "advances a (snd (activateDueSeason now a))" using assms by (simp add: season_inv_def activateDueSeason_advances)
  from advances_trans [OF this opens(3)] show ?thesis using assms by (rule advances_step_ok)
next
  case (rolls s tw opened a1)
  note s = find_ending_SomeD [OF rolls(1)]
  note tx = rollover_transaction_advances [OF assms s(1,2) rolls(3)]
  have a1: "step_ok a a1" using advances_step_ok [OF tx(1) assms] .
  then have inv1: "season_inv a1" by (simp add: step_ok_def)
  let ?b = "snd (computeSeasonRewards env newId (rolled now tw s) tw a1)"
  have b: "step_ok a1 ?b"
    using computeSeasonRewards_inv [OF inv1 tx(2)] unfolding step_ok_def by simp
  then have "step_ok ?b (snd (after_rollover env newId (rolled now tw s) tw opened a1))"
    using after_rollover_shape advances_step_ok unfolding step_ok_def by blast
  with a1 b rolls(4) step_ok_trans show ?thesis by metis
qed (use assms in \<open>simp_all add: step_ok_def\<close>)

lemma handle_season_ok: "season_inv a \<Longrightarrow> step_ok a (handle_season r a)"
proof (cases r)
  case (CreateSeason now newId dto)
  then show "season_inv a \<Longrightarrow> ?thesis" using create_season_advances advances_step_ok by simp
next
  case (FinalizeSeason env k)
  then show "season_inv a \<Longrightarrow> ?thesis" using finalizeSeason_advances advances_step_ok by (simp add: season_inv_def)
next
  case (Tick env now newId)
  then show "season_inv a \<Longrightarrow> ?thesis" using rollover_step_ok by (simp add: handleRolloverTick_def)
next
  case (Outside w)
  then show "season_inv a \<Longrightarrow> ?thesis" using advances_step_ok [of a "a\<lparr>base := w\<rparr>"] by simp
qed

interpretation season_service: service handle_season season_inv keeps
  by unfold_locales (use handle_season_ok keeps_trans in \<open>auto simp: step_ok_def\<close>)

definition fresh_arena :: "arena \<Rightarrow> bool" where
  "fresh_arena a \<longleftrightarrow> seasons a = [] \<and> snapshots a = [] \<and> distribution a = [] \<and> notifications a = []"

lemma fresh_arena_inv: "fresh_arena a \<Longrightarrow> season_inv a"
  by (simp add: fresh_arena_def season_inv_def seasons_ok_def ledger_ok_def reward_notes_def paid_entries_def)

lemma reachable_inv: "fresh_arena a \<Longrightarrow> season_inv (handle_seasons rs a)"
  using season_service.session [OF fresh_arena_inv] by (simp add: handle_seasons_def)


section \<open>What the service guarantees\<close>

text \<open>
  C32. A season's pool is distributed at most once.  After any sequence of season requests and
  ticks, with notifications that fail at any point and any activity of the other services, each
  season has at most one reward notification, the confirmed total of the reconciliation is the pool
  exactly when it was sent and nothing otherwise, at most one recipient is missing, and every
  ledger row of the season names its winner.
\<close>

theorem season_pool_paid_once:
  assumes "fresh_arena a0" "a = handle_seasons rs a0" "s \<in> set (seasons a)"
  shows "totalDistributed (reconcileSeasonDistribution (season_id s) (reward_pool_stroops s) a) =
      int (reward_notes (season_id s) a) * reward_pool_stroops s \<and>
    reward_notes (season_id s) a + length (missingRecipients (reconcileSeasonDistribution (season_id s) (reward_pool_stroops s) a)) \<le> 1 \<and>
    (\<forall>e \<in> set (distribution a). entry_season e = season_id s \<longrightarrow> top_winner s = Some (entry_recipient e))"
proof -
  have inv: "season_inv a" using assms(1,2) reachable_inv by simp
  then have ok: "ledger_ok a" "seasons_ok (seasons a)" by (simp_all add: season_inv_def)
  have told: "reward_notes (season_id s) a = length (filter (\<lambda>e. entry_status e = LEDGER_SUCCEEDED)
      (filter (\<lambda>e. entry_season e = season_id s) (distribution a)))"
    using ok(1) by (simp add: ledger_ok_def paid_entries_def conj_commute)
  have "unique_keys entry_season (distribution a)" using ok(1) by (simp add: ledger_ok_def)
  from unique_filter [OF this, of "season_id s"] consider
      (none) "filter (\<lambda>e. entry_season e = season_id s) (distribution a) = []"
    | (one) e where "e \<in> set (distribution a)" "entry_season e = season_id s"
        "filter (\<lambda>e. entry_season e = season_id s) (distribution a) = [e]" by blast
  then show ?thesis
  proof cases
    case none
    then show ?thesis using told season_entry [OF ok assms(3)] by (simp add: reconcileSeasonDistribution_def Let_def)
  next
    case one
    from one(1) ok(1) obtain s' where s': "s' \<in> set (seasons a)" "season_id s' = entry_season e" "entry_amount e = reward_pool_stroops s'"
      by (auto simp: ledger_ok_def list_all_iff entry_ok_def)
    with ok(2) assms(3) one(2) have "s' = s" by (auto simp: seasons_ok_def distinct_map dest: inj_onD)
    with one s' told season_entry [OF ok assms(3)] show ?thesis by (simp add: reconcileSeasonDistribution_def Let_def)
  qed
qed

lemma top_user_max:
  assumes "top_user us = Some w"
  shows "w \<in> set us" "\<forall>u \<in> set us. season_points u \<le> season_points w"
  using assms sorted_head [of "\<lambda>u. - season_points u" us w] by (auto simp: top_user_def split: list.splits)

lemma sort_key_Nil_iff [simp]: "sort_key f xs = [] \<longleftrightarrow> xs = []"
  by (metis length_0_conv length_sort)

lemma top_user_None: "top_user us = None \<longleftrightarrow> us = []"
  by (auto simp: top_user_def split: list.splits)

lemma standings_sorted: "mset (standings_of us) = mset us" "sorted_wrt (\<lambda>u v. season_points v \<le> season_points u) (standings_of us)"
proof -
  show "mset (standings_of us) = mset us" by (simp add: standings_of_def)
  have "sorted_wrt (\<lambda>u v. (- season_points u, user_id u) \<le> (- season_points v, user_id v)) (standings_of us)"
    using sorted_sort_key [of "\<lambda>u. (- season_points u, user_id u)" us] by (simp add: standings_of_def sorted_map)
  then show "sorted_wrt (\<lambda>u v. season_points v \<le> season_points u) (standings_of us)"
    by (rule sorted_wrt_mono_rel [rotated]) auto
qed


text \<open>What happens after the commit leaves the users, the seasons and the snapshots alone.\<close>

definition core :: "arena \<Rightarrow> world \<times> season list \<times> season_snapshot list" where
  "core a = (base a, seasons a, snapshots a)"

lemma notify_core: "notify env kind addr k a = (r, b) \<Longrightarrow> core b = core a"
  by (auto simp: core_def notify_def split: option.splits)

lemma emit_core: "emitRolloverEvents env x y a = (r, b) \<Longrightarrow> core b = core a"
  by (auto simp: emitRolloverEvents_def Let_def core_def notify_def split: option.splits if_splits)

lemma computeSeasonRewards_core: "computeSeasonRewards env newId s tw a = (r, b) \<Longrightarrow> core b = core a"
  by (cases rule: computeSeasonRewards_cases [of env newId s tw a])
     (auto simp: core_def pay_entry_def notify_def set_entry_def claim_entry_def Let_def split: option.splits if_splits)

lemma after_rollover_core: "core (snd (after_rollover env newId s tw opened a)) = core a"
  by (auto simp: after_rollover_def split: sum.splits prod.splits option.splits if_splits
      dest!: notify_core emit_core computeSeasonRewards_core)

lemma open_next_frames: "snapshots (snd (open_next now n a)) = snapshots a" "base (snd (open_next now n a)) = base a"
  by (auto simp: open_next_def activateDueSeason_def save_season_def Let_def split: option.splits list.splits)

abbreviation closing :: "instant \<Rightarrow> season \<Rightarrow> arena \<Rightarrow> arena" where
  "closing now s a \<equiv> snapshotLeaderboard (rolled now (top_user (users (base a))) s) (save_season (rolled now (top_user (users (base a))) s) a)"

lemma tick_core:
  assumes "season_inv a" "find_ending now a = Some s" "update_all_ok env"
  shows "core (handle_season (Tick env now newId) a) = core (snd (open_next now (season_number s + 1) (reset_points (closing now s a))))"
    "rolled now (top_user (users (base a))) s \<in> set (seasons (handle_season (Tick env now newId) a))"
proof -
  let ?tw = "top_user (users (base a))"
  from assms(1) obtain opened a1 where tx: "rollover_transaction env now s a = (Inr (rolled now ?tw s, ?tw, opened), a1)"
    and run: "snd (processSeasonRollover env now newId a) = snd (after_rollover env newId (rolled now ?tw s) ?tw opened a1)"
    by (cases rule: processSeasonRollover_cases [of a now env newId])
       (use assms(2,3) in \<open>auto simp: rollover_transaction_eq Let_def split: prod.splits\<close>)
  have core: "core (handle_season (Tick env now newId) a) = core a1"
    by (simp add: handleRolloverTick_def run after_rollover_core)
  have "a1 = snd (open_next now (season_number s + 1) (reset_points (closing now s a)))"
    using tx assms(3) by (auto simp: rollover_transaction_eq Let_def split: prod.splits)
  with core show "core (handle_season (Tick env now newId) a) = core (snd (open_next now (season_number s + 1) (reset_points (closing now s a))))"
    by simp
  have "s \<in> set (seasons a)" "season_active s" using find_ending_SomeD [OF assms(2)] by auto
  from rollover_transaction_advances(2) [OF assms(1) this tx] core
  show "rolled now ?tw s \<in> set (seasons (handle_season (Tick env now newId) a))" by (simp add: core_def)
qed

lemma tick_rolls:
  assumes "season_inv a" "find_ending now a = Some s" "update_all_ok env"
  shows "snapshots (handle_season (Tick env now newId) a) = snapshots (closing now s a)"
    "users (base (handle_season (Tick env now newId) a)) = map (\<lambda>u. u\<lparr>season_points := 0\<rparr>) (users (base a))"
  using tick_core(1) [OF assms, of newId]
  by (simp_all add: core_def open_next_frames reset_points_def snapshotLeaderboard_def save_season_def)

lemma no_snapshot_before_rollover:
  assumes "season_inv a" "find_ending now a = Some s"
  shows "season_id s \<notin> snapshot_season ` set (snapshots a)"
proof
  assume "season_id s \<in> snapshot_season ` set (snapshots a)"
  then obtain x where x: "x \<in> set (snapshots a)" "snapshot_season x = season_id s" by auto
  with assms(1) obtain s' where "s' \<in> set (seasons a)" "season_id s' = season_id s" "rollover_processed_at s' \<noteq> None"
    by (auto simp: season_inv_def list_all_iff snapshot_ok_def)
  moreover from this(1,2) have "s' = s"
    using assms(1) find_ending_SomeD(1) [OF assms(2)] by (auto simp: season_inv_def seasons_ok_def distinct_map dest: inj_onD)
  ultimately show False using find_ending_SomeD(4) [OF assms(2)] by simp
qed

text \<open>Once a season is rolled over, neither its row nor its snapshot changes.\<close>

lemma rolled_over_frozen:
  assumes "keeps a a'" "r \<in> set (seasons a)" "season_finalized r" "rollover_processed_at r \<noteq> None"
  shows "r \<in> set (seasons a')"
    "filter (\<lambda>x. snapshot_season x = season_id r) (snapshots a') = filter (\<lambda>x. snapshot_season x = season_id r) (snapshots a)"
proof -
  show "r \<in> set (seasons a')" using assms(1-3) evolves_kept by (auto simp: keeps_def)
  from assms(1) obtain new where new: "snapshots a' = snapshots a @ new" "list_all (\<lambda>x. \<not> snapshot_ok (seasons a) x) new"
    by (auto simp: keeps_def list_all_iff)
  then have "filter (\<lambda>x. snapshot_season x = season_id r) new = []"
    using assms(2-4) by (fastforce simp: filter_empty_conv list_all_iff snapshot_ok_def)
  with new(1) show "filter (\<lambda>x. snapshot_season x = season_id r) (snapshots a') = filter (\<lambda>x. snapshot_season x = season_id r) (snapshots a)"
    by simp
qed


text \<open>
  A tick that finds a season past its end closes it and freezes its standings: the snapshot has
  one row per user in descending order of points with ranks from one, the winner has the most
  points, all points are reset, and whatever requests follow, neither the season's row nor its
  snapshot ever changes.
\<close>

theorem rollover_freezes_standings:
  assumes "fresh_arena a0" "a = handle_seasons rs a0" "find_ending now a = Some s" "update_all_ok env"
    and "b = handle_season (Tick env now newId) a" "a' = handle_seasons rs' b"
  shows "(\<exists>r \<in> set (seasons a'). season_id r = season_id s \<and> season_finalized r \<and> \<not> season_active r \<and>
      rollover_processed_at r = Some now \<and> top_winner r = map_option user_id (top_user (users (base a)))) \<and>
    map (\<lambda>x. (snapshot_rank x, snapshot_user x, snapshot_points x)) (filter (\<lambda>x. snapshot_season x = season_id s) (snapshots a')) =
      map (\<lambda>(i, u). (i + 1, user_id u, season_points u)) (List.enumerate 0 (standings_of (users (base a)))) \<and>
    mset (standings_of (users (base a))) = mset (users (base a)) \<and>
    sorted_wrt (\<lambda>u v. season_points v \<le> season_points u) (standings_of (users (base a))) \<and>
    (case top_user (users (base a)) of None \<Rightarrow> users (base a) = [] | Some w \<Rightarrow> \<forall>u \<in> set (users (base a)). season_points u \<le> season_points w) \<and>
    (\<forall>u \<in> set (users (base b)). season_points u = 0)"
proof -
  let ?tw = "top_user (users (base a))"
  let ?r = "rolled now ?tw s"
  have inv: "season_inv a" using assms(1,2) reachable_inv by simp
  note tick = tick_core(2) [OF inv assms(3,4), of newId, folded assms(5)] tick_rolls [OF inv assms(3,4), of newId, folded assms(5)]
  have "season_inv b" using season_service.session [OF inv, of "[Tick env now newId]"] assms(5) by simp
  then have keep: "keeps b a'" using season_service.session [of b rs'] assms(6) by (simp add: handle_seasons_def)
  have fresh: "season_id s \<notin> snapshot_season ` set (snapshots a)" by (rule no_snapshot_before_rollover [OF inv assms(3)])
  then have "filter (\<lambda>x. snapshot_season x = season_id s) (snapshots a) = []" by (rule filter_absent)
  with fresh have rows: "filter (\<lambda>x. snapshot_season x = season_id s) (snapshots b) =
      map (\<lambda>(i, u). \<lparr>snapshot_season = season_id s, snapshot_user = user_id u, snapshot_rank = i + 1, snapshot_points = season_points u\<rparr>)
        (List.enumerate 0 (standings_of (users (base a))))"
    by (simp add: tick(2) snapshotLeaderboard_def save_season_def filter_map comp_def case_prod_unfold)
  note frozen = rolled_over_frozen [OF keep tick(1)]
  have "case ?tw of None \<Rightarrow> users (base a) = [] | Some w \<Rightarrow> \<forall>u \<in> set (users (base a)). season_points u \<le> season_points w"
    using top_user_None [of "users (base a)"] top_user_max [of "users (base a)"] by (auto split: option.splits)
  moreover have "\<exists>r \<in> set (seasons a'). season_id r = season_id s \<and> season_finalized r \<and> \<not> season_active r \<and>
      rollover_processed_at r = Some now \<and> top_winner r = map_option user_id ?tw"
    using frozen(1) by (intro bexI [of _ ?r]) simp_all
  moreover have "map (\<lambda>x. (snapshot_rank x, snapshot_user x, snapshot_points x)) (filter (\<lambda>x. snapshot_season x = season_id s) (snapshots a')) =
      map (\<lambda>(i, u). (i + 1, user_id u, season_points u)) (List.enumerate 0 (standings_of (users (base a))))"
    using frozen(2) rows by (simp add: comp_def case_prod_unfold)
  ultimately show ?thesis using standings_sorted [of "users (base a)"] tick(3) by simp
qed

section \<open>The scheduler catches up\<close>

text \<open>What is left to do with a season: open it, close it.\<close>

definition season_work :: "season \<Rightarrow> nat" where
  "season_work s = (if season_finalized s then 0 else if season_active s then 1 else 2)"

definition total_work :: "arena \<Rightarrow> nat" where
  "total_work a = sum_list (map season_work (seasons a))"




lemma work_frames [simp]: "total_work (reset_points a) = total_work a" "total_work (snapshotLeaderboard s a) = total_work a"
  by (simp_all add: total_work_def)









section \<open>A season, step by step\<close>

definition sample_season_user :: "string \<Rightarrow> int \<Rightarrow> user" where
  "sample_season_user k points = \<lparr>user_id = k, stellar_address = ''G'' @ k, username = None, total_predictions = 0,
     total_staked_stroops = 0, reputation_score = 0, season_points = points, role = ''user''\<rparr>"

definition sample_base :: "user list \<Rightarrow> world" where
  "sample_base us = \<lparr>users = us, markets = [], settlement_attempts = [], predictions = [], disputes = [], votes = [],
     evidence = [], trendingCache = None, cache_keys = [], webhook_events = [], chain_log = []\<rparr>"

definition sample_arena :: arena where
  "sample_arena = \<lparr>base = sample_base [sample_season_user ''u2'' 5, sample_season_user ''u1'' 5], seasons = [], snapshots = [],
     distribution = [], notifications = [], rollover_events = []\<rparr>"

definition sample_season_dto :: "int \<Rightarrow> instant \<Rightarrow> instant \<Rightarrow> create_season_dto" where
  "sample_season_dto n st en = \<lparr>dto_season_number = n, dto_start_time = Some st, dto_end_time = Some en,
     dto_reward_pool_stroops = ''500'', sync_soroban = False\<rparr>"

definition sample_season_env :: season_env where
  "sample_season_env = \<lparr>update_all_ok = True, notify_error = (\<lambda>_. None)\<rparr>"

definition sample_created :: "season_request list" where
  "sample_created = [CreateSeason 0 ''s1'' (sample_season_dto 1 0 100)]"

definition sample_season :: season where
  "sample_season = new_season 0 ''s1'' 0 100 500 (sample_season_dto 1 0 100)"

lemma sample_fresh: "fresh_arena sample_arena"
  by (simp add: fresh_arena_def sample_arena_def)

lemma bigint_500: "bigint_column ''500'' = Some 500"
  by code_simp

lemma sample_created_seasons: "handle_seasons sample_created sample_arena = sample_arena\<lparr>seasons := [sample_season]\<rparr>"
  by (simp add: handle_seasons_def sample_created_def create_season_def sample_arena_def sample_season_dto_def bigint_500
      hasActiveSeasonOverlappingRange_def save_season_def save_row_def sample_season_def Let_def)

lemma sample_ending: "find_ending 100 (handle_seasons sample_created sample_arena) = Some sample_season"
  by (simp add: sample_created_seasons find_ending_def sample_season_def new_season_def)


lemma sample_tick:
  "handle_season (Tick sample_season_env 100 ''e1'') (handle_seasons sample_created sample_arena) =
     \<lparr>base = sample_base [sample_season_user ''u2'' 0, sample_season_user ''u1'' 0],
      seasons = [rolled 100 (Some (sample_season_user ''u2'' 5)) sample_season],
      snapshots = [\<lparr>snapshot_season = ''s1'', snapshot_user = ''u1'', snapshot_rank = 1, snapshot_points = 5\<rparr>,
        \<lparr>snapshot_season = ''s1'', snapshot_user = ''u2'', snapshot_rank = 2, snapshot_points = 5\<rparr>],
      distribution = [\<lparr>entry_id = ''e1'', entry_season = ''s1'', entry_recipient = ''u2'', entry_address = ''Gu2'', entry_amount = 500,
        entry_status = LEDGER_SUCCEEDED, failure_reason = None\<rparr>],
      notifications = map (\<lambda>kind. \<lparr>note_address = ''Gu2'', note_kind = kind, note_season = ''s1''\<rparr>)
        [SeasonRewardsNote, EventCreatedNote, SeasonRolloverNote],
      rollover_events = [(Some ''s1'', None)]\<rparr>"
  unfolding sample_created_seasons by code_simp

theorem season_pool_paid_once_witness:
  "fresh_arena sample_arena \<and>
   reward_notes ''s1'' (handle_seasons (sample_created @ [Tick sample_season_env 100 ''e1'']) sample_arena) \<le> 1 \<and>
   totalDistributed (reconcileSeasonDistribution ''s1'' 500 (handle_seasons (sample_created @ [Tick sample_season_env 100 ''e1'']) sample_arena)) = 500"
proof -
  let ?a = "handle_seasons (sample_created @ [Tick sample_season_env 100 ''e1'']) sample_arena"
  have a: "?a = handle_season (Tick sample_season_env 100 ''e1'') (handle_seasons sample_created sample_arena)"
    by (simp only: handle_seasons_def fold_append comp_apply fold.simps id_apply)
  have "rolled 100 (Some (sample_season_user ''u2'' 5)) sample_season \<in> set (seasons ?a)"
    by (simp only: a sample_tick arena.select_convs list.set insert_iff simp_thms)
  moreover have "reward_notes ''s1'' ?a = 1" unfolding a sample_tick by (simp add: reward_notes_def)
  ultimately show ?thesis
    using season_pool_paid_once [OF sample_fresh refl] sample_fresh
    by (fastforce simp: sample_season_def new_season_def)
qed

theorem rollover_freezes_standings_witness:
  "find_ending 100 (handle_seasons sample_created sample_arena) = Some sample_season \<and>
   map snapshot_user (filter (\<lambda>x. snapshot_season x = ''s1'')
     (snapshots (handle_season (Tick sample_season_env 100 ''e1'') (handle_seasons sample_created sample_arena)))) = [''u1'', ''u2'']"
proof -
  have env: "update_all_ok sample_season_env" by (simp add: sample_season_env_def)
  let ?b = "handle_season (Tick sample_season_env 100 ''e1'') (handle_seasons sample_created sample_arena)"
  have sample: "handle_seasons [] ?b = ?b" "season_id sample_season = ''s1''"
    "users (base (handle_seasons sample_created sample_arena)) = [sample_season_user ''u2'' 5, sample_season_user ''u1'' 5]"
    unfolding sample_created_seasons
    by (simp_all add: handle_seasons_def sample_season_def new_season_def sample_arena_def sample_base_def
        del: handle_season.simps)
  have "map (\<lambda>x. (snapshot_rank x, snapshot_user x, snapshot_points x)) (filter (\<lambda>x. snapshot_season x = ''s1'') (snapshots ?b)) =
      map (\<lambda>(i, u). (i + 1, user_id u, season_points u))
        (List.enumerate 0 (standings_of [sample_season_user ''u2'' 5, sample_season_user ''u1'' 5]))"
    using rollover_freezes_standings [OF sample_fresh refl sample_ending env refl refl, where newId = "''e1''" and rs' = "[]"]
    unfolding sample by (elim conjE)
  then have "map (fst \<circ> snd) (map (\<lambda>x. (snapshot_rank x, snapshot_user x, snapshot_points x)) (filter (\<lambda>x. snapshot_season x = ''s1'') (snapshots ?b))) =
      [''u1'', ''u2'']"
    by (simp only:) code_simp
  then show ?thesis using sample_ending by (simp add: comp_def del: handle_season.simps)
qed



section \<open>Behaviours the comments do not promise\<close>

text \<open>
  Where the mapper refuses an update with empty criteria, as recent releases do, no season is ever
  closed: the transaction fails at the reset of the points on every tick.
\<close>

lemma rollover_blocked:
  assumes "season_inv a" "find_ending now a = Some s" "\<not> update_all_ok env"
  shows "handle_season (Tick env now newId) a = a"
  using assms(1) by (cases rule: processSeasonRollover_cases [of a now env newId])
    (use assms(2,3) in \<open>auto simp: handleRolloverTick_def\<close>)

text \<open>
  A season finalized by hand is never rolled over: it gets no snapshot, its pool is never entered
  in the ledger, and no reward notification is sent, whatever happens later.
\<close>

lemma manual_finalization_unpaid:
  assumes "season_inv a" "r \<in> set (seasons a)" "season_finalized r" "rollover_processed_at r = None" "a' = handle_seasons rs a"
  shows "season_id r \<notin> snapshot_season ` set (snapshots a')" "season_id r \<notin> entry_season ` set (distribution a')"
    "reward_notes (season_id r) a' = 0"
proof -
  from season_service.session [OF assms(1), of rs] have inv: "season_inv a'" and keep: "keeps a a'"
    by (simp_all add: assms(5) handle_seasons_def)
  have r: "r \<in> set (seasons a')" using keep assms(2,3) evolves_kept by (auto simp: keeps_def)
  have only: "s = r" if "s \<in> set (seasons a')" "season_id s = season_id r" for s
    using that r inv by (auto simp: season_inv_def seasons_ok_def distinct_map dest: inj_onD)
  show "season_id r \<notin> snapshot_season ` set (snapshots a')"
    using inv only assms(4) by (fastforce simp: season_inv_def list_all_iff snapshot_ok_def)
  show no: "season_id r \<notin> entry_season ` set (distribution a')"
    using inv only assms(4) by (fastforce simp: season_inv_def ledger_ok_def list_all_iff entry_ok_def)
  have "paid_entries (season_id r) a' = filter (\<lambda>e. entry_status e = LEDGER_SUCCEEDED)
      (filter (\<lambda>e. entry_season e = season_id r) (distribution a'))" by (simp add: paid_entries_def conj_commute)
  then have "paid_entries (season_id r) a' = []" using filter_absent [OF no] by simp
  then show "reward_notes (season_id r) a' = 0" using inv by (simp add: season_inv_def ledger_ok_def)
qed

text \<open>A payout that fails is not taken up again: the season counts as rolled over, and no later tick looks at it.\<close>

lemma failed_payout_not_retried:
  "map entry_status (distribution (handle_seasons
     [Tick (sample_season_env\<lparr>notify_error := (\<lambda>_. Some QueryFailed)\<rparr>) 100 ''e1'', Tick sample_season_env 100 ''e2'']
     (handle_seasons sample_created sample_arena))) = [LEDGER_FAILED]"
  unfolding sample_created_seasons by code_simp

text \<open>With equal points the recorded winner need not be the user ranked first in the snapshot.\<close>

lemma winner_not_ranked_first:
  "(let b = handle_season (Tick sample_season_env 100 ''e1'') (handle_seasons sample_created sample_arena)
    in map top_winner (seasons b) = [Some ''u2''] \<and> map snapshot_user (filter (\<lambda>x. snapshot_rank x = 1) (snapshots b)) = [''u1''])"
  unfolding sample_tick by (simp add: Let_def sample_season_user_def)

text \<open>Two seasons that overlap can both become active: creation only looks at seasons already active.\<close>

lemma two_seasons_active:
  "map season_active (seasons (handle_seasons [CreateSeason 0 ''s1'' (sample_season_dto 1 10 100), CreateSeason 0 ''s2'' (sample_season_dto 2 20 200),
     Tick sample_season_env 50 ''e1'', Tick sample_season_env 50 ''e2''] sample_arena)) = [True, True]"
  by code_simp

end
