(* ===== verification/Webhooks.thy ===== *)
theory Webhooks
  imports Soroban
begin

text \<open>
  Webhooks: \<open>webhooks/services/webhook-dispatcher.service.ts\<close> (outgoing deliveries),
  \<open>webhooks.service.ts\<close> (endpoints and the dead-letter queue), \<open>webhook-signature.service.ts\<close> and
  \<open>guards/webhook-signature.guard.ts\<close> (incoming events).

  The HMAC, the answers of the receivers and the random jitter are parameters.  A delivery is
  loaded together with a copy of its endpoint, and the copy is saved after the attempt.  The posts
  that were made are recorded in the state.
\<close>

section \<open>Endpoints and deliveries\<close>

datatype delivery_status = Pending | Success | FailedStatus | DeadLetter

record endpoint =
  ep_id :: id
  ep_user :: id
  ep_url :: string
  ep_event_types :: "string list"
  ep_secret_key :: string
  ep_is_active :: bool
  ep_failure_count :: int
  ep_last_delivery_at :: "instant option"
  ep_last_failure_at :: "instant option"

record delivery =
  dl_id :: id
  dl_endpoint :: id
  dl_event_type :: string
  dl_payload :: string
  dl_status :: delivery_status
  dl_attempt_count :: int
  dl_max_retry_limit :: "int option"
  dl_http_status_code :: "int option"
  dl_error_message :: "string option"
  dl_next_retry_at :: "instant option"
  dl_delivered_at :: "instant option"

record post =
  post_delivery :: id
  post_url :: string
  post_signature :: string
  post_timestamp :: string
  post_attempt :: int

record hooks =
  endpoints :: "endpoint list"
  deliveries :: "delivery list"
  posts :: "post list"

interpretation endpoint_table: repository ep_id "find_row ep_id" "save_row ep_id" "unique_keys ep_id"
  by (rule table_repository)

interpretation delivery_table: repository dl_id "find_row dl_id" "save_row dl_id" "unique_keys dl_id"
  by (rule table_repository)

record hook_env =
  defaultMaxAttempts :: int
  globalRetryCapEnabled :: bool
  globalRetryCapLimit :: int
  batchSize :: nat
  hmac_sha256 :: "string \<Rightarrow> string \<Rightarrow> string"

section \<open>Outgoing deliveries\<close>

definition createDeliveryLog ::
  "instant \<Rightarrow> id \<Rightarrow> endpoint \<Rightarrow> string \<Rightarrow> string \<Rightarrow> int option \<Rightarrow> hooks \<Rightarrow> (exn, unit) result \<times> hooks"
where
  "createDeliveryLog now newId ep eventType payload maxRetryLimit st =
     (if newId \<in> dl_id ` set (deliveries st) then (Inl QueryFailed, st)
      else (Inr (), st\<lparr>deliveries := deliveries st @
        [\<lparr>dl_id = newId, dl_endpoint = ep_id ep, dl_event_type = eventType, dl_payload = payload, dl_status = Pending,
          dl_attempt_count = 0, dl_max_retry_limit = maxRetryLimit, dl_http_status_code = None, dl_error_message = None,
          dl_next_retry_at = Some now, dl_delivered_at = None\<rparr>]\<rparr>))"

text \<open>The keys generated for the deliveries of one event are given by their number.\<close>

fun queue_each ::
  "instant \<Rightarrow> (id \<times> endpoint) list \<Rightarrow> string \<Rightarrow> string \<Rightarrow> int option \<Rightarrow> hooks \<Rightarrow> (exn, unit) result \<times> hooks"
where
  "queue_each now [] eventType payload limit st = (Inr (), st)"
| "queue_each now ((k, ep) # eps) eventType payload limit st =
     (case createDeliveryLog now k ep eventType payload limit st of
        (Inl e, st') \<Rightarrow> (Inl e, st')
      | (Inr _, st') \<Rightarrow> queue_each now eps eventType payload limit st')"

definition emit_hook ::
  "instant \<Rightarrow> (nat \<Rightarrow> id) \<Rightarrow> string \<Rightarrow> string \<Rightarrow> int option \<Rightarrow> hooks \<Rightarrow> (exn, unit) result \<times> hooks"
where
  "emit_hook now newIds eventType payload limit st =
     (let targetEndpoints = filter (\<lambda>ep. eventType \<in> set (ep_event_types ep)) (filter ep_is_active (endpoints st))
      in queue_each now (zip (map newIds [0..<length targetEndpoints]) targetEndpoints) eventType payload limit st)"

definition getEffectiveMaxAttempts :: "hook_env \<Rightarrow> delivery \<Rightarrow> int" where
  "getEffectiveMaxAttempts env dl =
     (case dl_max_retry_limit dl of
        Some limit \<Rightarrow> limit
      | None \<Rightarrow> if globalRetryCapEnabled env then globalRetryCapLimit env else defaultMaxAttempts env)"

text \<open>\<open>random\<close> is what \<open>Math.random()\<close> returns; a \<open>Date\<close> keeps whole milliseconds.\<close>

definition backoff :: "rat \<Rightarrow> int \<Rightarrow> rat" where
  "backoff random attempt =
     (let baseMs = min (2 ^ nat (attempt - 1) * 1000) 3600000 in baseMs + random * baseMs * (1 / 2))"

definition scheduleRetry :: "hook_env \<Rightarrow> instant \<Rightarrow> rat \<Rightarrow> int \<Rightarrow> delivery \<Rightarrow> delivery" where
  "scheduleRetry env now random attempt dl =
     (if attempt \<ge> getEffectiveMaxAttempts env dl
      then dl\<lparr>dl_status := DeadLetter, dl_next_retry_at := None\<rparr>
      else dl\<lparr>dl_next_retry_at := Some \<lfloor>of_int now + backoff random attempt\<rfloor>\<rparr>)"

definition generateSignature :: "hook_env \<Rightarrow> string \<Rightarrow> string \<Rightarrow> string option \<Rightarrow> string" where
  "generateSignature env payloadStr secretKey timestamp =
     hmac_sha256 env secretKey
       (case timestamp of Some t \<Rightarrow> if t \<noteq> [] then t @ ''.'' @ payloadStr else payloadStr | None \<Rightarrow> payloadStr)"

text \<open>
  What becomes of a post: a response with its status, or an exception with its message and, when it
  has a response, the status of that.
\<close>

datatype post_outcome = Responded int | Threw string "int option option"

definition log_after :: "hook_env \<Rightarrow> instant \<Rightarrow> rat \<Rightarrow> post_outcome \<Rightarrow> delivery \<Rightarrow> delivery" where
  "log_after env now random outcome dl =
     (let attempt = dl_attempt_count dl + 1;
          dl' = (case outcome of
                   Responded status \<Rightarrow>
                     if 200 \<le> status \<and> status < 300
                     then dl\<lparr>dl_status := Success, dl_http_status_code := Some status, dl_delivered_at := Some now\<rparr>
                     else scheduleRetry env now random attempt dl
                 | Threw msg response \<Rightarrow>
                     let l = (scheduleRetry env now random attempt dl)\<lparr>dl_error_message := Some msg\<rparr>
                     in (case response of None \<Rightarrow> l | Some st \<Rightarrow> l\<lparr>dl_http_status_code := st\<rparr>))
      in dl'\<lparr>dl_attempt_count := attempt\<rparr>)"

definition endpoint_after :: "instant \<Rightarrow> post_outcome \<Rightarrow> endpoint \<Rightarrow> endpoint" where
  "endpoint_after now outcome ep =
     (let failed = ep\<lparr>ep_last_failure_at := Some now, ep_failure_count := ep_failure_count ep + 1\<rparr>
      in case outcome of
           Responded status \<Rightarrow>
             if 200 \<le> status \<and> status < 300
             then ep\<lparr>ep_last_delivery_at := Some now, ep_failure_count := 0\<rparr> else failed
         | Threw _ _ \<Rightarrow> failed)"

definition attemptDelivery ::
  "hook_env \<Rightarrow> instant \<Rightarrow> rat \<Rightarrow> post_outcome \<Rightarrow> delivery \<Rightarrow> endpoint \<Rightarrow> hooks \<Rightarrow> hooks"
where
  "attemptDelivery env now random outcome dl ep st =
     (let timestamp = bigint_to_string (now div 1000);
          p = \<lparr>post_delivery = dl_id dl, post_url = ep_url ep,
               post_signature = generateSignature env (dl_payload dl) (ep_secret_key ep) (Some timestamp),
               post_timestamp = timestamp, post_attempt = dl_attempt_count dl + 1\<rparr>
      in st\<lparr>posts := posts st @ [p],
            deliveries := save_row dl_id (log_after env now random outcome dl) (deliveries st),
            endpoints := save_row ep_id (endpoint_after now outcome ep) (endpoints st)\<rparr>)"

definition is_ready :: "instant \<Rightarrow> delivery \<Rightarrow> bool" where
  "is_ready now dl \<longleftrightarrow> (case dl_next_retry_at dl of None \<Rightarrow> True | Some t \<Rightarrow> t \<le> now)"

text \<open>
  The batch is loaded with its endpoints before the first attempt.  A delivery has an endpoint as
  long as the foreign key holds; the loop would fail on one that has none.
\<close>

definition load_batch :: "hook_env \<Rightarrow> instant \<Rightarrow> hooks \<Rightarrow> (delivery \<times> endpoint option) list" where
  "load_batch env now st =
     map (\<lambda>d. (d, find_row ep_id (dl_endpoint d) (endpoints st)))
       (filter (is_ready now) (take (batchSize env) (filter (\<lambda>d. dl_status d = Pending) (deliveries st))))"

fun attempt_each ::
  "hook_env \<Rightarrow> instant \<Rightarrow> (id \<Rightarrow> rat) \<Rightarrow> (id \<Rightarrow> post_outcome) \<Rightarrow> (delivery \<times> endpoint option) list \<Rightarrow> hooks \<Rightarrow>
   (exn, unit) result \<times> hooks"
where
  "attempt_each env now random outcome [] st = (Inr (), st)"
| "attempt_each env now random outcome ((d, None) # ds) st = (Inl TypeError, st)"
| "attempt_each env now random outcome ((d, Some ep) # ds) st =
     attempt_each env now random outcome ds (attemptDelivery env now (random (dl_id d)) (outcome (dl_id d)) d ep st)"

definition processPendingDeliveries ::
  "hook_env \<Rightarrow> instant \<Rightarrow> (id \<Rightarrow> rat) \<Rightarrow> (id \<Rightarrow> post_outcome) \<Rightarrow> hooks \<Rightarrow> (exn, unit) result \<times> hooks"
where
  "processPendingDeliveries env now random outcome st = attempt_each env now random outcome (load_batch env now st) st"

section \<open>Endpoints and the dead-letter queue\<close>

definition createEndpoint :: "id \<Rightarrow> string \<Rightarrow> id \<Rightarrow> string \<Rightarrow> string list \<Rightarrow> hooks \<Rightarrow> (exn, endpoint) result \<times> hooks" where
  "createEndpoint newId secretKey userId url eventTypes st =
     (if newId \<in> ep_id ` set (endpoints st) then (Inl QueryFailed, st)
      else let ep = \<lparr>ep_id = newId, ep_user = userId, ep_url = url, ep_event_types = eventTypes, ep_secret_key = secretKey,
                     ep_is_active = True, ep_failure_count = 0, ep_last_delivery_at = None, ep_last_failure_at = None\<rparr>
           in (Inr ep, st\<lparr>endpoints := endpoints st @ [ep]\<rparr>))"

definition findEndpointById :: "id \<Rightarrow> id \<Rightarrow> hooks \<Rightarrow> (exn, endpoint) result" where
  "findEndpointById k userId st =
     (case List.find (\<lambda>ep. ep_id ep = k \<and> ep_user ep = userId) (endpoints st) of
        Some ep \<Rightarrow> Inr ep
      | None \<Rightarrow> Inl (NotFound ''Webhook endpoint not found''))"

text \<open>Rows are kept in the order of their creation; the newest come first.\<close>

definition listEndpoints :: "id \<Rightarrow> hooks \<Rightarrow> endpoint list" where
  "listEndpoints userId st = rev (filter (\<lambda>ep. ep_user ep = userId) (endpoints st))"

record update_endpoint_dto =
  upd_url :: "string option"
  upd_event_types :: "string list option"
  upd_is_active :: "bool option"

definition updateEndpoint :: "id \<Rightarrow> id \<Rightarrow> update_endpoint_dto \<Rightarrow> hooks \<Rightarrow> (exn, endpoint) result \<times> hooks" where
  "updateEndpoint k userId dto st =
     (case findEndpointById k userId st of
        Inl e \<Rightarrow> (Inl e, st)
      | Inr ep \<Rightarrow>
          let ep1 = (case upd_url dto of Some u \<Rightarrow> ep\<lparr>ep_url := u\<rparr> | None \<Rightarrow> ep);
              ep2 = (case upd_event_types dto of Some ts \<Rightarrow> ep1\<lparr>ep_event_types := ts\<rparr> | None \<Rightarrow> ep1);
              ep3 = (case upd_is_active dto of Some b \<Rightarrow> ep2\<lparr>ep_is_active := b\<rparr> | None \<Rightarrow> ep2)
          in (Inr ep3, st\<lparr>endpoints := save_row ep_id ep3 (endpoints st)\<rparr>))"

text \<open>Deleting an endpoint deletes its deliveries (\<open>onDelete: 'CASCADE'\<close>).\<close>

definition deleteEndpoint :: "id \<Rightarrow> id \<Rightarrow> hooks \<Rightarrow> (exn, unit) result \<times> hooks" where
  "deleteEndpoint k userId st =
     (case findEndpointById k userId st of
        Inl e \<Rightarrow> (Inl e, st)
      | Inr ep \<Rightarrow> (Inr (), st\<lparr>endpoints := filter (\<lambda>x. ep_id x \<noteq> ep_id ep) (endpoints st),
                            deliveries := filter (\<lambda>d. dl_endpoint d \<noteq> ep_id ep) (deliveries st)\<rparr>))"

definition getDeliveryLogs :: "id \<Rightarrow> id \<Rightarrow> nat \<Rightarrow> nat \<Rightarrow> hooks \<Rightarrow> (exn, delivery list \<times> nat) result" where
  "getDeliveryLogs endpointId userId limit offset st =
     (case findEndpointById endpointId userId st of
        Inl e \<Rightarrow> Inl e
      | Inr ep \<Rightarrow>
          let rows = filter (\<lambda>d. dl_endpoint d = ep_id ep) (deliveries st)
          in Inr (take limit (drop offset (rev rows)), length rows))"

definition listDeadLetterDeliveries :: "nat \<Rightarrow> nat \<Rightarrow> hooks \<Rightarrow> delivery list \<times> nat" where
  "listDeadLetterDeliveries limit offset st =
     (let rows = filter (\<lambda>d. dl_status d = DeadLetter) (deliveries st)
      in (take limit (drop offset (rev rows)), length rows))"

definition redriveDelivery :: "instant \<Rightarrow> id \<Rightarrow> hooks \<Rightarrow> (exn, delivery) result \<times> hooks" where
  "redriveDelivery now k st =
     (case find_row dl_id k (deliveries st) of
        None \<Rightarrow> (Inl (NotFound ''Webhook delivery not found''), st)
      | Some dl \<Rightarrow>
          if dl_status dl \<noteq> DeadLetter then (Inl (BadRequest ''Only dead-lettered deliveries can be redriven''), st)
          else let dl' = dl\<lparr>dl_status := Pending, dl_attempt_count := 0, dl_next_retry_at := Some now\<rparr>
               in (Inr dl', st\<lparr>deliveries := save_row dl_id dl' (deliveries st)\<rparr>))"


section \<open>Incoming events\<close>

record processed_event =
  pe_source :: string
  pe_event_id :: string
  pe_received_at :: instant

text \<open>The configured numbers of seconds, \<open>None\<close> when unset.\<close>

record receiver_env =
  hmac_secret :: "string option"
  replay_window_seconds :: "rat option"
  freshness_seconds :: "rat option"
  skew_seconds :: "rat option"
  incoming_hmac :: "string \<Rightarrow> string \<Rightarrow> string"

definition getReplayWindowMs :: "receiver_env \<Rightarrow> rat" where
  "getReplayWindowMs env = (case replay_window_seconds env of Some s \<Rightarrow> s | None \<Rightarrow> 300) * 1000"

definition getTimestampFreshnessMs :: "receiver_env \<Rightarrow> rat" where
  "getTimestampFreshnessMs env = (case freshness_seconds env of Some s \<Rightarrow> s | None \<Rightarrow> 300) * 1000"

definition getClockSkewToleranceMs :: "receiver_env \<Rightarrow> rat" where
  "getClockSkewToleranceMs env = (case skew_seconds env of Some s \<Rightarrow> s | None \<Rightarrow> 60) * 1000"

text \<open>\<open>Buffer.from(s, 'hex')\<close> reads pairs of digits up to the first character that is none.\<close>

fun hex_bytes :: "string \<Rightarrow> nat list" where
  "hex_bytes (c # d # cs) =
     (case (digit_val c, digit_val d) of (Some x, Some y) \<Rightarrow> (16 * x + y) # hex_bytes cs | _ \<Rightarrow> [])"
| "hex_bytes _ = []"

definition verifySignature :: "receiver_env \<Rightarrow> string \<Rightarrow> string option \<Rightarrow> string \<Rightarrow> bool" where
  "verifySignature env rawBody signatureHeader secret =
     (if \<not> truthy signatureHeader then False
      else let expected = hex_bytes (incoming_hmac env secret rawBody);
               received = hex_bytes (the signatureHeader)
           in if length expected \<noteq> length received then False else expected = received)"

definition isTimestampFresh :: "receiver_env \<Rightarrow> instant \<Rightarrow> string option \<Rightarrow> bool" where
  "isTimestampFresh env now timestampStr =
     (if \<not> truthy timestampStr then False
      else case parseInt (the timestampStr) of
             None \<Rightarrow> False
           | Some timestamp \<Rightarrow>
               let age = of_int \<bar>now div 1000 - timestamp\<bar>;
                   freshnessWindowSeconds = getTimestampFreshnessMs env / 1000;
                   clockSkewToleranceSeconds = getClockSkewToleranceMs env / 1000
               in if age \<le> freshnessWindowSeconds then True
                  else if age \<le> freshnessWindowSeconds + clockSkewToleranceSeconds then True
                  else False)"

definition find_event :: "string \<Rightarrow> string \<Rightarrow> processed_event list \<Rightarrow> processed_event option" where
  "find_event source eventId evs = find_row (\<lambda>e. (pe_source e, pe_event_id e)) (source, eventId) evs"

definition isReplay :: "receiver_env \<Rightarrow> instant \<Rightarrow> string \<Rightarrow> string \<Rightarrow> processed_event list \<Rightarrow> bool" where
  "isReplay env now source eventId evs =
     (case find_event source eventId evs of
        None \<Rightarrow> False
      | Some existing \<Rightarrow> of_int (now - pe_received_at existing) < getReplayWindowMs env)"

text \<open>The insert fails on a clash with the unique index or a value too long for its column; the error is logged.\<close>

definition recordProcessed :: "instant \<Rightarrow> string \<Rightarrow> string \<Rightarrow> processed_event list \<Rightarrow> processed_event list" where
  "recordProcessed now source eventId evs =
     (if find_event source eventId evs \<noteq> None \<or> length source > 64 \<or> length eventId > 255 then evs
      else evs @ [\<lparr>pe_source = source, pe_event_id = eventId, pe_received_at = now\<rparr>])"

record incoming_request =
  in_source :: "string option"
  in_signature :: "string option"
  in_timestamp :: "string option"
  in_raw_body :: string
  in_event_id :: "string option"

definition canActivate ::
  "receiver_env \<Rightarrow> instant \<Rightarrow> incoming_request \<Rightarrow> (processed_event list, exn, bool) action"
where
  "canActivate env now req evs =
     (if \<not> truthy (in_source req) then (Inl (BadRequest ''Missing webhook source in path''), evs)
      else if \<not> truthy (hmac_secret env)
      then (Inl (Unauthorized ''Webhook signature verification is not configured''), evs)
      else if \<not> verifySignature env (in_raw_body req) (in_signature req) (the (hmac_secret env))
      then (Inl (Unauthorized ''Invalid webhook signature''), evs)
      else if \<not> truthy (in_event_id req) then (Inl (BadRequest ''Missing event_id''), evs)
      else if \<not> isTimestampFresh env now (in_timestamp req)
      then (Inl (Unauthorized ''Webhook timestamp is stale or invalid''), evs)
      else if isReplay env now (the (in_source req)) (the (in_event_id req)) evs
      then (Inl (Conflict ''Duplicate webhook event''), evs)
      else (Inr True, recordProcessed now (the (in_source req)) (the (in_event_id req)) evs))"

end
