(* ===== verification/Webhook_Facts.thy ===== *)
theory Webhook_Facts
  imports Webhooks
begin

text \<open>
  What the webhook services guarantee: how often a delivery is posted, when it ends, how long it
  waits between attempts, and which incoming events are let through.
\<close>

section \<open>Backoff\<close>

lemma backoff_bounds:
  assumes "0 \<le> random" "random < 1"
  shows "1000 \<le> backoff random attempt" "backoff random attempt \<le> 5400000"
proof -
  define base where "base = min (2 ^ nat (attempt - 1) * 1000) (3600000 :: rat)"
  have "(1 :: rat) \<le> 2 ^ nat (attempt - 1)" by (rule one_le_power) simp
  then have base: "1000 \<le> base" "base \<le> 3600000" by (auto simp: base_def)
  have "0 \<le> random * base" "random * base \<le> base"
    using base assms by (auto intro!: mult_nonneg_nonneg mult_left_le_one_le)
  moreover have "backoff random attempt = base + random * base / 2" by (simp add: backoff_def Let_def base_def)
  ultimately show "1000 \<le> backoff random attempt" "backoff random attempt \<le> 5400000"
    using base by linarith+
qed

section \<open>Requests\<close>

datatype hook_request =
    NewEndpoint id string id string "string list"
  | UpdateEndpoint id id update_endpoint_dto
  | DeleteEndpoint id id
  | Emit instant "nat \<Rightarrow> id" string string "int option"
  | Process instant "id \<Rightarrow> rat" "id \<Rightarrow> post_outcome"
  | Redrive instant id

fun handle_hook :: "hook_env \<Rightarrow> hook_request \<Rightarrow> hooks \<Rightarrow> hooks" where
  "handle_hook env (NewEndpoint k secret u url types) st = snd (createEndpoint k secret u url types st)"
| "handle_hook env (UpdateEndpoint k u dto) st = snd (updateEndpoint k u dto st)"
| "handle_hook env (DeleteEndpoint k u) st = snd (deleteEndpoint k u st)"
| "handle_hook env (Emit now ids event payload limit) st = snd (emit_hook now ids event payload limit st)"
| "handle_hook env (Process now random outcome) st = snd (processPendingDeliveries env now random outcome st)"
| "handle_hook env (Redrive now k) st = snd (redriveDelivery now k st)"

text \<open>The keys of new deliveries were never used before.\<close>

fun admissible :: "hook_request \<Rightarrow> hooks \<Rightarrow> bool" where
  "admissible (Emit now ids event payload limit) st \<longleftrightarrow> (\<forall>i. ids i \<notin> post_delivery ` set (posts st))"
| "admissible _ st \<longleftrightarrow> True"

inductive hook_run :: "hook_env \<Rightarrow> hook_request list \<Rightarrow> hooks \<Rightarrow> bool" for env where
  start: "deliveries st = [] \<Longrightarrow> posts st = [] \<Longrightarrow> unique_keys ep_id (endpoints st) \<Longrightarrow> hook_run env [] st"
| request: "hook_run env rs st \<Longrightarrow> admissible r st \<Longrightarrow> hook_run env (rs @ [r]) (handle_hook env r st)"

definition posts_of :: "id \<Rightarrow> hooks \<Rightarrow> nat" where
  "posts_of k st = length (filter (\<lambda>p. post_delivery p = k) (posts st))"

fun redrives_of :: "id \<Rightarrow> hook_request list \<Rightarrow> nat" where
  "redrives_of k [] = 0"
| "redrives_of k (Redrive now k' # rs) = (if k' = k then 1 else 0) + redrives_of k rs"
| "redrives_of k (_ # rs) = redrives_of k rs"

lemma redrives_append: "redrives_of k (rs @ rs') = redrives_of k rs + redrives_of k rs'"
  by (induction k rs rule: redrives_of.induct) auto

section \<open>The invariant\<close>

abbreviation budget :: "hook_env \<Rightarrow> delivery \<Rightarrow> int" where
  "budget env d \<equiv> max 1 (getEffectiveMaxAttempts env d)"

definition delivery_ok :: "hook_env \<Rightarrow> delivery \<Rightarrow> bool" where
  "delivery_ok env d \<longleftrightarrow> 0 \<le> dl_attempt_count d \<and> dl_attempt_count d \<le> budget env d \<and>
     (dl_status d = Pending \<longrightarrow> dl_attempt_count d < budget env d) \<and>
     (dl_status d = DeadLetter \<longrightarrow> dl_attempt_count d = budget env d) \<and>
     (dl_status d = Success \<longrightarrow> dl_delivered_at d \<noteq> None) \<and> dl_status d \<noteq> FailedStatus"

definition hooks_ok :: "hook_env \<Rightarrow> (id \<Rightarrow> nat) \<Rightarrow> hooks \<Rightarrow> bool" where
  "hooks_ok env redrives st \<longleftrightarrow> unique_keys ep_id (endpoints st) \<and> unique_keys dl_id (deliveries st) \<and>
     (\<forall>d \<in> set (deliveries st). dl_endpoint d \<in> ep_id ` set (endpoints st) \<and> delivery_ok env d \<and>
        int (posts_of (dl_id d) st) \<le> int (redrives (dl_id d)) * budget env d + dl_attempt_count d)"

lemma log_after_keeps [simp]:
  "dl_id (log_after env now random outcome d) = dl_id d" "dl_endpoint (log_after env now random outcome d) = dl_endpoint d"
  "dl_attempt_count (log_after env now random outcome d) = dl_attempt_count d + 1"
  "getEffectiveMaxAttempts env (log_after env now random outcome d) = getEffectiveMaxAttempts env d"
  by (auto simp: log_after_def scheduleRetry_def getEffectiveMaxAttempts_def Let_def split: post_outcome.splits option.splits)

lemma log_after_ok: "delivery_ok env d \<Longrightarrow> dl_status d = Pending \<Longrightarrow> delivery_ok env (log_after env now random outcome d)"
  using log_after_keeps [of env now random outcome d]
  by (auto simp: delivery_ok_def log_after_def scheduleRetry_def getEffectiveMaxAttempts_def Let_def
      split: post_outcome.splits option.splits if_splits)

lemma endpoint_after_id [simp]: "ep_id (endpoint_after now outcome ep) = ep_id ep"
  by (simp add: endpoint_after_def Let_def split: post_outcome.splits)


section \<open>A round of attempts\<close>

lemma attempt_effect:
  assumes "unique_keys dl_id (deliveries st)" "d \<in> set (deliveries st)" "ep_id ep \<in> ep_id ` set (endpoints st)"
  shows "deliveries (attemptDelivery env now random outcome d ep st) =
      map (\<lambda>x. if x = d then log_after env now random outcome d else x) (deliveries st)"
    "posts_of k (attemptDelivery env now random outcome d ep st) = posts_of k st + of_bool (k = dl_id d)"
    "map ep_id (endpoints (attemptDelivery env now random outcome d ep st)) = map ep_id (endpoints st)"
proof -
  show "deliveries (attemptDelivery env now random outcome d ep st) =
      map (\<lambda>x. if x = d then log_after env now random outcome d else x) (deliveries st)"
    using assms(1,2) by (simp add: attemptDelivery_def Let_def save_row_replaces)
  show "posts_of k (attemptDelivery env now random outcome d ep st) = posts_of k st + of_bool (k = dl_id d)"
    by (auto simp: attemptDelivery_def posts_of_def Let_def)
  show "map ep_id (endpoints (attemptDelivery env now random outcome d ep st)) = map ep_id (endpoints st)"
    using assms(3) by (simp add: attemptDelivery_def Let_def save_row_def map_key_update_row)
qed

lemma attempt_each_effect:
  assumes "unique_keys dl_id (deliveries st)" "set ds \<subseteq> set (deliveries st)" "distinct ds"
    "\<And>d. d \<in> set ds \<Longrightarrow> ep_id (g d) \<in> ep_id ` set (endpoints st)"
  shows "\<exists>st'. attempt_each env now random outcome (map (\<lambda>d. (d, Some (g d))) ds) st = (Inr (), st') \<and>
    deliveries st' = map (\<lambda>d. if d \<in> set ds then log_after env now (random (dl_id d)) (outcome (dl_id d)) d else d) (deliveries st) \<and>
    (\<forall>k. posts_of k st' = posts_of k st + of_bool (k \<in> dl_id ` set ds)) \<and> map ep_id (endpoints st') = map ep_id (endpoints st)"
  using assms
proof (induction ds arbitrary: st)
  case (Cons d ds)
  let ?st = "attemptDelivery env now (random (dl_id d)) (outcome (dl_id d)) d (g d) st"
  note eff = attempt_effect [OF Cons.prems(1), where d = d and ep = "g d" and env = env and now = now
      and random = "random (dl_id d)" and outcome = "outcome (dl_id d)"]
  have d: "d \<in> set (deliveries st)" "ep_id (g d) \<in> ep_id ` set (endpoints st)" "d \<notin> set ds" using Cons.prems by auto
  note dels = eff(1) [OF d(1,2)] and ids = eff(3) [OF d(1,2)]
  have "map dl_id (deliveries ?st) = map dl_id (deliveries st)" by (simp add: dels comp_def)
  then have uniq: "unique_keys dl_id (deliveries ?st)" using Cons.prems(1) by simp
  have sub: "set ds \<subseteq> set (deliveries ?st)" using Cons.prems(2) d(3) by (auto simp: dels image_iff)
  have eps: "ep_id ` set (endpoints ?st) = ep_id ` set (endpoints st)" using ids by (metis list.set_map)
  have one: "dl_id x = dl_id d \<longleftrightarrow> x = d" if "x \<in> set ds" for x
    using that Cons.prems(1,2) d(1) by (auto simp: distinct_map dest: inj_onD)
  from Cons.IH [OF uniq sub] Cons.prems(3,4) eps obtain st' where st':
    "attempt_each env now random outcome (map (\<lambda>d. (d, Some (g d))) ds) ?st = (Inr (), st')"
    "deliveries st' = map (\<lambda>d. if d \<in> set ds then log_after env now (random (dl_id d)) (outcome (dl_id d)) d else d) (deliveries ?st)"
    "\<forall>k. posts_of k st' = posts_of k ?st + of_bool (k \<in> dl_id ` set ds)" "map ep_id (endpoints st') = map ep_id (endpoints ?st)"
    by auto
  have "log_after env now (random (dl_id d)) (outcome (dl_id d)) d \<notin> set ds"
  proof
    assume "log_after env now (random (dl_id d)) (outcome (dl_id d)) d \<in> set ds"
    from one [OF this] d(3) \<open>log_after env now (random (dl_id d)) (outcome (dl_id d)) d \<in> set ds\<close> show False by simp
  qed
  then have "deliveries st' = map (\<lambda>x. if x \<in> set (d # ds) then log_after env now (random (dl_id x)) (outcome (dl_id x)) x else x) (deliveries st)"
    using d(3) by (auto simp: st'(2) dels)
  moreover have "dl_id d \<notin> dl_id ` set ds"
  proof
    assume "dl_id d \<in> dl_id ` set ds"
    then obtain x where "x \<in> set ds" "dl_id x = dl_id d" by auto
    with one d(3) show False by blast
  qed
  then have "posts_of k st' = posts_of k st + of_bool (k \<in> dl_id ` set (d # ds))" for k
    using st'(3) eff(2) [OF d(1,2), where k = k] by (cases "k = dl_id d") simp_all
  ultimately show ?case using st' ids by (intro exI [of _ st']) simp
qed simp

definition batch :: "hook_env \<Rightarrow> instant \<Rightarrow> hooks \<Rightarrow> delivery list" where
  "batch env now st = filter (is_ready now) (take (batchSize env) (filter (\<lambda>d. dl_status d = Pending) (deliveries st)))"

lemma batch_props:
  "set (batch env now st) \<subseteq> set (deliveries st)" "d \<in> set (batch env now st) \<Longrightarrow> dl_status d = Pending"
  "unique_keys dl_id (deliveries st) \<Longrightarrow> distinct (batch env now st)"
proof -
  show "set (batch env now st) \<subseteq> set (deliveries st)" by (auto simp: batch_def dest: in_set_takeD)
  show "dl_status d = Pending" if "d \<in> set (batch env now st)" using that by (auto simp: batch_def dest: in_set_takeD)
  show "distinct (batch env now st)" if "unique_keys dl_id (deliveries st)"
    using that by (auto simp: batch_def distinct_map)
qed

lemma process_effect:
  assumes "hooks_ok env redrives st"
  shows "\<exists>st'. processPendingDeliveries env now random outcome st = (Inr (), st') \<and>
    deliveries st' = map (\<lambda>d. if d \<in> set (batch env now st) then log_after env now (random (dl_id d)) (outcome (dl_id d)) d else d) (deliveries st) \<and>
    (\<forall>k. posts_of k st' = posts_of k st + of_bool (k \<in> dl_id ` set (batch env now st))) \<and> map ep_id (endpoints st') = map ep_id (endpoints st)"
proof -
  let ?g = "\<lambda>d. the (find_row ep_id (dl_endpoint d) (endpoints st))"
  have uniq: "unique_keys dl_id (deliveries st)" using assms by (simp add: hooks_ok_def)
  have found: "find_row ep_id (dl_endpoint d) (endpoints st) = Some (?g d)" "ep_id (?g d) \<in> ep_id ` set (endpoints st)"
    if "d \<in> set (batch env now st)" for d
  proof -
    have "dl_endpoint d \<in> ep_id ` set (endpoints st)" using that batch_props(1) assms by (fastforce simp: hooks_ok_def)
    then show f: "find_row ep_id (dl_endpoint d) (endpoints st) = Some (?g d)"
      by (metis find_row_None_iff option.exhaust_sel)
    show "ep_id (?g d) \<in> ep_id ` set (endpoints st)" using find_row_SomeD [OF f] by (meson imageI)
  qed
  have "load_batch env now st = map (\<lambda>d. (d, Some (?g d))) (batch env now st)"
    using found(1) by (simp add: load_batch_def batch_def)
  then show ?thesis unfolding processPendingDeliveries_def
    using attempt_each_effect [OF uniq batch_props(1) batch_props(3) [OF uniq], where g = ?g] found(2) by simp
qed


section \<open>Every request keeps the invariant\<close>

lemma hooks_ok_more: "hooks_ok env f st \<Longrightarrow> (\<And>k. f k \<le> g k) \<Longrightarrow> hooks_ok env g st"
proof -
  assume ok: "hooks_ok env f st" and le: "\<And>k. f k \<le> g k"
  have "int (f k) * budget env d \<le> int (g k) * budget env d" for k d
    using le [of k] by (intro mult_right_mono) auto
  then show ?thesis using ok unfolding hooks_ok_def by (meson add_right_mono order_trans)
qed

lemma endpoints_change_ok:
  assumes "hooks_ok env f st" "unique_keys ep_id eps" "ep_id ` set (endpoints st) \<subseteq> ep_id ` set eps"
  shows "hooks_ok env f (st\<lparr>endpoints := eps\<rparr>)"
  using assms by (auto simp: hooks_ok_def posts_of_def)

lemma process_ok:
  assumes "hooks_ok env f st"
  shows "hooks_ok env f (snd (processPendingDeliveries env now random outcome st))"
proof -
  from process_effect [OF assms, of now random outcome] obtain st' where
    st': "processPendingDeliveries env now random outcome st = (Inr (), st')"
    "deliveries st' = map (\<lambda>d. if d \<in> set (batch env now st) then log_after env now (random (dl_id d)) (outcome (dl_id d)) d else d) (deliveries st)"
    "\<And>k. posts_of k st' = posts_of k st + of_bool (k \<in> dl_id ` set (batch env now st))"
    "map ep_id (endpoints st') = map ep_id (endpoints st)" by auto
  have ids: "map dl_id (deliveries st') = map dl_id (deliveries st)" by (simp add: st'(2) comp_def)
  have eps: "ep_id ` set (endpoints st') = ep_id ` set (endpoints st)" using st'(4) by (metis list.set_map)
  have "dl_endpoint x \<in> ep_id ` set (endpoints st') \<and> delivery_ok env x \<and>
      int (posts_of (dl_id x) st') \<le> int (f (dl_id x)) * budget env x + dl_attempt_count x" if x: "x \<in> set (deliveries st')" for x
  proof -
    from x st'(2) obtain d where d: "d \<in> set (deliveries st)"
      "x = (if d \<in> set (batch env now st) then log_after env now (random (dl_id d)) (outcome (dl_id d)) d else d)" by auto
    with assms have ok: "dl_endpoint d \<in> ep_id ` set (endpoints st)" "delivery_ok env d"
      "int (posts_of (dl_id d) st) \<le> int (f (dl_id d)) * budget env d + dl_attempt_count d" by (auto simp: hooks_ok_def)
    have "dl_id d \<in> dl_id ` set (batch env now st) \<longleftrightarrow> d \<in> set (batch env now st)"
      using d(1) batch_props(1) [of env now st] assms by (auto simp: hooks_ok_def distinct_map dest: inj_onD)
    with ok d st'(3) [of "dl_id d"] eps batch_props(2) [of d env now st] log_after_ok [of env d] show ?thesis
      by (cases "d \<in> set (batch env now st)") auto
  qed
  with assms ids st'(4) st'(1) show ?thesis by (simp add: hooks_ok_def)
qed

lemma queue_each_ok:
  assumes "hooks_ok env f st" "\<And>k ep. (k, ep) \<in> set eps \<Longrightarrow> ep_id ep \<in> ep_id ` set (endpoints st) \<and> posts_of k st = 0"
  shows "hooks_ok env f (snd (queue_each now eps event payload limit st))"
  using assms
proof (induction now eps event payload limit st rule: queue_each.induct)
  case (2 now k ep eps event payload limit st)
  show ?case
  proof (cases "k \<in> dl_id ` set (deliveries st)")
    case True
    then show ?thesis using "2.prems"(1) by (simp add: createDeliveryLog_def)
  next
    case False
    define st' where "st' = snd (createDeliveryLog now k ep event payload limit st)"
    have run: "createDeliveryLog now k ep event payload limit st = (Inr (), st')"
      using False by (simp add: st'_def createDeliveryLog_def)
    have same: "posts st' = posts st" "endpoints st' = endpoints st" using False by (simp_all add: st'_def createDeliveryLog_def)
    have "hooks_ok env f st'" using False "2.prems"(1) "2.prems"(2) [of k ep]
      by (auto simp: st'_def createDeliveryLog_def hooks_ok_def delivery_ok_def posts_of_def)
    moreover have "ep_id e \<in> ep_id ` set (endpoints st') \<and> posts_of k' st' = 0" if "(k', e) \<in> set eps" for k' e
      using "2.prems"(2) [of k' e] that same by (simp add: posts_of_def)
    ultimately show ?thesis using "2.IH" [OF run [symmetric] refl] run by simp
  qed
qed simp

lemma emit_ok:
  assumes "hooks_ok env f st" "\<forall>i. ids i \<notin> post_delivery ` set (posts st)"
  shows "hooks_ok env f (snd (emit_hook now ids event payload limit st))"
proof -
  let ?eps = "filter (\<lambda>ep. event \<in> set (ep_event_types ep)) (filter ep_is_active (endpoints st))"
  have "ep_id ep \<in> ep_id ` set (endpoints st) \<and> posts_of k st = 0" if z: "(k, ep) \<in> set (zip (map ids [0..<length ?eps]) ?eps)" for k ep
  proof -
    from set_zip_leftD [OF z] obtain i where "k = ids i" by auto
    with filter_absent [OF assms(2) [rule_format, of i]] have "posts_of k st = 0" by (simp add: posts_of_def)
    with set_zip_rightD [OF z] show ?thesis by simp
  qed
  then show ?thesis unfolding emit_hook_def Let_def by (rule queue_each_ok [OF assms(1)])
qed

lemma redrive_ok:
  assumes "hooks_ok env f st" "f k < g k" "\<And>x. f x \<le> g x"
  shows "hooks_ok env g (snd (redriveDelivery now k st))"
proof (cases "find_row dl_id k (deliveries st)")
  case (Some d)
  let ?d = "d\<lparr>dl_status := Pending, dl_attempt_count := 0, dl_next_retry_at := Some now\<rparr>"
  have ok: "hooks_ok env g st" using hooks_ok_more assms(1,3) by blast
  have d: "d \<in> set (deliveries st)" "dl_id d = k" using find_row_SomeD [OF Some] by auto
  then have old: "dl_endpoint d \<in> ep_id ` set (endpoints st)" "delivery_ok env d"
    "int (posts_of k st) \<le> int (f k) * budget env d + dl_attempt_count d"
    using assms(1) by (auto simp: hooks_ok_def)
  have eff: "getEffectiveMaxAttempts env ?d = getEffectiveMaxAttempts env d" by (simp add: getEffectiveMaxAttempts_def)
  have "int (f k) * budget env d + dl_attempt_count d \<le> (int (f k) + 1) * budget env d"
    using old(2) by (simp add: delivery_ok_def algebra_simps)
  also have "\<dots> \<le> int (g k) * budget env d" using assms(2) by (intro mult_right_mono) auto
  finally have "int (posts_of k st) \<le> int (g k) * budget env d" using old(3) by simp
  then have "hooks_ok env g (st\<lparr>deliveries := save_row dl_id ?d (deliveries st)\<rparr>)"
    using ok d old eff unfolding hooks_ok_def
    by (auto simp: set_save_row_unique unique_keys_save posts_of_def delivery_ok_def)
  with ok Some show ?thesis by (simp add: redriveDelivery_def Let_def)
next
  case None
  then show ?thesis using hooks_ok_more [OF assms(1,3)] by (simp add: redriveDelivery_def)
qed

lemma handle_hook_ok:
  assumes "hooks_ok env (\<lambda>k. redrives_of k rs) st" "admissible r st"
  shows "hooks_ok env (\<lambda>k. redrives_of k (rs @ [r])) (handle_hook env r st)"
proof (cases r)
  case (NewEndpoint k secret u url types)
  then show ?thesis using assms(1)
    by (auto simp: createEndpoint_def Let_def redrives_append intro!: endpoints_change_ok) (auto simp: hooks_ok_def)
next
  case (UpdateEndpoint k u dto)
  have "hooks_ok env (\<lambda>k. redrives_of k rs) (st\<lparr>endpoints := save_row ep_id ep (endpoints st)\<rparr>)" for ep
    using assms(1) by (intro endpoints_change_ok) (auto simp: hooks_ok_def unique_keys_save keys_save_row)
  with UpdateEndpoint assms(1) show ?thesis by (simp add: updateEndpoint_def Let_def redrives_append split: sum.splits)
next
  case (DeleteEndpoint k u)
  then show ?thesis using assms(1)
    by (auto simp: deleteEndpoint_def redrives_append hooks_ok_def distinct_map_filter posts_of_def split: sum.splits)
next
  case (Emit now ids event payload limit)
  then show ?thesis using assms emit_ok by (simp add: redrives_append)
next
  case (Process now random outcome)
  then show ?thesis using assms(1) process_ok by (simp add: redrives_append)
next
  case (Redrive now k)
  then show ?thesis using redrive_ok [OF assms(1), of k "\<lambda>x. redrives_of x (rs @ [r])"] by (simp add: redrives_append)
qed

lemma hook_run_ok: "hook_run env rs st \<Longrightarrow> hooks_ok env (\<lambda>k. redrives_of k rs) st"
  by (induction rule: hook_run.induct) (auto simp: hooks_ok_def [of env "\<lambda>k. 0"] intro: handle_hook_ok)


section \<open>What the dispatcher guarantees\<close>

text \<open>
  Under any requests (endpoints created, changed and deleted, events emitted, rounds of
  deliveries with any answers, redrives), a delivery is posted at most as often as its effective
  limit allows, once at least, for its first life and for each redrive; it is dead-lettered exactly
  when the limit is used up, and pending only while it is not.
\<close>

theorem deliveries_bounded:
  assumes "hook_run env rs st" "d \<in> set (deliveries st)"
  shows "int (posts_of (dl_id d) st) \<le> (1 + int (redrives_of (dl_id d) rs)) * max 1 (getEffectiveMaxAttempts env d) \<and>
    (dl_status d = DeadLetter \<longrightarrow> dl_attempt_count d = max 1 (getEffectiveMaxAttempts env d)) \<and>
    (dl_status d = Pending \<longrightarrow> dl_attempt_count d < max 1 (getEffectiveMaxAttempts env d)) \<and>
    dl_status d \<in> {Pending, Success, DeadLetter}"
proof -
  from hook_run_ok [OF assms(1)] assms(2) have ok: "delivery_ok env d"
    "int (posts_of (dl_id d) st) \<le> int (redrives_of (dl_id d) rs) * budget env d + dl_attempt_count d" by (auto simp: hooks_ok_def)
  moreover have "dl_status d \<in> {Pending, Success, DeadLetter}" using ok(1) by (cases "dl_status d") (auto simp: delivery_ok_def)
  ultimately show ?thesis by (auto simp: delivery_ok_def algebra_simps)
qed

type_synonym tick = "instant \<times> (id \<Rightarrow> rat) \<times> (id \<Rightarrow> post_outcome)"

fun process_all :: "hook_env \<Rightarrow> tick list \<Rightarrow> hooks \<Rightarrow> hooks" where
  "process_all env [] st = st"
| "process_all env ((now, random, outcome) # ts) st = process_all env ts (snd (processPendingDeliveries env now random outcome st))"

text \<open>Rounds far enough apart for every backoff, which is at most ninety minutes, to be over.\<close>

fun spaced :: "instant \<Rightarrow> tick list \<Rightarrow> bool" where
  "spaced t [] \<longleftrightarrow> True"
| "spaced t ((now, random, outcome) # ts) \<longleftrightarrow> t \<le> now \<and> (\<forall>k. 0 \<le> random k \<and> random k < 1) \<and> spaced (now + 5400000) ts"

abbreviation pending :: "hooks \<Rightarrow> delivery list" where
  "pending st \<equiv> filter (\<lambda>d. dl_status d = Pending) (deliveries st)"

lemma log_after_ready:
  assumes "0 \<le> random" "random < 1" "dl_status (log_after env now random outcome d) = Pending"
  shows "is_ready (now + 5400000) (log_after env now random outcome d)"
proof -
  have "\<lfloor>of_int now + backoff random attempt\<rfloor> \<le> now + 5400000" for attempt
    using backoff_bounds(2) [OF assms(1,2), of attempt] by linarith
  then show ?thesis using assms(3)
    by (auto simp: log_after_def scheduleRetry_def is_ready_def Let_def split: post_outcome.splits option.splits if_splits)
qed

lemma is_ready_mono: "is_ready t d \<Longrightarrow> t \<le> t' \<Longrightarrow> is_ready t' d"
  by (auto simp: is_ready_def split: option.splits)

lemma process_all_settles:
  assumes "hooks_ok env f st" "length (pending st) \<le> batchSize env" "spaced t ticks"
    and "\<And>d. d \<in> set (pending st) \<Longrightarrow> is_ready t d \<and> budget env d - dl_attempt_count d \<le> int (length ticks)"
  shows "pending (process_all env ticks st) = [] \<and> map dl_id (deliveries (process_all env ticks st)) = map dl_id (deliveries st) \<and>
    hooks_ok env f (process_all env ticks st)"
  using assms
proof (induction ticks arbitrary: st t)
  case Nil
  have "pending st = []"
  proof (rule ccontr)
    assume "pending st \<noteq> []"
    then obtain d where d: "d \<in> set (pending st)" using list.set_sel(1) by blast
    with Nil(4) [OF d] Nil(1) show False by (auto simp: hooks_ok_def delivery_ok_def)
  qed
  then show ?case using Nil(1) by simp
next
  case (Cons tick ticks)
  obtain now random outcome where tick: "tick = (now, random, outcome)" by (cases tick)
  let ?f = "\<lambda>d. log_after env now (random (dl_id d)) (outcome (dl_id d)) d"
  from process_effect [OF Cons.prems(1), of now random outcome] obtain st1 where
    st1: "processPendingDeliveries env now random outcome st = (Inr (), st1)"
    "deliveries st1 = map (\<lambda>d. if d \<in> set (batch env now st) then ?f d else d) (deliveries st)" by auto
  have ok: "hooks_ok env f st1" using process_ok [OF Cons.prems(1), of now random outcome] st1(1) by simp
  have "t \<le> now" using Cons.prems(3) by (simp add: tick)
  then have ready: "is_ready now d" if "d \<in> set (pending st)" for d using Cons.prems(4) [OF that] is_ready_mono by blast
  have all: "batch env now st = pending st"
    unfolding batch_def using Cons.prems(2) ready by (auto intro!: filter_cong)
  then have dels: "deliveries st1 = map (\<lambda>d. if dl_status d = Pending then ?f d else d) (deliveries st)"
    using st1(2) by auto
  have "length (filter (\<lambda>d. dl_status d = Pending) (map (\<lambda>d. if dl_status d = Pending then ?f d else d) xs)) \<le>
      length (filter (\<lambda>d. dl_status d = Pending) xs)" for xs
    by (induction xs) auto
  then have fewer: "length (pending st1) \<le> batchSize env" unfolding dels using Cons.prems(2) order_trans by blast
  have rest: "is_ready (now + 5400000) x \<and> budget env x - dl_attempt_count x \<le> int (length ticks)" if "x \<in> set (pending st1)" for x
  proof -
    from that dels obtain d where d: "d \<in> set (pending st)" "x = ?f d" by (auto split: if_splits)
    from Cons.prems(4) [OF d(1)] have "budget env d - dl_attempt_count d \<le> int (length ticks) + 1" by simp
    moreover have "is_ready (now + 5400000) x" using that d(2) Cons.prems(3) tick log_after_ready by auto
    ultimately show ?thesis using d(2) by simp
  qed
  have "map dl_id (deliveries st1) = map dl_id (deliveries st)" by (simp add: dels comp_def)
  with Cons.IH [OF ok fewer _ rest] Cons.prems(3) st1(1) show ?case by (simp add: tick)
qed

text \<open>
  C34. Deliveries end: when the pending deliveries fit in a batch and are due, as many rounds as
  the largest limit, ninety minutes apart and with any answers, leave each of them delivered or
  dead-lettered, and none is lost.
\<close>

theorem deliveries_settle:
  assumes "hook_run env rs st" "length (filter (\<lambda>d. dl_status d = Pending) (deliveries st)) \<le> batchSize env" "spaced t ticks"
    and "\<forall>d \<in> set (deliveries st). dl_status d = Pending \<longrightarrow>
      is_ready t d \<and> max 1 (getEffectiveMaxAttempts env d) \<le> int (length ticks)"
  shows "map dl_id (deliveries (process_all env ticks st)) = map dl_id (deliveries st) \<and>
    (\<forall>d \<in> set (deliveries (process_all env ticks st)). dl_status d = Success \<or> dl_status d = DeadLetter)"
proof -
  have ok: "hooks_ok env (\<lambda>k. redrives_of k rs) st" using hook_run_ok [OF assms(1)] .
  have "is_ready t d \<and> budget env d - dl_attempt_count d \<le> int (length ticks)" if "d \<in> set (pending st)" for d
  proof -
    from that assms(4) have "is_ready t d" "budget env d \<le> int (length ticks)" by auto
    moreover have "0 \<le> dl_attempt_count d" using that ok by (auto simp: hooks_ok_def delivery_ok_def)
    ultimately show ?thesis by linarith
  qed
  from process_all_settles [OF ok assms(2,3) this] have
    fin: "pending (process_all env ticks st) = []" "map dl_id (deliveries (process_all env ticks st)) = map dl_id (deliveries st)"
      "hooks_ok env (\<lambda>k. redrives_of k rs) (process_all env ticks st)" by auto
  have "dl_status d = Success \<or> dl_status d = DeadLetter" if "d \<in> set (deliveries (process_all env ticks st))" for d
    using that fin(1,3) by (cases "dl_status d") (auto simp: filter_empty_conv hooks_ok_def delivery_ok_def)
  with fin(2) show ?thesis by blast
qed


section \<open>Incoming events\<close>

lemma canActivate_accepts_iff:
  "(\<exists>evs'. canActivate env now req evs = (Inr True, evs')) \<longleftrightarrow>
     truthy (in_source req) \<and> truthy (hmac_secret env) \<and>
     verifySignature env (in_raw_body req) (in_signature req) (the (hmac_secret env)) \<and> truthy (in_event_id req) \<and>
     isTimestampFresh env now (in_timestamp req) \<and> \<not> isReplay env now (the (in_source req)) (the (in_event_id req)) evs"
  by (simp add: canActivate_def)

lemma canActivate_refused: "canActivate env now req evs = (Inl e, evs') \<Longrightarrow> evs' = evs"
  by (simp add: canActivate_def split: if_splits)






section \<open>Examples\<close>

definition sample_hook_env :: hook_env where
  "sample_hook_env = \<lparr>defaultMaxAttempts = 2, globalRetryCapEnabled = False, globalRetryCapLimit = 10, batchSize = 50,
     hmac_sha256 = (\<lambda>key text. ''00'')\<rparr>"

definition sample_endpoint :: endpoint where
  "sample_endpoint = \<lparr>ep_id = ''e1'', ep_user = ''u1'', ep_url = ''https://x'', ep_event_types = [''market.created''],
     ep_secret_key = ''k'', ep_is_active = True, ep_failure_count = 0, ep_last_delivery_at = None, ep_last_failure_at = None\<rparr>"

definition sample_hooks :: hooks where
  "sample_hooks = \<lparr>endpoints = [sample_endpoint], deliveries = [], posts = []\<rparr>"

definition sample_delivery :: delivery where
  "sample_delivery = \<lparr>dl_id = ''d'', dl_endpoint = ''e1'', dl_event_type = ''market.created'', dl_payload = ''{}'', dl_status = Pending,
     dl_attempt_count = 0, dl_max_retry_limit = None, dl_http_status_code = None, dl_error_message = None,
     dl_next_retry_at = Some 0, dl_delivered_at = None\<rparr>"

definition sample_emit :: hook_request where
  "sample_emit = Emit 0 (\<lambda>i. ''d'' @ replicate i CHR ''x'') ''market.created'' ''{}'' None"

definition sample_failures :: "nat \<Rightarrow> tick list" where
  "sample_failures n = map (\<lambda>i. (int i * 5400000, \<lambda>_. 0, \<lambda>_. Responded 500)) [0..<n]"

lemma sample_emitted: "handle_hook sample_hook_env sample_emit sample_hooks = sample_hooks\<lparr>deliveries := [sample_delivery]\<rparr>"
  by (simp add: sample_emit_def sample_hooks_def emit_hook_def sample_endpoint_def createDeliveryLog_def sample_delivery_def)

lemma sample_hook_run: "hook_run sample_hook_env [sample_emit] (sample_hooks\<lparr>deliveries := [sample_delivery]\<rparr>)"
proof -
  have "hook_run sample_hook_env [] sample_hooks" by (rule hook_run.start) (simp_all add: sample_hooks_def)
  from hook_run.request [OF this, of sample_emit] show ?thesis
    by (simp add: sample_emitted) (simp add: sample_emit_def sample_hooks_def)
qed

theorem deliveries_bounded_witness:
  "int (posts_of ''d'' (sample_hooks\<lparr>deliveries := [sample_delivery]\<rparr>)) \<le> 2"
  using deliveries_bounded [OF sample_hook_run, of sample_delivery]
  by (simp add: sample_delivery_def sample_emit_def getEffectiveMaxAttempts_def sample_hook_env_def)

theorem deliveries_settle_witness:
  "list_all (\<lambda>d. dl_status d = Success \<or> dl_status d = DeadLetter)
     (deliveries (process_all sample_hook_env (sample_failures 2) (sample_hooks\<lparr>deliveries := [sample_delivery]\<rparr>)))"
  using deliveries_settle [OF sample_hook_run, of 0 "sample_failures 2"]
  by (simp add: list_all_iff sample_delivery_def sample_failures_def upt_rec sample_hook_env_def getEffectiveMaxAttempts_def is_ready_def)

definition sample_receiver :: receiver_env where
  "sample_receiver = \<lparr>hmac_secret = Some ''s'', replay_window_seconds = None, freshness_seconds = None, skew_seconds = None,
     incoming_hmac = (\<lambda>key text. ''ab'')\<rparr>"

definition sample_incoming :: "string \<Rightarrow> incoming_request" where
  "sample_incoming timestamp = \<lparr>in_source = Some ''src'', in_signature = Some ''ab'', in_timestamp = Some timestamp,
     in_raw_body = ''{}'', in_event_id = Some ''evt''\<rparr>"




section \<open>Behaviours the comments do not promise\<close>

text \<open>
  The batch is cut before the deliveries that are due are selected: a full batch of deliveries that
  wait for their retry keeps the ones behind it from being sent at all.
\<close>

lemma waiting_batch_blocks_due_deliveries:
  assumes "\<forall>d \<in> set (take (batchSize env) (filter (\<lambda>d. dl_status d = Pending) (deliveries st))). \<not> is_ready now d"
  shows "processPendingDeliveries env now random outcome st = (Inr (), st)"
  using assms by (simp add: processPendingDeliveries_def load_batch_def)

text \<open>
  Two failed deliveries to one endpoint in a round count as one: each attempt saves its own copy of
  the endpoint.  A switched-off endpoint is still sent what was queued for it.
\<close>

definition two_deliveries :: "bool \<Rightarrow> hooks" where
  "two_deliveries on = \<lparr>endpoints = [sample_endpoint\<lparr>ep_is_active := on\<rparr>],
     deliveries = [sample_delivery, sample_delivery\<lparr>dl_id := ''d2''\<rparr>], posts = []\<rparr>"

lemma failures_undercounted:
  "map ep_failure_count (endpoints (snd (processPendingDeliveries sample_hook_env 0 (\<lambda>_. 0) (\<lambda>_. Responded 500) (two_deliveries True)))) = [1]"
  by code_simp

lemma inactive_endpoint_still_posted:
  "map post_delivery (posts (snd (processPendingDeliveries sample_hook_env 0 (\<lambda>_. 0) (\<lambda>_. Responded 200) (two_deliveries False)))) = [''d'', ''d2'']"
  by code_simp

text \<open>
  The signature does not cover the timestamp header, and the time of the first receipt is never
  renewed: once the window has passed, a captured event with a new timestamp is let through, any
  number of times.
\<close>

lemma captured_event_replayable:
  "let evs = snd (canActivate sample_receiver 0 (sample_incoming ''0'') [])
   in canActivate sample_receiver 300000 (sample_incoming ''300'') evs = (Inr True, evs) \<and>
      canActivate sample_receiver 300001 (sample_incoming ''300'') evs = (Inr True, evs)"
  by code_simp

text \<open>An event id too long for its column is let through every time: the record of it fails silently.\<close>

lemma long_event_id_unprotected: "length e > 255 \<Longrightarrow> recordProcessed now s e evs = evs"
  by (simp add: recordProcessed_def)

text \<open>Characters after the digits of a signature are ignored.\<close>

lemma signature_suffix_ignored:
  "verifySignature sample_receiver body (Some ''ab'') ''s'' \<and> verifySignature sample_receiver body (Some ''abzz'') ''s''"
  by (simp add: verifySignature_def sample_receiver_def truthy_def Let_def digit_val_def code_def)

end
