(* ===== verification/Creator_Events.thy ===== *)
theory Creator_Events
  imports Soroban
begin

text \<open>
  The handlers of \<open>indexer/indexer.service.ts\<close> that build the creator events, their matches, the
  predictions and their points, the final leaderboards and payouts from the events of the contract.

  A handler works on the decoded data of its event, as \<open>extractEventData\<close> makes it: numbers are
  integers, an identifier that is missing or not a number is \<open>0\<close>, and an optional number that is
  missing is \<open>None\<close>.  Generated keys, the clock and the outcomes of the
  notification service and of a second write are arguments; broadcasts are left out.
\<close>

section \<open>Entities\<close>

datatype team = TEAM_A | TEAM_B | DRAW

record creator_event =
  ce_id :: id
  on_chain_event_id :: int
  creator_address :: string
  ce_title :: string
  ce_description :: string
  creation_fee_paid :: stroops
  on_chain_created_at :: instant
  ce_start_time :: instant
  ce_end_time :: instant
  prize_pool :: stroops
  reward_distribution :: "int list"
  entry_fee :: stroops
  total_entry_fees_collected :: stroops
  ce_category :: string
  banner_url :: "string option"
  ce_is_active :: bool
  ce_is_cancelled :: bool
  invite_code :: "string option"
  max_participants :: int
  ce_participant_count :: int
  match_count :: int
  ce_is_finalized :: bool

record match_row =
  match_id :: id
  on_chain_match_id :: int
  match_event :: id
  team_a :: string
  team_b :: string
  match_time :: instant
  result_submitted :: bool
  home_score :: "int option"
  away_score :: "int option"
  points_multiplier :: int
  winning_team :: "team option"
  submitted_by :: "string option"
  match_submitted_at :: "instant option"

record match_prediction =
  mp_id :: id
  mp_match :: id
  mp_user :: id
  predicted_outcome :: team
  predicted_home_score :: "int option"
  predicted_away_score :: "int option"
  points_earned :: int
  is_correct :: "bool option"

record board_entry =
  board_id :: id
  board_event :: int
  board_address :: string
  board_rank :: int
  board_total :: int
  board_correct :: int
  accuracy_percentage :: int
  board_is_winner :: bool

record payout_row =
  payout_event :: int
  payout_address :: string
  payout_amount :: stroops
  payout_is_claimed :: bool
  payout_entry :: id

record fee_row =
  old_fee_stroops :: stroops
  new_fee_stroops :: stroops
  fee_updated_by :: "string option"

record derived =
  creator_events :: "creator_event list"
  match_rows :: "match_row list"
  match_predictions :: "match_prediction list"
  board_entries :: "board_entry list"
  payout_rows :: "payout_row list"
  fee_history :: "fee_row list"
  known_users :: "user list"

interpretation creator_event_table: repository ce_id "find_row ce_id" "save_row ce_id" "unique_keys ce_id"
  by (rule table_repository)

interpretation match_table: repository match_id "find_row match_id" "save_row match_id" "unique_keys match_id"
  by (rule table_repository)

section \<open>Decoded events\<close>

record created_data =
  cd_event_id :: int
  cd_creator :: string
  cd_title :: string
  cd_description :: string
  cd_creation_fee_paid :: int
  cd_created_at :: "int option"
  cd_start_time :: "int option"
  cd_end_time :: "int option"
  cd_invite_code :: string
  cd_max_participants :: "int option"
  cd_prize_pool :: int
  cd_reward_distribution :: "int list"
  cd_entry_fee :: int
  cd_category :: string
  cd_banner_url :: "string option"
  cd_is_finalized :: bool

record added_data =
  ad_match_id :: int
  ad_event_id :: int
  ad_team_a :: string
  ad_team_b :: string
  ad_match_time :: "int option"
  ad_points_multiplier :: "int option"

record prediction_data =
  pd_match_id :: int
  pd_predictor :: string
  pd_outcome :: string
  pd_home_score :: "int option"
  pd_away_score :: "int option"

record result_data =
  rd_match_id :: int
  rd_winning_team :: "int option"
  rd_submitted_by :: string
  rd_submitted_at :: "int option"
  rd_home_score :: "int option"
  rd_away_score :: "int option"

record board_data =
  bd_address :: string
  bd_rank :: "int option"
  bd_payout_amount :: int
  bd_total_predictions :: "int option"
  bd_correct_predictions :: "int option"

datatype event_data =
    EventCreated created_data
  | MatchAdded added_data
  | UserJoinedEvent int string int
  | PredictionSubmitted prediction_data
  | MatchResultSubmitted result_data
  | WinnersVerified int
  | EventFinalized int "board_data list"
  | EventCancelled int
  | FeeUpdated int int string
  | AddressVerified string
  | AddressUnverified string
  | OtherEvent string

record handler_env =
  h_now :: instant
  h_id :: "nat \<Rightarrow> id"
  h_second :: "exn option"
  h_notify :: "exn option"

text \<open>
  The notification that ends a handler, and the second write of a handler that makes two, may
  fail: what was written before stays.
\<close>

definition second_write :: "handler_env \<Rightarrow> derived \<Rightarrow> (exn, unit) result \<times> derived \<Rightarrow> (exn, unit) result \<times> derived" where
  "second_write env w rest = (case h_second env of None \<Rightarrow> rest | Some e \<Rightarrow> (Inl e, w))"

definition with_notification :: "handler_env \<Rightarrow> derived \<Rightarrow> (exn, unit) result \<times> derived" where
  "with_notification env w = (case h_notify env of None \<Rightarrow> (Inr (), w) | Some e \<Rightarrow> (Inl e, w))"

section \<open>Reading\<close>

definition DEFAULT_EVENT_DURATION_SECONDS :: int where
  "DEFAULT_EVENT_DURATION_SECONDS = 7776000"

definition null_or :: "('a \<Rightarrow> bool) \<Rightarrow> 'a option \<Rightarrow> bool" where
  "null_or fits v \<longleftrightarrow> (case v of None \<Rightarrow> True | Some x \<Rightarrow> fits x)"

definition int4 :: "int \<Rightarrow> bool" where
  "int4 n \<longleftrightarrow> - (2 ^ 31) \<le> n \<and> n < 2 ^ 31"

definition int8 :: "int \<Rightarrow> bool" where
  "int8 n \<longleftrightarrow> - (2 ^ 63) \<le> n \<and> n < 2 ^ 63"

text \<open>A date outside of the range of \<open>Date\<close> is invalid, and the database refuses it.\<close>

definition valid_date :: "instant \<Rightarrow> bool" where
  "valid_date t \<longleftrightarrow> \<bar>t\<bar> \<le> 8640000000000000"

definition readUnixTimestamp :: "int option \<Rightarrow> instant option" where
  "readUnixTimestamp seconds =
     (case seconds of
        None \<Rightarrow> None
      | Some s \<Rightarrow> if s \<le> 0 \<or> \<not> valid_date (s * 1000) then None else Some (s * 1000))"

definition readUnsignedBigInt :: "int \<Rightarrow> stroops" where
  "readUnsignedBigInt n = (if n < 0 then 0 else n)"

section \<open>Creator events\<close>

definition hasOverlappingCampaign :: "string \<Rightarrow> instant \<Rightarrow> instant \<Rightarrow> derived \<Rightarrow> bool" where
  "hasOverlappingCampaign address startTime endTime w \<longleftrightarrow>
     address \<noteq> [] \<and>
     list_ex (\<lambda>e. creator_address e = address \<and> \<not> ce_is_cancelled e \<and> ce_start_time e < endTime \<and> ce_end_time e > startTime)
       (creator_events w)"

definition event_fits :: "creator_event \<Rightarrow> bool" where
  "event_fits e \<longleftrightarrow> length (creator_address e) \<le> 255 \<and> length (ce_title e) \<le> 200 \<and>
     null_or (\<lambda>c. length c \<le> 8) (invite_code e) \<and>
     null_or (\<lambda>u. length u \<le> 2048) (banner_url e) \<and> length (ce_category e) \<le> 100 \<and>
     int8 (on_chain_event_id e) \<and> int8 (creation_fee_paid e) \<and> int8 (prize_pool e) \<and> int8 (entry_fee e) \<and>
     list_all int4 (reward_distribution e) \<and> int4 (max_participants e) \<and> valid_date (ce_end_time e)"

definition event_window :: "instant \<Rightarrow> created_data \<Rightarrow> instant \<times> instant \<times> instant" where
  "event_window now d =
     (let createdAt = (case readUnixTimestamp (cd_created_at d) of Some t \<Rightarrow> t | None \<Rightarrow> now);
          startTime = (case readUnixTimestamp (cd_start_time d) of Some t \<Rightarrow> t | None \<Rightarrow> createdAt);
          endTime = (case readUnixTimestamp (cd_end_time d) of
                       Some t \<Rightarrow> if t > startTime then t else startTime + DEFAULT_EVENT_DURATION_SECONDS * 1000
                     | None \<Rightarrow> startTime + DEFAULT_EVENT_DURATION_SECONDS * 1000)
      in (createdAt, startTime, endTime))"

definition new_creator_event :: "handler_env \<Rightarrow> created_data \<Rightarrow> creator_event" where
  "new_creator_event env d =
     (let (createdAt, startTime, endTime) = event_window (h_now env) d in
      \<lparr>ce_id = h_id env 0, on_chain_event_id = cd_event_id d, creator_address = cd_creator d,
       ce_title = (if cd_title d \<noteq> [] then cd_title d else ''Event '' @ bigint_to_string (cd_event_id d)),
       ce_description = cd_description d, creation_fee_paid = readUnsignedBigInt (cd_creation_fee_paid d),
       on_chain_created_at = createdAt, ce_start_time = startTime, ce_end_time = endTime,
       prize_pool = readUnsignedBigInt (cd_prize_pool d), reward_distribution = cd_reward_distribution d,
       entry_fee = readUnsignedBigInt (cd_entry_fee d), total_entry_fees_collected = 0, ce_category = cd_category d,
       banner_url = cd_banner_url d, ce_is_active = True, ce_is_cancelled = False,
       invite_code = (if cd_invite_code d \<noteq> [] then Some (cd_invite_code d) else None),
       max_participants = (case cd_max_participants d of Some n \<Rightarrow> n | None \<Rightarrow> 0),
       ce_participant_count = 0, match_count = 0, ce_is_finalized = cd_is_finalized d\<rparr>)"

definition handleEventCreated :: "handler_env \<Rightarrow> created_data \<Rightarrow> (derived, exn, unit) action" where
  "handleEventCreated env d w =
     (if cd_event_id d = 0 then (Inr (), w)
      else if cd_event_id d \<in> on_chain_event_id ` set (creator_events w) then (Inr (), w)
      else
        let (createdAt, startTime, endTime) = event_window (h_now env) d;
            e = new_creator_event env d
        in if hasOverlappingCampaign (cd_creator d) startTime endTime w then (Inr (), w)
           else if ce_id e \<in> ce_id ` set (creator_events w) \<or> \<not> event_fits e then (Inl QueryFailed, w)
           else with_notification env (w\<lparr>creator_events := creator_events w @ [e]\<rparr>))"

text \<open>The columns that joins and matches change hold their values: a sum that does not fit fails the query.\<close>

definition counters_fit :: "creator_event \<Rightarrow> bool" where
  "counters_fit e \<longleftrightarrow> int4 (ce_participant_count e) \<and> int4 (match_count e) \<and> int8 (prize_pool e) \<and> int8 (total_entry_fees_collected e)"

definition handleUserJoinedEvent :: "handler_env \<Rightarrow> int \<Rightarrow> string \<Rightarrow> int \<Rightarrow> (derived, exn, unit) action" where
  "handleUserJoinedEvent env eventId userAddress entryFee w =
     (if eventId = 0 \<or> userAddress = [] then (Inr (), w)
      else if eventId \<notin> on_chain_event_id ` set (creator_events w) then (Inr (), w)
      else
        let entryFeePaid = readUnsignedBigInt entryFee;
            events = update_row on_chain_event_id eventId (\<lambda>e. e\<lparr>ce_participant_count := ce_participant_count e + 1,
               prize_pool := prize_pool e + entryFeePaid,
               total_entry_fees_collected := total_entry_fees_collected e + entryFeePaid\<rparr>) (creator_events w)
        in if list_ex (\<lambda>e. \<not> counters_fit e) events then (Inl QueryFailed, w)
           else with_notification env (w\<lparr>creator_events := events\<rparr>))"

definition recomputeEntryFeeTotals :: "int \<Rightarrow> (derived, exn, unit) action" where
  "recomputeEntryFeeTotals eventId w =
     (case find_row on_chain_event_id eventId (creator_events w) of
        None \<Rightarrow> (Inr (), w)
      | Some e \<Rightarrow>
          let total = entry_fee e * ce_participant_count e
          in if \<not> int8 total then (Inl QueryFailed, w)
             else (Inr (), w\<lparr>creator_events := update_row on_chain_event_id eventId
                    (\<lambda>e. e\<lparr>total_entry_fees_collected := total\<rparr>) (creator_events w)\<rparr>))"

definition handleEventCancelled :: "handler_env \<Rightarrow> int \<Rightarrow> (derived, exn, unit) action" where
  "handleEventCancelled env eventId w =
     (if eventId = 0 then (Inr (), w)
      else case find_row on_chain_event_id eventId (creator_events w) of
             None \<Rightarrow> (Inr (), w)
           | Some e \<Rightarrow>
               with_notification env (w\<lparr>creator_events :=
                 save_row ce_id (e\<lparr>ce_is_active := False, ce_is_cancelled := True\<rparr>) (creator_events w)\<rparr>))"

section \<open>Matches and predictions\<close>

definition match_fits :: "match_row \<Rightarrow> bool" where
  "match_fits m \<longleftrightarrow> length (team_a m) \<le> 100 \<and> length (team_b m) \<le> 100 \<and> int8 (on_chain_match_id m) \<and>
     valid_date (match_time m) \<and> null_or int4 (home_score m) \<and> null_or int4 (away_score m) \<and>
     null_or (\<lambda>s. length s \<le> 255) (submitted_by m) \<and> null_or valid_date (match_submitted_at m)"

definition handleMatchAdded :: "handler_env \<Rightarrow> added_data \<Rightarrow> (derived, exn, unit) action" where
  "handleMatchAdded env d w =
     (if ad_match_id d = 0 \<or> ad_event_id d = 0 then (Inr (), w)
      else if ad_match_id d \<in> on_chain_match_id ` set (match_rows w) then (Inr (), w)
      else case find_row on_chain_event_id (ad_event_id d) (creator_events w) of
             None \<Rightarrow> (Inr (), w)
           | Some e \<Rightarrow>
               let multiplier = (case ad_points_multiplier d of Some n \<Rightarrow> if n < 1 \<or> n > 3 then 1 else n | None \<Rightarrow> 1);
                   m = \<lparr>match_id = h_id env 0, on_chain_match_id = ad_match_id d, match_event = ce_id e,
                        team_a = (if ad_team_a d \<noteq> [] then ad_team_a d else ''Team A''),
                        team_b = (if ad_team_b d \<noteq> [] then ad_team_b d else ''Team B''),
                        match_time = (case ad_match_time d of Some s \<Rightarrow> if s \<noteq> 0 then s * 1000 else h_now env | None \<Rightarrow> h_now env),
                        result_submitted = False, home_score = None, away_score = None, points_multiplier = multiplier,
                        winning_team = None, submitted_by = None, match_submitted_at = None\<rparr>;
                   w1 = w\<lparr>match_rows := match_rows w @ [m]\<rparr>;
                   e' = e\<lparr>match_count := match_count e + 1\<rparr>
               in if match_id m \<in> match_id ` set (match_rows w) \<or> \<not> match_fits m then (Inl QueryFailed, w)
                  else second_write env w1
                    (if \<not> int4 (match_count e') then (Inl QueryFailed, w1)
                     else with_notification env (w1\<lparr>creator_events := save_row ce_id e' (creator_events w1)\<rparr>)))"

definition parse_outcome :: "string \<Rightarrow> team option" where
  "parse_outcome s =
     (if s = ''TEAM_A'' then Some TEAM_A else if s = ''TEAM_B'' then Some TEAM_B else if s = ''DRAW'' then Some DRAW else None)"

definition predicted :: "prediction_data \<Rightarrow> team option" where
  "predicted d =
     (case (pd_home_score d, pd_away_score d) of
        (Some h, Some a) \<Rightarrow> Some (if h > a then TEAM_A else if h < a then TEAM_B else DRAW)
      | _ \<Rightarrow> if pd_outcome d = [] then None else parse_outcome (map to_upper (pd_outcome d)))"

definition handlePredictionSubmitted :: "handler_env \<Rightarrow> prediction_data \<Rightarrow> (derived, exn, unit) action" where
  "handlePredictionSubmitted env d w =
     (if pd_match_id d = 0 \<or> pd_predictor d = [] then (Inr (), w)
      else case (find_row on_chain_match_id (pd_match_id d) (match_rows w),
                 find_row stellar_address (pd_predictor d) (known_users w)) of
             (Some m, Some u) \<Rightarrow>
               if list_ex (\<lambda>p. mp_match p = match_id m \<and> mp_user p = user_id u) (match_predictions w) then (Inr (), w)
               else (case predicted d of
                       None \<Rightarrow> (Inr (), w)
                     | Some outcome \<Rightarrow>
                         if h_id env 0 \<in> mp_id ` set (match_predictions w) \<or>
                           \<not> null_or int4 (pd_home_score d) \<or> \<not> null_or int4 (pd_away_score d) then (Inl QueryFailed, w)
                         else with_notification env (w\<lparr>match_predictions := match_predictions w @
                           [\<lparr>mp_id = h_id env 0, mp_match = match_id m, mp_user = user_id u, predicted_outcome = outcome,
                             predicted_home_score = pd_home_score d, predicted_away_score = pd_away_score d,
                             points_earned = 0, is_correct = None\<rparr>]\<rparr>))
           | _ \<Rightarrow> (Inr (), w))"

definition points_for :: "match_row \<Rightarrow> match_prediction \<Rightarrow> int" where
  "points_for m p =
     (case (home_score m, away_score m, predicted_home_score p, predicted_away_score p) of
        (Some h, Some a, Some ph, Some pa) \<Rightarrow>
          if ph = h \<and> pa = a then 4 * points_multiplier m
          else if ph - pa = h - a then 3 * points_multiplier m
          else 1 * points_multiplier m
      | _ \<Rightarrow> 1 * points_multiplier m)"

definition grade :: "match_row \<Rightarrow> match_prediction \<Rightarrow> match_prediction" where
  "grade m p =
     (let outcomeCorrect = (Some (predicted_outcome p) = winning_team m)
      in p\<lparr>is_correct := Some outcomeCorrect, points_earned := (if outcomeCorrect then points_for m p else 0)\<rparr>)"

definition gradePredictions :: "match_row \<Rightarrow> derived \<Rightarrow> derived" where
  "gradePredictions m w =
     w\<lparr>match_predictions := map (\<lambda>p. if mp_match p = match_id m then grade m p else p) (match_predictions w)\<rparr>"

definition winner_of_number :: "int option \<Rightarrow> team option" where
  "winner_of_number n =
     (case n of None \<Rightarrow> Some TEAM_A
      | Some k \<Rightarrow> if k = 0 then Some TEAM_A else if k = 1 then Some TEAM_B else if k = 2 then Some DRAW else None)"

text \<open>
  \<open>Number(null)\<close> is \<open>0\<close>: a missing winning team reads as the first one, and a missing score as
  zero, since the decoded data always has the field.
\<close>

definition handleMatchResultSubmitted :: "handler_env \<Rightarrow> result_data \<Rightarrow> (derived, exn, unit) action" where
  "handleMatchResultSubmitted env d w =
     (if rd_match_id d = 0 then (Inr (), w)
      else case find_row on_chain_match_id (rd_match_id d) (match_rows w) of
             None \<Rightarrow> (Inr (), w)
           | Some m \<Rightarrow>
               if result_submitted m then (Inr (), w)
               else (case winner_of_number (rd_winning_team d) of
                       None \<Rightarrow> (Inr (), w)
                     | Some winner \<Rightarrow>
                         let m' = m\<lparr>result_submitted := True, winning_team := Some winner,
                               submitted_by := Some (rd_submitted_by d),
                               match_submitted_at := Some (case rd_submitted_at d of
                                 Some s \<Rightarrow> if s \<noteq> 0 then s * 1000 else h_now env | None \<Rightarrow> h_now env),
                               home_score := Some (case rd_home_score d of Some h \<Rightarrow> h | None \<Rightarrow> 0),
                               away_score := Some (case rd_away_score d of Some a \<Rightarrow> a | None \<Rightarrow> 0)\<rparr>;
                             w1 = w\<lparr>match_rows := save_row match_id m' (match_rows w)\<rparr>
                         in if \<not> match_fits m' then (Inl QueryFailed, w)
                            else second_write env w1 (with_notification env (gradePredictions m' w1))))"

section \<open>Final standings and payouts\<close>

text \<open>
  The accuracy in hundredths of a percent, rounded half up; the quotient of the two numbers is taken
  exactly.  \<open>numeric(5,2)\<close> holds less than a thousand percent.
\<close>

definition accuracyPercentage :: "int \<Rightarrow> int \<Rightarrow> int" where
  "accuracyPercentage made correct = (if made > 0 then (2 * correct * 10000 + made) div (2 * made) else 0)"

definition board_fits :: "board_entry \<Rightarrow> bool" where
  "board_fits b \<longleftrightarrow> length (board_address b) \<le> 255 \<and> int4 (board_rank b) \<and> int4 (board_total b) \<and>
     int4 (board_correct b) \<and> \<bar>accuracy_percentage b\<bar> < 100000"

definition same_board_entry :: "int \<Rightarrow> string \<Rightarrow> board_entry \<Rightarrow> bool" where
  "same_board_entry eventId address b \<longleftrightarrow> board_event b = eventId \<and> board_address b = address"

definition processLeaderboardEntry :: "handler_env \<Rightarrow> int \<Rightarrow> nat \<times> board_data \<Rightarrow> (derived, exn, unit) action" where
  "processLeaderboardEntry env eventId ib w =
     (let d = snd ib;
          payoutAmountStroops = readUnsignedBigInt (bd_payout_amount d);
          totalPredictions = (case bd_total_predictions d of Some n \<Rightarrow> n | None \<Rightarrow> 0);
          correctPredictions = (case bd_correct_predictions d of Some n \<Rightarrow> n | None \<Rightarrow> 0)
      in case bd_rank d of
           None \<Rightarrow> (Inr (), w)
         | Some rank \<Rightarrow>
             if bd_address d = [] then (Inr (), w)
             else
               let entryId = (case List.find (same_board_entry eventId (bd_address d)) (board_entries w) of
                                Some b \<Rightarrow> board_id b | None \<Rightarrow> h_id env (fst ib));
                   b = \<lparr>board_id = entryId, board_event = eventId, board_address = bd_address d, board_rank = rank,
                        board_total = totalPredictions, board_correct = correctPredictions,
                        accuracy_percentage = accuracyPercentage totalPredictions correctPredictions,
                        board_is_winner = (payoutAmountStroops > 0)\<rparr>;
                   w1 = w\<lparr>board_entries := save_row board_id b (board_entries w)\<rparr>
               in if \<not> board_fits b then (Inl QueryFailed, w)
                  else if list_ex (\<lambda>p. payout_event p = eventId \<and> payout_address p = bd_address d) (payout_rows w1)
                    \<or> \<not> int8 payoutAmountStroops then (Inl QueryFailed, w1)
                  else (Inr (), w1\<lparr>payout_rows := payout_rows w1 @
                         [\<lparr>payout_event = eventId, payout_address = bd_address d, payout_amount = payoutAmountStroops,
                           payout_is_claimed = False, payout_entry = entryId\<rparr>]\<rparr>))"

definition process_entries :: "handler_env \<Rightarrow> int \<Rightarrow> board_data list \<Rightarrow> derived \<Rightarrow> derived" where
  "process_entries env eventId leaderboard w =
     fold (\<lambda>ib w. snd (processLeaderboardEntry env eventId ib w)) (List.enumerate 0 leaderboard) w"

definition handleEventFinalized :: "handler_env \<Rightarrow> int \<Rightarrow> board_data list \<Rightarrow> (derived, exn, unit) action" where
  "handleEventFinalized env eventId leaderboard w =
     (if eventId = 0 then (Inr (), w)
      else case find_row on_chain_event_id eventId (creator_events w) of
             None \<Rightarrow> (Inr (), w)
           | Some e \<Rightarrow>
               if list_ex (\<lambda>p. payout_event p = eventId) (payout_rows w) then (Inr (), w)
               else
                 let w1 = (if ce_is_finalized e then w
                           else w\<lparr>creator_events := save_row ce_id (e\<lparr>ce_is_finalized := True\<rparr>) (creator_events w)\<rparr>)
                 in case recomputeEntryFeeTotals eventId w1 of
                      (Inl x, w2) \<Rightarrow> (Inl x, w2)
                    | (Inr _, w2) \<Rightarrow> (Inr (), process_entries env eventId leaderboard w2))"

section \<open>Fees and verified addresses\<close>

definition handleFeeUpdated :: "int \<Rightarrow> int \<Rightarrow> string \<Rightarrow> (derived, exn, unit) action" where
  "handleFeeUpdated oldFee newFee updatedBy w =
     (if \<not> int8 oldFee \<or> \<not> int8 newFee \<or> length updatedBy > 255 then (Inl QueryFailed, w)
      else (Inr (), w\<lparr>fee_history := fee_history w @
             [\<lparr>old_fee_stroops = oldFee, new_fee_stroops = newFee,
               fee_updated_by = (if updatedBy \<noteq> [] then Some updatedBy else None)\<rparr>]\<rparr>))"

definition handleAddressVerified :: "string \<Rightarrow> (derived, exn, unit) action" where
  "handleAddressVerified address w =
     (if address = [] then (Inr (), w)
      else case find_row stellar_address address (known_users w) of
             None \<Rightarrow> (Inr (), w)
           | Some u \<Rightarrow>
               let u' = u\<lparr>reputation_score := reputation_score u + 1\<rparr>
               in if int4 (reputation_score u') then (Inr (), w\<lparr>known_users := save_row user_id u' (known_users w)\<rparr>)
                  else (Inl QueryFailed, w))"

definition handleAddressUnverified :: "string \<Rightarrow> (derived, exn, unit) action" where
  "handleAddressUnverified address w =
     (if address = [] then (Inr (), w)
      else case find_row stellar_address address (known_users w) of
             None \<Rightarrow> (Inr (), w)
           | Some u \<Rightarrow>
               if reputation_score u > 0
               then (Inr (), w\<lparr>known_users := save_row user_id (u\<lparr>reputation_score := max 0 (reputation_score u - 1)\<rparr>) (known_users w)\<rparr>)
               else (Inr (), w))"

section \<open>Dispatch\<close>

text \<open>The verification of winners only sends a notification, which the dispatch does not wait for.\<close>

fun processEventByType :: "handler_env \<Rightarrow> event_data \<Rightarrow> (derived, exn, unit) action" where
  "processEventByType env (EventCreated d) w = handleEventCreated env d w"
| "processEventByType env (MatchAdded d) w = handleMatchAdded env d w"
| "processEventByType env (UserJoinedEvent eventId address entryFee) w = handleUserJoinedEvent env eventId address entryFee w"
| "processEventByType env (PredictionSubmitted d) w = handlePredictionSubmitted env d w"
| "processEventByType env (MatchResultSubmitted d) w = handleMatchResultSubmitted env d w"
| "processEventByType env (WinnersVerified eventId) w = (Inr (), w)"
| "processEventByType env (EventFinalized eventId leaderboard) w = handleEventFinalized env eventId leaderboard w"
| "processEventByType env (EventCancelled eventId) w = handleEventCancelled env eventId w"
| "processEventByType env (FeeUpdated oldFee newFee updatedBy) w = handleFeeUpdated oldFee newFee updatedBy w"
| "processEventByType env (AddressVerified address) w = handleAddressVerified address w"
| "processEventByType env (AddressUnverified address) w = handleAddressUnverified address w"
| "processEventByType env (OtherEvent name) w = (Inr (), w)"

end
