(* ===== verification/Indexer.thy ===== *)
theory Indexer
  imports Creator_Events "HOL-Library.Product_Lexorder"
begin

text \<open>
  The chain indexer: \<open>indexer/indexer.service.ts\<close> (polling the node for the events of the contract,
  storing each event and running its handler, the checkpoints, the rollback after a fork, retries,
  backfills, re-indexing, the listing) and \<open>indexer/reconciliation.service.ts\<close>.

  The state holds the tables of the indexer for the one configured contract, and the tables its
  handlers derive.  The node is an argument: what it answers to \<open>getEvents\<close> from a ledger on and to
  the question for the hash of a ledger, at the time of the poll.  A poll runs to its end before the
  next one starts, as its \<open>isRunning\<close> flag ensures.
\<close>

section \<open>State\<close>

datatype event_status = EvPending | EvProcessed | EvFailed | EvDlq

record contract_event =
  ev_id :: id
  ev_ledger :: int
  ev_log_index :: int
  ev_type :: string
  ev_data :: event_data
  ev_tx_hash :: "string option"
  ev_status :: event_status
  ev_error :: "exn option"
  ev_retry_count :: int
  ev_created_at :: instant
  ev_processed_at :: "instant option"

record chain_sync_checkpoint =
  last_indexed_ledger :: int
  last_indexed_ledger_hash :: "string option"
  chain_head_ledger :: int
  last_reconciled_from :: int
  last_reconciled_to :: int
  last_reconciled_at :: "instant option"
  last_backfill_count :: int

record reorg_event =
  fork_ledger :: int
  previous_ledger :: int
  previous_hash :: "string option"
  new_hash :: string
  rolled_back_event_count :: nat

record indexer =
  contract_events :: "contract_event list"
  ledger_checkpoint :: "int option"
  latest_checkpoint :: "int option"
  chain_sync :: "chain_sync_checkpoint option"
  reorg_events :: "reorg_event list"
  derived_tables :: derived

section \<open>The node\<close>

text \<open>
  An event as the node returns it: its ledger, its index in the ledger if the node tells it, its
  \<open>type\<close>, and the event it decodes to, if any.
\<close>

record node_event =
  ne_ledger :: int
  ne_log_index :: "int option"
  ne_type :: "string option"
  ne_data :: "event_data option"
  ne_tx_hash :: "string option"

datatype node_answer = NoAnswer | Answer "node_event list" "int option"

record raw_event =
  rw_ledger :: int
  rw_log_index :: int
  rw_data :: event_data
  rw_tx_hash :: "string option"

record poll_env =
  p_contract :: "string option"
  p_rpc :: bool
  p_depth :: "int option"
  p_now :: instant
  p_key :: "int \<times> int \<Rightarrow> id"
  p_save :: "int \<times> int \<Rightarrow> exn option"
  p_mark :: "int \<times> int \<Rightarrow> exn option"
  p_handler :: "int \<times> int \<Rightarrow> handler_env"
  p_hash :: "int \<Rightarrow> string option"
  p_events :: "int \<Rightarrow> node_answer"

abbreviation position :: "raw_event \<Rightarrow> int \<times> int" where
  "position r \<equiv> (rw_ledger r, rw_log_index r)"

abbreviation row_position :: "contract_event \<Rightarrow> int \<times> int" where
  "row_position r \<equiv> (ev_ledger r, ev_log_index r)"

fun type_name :: "event_data \<Rightarrow> string" where
  "type_name (EventCreated _) = ''EventCreated''"
| "type_name (MatchAdded _) = ''MatchAdded''"
| "type_name (UserJoinedEvent _ _ _) = ''UserJoinedEvent''"
| "type_name (PredictionSubmitted _) = ''PredictionSubmitted''"
| "type_name (MatchResultSubmitted _) = ''MatchResultSubmitted''"
| "type_name (WinnersVerified _) = ''WinnersVerified''"
| "type_name (EventFinalized _ _) = ''EventFinalized''"
| "type_name (EventCancelled _) = ''EventCancelled''"
| "type_name (FeeUpdated _ _ _) = ''FeeUpdated''"
| "type_name (AddressVerified _) = ''AddressVerified''"
| "type_name (AddressUnverified _) = ''AddressUnverified''"
| "type_name (OtherEvent name) = name"

definition DLQ_THRESHOLD :: int where "DLQ_THRESHOLD = 5"
definition MAX_RETRIES :: int where "MAX_RETRIES = 5"
definition DEFAULT_REORG_ROLLBACK_DEPTH :: int where "DEFAULT_REORG_ROLLBACK_DEPTH = 10"
definition BACKFILL_BATCH_SIZE :: int where "BACKFILL_BATCH_SIZE = 50"

definition contract_configured :: "poll_env \<Rightarrow> bool" where
  "contract_configured env \<longleftrightarrow>
     (case p_contract env of None \<Rightarrow> False | Some c \<Rightarrow> c \<noteq> [] \<and> c \<noteq> ''your-contract-id-here'')"

section \<open>Fetching\<close>

definition parseRawEvent :: "int \<Rightarrow> node_event \<Rightarrow> raw_event option" where
  "parseRawEvent index e =
     (case ne_data e of
        None \<Rightarrow> None
      | Some d \<Rightarrow> Some \<lparr>rw_ledger = ne_ledger e,
          rw_log_index = (case ne_log_index e of Some i \<Rightarrow> i | None \<Rightarrow> index), rw_data = d, rw_tx_hash = ne_tx_hash e\<rparr>)"

definition parse_events :: "node_event list \<Rightarrow> raw_event list" where
  "parse_events es = List.map_filter (\<lambda>(i, e). parseRawEvent (int i) e) (List.enumerate 0 es)"

definition fetchEventsFromContract :: "poll_env \<Rightarrow> int \<Rightarrow> raw_event list \<times> int" where
  "fetchEventsFromContract env fromLedger =
     (if \<not> p_rpc env \<or> p_contract env = None then ([], fromLedger)
      else case p_events env fromLedger of
             NoAnswer \<Rightarrow> ([], fromLedger)
           | Answer es latest \<Rightarrow> (parse_events es, case latest of Some l \<Rightarrow> l | None \<Rightarrow> fromLedger))"

section \<open>Processing an event\<close>

definition find_event_row :: "int \<times> int \<Rightarrow> contract_event list \<Rightarrow> contract_event option" where
  "find_event_row pos rows = List.find (\<lambda>r. row_position r = pos) rows"

definition new_event_row :: "poll_env \<Rightarrow> raw_event \<Rightarrow> contract_event" where
  "new_event_row env raw =
     \<lparr>ev_id = p_key env (position raw), ev_ledger = rw_ledger raw, ev_log_index = rw_log_index raw, ev_type = type_name (rw_data raw),
      ev_data = rw_data raw, ev_tx_hash = rw_tx_hash raw, ev_status = EvPending, ev_error = None, ev_retry_count = 0,
      ev_created_at = p_now env, ev_processed_at = None\<rparr>"

definition record_failure :: "exn \<Rightarrow> contract_event \<Rightarrow> contract_event" where
  "record_failure x r =
     (let n = ev_retry_count r + 1
      in r\<lparr>ev_retry_count := n, ev_status := (if n \<ge> DLQ_THRESHOLD then EvDlq else EvFailed), ev_error := Some x\<rparr>)"

definition run_handler :: "poll_env \<Rightarrow> raw_event \<Rightarrow> contract_event \<Rightarrow> indexer \<Rightarrow> indexer" where
  "run_handler env raw row s =
     (let (res, d) = processEventByType (p_handler env (position raw)) (rw_data raw) (derived_tables s);
          done_row = row\<lparr>ev_status := EvProcessed, ev_processed_at := Some (p_now env)\<rparr>;
          row' = (case res of
                    Inl x \<Rightarrow> record_failure x row
                  | Inr _ \<Rightarrow> (case p_mark env (position raw) of None \<Rightarrow> done_row | Some x \<Rightarrow> record_failure x done_row))
      in s\<lparr>derived_tables := d, contract_events := save_row ev_id row' (contract_events s)\<rparr>)"

definition storeAndProcessEvent :: "poll_env \<Rightarrow> raw_event \<Rightarrow> (indexer, exn, unit) action" where
  "storeAndProcessEvent env raw s =
     (let existing = find_event_row (position raw) (contract_events s)
      in if (case existing of Some r \<Rightarrow> ev_status r = EvProcessed | None \<Rightarrow> False) then (Inr (), s)
         else
           let row = (case existing of
                        Some r \<Rightarrow> r\<lparr>ev_data := rw_data raw, ev_tx_hash := rw_tx_hash raw\<rparr>
                      | None \<Rightarrow> new_event_row env raw)
           in case p_save env (position raw) of
                Some x \<Rightarrow> (Inl x, s)
              | None \<Rightarrow> (Inr (), run_handler env raw row (s\<lparr>contract_events := save_row ev_id row (contract_events s)\<rparr>)))"

section \<open>Checkpoints\<close>

definition getCheckpointValue :: "int option \<Rightarrow> int" where
  "getCheckpointValue v = (case v of None \<Rightarrow> 0 | Some n \<Rightarrow> n)"

definition ensureCheckpoints :: "indexer \<Rightarrow> indexer" where
  "ensureCheckpoints s = s\<lparr>ledger_checkpoint := Some (getCheckpointValue (ledger_checkpoint s)),
     latest_checkpoint := Some (getCheckpointValue (latest_checkpoint s))\<rparr>"

definition resumeFromPersistedCheckpoint :: "poll_env \<Rightarrow> indexer \<Rightarrow> indexer" where
  "resumeFromPersistedCheckpoint env s =
     (if \<not> contract_configured env then s
      else case chain_sync s of
             None \<Rightarrow> s
           | Some c \<Rightarrow>
               if last_indexed_ledger c > 0 \<and> last_indexed_ledger c > getCheckpointValue (ledger_checkpoint s)
               then s\<lparr>ledger_checkpoint := Some (last_indexed_ledger c)\<rparr> else s)"

definition onModuleInit :: "poll_env \<Rightarrow> indexer \<Rightarrow> indexer" where
  "onModuleInit env s = resumeFromPersistedCheckpoint env (ensureCheckpoints s)"

definition new_checkpoint :: chain_sync_checkpoint where
  "new_checkpoint = \<lparr>last_indexed_ledger = 0, last_indexed_ledger_hash = None, chain_head_ledger = 0, last_reconciled_from = 0,
     last_reconciled_to = 0, last_reconciled_at = None, last_backfill_count = 0\<rparr>"

definition getOrCreateCheckpoint :: "indexer \<Rightarrow> chain_sync_checkpoint" where
  "getOrCreateCheckpoint s = (case chain_sync s of Some c \<Rightarrow> c | None \<Rightarrow> new_checkpoint)"

definition advanceCheckpoint :: "int \<Rightarrow> indexer \<Rightarrow> indexer" where
  "advanceCheckpoint ledger s =
     (let c = getOrCreateCheckpoint s
      in s\<lparr>chain_sync := Some (if ledger > last_indexed_ledger c then c\<lparr>last_indexed_ledger := ledger\<rparr> else c)\<rparr>)"

definition persistIndexedLedgerHash :: "poll_env \<Rightarrow> int \<Rightarrow> indexer \<Rightarrow> indexer" where
  "persistIndexedLedgerHash env ledger s =
     (if ledger \<le> 0 then s
      else case p_hash env ledger of
             None \<Rightarrow> s
           | Some h \<Rightarrow>
               let c = getOrCreateCheckpoint s;
                   c' = (if ledger \<ge> last_indexed_ledger c then c\<lparr>last_indexed_ledger := ledger\<rparr> else c)
               in s\<lparr>chain_sync := Some (c'\<lparr>last_indexed_ledger_hash := Some h\<rparr>)\<rparr>)"

section \<open>Forks\<close>

text \<open>An empty hash counts as none.\<close>

definition detectAndHandleReorg :: "poll_env \<Rightarrow> indexer \<Rightarrow> indexer" where
  "detectAndHandleReorg env s =
     (case chain_sync s of
        None \<Rightarrow> s
      | Some c \<Rightarrow>
          if last_indexed_ledger c \<le> 0 \<or> last_indexed_ledger_hash c = None \<or> last_indexed_ledger_hash c = Some [] then s
          else case p_hash env (last_indexed_ledger c) of
                 None \<Rightarrow> s
               | Some h \<Rightarrow>
                   if Some h = last_indexed_ledger_hash c then s
                   else
                     let rollbackDepth = (case p_depth env of Some n \<Rightarrow> n | None \<Rightarrow> DEFAULT_REORG_ROLLBACK_DEPTH);
                         forkLedger = max 0 (last_indexed_ledger c - rollbackDepth)
                     in s\<lparr>contract_events := filter (\<lambda>r. ev_ledger r \<le> forkLedger) (contract_events s),
                          chain_sync := Some (c\<lparr>last_indexed_ledger := forkLedger, last_indexed_ledger_hash := p_hash env forkLedger\<rparr>),
                          ledger_checkpoint := Some forkLedger,
                          reorg_events := reorg_events s @ [\<lparr>fork_ledger = forkLedger, previous_ledger = last_indexed_ledger c,
                            previous_hash = last_indexed_ledger_hash c, new_hash = h,
                            rolled_back_event_count = length (filter (\<lambda>r. ev_ledger r > forkLedger) (contract_events s))\<rparr>]\<rparr>)"

section \<open>Polling\<close>

definition sort_events :: "raw_event list \<Rightarrow> raw_event list" where
  "sort_events = sort_key position"

definition process_one :: "poll_env \<Rightarrow> raw_event \<Rightarrow> indexer \<times> int \<Rightarrow> indexer \<times> int" where
  "process_one env raw = (\<lambda>(s, maxProcessedLedger).
     case storeAndProcessEvent env raw s of
       (Inl _, s') \<Rightarrow> (s', maxProcessedLedger)
     | (Inr _, s') \<Rightarrow> (s', max maxProcessedLedger (rw_ledger raw)))"

definition move_checkpoint :: "poll_env \<Rightarrow> int \<Rightarrow> indexer \<Rightarrow> indexer" where
  "move_checkpoint env ledger s =
     (let s1 = advanceCheckpoint ledger (s\<lparr>ledger_checkpoint := Some ledger\<rparr>)
      in if p_rpc env then persistIndexedLedgerHash env ledger s1 else s1)"

definition pollContractEvents :: "poll_env \<Rightarrow> indexer \<Rightarrow> indexer" where
  "pollContractEvents env s =
     (if \<not> contract_configured env then s
      else
        let s0 = (if p_rpc env then detectAndHandleReorg env s else s);
            lastLedger = getCheckpointValue (ledger_checkpoint s0);
            fromLedger = max (lastLedger + 1) 1;
            (events, latestLedger) = fetchEventsFromContract env fromLedger;
            s1 = (if latestLedger > lastLedger then s0\<lparr>latest_checkpoint := Some latestLedger\<rparr> else s0)
        in if events = [] then (if latestLedger > lastLedger then move_checkpoint env latestLedger s1 else s1)
           else
             let (s2, finalLedger) = fold (process_one env) (sort_events events) (s1, lastLedger)
             in move_checkpoint env finalLedger s2)"

definition triggerManualSync :: "poll_env \<Rightarrow> indexer \<Rightarrow> indexer" where
  "triggerManualSync = pollContractEvents"

definition reindex :: "poll_env \<Rightarrow> int \<Rightarrow> indexer \<Rightarrow> indexer" where
  "reindex env fromLedger s =
     (let rewindTo = max 0 (fromLedger - 1);
          s1 = s\<lparr>ledger_checkpoint := Some rewindTo\<rparr>
      in if \<not> contract_configured env then s1
         else case chain_sync s1 of
                None \<Rightarrow> s1
              | Some c \<Rightarrow>
                  if last_indexed_ledger c > rewindTo
                  then s1\<lparr>chain_sync := Some (c\<lparr>last_indexed_ledger := rewindTo, last_indexed_ledger_hash := None\<rparr>)\<rparr> else s1)"

section \<open>Retries, backfill and cleanup\<close>

text \<open>
  A retry dispatches on the stored type.  A row that was first stored by the reconciliation keeps the
  type it got there, which is no handler's.
\<close>

definition stored_event :: "contract_event \<Rightarrow> event_data" where
  "stored_event r = (if ev_type r = type_name (ev_data r) then ev_data r else OtherEvent (ev_type r))"

definition retry_row :: "poll_env \<Rightarrow> contract_event \<Rightarrow> indexer \<Rightarrow> indexer" where
  "retry_row env r s =
     (if ev_retry_count r \<ge> MAX_RETRIES then s
      else case processEventByType (p_handler env (row_position r)) (stored_event r) (derived_tables s) of
             (Inl _, d) \<Rightarrow> s\<lparr>derived_tables := d\<rparr>
           | (Inr _, d) \<Rightarrow> s\<lparr>derived_tables := d, contract_events := save_row ev_id
               (r\<lparr>ev_status := EvProcessed, ev_processed_at := Some (p_now env), ev_error := None\<rparr>) (contract_events s)\<rparr>)"

definition retryFailedEvents :: "poll_env \<Rightarrow> indexer \<Rightarrow> nat \<times> indexer" where
  "retryFailedEvents env s =
     (let failed = filter (\<lambda>r. ev_status r = EvFailed \<or> ev_status r = EvDlq) (contract_events s)
      in (length failed, fold (retry_row env) failed s))"

definition cleanupOldEvents :: "instant \<Rightarrow> int \<Rightarrow> indexer \<Rightarrow> indexer" where
  "cleanupOldEvents now retentionDays s =
     s\<lparr>contract_events := filter (\<lambda>r. \<not> (ev_created_at r < now - retentionDays * 86400000 \<and> ev_status r = EvProcessed)) (contract_events s)\<rparr>"

record backfill_summary =
  total_fetched :: nat
  newly_processed :: nat
  already_indexed :: nat
  backfill_errors :: nat

definition backfill_one :: "poll_env \<Rightarrow> raw_event \<Rightarrow> indexer \<times> backfill_summary \<Rightarrow> indexer \<times> backfill_summary" where
  "backfill_one env raw = (\<lambda>(s, n0).
     let n = n0\<lparr>total_fetched := total_fetched n0 + 1\<rparr>
     in case find_event_row (position raw) (contract_events s) of
          Some r \<Rightarrow> if ev_status r = EvProcessed then (s, n\<lparr>already_indexed := already_indexed n + 1\<rparr>)
                    else (case storeAndProcessEvent env raw s of
                            (Inr _, s') \<Rightarrow> (s', n\<lparr>newly_processed := newly_processed n + 1\<rparr>)
                          | (Inl _, s') \<Rightarrow> (s', n\<lparr>backfill_errors := backfill_errors n + 1\<rparr>))
        | None \<Rightarrow> (case storeAndProcessEvent env raw s of
                     (Inr _, s') \<Rightarrow> (s', n\<lparr>newly_processed := newly_processed n + 1\<rparr>)
                   | (Inl _, s') \<Rightarrow> (s', n\<lparr>backfill_errors := backfill_errors n + 1\<rparr>)))"

function backfill_from :: "poll_env \<Rightarrow> int \<Rightarrow> int \<Rightarrow> indexer \<times> backfill_summary \<Rightarrow> indexer \<times> backfill_summary" where
  "backfill_from env currentLedger toLedger sn =
     (if currentLedger > toLedger then sn
      else
        let batchEnd = min (currentLedger + BACKFILL_BATCH_SIZE) toLedger;
            (events, latest) = fetchEventsFromContract env currentLedger;
            batch = takeWhile (\<lambda>e. rw_ledger e \<le> toLedger) (sort_events events)
        in backfill_from env (batchEnd + 1) toLedger (fold (backfill_one env) batch sn))"
  by pat_completeness auto

termination
  by (relation "measure (\<lambda>(env, c, t, s). nat (t + 1 - c))") (auto simp: BACKFILL_BATCH_SIZE_def)

definition backfillEvents :: "poll_env \<Rightarrow> int \<Rightarrow> int \<Rightarrow> indexer \<Rightarrow> indexer \<times> backfill_summary" where
  "backfillEvents env fromLedger toLedger s =
     backfill_from env fromLedger toLedger (s, \<lparr>total_fetched = 0, newly_processed = 0, already_indexed = 0, backfill_errors = 0\<rparr>)"

section \<open>Reconciliation\<close>

text \<open>
  The reconciliation stores events it does not find, as they come, with the \<open>type\<close> of the node.  Its
  store is \<open>pending\<close>; nothing runs a handler.
\<close>

definition reconciled_row :: "poll_env \<Rightarrow> node_event \<Rightarrow> contract_event" where
  "reconciled_row env e =
     (let i = (case ne_log_index e of Some i \<Rightarrow> i | None \<Rightarrow> 0);
          name = (case ne_type e of Some t \<Rightarrow> if t \<noteq> [] then t else ''unknown'' | None \<Rightarrow> ''unknown'')
      in \<lparr>ev_id = p_key env (ne_ledger e, i), ev_ledger = ne_ledger e, ev_log_index = i, ev_type = name, ev_data = OtherEvent name,
          ev_tx_hash = ne_tx_hash e, ev_status = EvPending, ev_error = None, ev_retry_count = 0, ev_created_at = p_now env,
          ev_processed_at = None\<rparr>)"

definition backfill_row :: "poll_env \<Rightarrow> int \<Rightarrow> node_event \<Rightarrow> contract_event list \<times> int \<Rightarrow> contract_event list \<times> int" where
  "backfill_row env toLedger e = (\<lambda>(rows, backfilled).
     let r = reconciled_row env e
     in if ne_ledger e > toLedger then (rows, backfilled)
        else if find_event_row (row_position r) rows \<noteq> None then (rows, backfilled)
        else (save_row ev_id r rows, backfilled + 1))"

definition backfillGap :: "poll_env \<Rightarrow> int \<Rightarrow> int \<Rightarrow> indexer \<Rightarrow> int \<times> indexer" where
  "backfillGap env fromLedger toLedger s =
     (case p_events env fromLedger of
        NoAnswer \<Rightarrow> (0, s)
      | Answer es latest \<Rightarrow>
          let (rows, backfilled) = fold (backfill_row env toLedger) es (contract_events s, 0)
          in (backfilled, s\<lparr>contract_events := rows\<rparr>))"

definition fetchChainHead :: "poll_env \<Rightarrow> int option" where
  "fetchChainHead env = (case p_events env 1 of NoAnswer \<Rightarrow> None | Answer es latest \<Rightarrow> latest)"

definition DEFAULT_RECONCILE_WINDOW :: int where "DEFAULT_RECONCILE_WINDOW = 200"

definition getReconcileWindow :: "int option \<Rightarrow> int" where
  "getReconcileWindow window = (case window of Some n \<Rightarrow> if n > 0 then n else DEFAULT_RECONCILE_WINDOW | None \<Rightarrow> DEFAULT_RECONCILE_WINDOW)"

definition reconcile_gap :: "poll_env \<Rightarrow> int option \<Rightarrow> int \<Rightarrow> chain_sync_checkpoint \<Rightarrow> indexer \<Rightarrow> indexer" where
  "reconcile_gap env window chainHead c s =
     (let fromLedger = max (last_indexed_ledger c + 1) 1;
          toLedger = min (fromLedger + getReconcileWindow window - 1) chainHead;
          (backfilledCount, s1) = backfillGap env fromLedger toLedger s;
          c' = c\<lparr>last_reconciled_from := fromLedger, last_reconciled_to := toLedger, last_reconciled_at := Some (p_now env),
                last_backfill_count := backfilledCount,
                last_indexed_ledger := (if backfilledCount \<ge> 0 then toLedger else last_indexed_ledger c)\<rparr>;
          hash = (case p_hash env (last_indexed_ledger c') of Some h \<Rightarrow> Some h | None \<Rightarrow> last_indexed_ledger_hash c')
      in s1\<lparr>chain_sync := Some (c'\<lparr>last_indexed_ledger_hash := hash\<rparr>)\<rparr>)"

text \<open>
  The reconciliation rolls a fork back as the poll does, except that it updates the working cursor
  only where there is one.
\<close>

definition reconcile_reorg :: "poll_env \<Rightarrow> indexer \<Rightarrow> indexer" where
  "reconcile_reorg env s =
     (let s' = detectAndHandleReorg env s
      in if ledger_checkpoint s = None then s'\<lparr>ledger_checkpoint := None\<rparr> else s')"

definition runReconciliation :: "poll_env \<Rightarrow> int option \<Rightarrow> indexer \<Rightarrow> indexer" where
  "runReconciliation env window s =
     (let s0 = s\<lparr>chain_sync := Some (getOrCreateCheckpoint s)\<rparr>
      in if \<not> p_rpc env then s0
         else
           let s1 = reconcile_reorg env s0
           in case fetchChainHead env of
                None \<Rightarrow> s1
              | Some chainHead \<Rightarrow>
                  let c = (getOrCreateCheckpoint s1)\<lparr>chain_head_ledger := chainHead\<rparr>
                  in if last_indexed_ledger c \<ge> chainHead
                     then let hash = (case p_hash env (last_indexed_ledger c) of Some h \<Rightarrow> Some h | None \<Rightarrow> last_indexed_ledger_hash c)
                          in s1\<lparr>chain_sync := Some (c\<lparr>last_indexed_ledger_hash := hash\<rparr>)\<rparr>
                     else reconcile_gap env window chainHead c s1)"

definition reconcile :: "poll_env \<Rightarrow> string option \<Rightarrow> int option \<Rightarrow> indexer \<Rightarrow> indexer" where
  "reconcile env enabled window s =
     (if enabled = Some ''false'' \<or> enabled = Some ''0'' then s
      else if \<not> contract_configured env then s
      else runReconciliation env window s)"

section \<open>Listing\<close>

text \<open>
  The newest events first; the cursor is the position of the last event of the page.  Its encoding
  is left out.
\<close>

definition getEventsPaginated :: "(int \<times> int) option \<Rightarrow> nat \<Rightarrow> contract_event list \<Rightarrow> contract_event list \<times> (int \<times> int) option" where
  "getEventsPaginated cursor limit rows =
     (let newest = rev (sort_key row_position rows);
          wanted = (case cursor of None \<Rightarrow> newest | Some pos \<Rightarrow> filter (\<lambda>r. row_position r < pos) newest);
          events = take (limit + 1) wanted;
          hasMore = (length events > limit);
          page = (if hasMore then butlast events else events)
      in (page, if hasMore \<and> page \<noteq> [] then Some (row_position (last page)) else None))"

record indexer_metrics =
  lag_in_ledgers :: int
  pending_events :: nat
  failed_events :: nat
  dlq_events :: nat
  total_events_processed :: nat

definition count_status :: "event_status \<Rightarrow> indexer \<Rightarrow> nat" where
  "count_status st s = length (filter (\<lambda>r. ev_status r = st) (contract_events s))"

definition getMetrics :: "indexer \<Rightarrow> indexer_metrics" where
  "getMetrics s = \<lparr>lag_in_ledgers = max 0 (getCheckpointValue (latest_checkpoint s) - getCheckpointValue (ledger_checkpoint s)),
     pending_events = count_status EvPending s, failed_events = count_status EvFailed s, dlq_events = count_status EvDlq s,
     total_events_processed = count_status EvProcessed s\<rparr>"

end
