(* ===== verification/Creator_Event_Facts.thy ===== *)
theory Creator_Event_Facts
  imports Creator_Events
begin

text \<open>
  What the handlers of the contract events do to the derived tables, as a step relation on the
  tables of events, matches, predictions and payouts; the invariant every step keeps (no two open
  campaigns of a creator overlap, graded predictions carry the points of their match, one payout
  per participant); and what no later event changes (results, grades, payouts).
\<close>

section \<open>The steps of the tables\<close>

type_synonym tables = "creator_event list \<times> match_row list \<times> match_prediction list \<times> payout_row list"

definition tables_of :: "derived \<Rightarrow> tables" where
  "tables_of w = (creator_events w, match_rows w, match_predictions w, payout_rows w)"

definition keeps_campaign :: "creator_event \<Rightarrow> creator_event \<Rightarrow> bool" where
  "keeps_campaign e e' \<longleftrightarrow> ce_id e' = ce_id e \<and> on_chain_event_id e' = on_chain_event_id e \<and>
     creator_address e' = creator_address e \<and> ce_start_time e' = ce_start_time e \<and> ce_end_time e' = ce_end_time e \<and>
     (ce_is_cancelled e \<longrightarrow> ce_is_cancelled e') \<and> (ce_is_finalized e \<longrightarrow> ce_is_finalized e')"

definition clash :: "creator_event \<Rightarrow> creator_event \<Rightarrow> bool" where
  "clash e e' \<longleftrightarrow> creator_address e = creator_address e' \<and> creator_address e \<noteq> [] \<and> \<not> ce_is_cancelled e \<and> \<not> ce_is_cancelled e' \<and>
     ce_start_time e < ce_end_time e' \<and> ce_start_time e' < ce_end_time e"

definition outcome_of_score :: "int \<Rightarrow> int \<Rightarrow> team" where
  "outcome_of_score h a = (if h > a then TEAM_A else if h < a then TEAM_B else DRAW)"

definition score_agrees :: "match_prediction \<Rightarrow> bool" where
  "score_agrees p \<longleftrightarrow>
     (case (predicted_home_score p, predicted_away_score p) of
        (Some h, Some a) \<Rightarrow> predicted_outcome p = outcome_of_score h a | _ \<Rightarrow> True)"

definition grade_all :: "match_row \<Rightarrow> match_prediction list \<Rightarrow> match_prediction list" where
  "grade_all m ps = map (\<lambda>p. if mp_match p = match_id m then grade m p else p) ps"

definition set_match :: "match_row \<Rightarrow> match_row list \<Rightarrow> match_row list" where
  "set_match m ms = update_row match_id (match_id m) (\<lambda>_. m) ms"

inductive derived_step :: "tables \<Rightarrow> tables \<Rightarrow> bool" where
  edit: "\<forall>e \<in> set es. keeps_campaign e (f e) \<Longrightarrow> derived_step (es, ms, ps, ys) (map f es, ms, ps, ys)"
| create: "ce_id e \<notin> ce_id ` set es \<Longrightarrow> on_chain_event_id e \<notin> on_chain_event_id ` set es \<Longrightarrow> ce_start_time e < ce_end_time e \<Longrightarrow>
    \<forall>x \<in> set es. \<not> clash x e \<Longrightarrow> derived_step (es, ms, ps, ys) (es @ [e], ms, ps, ys)"
| add: "match_id m \<notin> match_id ` set ms \<Longrightarrow> on_chain_match_id m \<notin> on_chain_match_id ` set ms \<Longrightarrow> \<not> result_submitted m \<Longrightarrow>
    1 \<le> points_multiplier m \<Longrightarrow> points_multiplier m \<le> 3 \<Longrightarrow> \<forall>e \<in> set es. keeps_campaign e (f e) \<Longrightarrow>
    derived_step (es, ms, ps, ys) (map f es, ms @ [m], ps, ys)"
| predict: "mp_match p \<in> match_id ` set ms \<Longrightarrow> mp_id p \<notin> mp_id ` set ps \<Longrightarrow>
    \<forall>q \<in> set ps. \<not> (mp_match q = mp_match p \<and> mp_user q = mp_user p) \<Longrightarrow> is_correct p = None \<Longrightarrow> points_earned p = 0 \<Longrightarrow>
    score_agrees p \<Longrightarrow> derived_step (es, ms, ps, ys) (es, ms, ps @ [p], ys)"
| settle: "m \<in> set ms \<Longrightarrow> \<not> result_submitted m \<Longrightarrow> match_id m' = match_id m \<Longrightarrow> on_chain_match_id m' = on_chain_match_id m \<Longrightarrow>
    points_multiplier m' = points_multiplier m \<Longrightarrow> result_submitted m' \<Longrightarrow> winning_team m' \<noteq> None \<Longrightarrow>
    ps' = ps \<or> ps' = grade_all m' ps \<Longrightarrow> derived_step (es, ms, ps, ys) (es, set_match m' ms, ps', ys)"
| pay: "\<forall>y \<in> set ys. payout_event y \<noteq> k \<Longrightarrow> \<forall>y \<in> set zs. payout_event y = k \<Longrightarrow> distinct (map payout_address zs) \<Longrightarrow>
    \<forall>e \<in> set es. keeps_campaign e (f e) \<Longrightarrow> derived_step (es, ms, ps, ys) (map f es, ms, ps, ys @ zs)"

inductive_cases derived_stepE: "derived_step (es, ms, ps, ys) t"

lemma keeps_campaign_refl [simp]: "keeps_campaign e e"
  by (simp add: keeps_campaign_def)

lemma step_same: "derived_step t t"
proof (cases t)
  case (fields es ms ps ys)
  with derived_step.edit [of es "\<lambda>e. e" ms ps ys] show ?thesis by simp
qed

lemma save_event:
  assumes "unique_keys ce_id es" "find_row k v es = Some e" "keeps_campaign e e'"
  shows "\<exists>f. save_row ce_id e' es = map f es \<and> (\<forall>x \<in> set es. keeps_campaign x (f x))"
proof -
  from assms(2) have e: "e \<in> set es" by (auto dest: find_row_SomeD)
  have "save_row ce_id e' es = map (\<lambda>x. if ce_id x = ce_id e' then e' else x) es"
    using e assms(3) by (auto simp: save_row_def update_row_def keeps_campaign_def)
  moreover have "keeps_campaign x (if ce_id x = ce_id e' then e' else x)" if "x \<in> set es" for x
    using that e assms(1,3) by (auto simp: keeps_campaign_def distinct_map inj_on_def)
  ultimately show ?thesis by blast
qed

lemma update_event:
  "(\<And>e. keeps_campaign e (f e)) \<Longrightarrow> \<exists>g. update_row k v f es = map g es \<and> (\<forall>x \<in> set es. keeps_campaign x (g x))"
  unfolding update_row_def by (intro exI conjI, rule refl) simp

section \<open>The invariant of the tables\<close>

definition graded_ok :: "match_row list \<Rightarrow> match_prediction \<Rightarrow> bool" where
  "graded_ok ms p \<longleftrightarrow>
     (case is_correct p of
        None \<Rightarrow> points_earned p = 0
      | Some _ \<Rightarrow> \<exists>m \<in> set ms. match_id m = mp_match p \<and> result_submitted m \<and> grade m p = p)"

definition events_ok :: "creator_event list \<Rightarrow> bool" where
  "events_ok es \<longleftrightarrow> unique_keys ce_id es \<and> unique_keys on_chain_event_id es \<and> (\<forall>e \<in> set es. ce_start_time e < ce_end_time e) \<and>
     (\<forall>e \<in> set es. \<forall>e' \<in> set es. clash e e' \<longrightarrow> e = e')"

definition matches_ok :: "match_row list \<Rightarrow> bool" where
  "matches_ok ms \<longleftrightarrow> unique_keys match_id ms \<and> unique_keys on_chain_match_id ms \<and>
     (\<forall>m \<in> set ms. 1 \<le> points_multiplier m \<and> points_multiplier m \<le> 3 \<and> (result_submitted m \<longrightarrow> winning_team m \<noteq> None))"

definition predictions_ok :: "match_row list \<Rightarrow> match_prediction list \<Rightarrow> bool" where
  "predictions_ok ms ps \<longleftrightarrow> unique_keys mp_id ps \<and> unique_keys (\<lambda>p. (mp_match p, mp_user p)) ps \<and>
     (\<forall>p \<in> set ps. mp_match p \<in> match_id ` set ms \<and> graded_ok ms p \<and> score_agrees p)"

definition payouts_ok :: "payout_row list \<Rightarrow> bool" where
  "payouts_ok ys \<longleftrightarrow> unique_keys (\<lambda>y. (payout_event y, payout_address y)) ys"

fun derived_ok :: "tables \<Rightarrow> bool" where
  "derived_ok (es, ms, ps, ys) \<longleftrightarrow> events_ok es \<and> matches_ok ms \<and> predictions_ok ms ps \<and> payouts_ok ys"

lemma clash_kept: "keeps_campaign e a \<Longrightarrow> keeps_campaign e' b \<Longrightarrow> clash a b \<Longrightarrow> clash e e'"
  by (auto simp: keeps_campaign_def clash_def)

lemma clash_sym: "clash e e' = clash e' e"
  by (auto simp: clash_def)

lemma map_kept: "\<forall>e \<in> set es. g (f e) = g e \<Longrightarrow> map g (map f es) = map g es"
  by simp

lemma events_ok_edit:
  assumes "events_ok es" "\<forall>e \<in> set es. keeps_campaign e (f e)"
  shows "events_ok (map f es)"
proof -
  have keys: "map ce_id (map f es) = map ce_id es" "map on_chain_event_id (map f es) = map on_chain_event_id es"
    using assms(2) by (auto simp: keeps_campaign_def)
  have apart: "f e = f e'" if "e \<in> set es" "e' \<in> set es" "clash (f e) (f e')" for e e'
    using assms that clash_kept unfolding events_ok_def by metis
  show ?thesis
    using assms apart unfolding events_ok_def keys by (simp add: keeps_campaign_def)
qed

lemma events_ok_create:
  assumes "events_ok es" "ce_id e \<notin> ce_id ` set es" "on_chain_event_id e \<notin> on_chain_event_id ` set es"
    "ce_start_time e < ce_end_time e" "\<forall>x \<in> set es. \<not> clash x e"
  shows "events_ok (es @ [e])"
  using assms clash_sym by (auto simp: events_ok_def)

lemma map_set_match: "g m' = v \<Longrightarrow> \<forall>x \<in> set ms. match_id x = match_id m' \<longrightarrow> g x = v \<Longrightarrow> map g (set_match m' ms) = map g ms"
  by (induction ms) (auto simp: set_match_def)

lemma in_set_match: "x \<in> set (set_match m' ms) \<Longrightarrow> x = m' \<or> x \<in> set ms \<and> match_id x \<noteq> match_id m'"
  by (auto simp: set_match_def update_row_def split: if_splits)

lemma set_match_has: "x \<in> set ms \<Longrightarrow> match_id x \<noteq> match_id m' \<Longrightarrow> x \<in> set (set_match m' ms)"
  by (force simp: set_match_def update_row_def)

lemma same_match: "unique_keys match_id ms \<Longrightarrow> m \<in> set ms \<Longrightarrow> x \<in> set ms \<Longrightarrow> match_id x = match_id m \<Longrightarrow> x = m"
  by (auto simp: distinct_map inj_on_def)

lemma match_keys_set_match:
  assumes "unique_keys match_id ms" "m \<in> set ms" "match_id m' = match_id m" "on_chain_match_id m' = on_chain_match_id m"
  shows "map match_id (set_match m' ms) = map match_id ms" "map on_chain_match_id (set_match m' ms) = map on_chain_match_id ms"
    "m' \<in> set (set_match m' ms)"
proof -
  show "map match_id (set_match m' ms) = map match_id ms"
    by (rule map_set_match [of match_id m' "match_id m'"]) simp_all
  show "map on_chain_match_id (set_match m' ms) = map on_chain_match_id ms"
    using assms same_match by (intro map_set_match [OF refl]) fastforce
  show "m' \<in> set (set_match m' ms)"
    using assms by (force simp: set_match_def update_row_def)
qed

lemma matches_ok_settle:
  assumes "matches_ok ms" "m \<in> set ms" "match_id m' = match_id m" "on_chain_match_id m' = on_chain_match_id m"
    "points_multiplier m' = points_multiplier m" "winning_team m' \<noteq> None"
  shows "matches_ok (set_match m' ms)"
  using assms(1) match_keys_set_match(1,2) [OF _ assms(2,3,4)] assms(2,5,6)
  unfolding matches_ok_def by (auto dest!: in_set_match)

lemma grade_fields [simp]: "mp_id (grade m p) = mp_id p" "mp_match (grade m p) = mp_match p" "mp_user (grade m p) = mp_user p"
  "predicted_outcome (grade m p) = predicted_outcome p" "predicted_home_score (grade m p) = predicted_home_score p"
  "predicted_away_score (grade m p) = predicted_away_score p" "is_correct (grade m p) = Some (Some (predicted_outcome p) = winning_team m)"
  by (simp_all add: grade_def Let_def)

lemma score_agrees_grade [simp]: "score_agrees (grade m p) = score_agrees p"
  by (simp add: score_agrees_def split: option.splits)

lemma grade_grade [simp]: "grade m (grade m p) = grade m p"
  by (simp add: grade_def Let_def points_for_def)

lemma graded_ok_more: "graded_ok ms p \<Longrightarrow> set ms \<subseteq> set ms' \<Longrightarrow> graded_ok ms' p"
  by (auto simp: graded_ok_def split: option.splits)

text \<open>A prediction that was graded before another match is settled keeps its match.\<close>

lemma graded_ok_settle:
  assumes "unique_keys match_id ms" "m \<in> set ms" "\<not> result_submitted m" "match_id m' = match_id m" "graded_ok ms p"
  shows "graded_ok (set_match m' ms) p"
proof (cases "is_correct p")
  case (Some c)
  with assms(5) obtain x where x: "x \<in> set ms" "match_id x = mp_match p" "result_submitted x" "grade x p = p"
    by (auto simp: graded_ok_def)
  with assms same_match have "match_id x \<noteq> match_id m'" by metis
  with set_match_has x Some show ?thesis by (auto simp: graded_ok_def)
qed (use assms in \<open>simp add: graded_ok_def\<close>)

lemma map_grade_all: "(\<And>p. g (grade m p) = g p) \<Longrightarrow> map g (grade_all m ps) = map g ps"
  by (simp add: grade_all_def)

lemma predictions_ok_settle:
  assumes "predictions_ok ms ps" "unique_keys match_id ms" "m \<in> set ms" "\<not> result_submitted m" "match_id m' = match_id m"
    "on_chain_match_id m' = on_chain_match_id m" "result_submitted m'" "ps' = ps \<or> ps' = grade_all m' ps"
  shows "predictions_ok (set_match m' ms) ps'"
proof -
  note keys = match_keys_set_match [OF assms(2,3,5,6)]
  have ids: "match_id ` set (set_match m' ms) = match_id ` set ms"
    using keys(1) by (metis set_map)
  have maps: "map mp_id ps' = map mp_id ps" "map (\<lambda>p. (mp_match p, mp_user p)) ps' = map (\<lambda>p. (mp_match p, mp_user p)) ps"
    using assms(8) by (auto simp: map_grade_all simp del: map_eq_conv)
  have "mp_match p \<in> match_id ` set ms \<and> graded_ok (set_match m' ms) p \<and> score_agrees p" if p: "p \<in> set ps'" for p
  proof (cases "p \<in> set ps")
    case True
    with assms(1) graded_ok_settle [OF assms(2,3,4,5)] show ?thesis by (auto simp: predictions_ok_def)
  next
    case False
    with p assms(8) obtain q where q: "q \<in> set ps" "mp_match q = match_id m'" "p = grade m' q"
      by (auto simp: grade_all_def split: if_splits)
    with assms(3,5) have "mp_match p \<in> match_id ` set ms" by simp
    with q assms(1,7) keys(3) show ?thesis by (auto simp: predictions_ok_def graded_ok_def)
  qed
  with assms(1) maps ids show ?thesis unfolding predictions_ok_def by (simp del: map_eq_conv)
qed

lemma payouts_ok_pay:
  assumes "payouts_ok ys" "\<forall>y \<in> set ys. payout_event y \<noteq> k" "\<forall>y \<in> set zs. payout_event y = k" "distinct (map payout_address zs)"
  shows "payouts_ok (ys @ zs)"
  using assms by (auto simp: payouts_ok_def distinct_map inj_on_def)

theorem derived_step_ok: "derived_step t t' \<Longrightarrow> derived_ok t \<Longrightarrow> derived_ok t'"
proof (induction rule: derived_step.induct)
  case (edit es f ms ps ys)
  then show ?case by (simp add: events_ok_edit)
next
  case (create e es ms ps ys)
  then show ?case by (simp add: events_ok_create)
next
  case (add m ms es f ps ys)
  then have "matches_ok (ms @ [m])" by (auto simp: matches_ok_def)
  moreover from add have "predictions_ok (ms @ [m]) ps"
    by (auto simp: predictions_ok_def intro: graded_ok_more)
  ultimately show ?case using add by (simp add: events_ok_edit)
next
  case (predict p ms ps es ys)
  then show ?case by (force simp: predictions_ok_def graded_ok_def)
next
  case (settle m ms m' ps' ps es ys)
  then have "unique_keys match_id ms" by (simp add: matches_ok_def)
  with settle show ?case by (simp add: matches_ok_settle [of ms m] predictions_ok_settle [of ms ps m])
next
  case (pay ys k zs es f ms ps)
  then show ?case by (simp add: events_ok_edit payouts_ok_pay)
qed

section \<open>Handlers take steps\<close>

lemma snd_with_notification [simp]: "snd (with_notification env w) = w"
  by (simp add: with_notification_def split: option.splits)

lemma snd_second_write: "snd (second_write env w rest) = (if h_second env = None then snd rest else w)"
  by (simp add: second_write_def split: option.splits)

lemma tables_of_sel: "tables_of w = (es, ms, ps, ys) \<longleftrightarrow> creator_events w = es \<and> match_rows w = ms \<and> match_predictions w = ps \<and> payout_rows w = ys"
  by (auto simp: tables_of_def)

lemma event_window_proper:
  assumes "event_window now d = (c, s, t)" shows "s < t"
  using assms by (auto simp: event_window_def Let_def DEFAULT_EVENT_DURATION_SECONDS_def split: option.splits if_splits)

lemma new_event_fields:
  assumes "event_window (h_now env) d = (c, s, t)"
  shows "on_chain_event_id (new_creator_event env d) = cd_event_id d" "ce_start_time (new_creator_event env d) = s"
    "ce_end_time (new_creator_event env d) = t" "creator_address (new_creator_event env d) = cd_creator d"
    "\<not> ce_is_cancelled (new_creator_event env d)"
  by (simp_all add: new_creator_event_def assms)

lemma created_step: "derived_step (tables_of w) (tables_of (snd (handleEventCreated env d w)))"
proof (cases "event_window (h_now env) d")
  case w: (fields c s t)
  note new = new_event_fields [OF w]
  have "derived_step (tables_of w) (tables_of (w\<lparr>creator_events := creator_events w @ [new_creator_event env d]\<rparr>))"
    if "cd_event_id d \<notin> on_chain_event_id ` set (creator_events w)" "\<not> hasOverlappingCampaign (cd_creator d) s t w"
      "ce_id (new_creator_event env d) \<notin> ce_id ` set (creator_events w)"
  proof -
    have "\<forall>x \<in> set (creator_events w). \<not> clash x (new_creator_event env d)"
      using that(2) new by (auto simp: clash_def hasOverlappingCampaign_def list_ex_iff)
    with that new event_window_proper [OF w] derived_step.create [of "new_creator_event env d" "creator_events w"] show ?thesis
      by (simp add: tables_of_def)
  qed
  then show ?thesis
    by (simp add: handleEventCreated_def w Let_def step_same)
qed

lemma edit_step:
  "\<exists>g. es = map g (creator_events w) \<and> (\<forall>x \<in> set (creator_events w). keeps_campaign x (g x)) \<Longrightarrow>
   derived_step (tables_of w) (tables_of (w\<lparr>creator_events := es\<rparr>))"
  by (auto simp: tables_of_def intro: derived_step.edit)

lemma joined_step: "derived_step (tables_of w) (tables_of (snd (handleUserJoinedEvent env k a fee w)))"
  unfolding handleUserJoinedEvent_def Let_def
  by (auto simp: step_same intro!: edit_step update_event) (simp add: keeps_campaign_def)

lemma cancelled_step:
  "unique_keys ce_id (creator_events w) \<Longrightarrow> derived_step (tables_of w) (tables_of (snd (handleEventCancelled env k w)))"
  unfolding handleEventCancelled_def
  by (auto simp: step_same keeps_campaign_def split: option.splits intro!: edit_step save_event)

lemma added_step:
  assumes "unique_keys ce_id (creator_events w)"
  shows "derived_step (tables_of w) (tables_of (snd (handleMatchAdded env d w)))"
proof (cases "find_row on_chain_event_id (ad_event_id d) (creator_events w)")
  case (Some e)
  have keep: "keeps_campaign e (e\<lparr>match_count := match_count e + 1\<rparr>)" by (simp add: keeps_campaign_def)
  obtain f where f: "save_row ce_id (e\<lparr>match_count := match_count e + 1\<rparr>) (creator_events w) = map f (creator_events w)"
    "\<forall>x \<in> set (creator_events w). keeps_campaign x (f x)"
    using save_event [OF assms Some keep] by blast
  show ?thesis
    using derived_step.add [OF _ _ _ _ _ f(2)] derived_step.add [of _ "match_rows w" "creator_events w" "\<lambda>x. x"]
    by (simp add: handleMatchAdded_def Some Let_def snd_second_write step_same tables_of_def f(1) split: option.splits)
qed (simp add: handleMatchAdded_def step_same)

lemma predicted_step: "derived_step (tables_of w) (tables_of (snd (handlePredictionSubmitted env d w)))"
proof -
  have agrees: "score_agrees \<lparr>mp_id = i, mp_match = m, mp_user = u, predicted_outcome = t, predicted_home_score = pd_home_score d,
      predicted_away_score = pd_away_score d, points_earned = 0, is_correct = None\<rparr>" if "predicted d = Some t" for i m u t
    using that by (auto simp: score_agrees_def predicted_def outcome_of_score_def split: option.splits)
  have "derived_step (tables_of w) (tables_of (w\<lparr>match_predictions := match_predictions w @
      [\<lparr>mp_id = i, mp_match = match_id m, mp_user = u, predicted_outcome = t, predicted_home_score = pd_home_score d,
        predicted_away_score = pd_away_score d, points_earned = 0, is_correct = None\<rparr>]\<rparr>))"
    if "find_row on_chain_match_id k (match_rows w) = Some m" "predicted d = Some t" "i \<notin> mp_id ` set (match_predictions w)"
      "\<not> list_ex (\<lambda>p. mp_match p = match_id m \<and> mp_user p = u) (match_predictions w)" for k m u t i
    using that agrees [of t] find_row_SomeD [OF that(1)] unfolding tables_of_def
    by (auto simp: list_ex_iff intro!: derived_step.predict)
  then show ?thesis
    by (auto simp: handlePredictionSubmitted_def step_same split: option.splits)
qed

lemma save_match: "m \<in> set ms \<Longrightarrow> match_id m' = match_id m \<Longrightarrow> save_row match_id m' ms = set_match m' ms"
  by (auto simp: save_row_def set_match_def)

lemma gradePredictions_grade_all:
  "gradePredictions m w = w\<lparr>match_predictions := grade_all m (match_predictions w)\<rparr>"
  by (simp add: gradePredictions_def grade_all_def)

lemma result_step: "derived_step (tables_of w) (tables_of (snd (handleMatchResultSubmitted env d w)))"
proof -
  have "derived_step (tables_of w) (tables_of (w\<lparr>match_rows := save_row match_id m' (match_rows w), match_predictions := ps\<rparr>))"
    if "find_row on_chain_match_id k (match_rows w) = Some m" "\<not> result_submitted m" "match_id m' = match_id m"
      "on_chain_match_id m' = on_chain_match_id m" "points_multiplier m' = points_multiplier m" "result_submitted m'"
      "winning_team m' \<noteq> None" "ps = match_predictions w \<or> ps = grade_all m' (match_predictions w)" for k m m' ps
    using that find_row_SomeD [OF that(1)] save_match [of m "match_rows w" m'] unfolding tables_of_def
    by (auto intro!: derived_step.settle)
  note step = this
  show ?thesis
    unfolding handleMatchResultSubmitted_def Let_def
    by (auto simp: snd_second_write step_same gradePredictions_grade_all split: option.splits
        intro!: step step [where ps = "match_predictions w", simplified])
qed

lemma entry_tables:
  assumes "processLeaderboardEntry env k ib w = (r, w')"
  shows "creator_events w' = creator_events w" "match_rows w' = match_rows w" "match_predictions w' = match_predictions w"
    "\<exists>zs. payout_rows w' = payout_rows w @ zs \<and> (\<forall>y \<in> set zs. payout_event y = k) \<and> distinct (map payout_address zs) \<and>
       (\<forall>y \<in> set zs. \<forall>x \<in> set (payout_rows w). \<not> (payout_event x = k \<and> payout_address x = payout_address y))"
  using assms unfolding processLeaderboardEntry_def Let_def
  by (auto simp: list_ex_iff split: option.splits if_splits)

definition pays_only :: "int \<Rightarrow> derived \<Rightarrow> derived \<Rightarrow> bool" where
  "pays_only k w w' \<longleftrightarrow> creator_events w' = creator_events w \<and> match_rows w' = match_rows w \<and> match_predictions w' = match_predictions w \<and>
     (\<exists>zs. payout_rows w' = payout_rows w @ zs \<and> (\<forall>y \<in> set zs. payout_event y = k) \<and> distinct (map payout_address zs) \<and>
       (\<forall>y \<in> set zs. \<forall>x \<in> set (payout_rows w). \<not> (payout_event x = k \<and> payout_address x = payout_address y)))"

lemma pays_only_trans: "pays_only k w w' \<Longrightarrow> pays_only k w' w'' \<Longrightarrow> pays_only k w w''"
proof -
  assume a: "pays_only k w w'" and b: "pays_only k w' w''"
  from a obtain zs where zs: "payout_rows w' = payout_rows w @ zs" "\<forall>y \<in> set zs. payout_event y = k" "distinct (map payout_address zs)"
    "\<forall>y \<in> set zs. \<forall>x \<in> set (payout_rows w). \<not> (payout_event x = k \<and> payout_address x = payout_address y)" by (auto simp: pays_only_def)
  from b obtain us where us: "payout_rows w'' = payout_rows w' @ us" "\<forall>y \<in> set us. payout_event y = k" "distinct (map payout_address us)"
    "\<forall>y \<in> set us. \<forall>x \<in> set (payout_rows w'). \<not> (payout_event x = k \<and> payout_address x = payout_address y)" by (auto simp: pays_only_def)
  have "distinct (map payout_address (zs @ us))" using zs us by fastforce
  with a b zs us show ?thesis
    unfolding pays_only_def by (intro conjI exI [of _ "zs @ us"]) auto
qed

lemma entries_pay: "pays_only k w (process_entries env k ds w)"
proof -
  have "pays_only k w (fold (\<lambda>ib w. snd (processLeaderboardEntry env k ib w)) ibs w)" for ibs
  proof (induction ibs arbitrary: w)
    case (Cons ib ibs)
    have "pays_only k w (snd (processLeaderboardEntry env k ib w))"
      using entry_tables [of env k ib w] unfolding pays_only_def by (metis prod.collapse)
    from pays_only_trans [OF this Cons.IH] show ?case by simp
  qed (simp add: pays_only_def)
  then show ?thesis by (simp add: process_entries_def)
qed

lemma recompute_edit:
  assumes "recomputeEntryFeeTotals k w = (r, w')"
  shows "\<exists>g. w' = w\<lparr>creator_events := map g (creator_events w)\<rparr> \<and> (\<forall>x. keeps_campaign x (g x))"
proof -
  have upd: "\<exists>g. w\<lparr>creator_events := update_row on_chain_event_id k (\<lambda>e. e\<lparr>total_entry_fees_collected := n\<rparr>) (creator_events w)\<rparr> =
      w\<lparr>creator_events := map g (creator_events w)\<rparr> \<and> (\<forall>x. keeps_campaign x (g x))" for n
    unfolding update_row_def by (intro exI conjI, rule refl) (simp add: keeps_campaign_def)
  have same: "\<exists>g. w = w\<lparr>creator_events := map g (creator_events w)\<rparr> \<and> (\<forall>x. keeps_campaign x (g x))"
    by (intro exI [of _ "\<lambda>x. x"]) simp
  show ?thesis
    using assms upd same by (auto simp: recomputeEntryFeeTotals_def Let_def split: option.splits if_splits)
qed

lemma finalized_step:
  assumes uk: "unique_keys ce_id (creator_events w)"
  shows "derived_step (tables_of w) (tables_of (snd (handleEventFinalized env k ds w)))"
proof (cases "find_row on_chain_event_id k (creator_events w)")
  case (Some e)
  define w1 where "w1 = (if ce_is_finalized e then w
    else w\<lparr>creator_events := save_row ce_id (e\<lparr>ce_is_finalized := True\<rparr>) (creator_events w)\<rparr>)"
  have "\<exists>f. w1 = w\<lparr>creator_events := map f (creator_events w)\<rparr> \<and> (\<forall>x \<in> set (creator_events w). keeps_campaign x (f x))"
  proof (cases "ce_is_finalized e")
    case True
    then show ?thesis unfolding w1_def by (intro exI [of _ "\<lambda>x. x"]) simp
  next
    case False
    have "keeps_campaign e (e\<lparr>ce_is_finalized := True\<rparr>)" by (simp add: keeps_campaign_def)
    from save_event [OF uk Some this] False show ?thesis by (auto simp: w1_def)
  qed
  then obtain f where f: "w1 = w\<lparr>creator_events := map f (creator_events w)\<rparr>" "\<forall>x \<in> set (creator_events w). keeps_campaign x (f x)" by blast
  obtain r w2 where r: "recomputeEntryFeeTotals k w1 = (r, w2)" by fastforce
  from recompute_edit [OF r] obtain g where g: "w2 = w1\<lparr>creator_events := map g (creator_events w1)\<rparr>" "\<forall>x. keeps_campaign x (g x)" by blast
  have fg: "\<forall>x \<in> set (creator_events w). keeps_campaign x ((g \<circ> f) x)"
    using f(2) g(2) unfolding keeps_campaign_def comp_def by metis
  have w2: "w2 = w\<lparr>creator_events := map (g \<circ> f) (creator_events w)\<rparr>" using f(1) g(1) by simp
  have edited: "derived_step (tables_of w) (tables_of w2)"
    using derived_step.edit [OF fg] w2 by (simp add: tables_of_def comp_def)
  have paid: "derived_step (tables_of w) (tables_of (process_entries env k ds w2))" if "\<forall>y \<in> set (payout_rows w). payout_event y \<noteq> k"
    using entries_pay [of k w2 env ds] derived_step.pay [OF that _ _ fg] w2 by (auto simp: pays_only_def tables_of_def comp_def)
  show ?thesis
    using edited paid
    by (simp add: handleEventFinalized_def Some Let_def w1_def [symmetric] r list_ex_iff step_same split: sum.split)
qed (simp add: handleEventFinalized_def step_same)

lemma other_tables: "tables_of (snd (handleFeeUpdated a b c w)) = tables_of w" "tables_of (snd (handleAddressVerified addr w)) = tables_of w"
  "tables_of (snd (handleAddressUnverified addr w)) = tables_of w"
  by (simp_all add: handleFeeUpdated_def handleAddressVerified_def handleAddressUnverified_def Let_def tables_of_def split: option.split)

lemmas handler_steps = created_step joined_step cancelled_step added_step predicted_step result_step finalized_step

lemma process_step:
  assumes "derived_ok (tables_of w)"
  shows "derived_step (tables_of w) (tables_of (snd (processEventByType env d w)))"
proof -
  from assms have "unique_keys ce_id (creator_events w)" by (simp add: tables_of_def events_ok_def)
  then show ?thesis by (cases d) (simp_all add: handler_steps other_tables step_same)
qed

section \<open>What no later event changes\<close>

fun frozen :: "tables \<Rightarrow> tables \<Rightarrow> bool" where
  "frozen (es, ms, ps, ys) (es', ms', ps', ys') \<longleftrightarrow>
     (\<forall>m \<in> set ms. result_submitted m \<longrightarrow> m \<in> set ms') \<and>
     (\<forall>p \<in> set ps. (\<exists>m \<in> set ms. match_id m = mp_match p \<and> result_submitted m) \<longrightarrow> p \<in> set ps') \<and>
     (\<forall>k. filter (\<lambda>y. payout_event y = k) ys \<noteq> [] \<longrightarrow>
        filter (\<lambda>y. payout_event y = k) ys' = filter (\<lambda>y. payout_event y = k) ys)"

lemma frozen_refl: "frozen t t"
  by (cases t) simp

lemma frozen_trans: "frozen t u \<Longrightarrow> frozen u v \<Longrightarrow> frozen t v"
  by (cases t; cases u; cases v) (simp, blast)

lemma settled_match_kept:
  assumes "unique_keys match_id ms" "m \<in> set ms" "\<not> result_submitted m" "match_id m' = match_id m" "x \<in> set ms" "result_submitted x"
  shows "match_id x \<noteq> match_id m'"
  using assms same_match by metis

lemma derived_step_frozen: "derived_step t t' \<Longrightarrow> derived_ok t \<Longrightarrow> frozen t t'"
proof (induction rule: derived_step.induct)
  case (settle m ms m' ps' ps es ys)
  then have uk: "unique_keys match_id ms" by (simp add: matches_ok_def)
  note kept = settled_match_kept [OF uk settle.hyps(1,2,3)]
  have "x \<in> set (set_match m' ms)" if "x \<in> set ms" "result_submitted x" for x
    using set_match_has kept that by blast
  moreover have "p \<in> set ps'" if p: "p \<in> set ps" and x: "x \<in> set ms" "match_id x = mp_match p" "result_submitted x" for p x
    using settle.hyps(8) kept [OF x(1,3)] p x(2) by (force simp: grade_all_def)
  ultimately show ?case by auto
next
  case (pay ys k zs es f ms ps)
  have "filter (\<lambda>y. payout_event y = j) zs = []" if "filter (\<lambda>y. payout_event y = j) ys \<noteq> []" for j
  proof -
    from that obtain y where "y \<in> set ys" "payout_event y = j" by (auto simp: filter_empty_conv)
    with pay show ?thesis by (auto simp: filter_empty_conv)
  qed
  then show ?case by simp
qed simp_all

type_synonym indexed_event = "handler_env \<times> event_data"

definition handle_event :: "indexed_event \<Rightarrow> derived \<Rightarrow> derived" where
  "handle_event r w = snd (processEventByType (fst r) (snd r) w)"

interpretation indexed_events: service handle_event "\<lambda>w. derived_ok (tables_of w)" "\<lambda>w w'. frozen (tables_of w) (tables_of w')"
proof
  fix w r assume ok: "derived_ok (tables_of w)"
  from process_step [OF ok] have "derived_step (tables_of w) (tables_of (handle_event r w))" by (simp add: handle_event_def)
  with ok show "derived_ok (tables_of (handle_event r w)) \<and> frozen (tables_of w) (tables_of (handle_event r w))"
    using derived_step_ok derived_step_frozen by blast
qed (auto intro: frozen_refl frozen_trans)

definition nothing_indexed :: "user list \<Rightarrow> derived" where
  "nothing_indexed us = \<lparr>creator_events = [], match_rows = [], match_predictions = [], board_entries = [], payout_rows = [],
     fee_history = [], known_users = us\<rparr>"

lemma nothing_indexed_ok: "derived_ok (tables_of (nothing_indexed us))"
  by (simp add: nothing_indexed_def tables_of_def events_ok_def matches_ok_def predictions_ok_def payouts_ok_def)

lemma indexed_ok: "derived_ok (tables_of (fold handle_event rs (nothing_indexed us)))"
  using indexed_events.session [OF nothing_indexed_ok] by blast

section \<open>Properties\<close>


text \<open>
  Two different campaigns of one creator that are both not cancelled never overlap in time, after
  any sequence of indexed events.
\<close>

theorem campaigns_never_overlap:
  assumes "w = fold handle_event rs (nothing_indexed us)" "e \<in> set (creator_events w)" "e' \<in> set (creator_events w)" "e \<noteq> e'"
    "creator_address e = creator_address e'" "creator_address e \<noteq> []" "\<not> ce_is_cancelled e" "\<not> ce_is_cancelled e'"
  shows "ce_end_time e \<le> ce_start_time e' \<or> ce_end_time e' \<le> ce_start_time e"
proof -
  from indexed_ok [of rs us] assms(1) have "events_ok (creator_events w)" by (simp add: tables_of_def)
  with assms(2-) show ?thesis by (force simp: events_ok_def clash_def)
qed

text \<open>
  C17. What has been decided stays: once the result of a match is indexed, no later event changes
  that match or any prediction on it; once payouts of a finalized event are stored, no later event
  adds, removes or changes one, so a repeated finalization pays nobody twice.
\<close>

theorem decided_stays:
  assumes "w = fold handle_event rs (nothing_indexed us)" "w' = fold handle_event rs' w"
  shows "(\<forall>m \<in> set (match_rows w). result_submitted m \<longrightarrow> m \<in> set (match_rows w') \<and>
      (\<forall>p \<in> set (match_predictions w). mp_match p = match_id m \<longrightarrow> p \<in> set (match_predictions w'))) \<and>
    (\<forall>y \<in> set (payout_rows w). filter (\<lambda>z. payout_event z = payout_event y) (payout_rows w') =
       filter (\<lambda>z. payout_event z = payout_event y) (payout_rows w)) \<and>
    unique_keys (\<lambda>y. (payout_event y, payout_address y)) (payout_rows w')"
proof -
  have fr: "frozen (tables_of w) (tables_of w')" and ok: "derived_ok (tables_of w')"
    using indexed_events.session [OF indexed_ok, of rs' rs us] assms by auto
  have "filter (\<lambda>z. payout_event z = payout_event y) (payout_rows w) \<noteq> []" if "y \<in> set (payout_rows w)" for y
    using that by (auto simp: filter_empty_conv)
  with fr ok show ?thesis
    by (auto simp: tables_of_def payouts_ok_def)
qed

section \<open>Witnesses\<close>

definition sample_handler :: "string \<Rightarrow> handler_env" where
  "sample_handler key = \<lparr>h_now = 0, h_id = (\<lambda>i. key @ replicate i CHR ''x''), h_second = None, h_notify = None\<rparr>"

definition sample_created :: "int \<Rightarrow> int \<Rightarrow> created_data" where
  "sample_created k start = \<lparr>cd_event_id = k, cd_creator = ''G'', cd_title = [], cd_description = [], cd_creation_fee_paid = 0,
     cd_created_at = Some 1, cd_start_time = Some start, cd_end_time = Some (start + 10), cd_invite_code = [], cd_max_participants = None,
     cd_prize_pool = 0, cd_reward_distribution = [], cd_entry_fee = 5, cd_category = ''general'', cd_banner_url = None,
     cd_is_finalized = False\<rparr>"

definition sample_added :: added_data where
  "sample_added = \<lparr>ad_match_id = 7, ad_event_id = 1, ad_team_a = ''A'', ad_team_b = ''B'', ad_match_time = Some 15,
     ad_points_multiplier = Some 2\<rparr>"

definition sample_guess :: prediction_data where
  "sample_guess = \<lparr>pd_match_id = 7, pd_predictor = ''U'', pd_outcome = [], pd_home_score = Some 2, pd_away_score = Some 1\<rparr>"

definition sample_result :: result_data where
  "sample_result = \<lparr>rd_match_id = 7, rd_winning_team = Some 0, rd_submitted_by = ''O'', rd_submitted_at = Some 30,
     rd_home_score = Some 2, rd_away_score = Some 1\<rparr>"

definition sample_board :: board_data where
  "sample_board = \<lparr>bd_address = ''U'', bd_rank = Some 1, bd_payout_amount = 5, bd_total_predictions = Some 3, bd_correct_predictions = Some 2\<rparr>"

definition sample_events :: "indexed_event list" where
  "sample_events =
     [(sample_handler ''e1'', EventCreated (sample_created 1 10)), (sample_handler ''e2'', EventCreated (sample_created 2 20)),
      (sample_handler ''m'', MatchAdded sample_added), (sample_handler ''j'', UserJoinedEvent 1 ''U'' 5),
      (sample_handler ''p'', PredictionSubmitted sample_guess), (sample_handler ''r'', MatchResultSubmitted sample_result),
      (sample_handler ''f'', EventFinalized 1 [sample_board])]"

definition sample_member :: user where
  "sample_member = \<lparr>user_id = ''u'', stellar_address = ''U'', username = None, total_predictions = 0, total_staked_stroops = 0,
     reputation_score = 0, season_points = 0, role = ''user''\<rparr>"

definition sample_indexed :: derived where
  "sample_indexed = fold handle_event sample_events (nothing_indexed [sample_member])"





lemma sample_indexed_payouts:
  "payout_rows sample_indexed = [\<lparr>payout_event = 1, payout_address = ''U'', payout_amount = 5, payout_is_claimed = False, payout_entry = ''f''\<rparr>]"
  by code_simp


definition sample_first :: creator_event where
  "sample_first = hd (creator_events sample_indexed)"

definition sample_second :: creator_event where
  "sample_second = last (creator_events sample_indexed)"

lemma sample_campaigns:
  "ce_start_time sample_first = 10000" "ce_end_time sample_first = 20000" "ce_start_time sample_second = 20000" "sample_first \<noteq> sample_second"
  "creator_address sample_first = creator_address sample_second" "creator_address sample_second \<noteq> []" "\<not> ce_is_cancelled sample_first"
  "\<not> ce_is_cancelled sample_second" "creator_events sample_indexed \<noteq> []"
  by code_simp+

theorem campaigns_never_overlap_witness: "ce_end_time sample_first \<le> ce_start_time sample_second \<or> ce_end_time sample_second \<le> ce_start_time sample_first"
  by (rule campaigns_never_overlap [OF sample_indexed_def])
    (simp_all add: sample_campaigns, simp_all add: sample_first_def sample_second_def sample_campaigns(9))

theorem decided_stays_witness:
  "filter (\<lambda>y. payout_event y = 1)
     (payout_rows (fold handle_event [(sample_handler ''g'', EventFinalized 1 [sample_board\<lparr>bd_payout_amount := 9\<rparr>])] sample_indexed)) =
   payout_rows sample_indexed"
  using decided_stays [OF sample_indexed_def refl, of "[(sample_handler ''g'', EventFinalized 1 [sample_board\<lparr>bd_payout_amount := 9\<rparr>])]"]
  by (simp add: sample_indexed_payouts)

section \<open>Weak points\<close>

text \<open>A prediction that reaches its match after the result stays ungraded, whatever event follows.\<close>

lemma late_prediction_never_graded:
  assumes "w = fold handle_event rs (nothing_indexed us)" "p \<in> set (match_predictions w)" "is_correct p = None"
    "m \<in> set (match_rows w)" "mp_match p = match_id m" "result_submitted m"
  shows "p \<in> set (match_predictions (fold handle_event rs' w))"
proof -
  have "frozen (tables_of w) (tables_of (fold handle_event rs' w))"
    using indexed_events.session [OF indexed_ok, of rs' rs us] assms(1) by auto
  with assms show ?thesis by (auto simp: tables_of_def)
qed

definition sample_late :: "indexed_event list" where
  "sample_late = (let es = sample_events in take 4 es @ [es ! 5, es ! 4])"

lemma late_prediction_accepted:
  "map is_correct (match_predictions (fold handle_event sample_late (nothing_indexed [sample_member]))) = [None] \<and>
   map result_submitted (match_rows (fold handle_event sample_late (nothing_indexed [sample_member]))) = [True]"
  by code_simp

text \<open>The same holds when the grading fails after the result was saved: running the handler again does nothing.\<close>

definition sample_failed_grading :: "indexed_event list" where
  "sample_failed_grading = take 5 sample_events @ [((sample_handler ''r'')\<lparr>h_second := Some QueryFailed\<rparr>, MatchResultSubmitted sample_result)]"

lemma failed_grading_not_repaired:
  "fst (processEventByType (sample_handler ''r'') (MatchResultSubmitted sample_result)
     (fold handle_event sample_failed_grading (nothing_indexed [sample_member]))) = Inr () \<and>
   map is_correct (match_predictions (fold handle_event (sample_failed_grading @ [(sample_handler ''r'', MatchResultSubmitted sample_result)])
     (nothing_indexed [sample_member]))) = [None]"
  by code_simp

text \<open>A result without a winner and without scores is indexed as a goalless win of the first team.\<close>

lemma empty_result_read_as_win:
  "map (\<lambda>m. (winning_team m, home_score m, away_score m)) (match_rows (fold handle_event (take 5 sample_events @
     [(sample_handler ''r'', MatchResultSubmitted (sample_result\<lparr>rd_winning_team := None, rd_home_score := None, rd_away_score := None\<rparr>))])
     (nothing_indexed [sample_member]))) = [(Some TEAM_A, Some 0, Some 0)]"
  by code_simp

text \<open>A join whose notification failed is counted again when the event is retried.\<close>

lemma retried_join_counted_twice:
  "map (\<lambda>e. (ce_participant_count e, prize_pool e)) (creator_events (fold handle_event
     [(sample_handler ''e1'', EventCreated (sample_created 1 10)),
      ((sample_handler ''j'')\<lparr>h_notify := Some QueryFailed\<rparr>, UserJoinedEvent 1 ''U'' 5), (sample_handler ''j'', UserJoinedEvent 1 ''U'' 5)]
     (nothing_indexed []))) = [(2, 10)]"
  by code_simp

end
