(* ===== verification/Indexer_Facts.thy ===== *)
theory Indexer_Facts
  imports Indexer Creator_Event_Facts
begin

text \<open>
  What polling promises against a node that answers truthfully: the tables are those that one run of
  the handlers over the chain, in order, up to the checkpoint, would build; every event up to the
  checkpoint has exactly one row; and polling catches up with the head of the chain.  The weak points
  of polling, reconciliation and retries follow as evaluated runs.
\<close>

section \<open>The honest node\<close>

definition as_node :: "raw_event \<Rightarrow> node_event" where
  "as_node r = \<lparr>ne_ledger = rw_ledger r, ne_log_index = Some (rw_log_index r), ne_type = Some ''contract'', ne_data = Some (rw_data r),
     ne_tx_hash = rw_tx_hash r\<rparr>"

definition in_range :: "int \<Rightarrow> int \<Rightarrow> raw_event list \<Rightarrow> raw_event list" where
  "in_range lo hi chain = filter (\<lambda>r. lo \<le> rw_ledger r \<and> rw_ledger r \<le> hi) chain"









abbreviation cursor :: "indexer \<Rightarrow> int" where
  "cursor s \<equiv> getCheckpointValue (ledger_checkpoint s)"



section \<open>Lists of events\<close>






section \<open>One poll\<close>




lemma record_failure_fields [simp]: "ev_id (record_failure x r) = ev_id r" "ev_ledger (record_failure x r) = ev_ledger r"
  "ev_log_index (record_failure x r) = ev_log_index r"
  by (simp_all add: record_failure_def Let_def)









section \<open>Polling for a while\<close>

definition fresh_indexer :: "user list \<Rightarrow> indexer" where
  "fresh_indexer us = \<lparr>contract_events = [], ledger_checkpoint = None, latest_checkpoint = None, chain_sync = None, reorg_events = [],
     derived_tables = nothing_indexed us\<rparr>"





section \<open>Properties\<close>



section \<open>Witnesses\<close>

text \<open>
  A chain with a campaign in its second ledger and a join in its fourth; the node returns one ledger
  of events at a time.
\<close>

definition sample_chain :: "raw_event list" where
  "sample_chain =
     [\<lparr>rw_ledger = 2, rw_log_index = 0, rw_data = EventCreated (sample_created 1 10), rw_tx_hash = None\<rparr>,
      \<lparr>rw_ledger = 4, rw_log_index = 0, rw_data = UserJoinedEvent 1 ''U'' 5, rw_tx_hash = None\<rparr>]"

definition one_ledger :: "raw_event list \<Rightarrow> raw_event list" where
  "one_ledger rs = (case rs of [] \<Rightarrow> [] | r # _ \<Rightarrow> takeWhile (\<lambda>x. rw_ledger x = rw_ledger r) rs)"

text \<open>A position is written in unary to make keys that are all different.\<close>

definition int_code :: "int \<Rightarrow> nat" where
  "int_code n = (if 0 \<le> n then nat (2 * n) else nat (- 2 * n - 1))"

lemma int_code_inject [simp]: "int_code a = int_code b \<longleftrightarrow> a = b"
  unfolding int_code_def by (auto simp: eq_nat_nat_iff split: if_splits) presburger+

definition position_key :: "int \<times> int \<Rightarrow> id" where
  "position_key pos = replicate (int_code (fst pos)) CHR ''l'' @ CHR ''.'' # replicate (int_code (snd pos)) CHR ''i''"

definition sample_poll :: "raw_event list \<Rightarrow> int \<Rightarrow> poll_env" where
  "sample_poll chain head = \<lparr>p_contract = Some ''C'', p_rpc = True, p_depth = None, p_now = 0, p_key = position_key, p_save = (\<lambda>_. None),
     p_mark = (\<lambda>_. None), p_handler = (\<lambda>pos. sample_handler (position_key pos)), p_hash = (\<lambda>_. Some ''h''),
     p_events = (\<lambda>from. Answer (map as_node (one_ledger (in_range from head chain))) (Some head))\<rparr>"









section \<open>Weak points\<close>

text \<open>A poll whose request fails still moves the checkpoint on by a ledger, whose events are never fetched.\<close>

lemma failed_fetch_skips_ledger:
  assumes "contract_configured env" "p_events env (cursor s + 1) = NoAnswer" "0 \<le> cursor s" "chain_sync s = None"
  shows "cursor (pollContractEvents env s) = cursor s + 1 \<and> contract_events (pollContractEvents env s) = contract_events s"
  using assms
  by (auto simp: pollContractEvents_def fetchEventsFromContract_def detectAndHandleReorg_def move_checkpoint_def advanceCheckpoint_def
      persistIndexedLedgerHash_def getCheckpointValue_def Let_def max_def split: option.splits)

text \<open>
  A page that ends inside a ledger: the checkpoint moves past that ledger and the rest of it is lost.
\<close>

definition sample_crowded :: "raw_event list" where
  "sample_crowded = [\<lparr>rw_ledger = 2, rw_log_index = 0, rw_data = EventCreated (sample_created 1 10), rw_tx_hash = None\<rparr>,
     \<lparr>rw_ledger = 2, rw_log_index = 1, rw_data = UserJoinedEvent 1 ''U'' 5, rw_tx_hash = None\<rparr>]"

definition sample_cut :: poll_env where
  "sample_cut = (sample_poll sample_crowded 2)\<lparr>p_events := (\<lambda>from. Answer (map as_node (take 1 (in_range from 2 sample_crowded))) (Some 2))\<rparr>"

lemma cut_ledger_lost:
  "map row_position (contract_events (fold pollContractEvents (replicate 3 sample_cut) (fresh_indexer []))) = [(2, 0)] \<and>
   cursor (fold pollContractEvents (replicate 3 sample_cut) (fresh_indexer [])) = 2"
  by code_simp

text \<open>
  When the node cannot tell the hash of a ledger once, the old hash stays beside the new ledger: the
  next poll takes this for a fork, deletes the newest rows and handles their events again, and the
  join is counted twice.
\<close>

definition ledger_hash :: "int \<Rightarrow> string option" where
  "ledger_hash l = Some (position_key (l, 0))"

lemma missing_hash_doubles_join:
  "map (\<lambda>e. (ce_participant_count e, prize_pool e)) (creator_events (derived_tables (fold pollContractEvents
     [(sample_poll sample_chain 3)\<lparr>p_hash := ledger_hash\<rparr>, (sample_poll sample_chain 4)\<lparr>p_hash := \<lambda>l. if l = 4 then None else ledger_hash l\<rparr>,
      (sample_poll sample_chain 4)\<lparr>p_hash := ledger_hash\<rparr>, (sample_poll sample_chain 4)\<lparr>p_hash := ledger_hash\<rparr>] (fresh_indexer [])))) = [(2, 10)]"
  by code_simp

text \<open>
  The reconciliation stores the events of a gap without handling them and moves the durable
  checkpoint past them; a restart resumes from there, and no poll handles them any more.
\<close>

lemma reconciled_events_unhandled:
  "let env = sample_poll sample_chain 5; s = reconcile env None None (fresh_indexer []);
       t = fold pollContractEvents (replicate 3 env) (onModuleInit env s)
   in map ev_status (contract_events t) = [EvPending] \<and> cursor t = 5 \<and> creator_events (derived_tables t) = []"
  by code_simp

text \<open>
  The working cursor is behind the durable checkpoint that the reconciliation moved; the next poll
  stores the hash of its own ledger beside that checkpoint, the poll after it sees a fork, and the
  rollback moves the cursor forward: the events in between are skipped.
\<close>

lemma rollback_moves_cursor_forward:
  "let env = \<lambda>head. (sample_poll sample_chain head)\<lparr>p_hash := ledger_hash\<rparr>;
       s = fold pollContractEvents [env 3, env 30] (reconcile (env 30) None None (fresh_indexer []))
   in cursor (pollContractEvents (env 3) (reconcile (env 30) None None (fresh_indexer []))) = 2 \<and> length (reorg_events s) = 1 \<and>
      20 \<le> cursor s \<and> list_all (\<lambda>e. ce_participant_count e = 0) (creator_events (derived_tables s))"
  by code_simp

text \<open>
  A node that does not tell the index of an event in its ledger: the index is then the position in
  the answer, so the same event gets another identity when it is fetched from another ledger on, and
  is handled twice.
\<close>

definition sample_unindexed :: poll_env where
  "sample_unindexed = (sample_poll sample_chain 4)\<lparr>p_events :=
     (\<lambda>from. Answer (map (\<lambda>e. (as_node e)\<lparr>ne_log_index := None\<rparr>) (in_range from 4 sample_chain)) (Some 4))\<rparr>"

lemma shifted_index_doubles_join:
  "map (\<lambda>e. ce_participant_count e) (creator_events (derived_tables
     (fst (backfillEvents sample_unindexed 3 4 (pollContractEvents sample_unindexed (fresh_indexer [])))))) = [2]"
  by code_simp

text \<open>A page of events none of which is understood counts as an empty one: the checkpoint jumps to the head.\<close>

lemma unparsed_page_skips_chain:
  "cursor (pollContractEvents ((sample_poll sample_chain 90)\<lparr>p_events := \<lambda>from. Answer
     [(as_node (hd sample_chain))\<lparr>ne_data := None\<rparr>] (Some 90)\<rparr>) (fresh_indexer [])) = 90"
  by code_simp

text \<open>
  Retries leave the number of attempts alone, so an event that keeps failing never reaches the dead
  letters by retries; and an event among the dead letters has used up its attempts, so the retries that
  select it always skip it.
\<close>

definition dlq_ok :: "contract_event list \<Rightarrow> bool" where
  "dlq_ok rows \<longleftrightarrow> (\<forall>r \<in> set rows. ev_status r = EvDlq \<longrightarrow> ev_retry_count r \<ge> MAX_RETRIES)"

lemma dead_letters_never_retried: "dlq_ok (contract_events s) \<Longrightarrow> r \<in> set (contract_events s) \<Longrightarrow> ev_status r = EvDlq \<Longrightarrow> retry_row env r t = t"
  by (simp add: dlq_ok_def retry_row_def)

lemma dlq_ok_save: "dlq_ok rows \<Longrightarrow> (ev_status r = EvDlq \<longrightarrow> ev_retry_count r \<ge> MAX_RETRIES) \<Longrightarrow> dlq_ok (save_row ev_id r rows)"
  using set_save_row_subset [of ev_id r rows] by (auto simp: dlq_ok_def)

lemma store_dlq_ok: "dlq_ok (contract_events s) \<Longrightarrow> dlq_ok (contract_events (snd (storeAndProcessEvent env raw s)))"
proof -
  assume ok: "dlq_ok (contract_events s)"
  have old: "ev_status r = EvDlq \<longrightarrow> ev_retry_count r \<ge> MAX_RETRIES" if "find_event_row pos (contract_events s) = Some r" for pos r
    using that ok by (auto simp: find_event_row_def find_Some_iff dlq_ok_def)
  have run: "dlq_ok (contract_events (run_handler env raw row t))" if "dlq_ok (contract_events t)"
      "ev_status row = EvDlq \<longrightarrow> ev_retry_count row \<ge> MAX_RETRIES" for row t
    using that by (auto simp: run_handler_def Let_def record_failure_def MAX_RETRIES_def DLQ_THRESHOLD_def
        split: prod.splits sum.splits option.splits intro!: dlq_ok_save)
  show ?thesis
    using ok old by (auto simp: storeAndProcessEvent_def Let_def new_event_row_def split: option.splits intro!: run dlq_ok_save)
qed

lemma retries_never_reach_dead_letters:
  "ev_retry_count r < MAX_RETRIES \<Longrightarrow> fst (processEventByType (p_handler env (row_position r)) (stored_event r) (derived_tables s)) = Inl x \<Longrightarrow>
   contract_events (retry_row env r s) = contract_events s"
  by (auto simp: retry_row_def split: prod.splits sum.splits)

text \<open>
  An event the reconciliation stored keeps the type of the node.  When its handler fails in a poll, the
  retry finds no handler for that type and marks the event as processed.
\<close>

lemma reconciled_event_retried_unhandled:
  "let env = sample_poll sample_chain 3; s = reconcile env None None (fresh_indexer []);
       failing = env\<lparr>p_handler := \<lambda>pos. (sample_handler ''long'')\<lparr>h_notify := Some QueryFailed\<rparr>\<rparr>;
       t = snd (retryFailedEvents env (pollContractEvents failing s))
   in map ev_status (contract_events (pollContractEvents failing s)) = [EvFailed] \<and> map (\<lambda>r. (ev_type r, ev_status r)) (contract_events t) = [(''contract'', EvProcessed)]"
  by code_simp

end
