(* ===== verification/Competitions.thy ===== *)
theory Competitions
  imports Soroban "HOL-Library.Product_Lexorder"
begin

text \<open>
  \<open>competitions/competitions.service.ts\<close>: creating, listing, joining, leaving and cancelling
  competitions, the rank of a participant with its cache, and the generation of a knock-out bracket.

  Generated keys, invite codes and the clock are arguments, as are the outcomes of a write that
  follows another one.  A join checks and then writes without a transaction: the two parts are
  definitions of their own, and \<open>joinCompetition\<close> composes them.
\<close>

section \<open>State\<close>

datatype visibility = Public | Private

record competition =
  comp_id :: id
  comp_title :: string
  comp_description :: string
  comp_start :: instant
  comp_end :: instant
  join_deadline :: "instant option"
  prize_pool_stroops :: stroops
  comp_max :: int
  comp_count :: int
  comp_is_cancelled :: bool
  comp_visibility :: visibility
  comp_invite :: "string option"
  comp_creator :: "id option"
  comp_created_at :: instant

record participant =
  part_id :: id
  part_user :: id
  part_competition :: id
  score :: int
  part_rank :: "int option"
  joined_at :: instant

record bracket =
  bracket_id :: id
  bracket_competition :: id
  total_rounds :: nat

record bracket_round =
  round_id :: id
  round_bracket :: id
  round_number :: nat
  round_name :: string

record matchup =
  matchup_round :: id
  match_number :: nat
  participant_1 :: "id option"
  participant_2 :: "id option"
  winner :: "id option"
  is_bye :: bool

record rank_result =
  rr_rank :: int
  rr_score :: int
  rr_total :: int
  rr_percentile :: int

record rank_entry =
  re_competition :: id
  re_user :: id
  re_data :: rank_result
  re_timestamp :: instant

record contest =
  competitions :: "competition list"
  participants :: "participant list"
  brackets :: "bracket list"
  bracket_rounds :: "bracket_round list"
  matchups :: "matchup list"
  contest_users :: "user list"
  cancel_notes :: "(string \<times> id) list"
  rank_cache :: "rank_entry list"

interpretation competition_table: repository comp_id "find_row comp_id" "save_row comp_id" "unique_keys comp_id"
  by (rule table_repository)

interpretation participant_table: repository part_id "find_row part_id" "save_row part_id" "unique_keys part_id"
  by (rule table_repository)

definition find_participant :: "id \<Rightarrow> id \<Rightarrow> participant list \<Rightarrow> participant option" where
  "find_participant c u ps = List.find (\<lambda>p. part_competition p = c \<and> part_user p = u) ps"

definition participants_of :: "id \<Rightarrow> contest \<Rightarrow> participant list" where
  "participants_of c w = filter (\<lambda>p. part_competition p = c) (participants w)"

definition not_found_competition :: "id \<Rightarrow> exn" where
  "not_found_competition k = NotFound (''Competition with ID \"'' @ k @ ''\" not found'')"

section \<open>Creating, updating, listing\<close>

record create_competition_dto =
  cc_title :: string
  cc_description :: string
  cc_start :: instant
  cc_end :: instant
  cc_deadline :: "instant option"
  cc_prize :: stroops
  cc_max :: "int option"
  cc_visibility :: visibility

text \<open>An invite code that is taken violates the unique index.\<close>

definition create_competition :: "instant \<Rightarrow> id \<Rightarrow> string \<Rightarrow> create_competition_dto \<Rightarrow> id \<Rightarrow> (contest, exn, competition) action" where
  "create_competition now k inviteCode dto userId w =
     (let c = \<lparr>comp_id = k, comp_title = cc_title dto, comp_description = cc_description dto, comp_start = cc_start dto, comp_end = cc_end dto,
            join_deadline = cc_deadline dto, prize_pool_stroops = cc_prize dto,
            comp_max = (case cc_max dto of Some n \<Rightarrow> n | None \<Rightarrow> 0), comp_count = 0, comp_is_cancelled = False,
            comp_visibility = cc_visibility dto, comp_invite = (if cc_visibility dto = Private then Some inviteCode else None),
            comp_creator = Some userId, comp_created_at = now\<rparr>
      in if k \<in> comp_id ` set (competitions w) \<or> comp_invite c \<noteq> None \<and> comp_invite c \<in> comp_invite ` set (competitions w)
         then (Inl QueryFailed, w)
         else (Inr c, w\<lparr>competitions := competitions w @ [c]\<rparr>))"

record update_competition_dto =
  uc_title :: "string option"
  uc_description :: "string option"
  uc_prize :: "stroops option"
  uc_max :: "int option"

definition given :: "'a option \<Rightarrow> 'a \<Rightarrow> 'a" where
  "given v old = (case v of Some x \<Rightarrow> x | None \<Rightarrow> old)"

definition update_competition :: "instant \<Rightarrow> id \<Rightarrow> update_competition_dto \<Rightarrow> id \<Rightarrow> (contest, exn, competition) action" where
  "update_competition now k dto userId w =
     (case find_row comp_id k (competitions w) of
        None \<Rightarrow> (Inl (not_found_competition k), w)
      | Some c \<Rightarrow>
          if comp_creator c = None then (Inl TypeError, w)
          else if comp_creator c \<noteq> Some userId then (Inl (Forbidden ''Only the creator can update this competition''), w)
          else if now \<ge> comp_start c then (Inl (BadRequest ''Cannot update a competition that has already started''), w)
          else
            let c' = c\<lparr>comp_title := given (uc_title dto) (comp_title c), comp_description := given (uc_description dto) (comp_description c),
                  prize_pool_stroops := given (uc_prize dto) (prize_pool_stroops c), comp_max := given (uc_max dto) (comp_max c)\<rparr>
            in (Inr c', w\<lparr>competitions := save_row comp_id c' (competitions w)\<rparr>))"

definition newest_competitions :: "competition list \<Rightarrow> competition list" where
  "newest_competitions cs = sort_key (\<lambda>c. - comp_created_at c) cs"

definition findAll_competitions :: "contest \<Rightarrow> competition list" where
  "findAll_competitions w = newest_competitions (filter (\<lambda>c. comp_visibility c = Public \<and> \<not> comp_is_cancelled c) (competitions w))"

datatype competition_status = Active | Upcoming | Ended | Cancelled

definition applyStatusFilter :: "competition_status \<Rightarrow> instant \<Rightarrow> competition \<Rightarrow> bool" where
  "applyStatusFilter st now c \<longleftrightarrow>
     (case st of
        Active \<Rightarrow> comp_start c \<le> now \<and> comp_end c \<ge> now \<and> \<not> comp_is_cancelled c
      | Upcoming \<Rightarrow> comp_start c > now \<and> \<not> comp_is_cancelled c
      | Ended \<Rightarrow> comp_end c < now \<and> \<not> comp_is_cancelled c
      | Cancelled \<Rightarrow> comp_is_cancelled c)"

definition getCompetitionStatus :: "competition \<Rightarrow> instant \<Rightarrow> competition_status" where
  "getCompetitionStatus c now =
     (if comp_is_cancelled c then Cancelled
      else if now < comp_start c then Upcoming
      else if now \<ge> comp_start c \<and> now \<le> comp_end c then Active
      else Ended)"

definition getTimeRemaining :: "competition \<Rightarrow> instant \<Rightarrow> int option" where
  "getTimeRemaining c now =
     (if now \<ge> comp_end c then None else if now < comp_start c then Some (comp_start c - now) else Some (comp_end c - now))"

definition list_competitions ::
  "instant \<Rightarrow> nat \<Rightarrow> nat \<Rightarrow> competition_status option \<Rightarrow> visibility option \<Rightarrow> contest \<Rightarrow>
   (competition \<times> competition_status \<times> int option) list \<times> nat" where
  "list_competitions now page limit st vis w =
     (let found = newest_competitions (filter (\<lambda>c. (case st of Some x \<Rightarrow> applyStatusFilter x now c | None \<Rightarrow> True) \<and>
             (case vis of Some v \<Rightarrow> comp_visibility c = v | None \<Rightarrow> True)) (competitions w))
      in (map (\<lambda>c. (c, getCompetitionStatus c now, getTimeRemaining c now)) (take limit (drop ((page - 1) * limit) found)), length found))"

section \<open>Participants\<close>

text \<open>The order of the standings: the higher score first, then the earlier join.\<close>

abbreviation standing :: "participant \<Rightarrow> int \<times> int" where
  "standing p \<equiv> (- score p, joined_at p)"

definition by_standing :: "participant list \<Rightarrow> participant list" where
  "by_standing ps = sort_key standing ps"

record participant_item =
  pi_id :: id
  pi_user :: id
  pi_score :: int
  pi_rank :: int

definition to_item :: "nat \<Rightarrow> nat \<times> participant \<Rightarrow> participant_item" where
  "to_item skip ip = \<lparr>pi_id = part_id (snd ip), pi_user = part_user (snd ip), pi_score = score (snd ip),
     pi_rank = (case part_rank (snd ip) of Some r \<Rightarrow> r | None \<Rightarrow> int (skip + fst ip + 1))\<rparr>"

definition getParticipants :: "id \<Rightarrow> nat \<Rightarrow> nat option \<Rightarrow> (contest, exn, participant_item list \<times> nat) action" where
  "getParticipants k page perPage w =
     (if find_row comp_id k (competitions w) = None then (Inl (not_found_competition k), w)
      else
        let limit = min (case perPage of Some n \<Rightarrow> n | None \<Rightarrow> 20) 50;
            skip = (page - 1) * limit;
            found = by_standing (participants_of k w)
        in (Inr (map (to_item skip) (List.enumerate 0 (take limit (drop skip found))), length found), w))"

definition RANK_CACHE_TTL_MS :: int where "RANK_CACHE_TTL_MS = 300000"

definition count_better :: "participant \<Rightarrow> participant list \<Rightarrow> nat" where
  "count_better p ps = length (filter (\<lambda>q. score q > score p \<or> score q = score p \<and> joined_at q < joined_at p) ps)"

text \<open>In hundredths of a percent; the quotient is taken exactly.\<close>

definition percentile :: "int \<Rightarrow> int \<Rightarrow> int" where
  "percentile r n = (if n > 0 then (2 * (n - r + 1) * 10000 + n) div (2 * n) else 10000)"

definition find_rank :: "id \<Rightarrow> id \<Rightarrow> rank_entry list \<Rightarrow> rank_entry option" where
  "find_rank k u es = List.find (\<lambda>e. re_competition e = k \<and> re_user e = u) es"

definition set_rank :: "rank_entry \<Rightarrow> rank_entry list \<Rightarrow> rank_entry list" where
  "set_rank e es = filter (\<lambda>x. \<not> (re_competition x = re_competition e \<and> re_user x = re_user e)) es @ [e]"

definition fresh_rank :: "instant \<Rightarrow> id \<Rightarrow> id \<Rightarrow> (contest, exn, rank_result) action" where
  "fresh_rank now k userId w =
     (if find_row comp_id k (competitions w) = None then (Inl (not_found_competition k), w)
      else case find_participant k userId (participants w) of
             None \<Rightarrow> (Inl (NotFound (''User is not a participant in competition \"'' @ k @ ''\"'')), w)
           | Some p \<Rightarrow>
               let r = int (count_better p (participants_of k w)) + 1;
                   n = int (length (participants_of k w));
                   d = \<lparr>rr_rank = r, rr_score = score p, rr_total = n, rr_percentile = percentile r n\<rparr>
               in (Inr d, w\<lparr>rank_cache := set_rank \<lparr>re_competition = k, re_user = userId, re_data = d, re_timestamp = now\<rparr> (rank_cache w)\<rparr>))"

definition getMyRank :: "instant \<Rightarrow> id \<Rightarrow> id \<Rightarrow> (contest, exn, rank_result) action" where
  "getMyRank now k userId w =
     (case find_rank k userId (rank_cache w) of
        Some e \<Rightarrow> if now - re_timestamp e < RANK_CACHE_TTL_MS then (Inr (re_data e), w) else fresh_rank now k userId w
      | None \<Rightarrow> fresh_rank now k userId w)"

section \<open>Joining and leaving\<close>

text \<open>The text of the deadline error is given without the date.\<close>

definition join_check :: "instant \<Rightarrow> id \<Rightarrow> id \<Rightarrow> contest \<Rightarrow> exn option" where
  "join_check now k userId w =
     (case find_row comp_id k (competitions w) of
        None \<Rightarrow> Some (not_found_competition k)
      | Some c \<Rightarrow>
          if comp_is_cancelled c then Some (BadRequest ''Competition has been cancelled'')
          else if (case join_deadline c of Some d \<Rightarrow> now > d | None \<Rightarrow> False)
          then Some (BadRequest ''Cannot join competition: join deadline has passed'')
          else if now \<ge> comp_end c then Some (BadRequest ''Competition has already ended'')
          else if find_participant k userId (participants w) \<noteq> None then Some (Conflict ''You have already joined this competition'')
          else if comp_max c > 0 \<and> int (length (participants_of k w)) \<ge> comp_max c then Some (BadRequest ''Competition is full'')
          else None)"

text \<open>The unique index on user and competition refuses a second row; the increment may fail after the row is saved.\<close>

definition join_commit :: "instant \<Rightarrow> id \<Rightarrow> exn option \<Rightarrow> id \<Rightarrow> id \<Rightarrow> (contest, exn, participant) action" where
  "join_commit now pid increment k userId w =
     (let p = \<lparr>part_id = pid, part_user = userId, part_competition = k, score = 0, part_rank = None, joined_at = now\<rparr>;
          w1 = w\<lparr>participants := participants w @ [p]\<rparr>
      in if pid \<in> part_id ` set (participants w) \<or> find_participant k userId (participants w) \<noteq> None then (Inl QueryFailed, w)
         else case increment of
                Some x \<Rightarrow> (Inl x, w1)
              | None \<Rightarrow> (Inr p, w1\<lparr>competitions := update_row comp_id k (\<lambda>c. c\<lparr>comp_count := comp_count c + 1\<rparr>) (competitions w1)\<rparr>))"

definition joinCompetition :: "instant \<Rightarrow> id \<Rightarrow> exn option \<Rightarrow> id \<Rightarrow> id \<Rightarrow> (contest, exn, participant) action" where
  "joinCompetition now pid increment k userId w =
     (case join_check now k userId w of Some x \<Rightarrow> (Inl x, w) | None \<Rightarrow> join_commit now pid increment k userId w)"

text \<open>Removing a participant clears the references of the bracket to it.\<close>

definition clear_id :: "id \<Rightarrow> id option \<Rightarrow> id option" where
  "clear_id pid v = (if v = Some pid then None else v)"

definition forget_participant :: "id \<Rightarrow> matchup \<Rightarrow> matchup" where
  "forget_participant pid m = m\<lparr>participant_1 := clear_id pid (participant_1 m), participant_2 := clear_id pid (participant_2 m),
     winner := clear_id pid (winner m)\<rparr>"

definition leave :: "instant \<Rightarrow> id \<Rightarrow> id \<Rightarrow> (contest, exn, unit) action" where
  "leave now k userId w =
     (case find_row comp_id k (competitions w) of
        None \<Rightarrow> (Inl (not_found_competition k), w)
      | Some c \<Rightarrow>
          if now \<ge> comp_start c then (Inl (BadRequest ''Cannot leave competition after it has started''), w)
          else case find_participant k userId (participants w) of
                 None \<Rightarrow> (Inl (NotFound ''You are not a participant in this competition''), w)
               | Some p \<Rightarrow>
                   (Inr (), w\<lparr>participants := filter (\<lambda>q. part_id q \<noteq> part_id p) (participants w),
                      matchups := map (forget_participant (part_id p)) (matchups w),
                      competitions := update_row comp_id k (\<lambda>c. c\<lparr>comp_count := comp_count c - 1\<rparr>) (competitions w)\<rparr>))"

text \<open>Every participant with an address is notified; a notification that fails fails the request, after the cancellation was saved.\<close>

definition notified :: "id \<Rightarrow> contest \<Rightarrow> (string \<times> id) list" where
  "notified k w = map (\<lambda>a. (a, k)) (filter (\<lambda>a. a \<noteq> []) (List.map_filter (\<lambda>p. map_option stellar_address
     (find_row user_id (part_user p) (contest_users w))) (participants_of k w)))"

definition cancel :: "exn option \<Rightarrow> id \<Rightarrow> id \<Rightarrow> (contest, exn, competition) action" where
  "cancel notes_fail k userId w =
     (case find_row comp_id k (competitions w) of
        None \<Rightarrow> (Inl (not_found_competition k), w)
      | Some c \<Rightarrow>
          if comp_creator c \<noteq> Some userId then (Inl (Forbidden ''Only the creator can cancel this competition''), w)
          else if comp_is_cancelled c then (Inl (Conflict ''Competition is already cancelled''), w)
          else
            let c' = c\<lparr>comp_is_cancelled := True\<rparr>;
                w1 = w\<lparr>competitions := save_row comp_id c' (competitions w)\<rparr>
            in case notes_fail of
                 Some x \<Rightarrow> (Inl x, w1)
               | None \<Rightarrow> (Inr c', w1\<lparr>cancel_notes := cancel_notes w1 @ notified k w1\<rparr>))"

section \<open>Brackets\<close>

datatype seeding_metric = Score | Rank | JoinedAt

text \<open>Rows without a rank come last.\<close>

definition seeded :: "seeding_metric \<Rightarrow> participant list \<Rightarrow> participant list" where
  "seeded metric ps =
     (case metric of
        Score \<Rightarrow> by_standing ps
      | Rank \<Rightarrow> sort_key (\<lambda>p. (case part_rank p of Some r \<Rightarrow> (0 :: int, r) | None \<Rightarrow> (1, 0), joined_at p)) ps
      | JoinedAt \<Rightarrow> sort_key joined_at ps)"

definition getRoundName :: "nat \<Rightarrow> nat \<Rightarrow> string" where
  "getRoundName r n =
     (if n = r then ''Finals'' else if n = r + 1 then ''Semifinals'' else if n = r + 2 then ''Quarterfinals''
      else ''Round '' @ bigint_to_string (int r))"

text \<open>\<open>Math.ceil(Math.log2(n))\<close>, the number of halvings that leave one.\<close>

fun ceil_log2 :: "nat \<Rightarrow> nat" where
  "ceil_log2 n = (if n \<le> 1 then 0 else Suc (ceil_log2 ((n + 1) div 2)))"

declare ceil_log2.simps [simp del]

text \<open>The pairs of the first round: the first seeds get the byes, the others meet in the order of their seeds.\<close>

fun first_round :: "nat \<Rightarrow> nat \<Rightarrow> participant list \<Rightarrow> (participant option \<times> participant option) list" where
  "first_round byes 0 ps = []"
| "first_round byes (Suc n) ps =
     (let next = (\<lambda>i. if i < length ps then Some (ps ! i) else None)
      in if byes > 0 then (next 0, None) # first_round (byes - 1) n (drop 1 ps)
         else (next 0, next 1) # first_round 0 n (drop 2 ps))"

definition first_matchup :: "id \<Rightarrow> nat \<times> participant option \<times> participant option \<Rightarrow> matchup" where
  "first_matchup rid = (\<lambda>(m, p1, p2).
     \<lparr>matchup_round = rid, match_number = m + 1, participant_1 = map_option part_id p1, participant_2 = map_option part_id p2,
      winner = (if p2 = None then map_option part_id p1 else None), is_bye = (p2 = None)\<rparr>)"

definition empty_matchup :: "id \<Rightarrow> nat \<Rightarrow> matchup" where
  "empty_matchup rid m = \<lparr>matchup_round = rid, match_number = m + 1, participant_1 = None, participant_2 = None, winner = None, is_bye = False\<rparr>"

datatype bracket_write = WriteBracket bracket | WriteRound bracket_round | WriteMatchup matchup

text \<open>The rows in the order they are written; the keys of the bracket and of its rounds are given.\<close>

definition bracket_writes :: "id \<Rightarrow> (nat \<Rightarrow> id) \<Rightarrow> id \<Rightarrow> participant list \<Rightarrow> bracket_write list" where
  "bracket_writes bid rid k ps =
     (let totalRounds = ceil_log2 (length ps);
          bracketSize = 2 ^ totalRounds;
          byeCount = bracketSize - length ps;
          pairs = first_round byeCount (bracketSize div 2) ps
      in WriteBracket \<lparr>bracket_id = bid, bracket_competition = k, total_rounds = totalRounds\<rparr> #
         map (\<lambda>r. WriteRound \<lparr>round_id = rid r, round_bracket = bid, round_number = r, round_name = getRoundName r totalRounds\<rparr>)
           [1..<totalRounds + 1] @
         map (\<lambda>mp. WriteMatchup (first_matchup (rid 1) mp)) (List.enumerate 0 pairs) @
         concat (map (\<lambda>r. map (\<lambda>m. WriteMatchup (empty_matchup (rid (r + 1)) m)) [0..<bracketSize div 2 ^ (r + 1)]) [1..<totalRounds]))"

fun write_row :: "bracket_write \<Rightarrow> contest \<Rightarrow> contest" where
  "write_row (WriteBracket b) w = w\<lparr>brackets := brackets w @ [b]\<rparr>"
| "write_row (WriteRound r) w = w\<lparr>bracket_rounds := bracket_rounds w @ [r]\<rparr>"
| "write_row (WriteMatchup m) w = w\<lparr>matchups := matchups w @ [m]\<rparr>"

text \<open>Each row is saved on its own: when the write with a given number fails, the ones before it stay.\<close>

definition generateBracket ::
  "id \<Rightarrow> (nat \<Rightarrow> id) \<Rightarrow> (nat \<times> exn) option \<Rightarrow> id \<Rightarrow> seeding_metric \<Rightarrow> id \<Rightarrow> (contest, exn, bracket) action" where
  "generateBracket bid rid failure k metric userId w =
     (case find_row comp_id k (competitions w) of
        None \<Rightarrow> (Inl (not_found_competition k), w)
      | Some c \<Rightarrow>
          if comp_creator c \<noteq> Some userId then (Inl (Forbidden ''Only the creator can generate a bracket''), w)
          else if find_row bracket_competition k (brackets w) \<noteq> None
          then (Inl (Conflict ''Bracket already exists for this competition''), w)
          else
            let ps = seeded metric (participants_of k w)
            in if length ps < 2 then (Inl (BadRequest ''At least 2 participants are required to generate a bracket''), w)
               else
                 let rows = bracket_writes bid rid k ps
                 in case failure of
                      Some (n, x) \<Rightarrow> if n < length rows then (Inl x, fold write_row (take n rows) w)
                        else (Inr \<lparr>bracket_id = bid, bracket_competition = k, total_rounds = ceil_log2 (length ps)\<rparr>, fold write_row rows w)
                    | None \<Rightarrow> (Inr \<lparr>bracket_id = bid, bracket_competition = k, total_rounds = ceil_log2 (length ps)\<rparr>, fold write_row rows w))"

definition getBracket :: "id \<Rightarrow> contest \<Rightarrow> (exn, bracket \<times> (bracket_round \<times> matchup list) list) result" where
  "getBracket k w =
     (case find_row bracket_competition k (brackets w) of
        None \<Rightarrow> Inl (NotFound (''No bracket found for competition \"'' @ k @ ''\"''))
      | Some b \<Rightarrow>
          let rounds = sort_key round_number (filter (\<lambda>r. round_bracket r = bracket_id b) (bracket_rounds w))
          in Inr (b, map (\<lambda>r. (r, sort_key match_number (filter (\<lambda>m. matchup_round m = round_id r) (matchups w)))) rounds))"

end
