(* ===== verification/Competition_Facts.thy ===== *)
theory Competition_Facts
  imports Competitions "HOL-Library.Multiset"
begin

text \<open>
  The bracket is a complete knock-out: every participant stands in exactly one pair of the first
  round, the best seeds have the byes, and each further round halves the pairs.  The rank a
  participant asks for is its place in the standings.  The participant counts stay exact through
  any session of requests.
\<close>

section \<open>The size of a bracket\<close>

lemma ceil_log2_upper: "n \<le> 2 ^ ceil_log2 n"
proof (induction n rule: ceil_log2.induct)
  case (1 n)
  show ?case
  proof (cases "n \<le> 1")
    case True
    then show ?thesis by (simp add: ceil_log2.simps)
  next
    case False
    with 1 have "(n + 1) div 2 \<le> 2 ^ ceil_log2 ((n + 1) div 2)" by blast
    then have "n \<le> 2 * 2 ^ ceil_log2 ((n + 1) div 2)" by linarith
    with False show ?thesis by (subst ceil_log2.simps) simp
  qed
qed

lemma ceil_log2_lower: "2 \<le> n \<Longrightarrow> 2 ^ ceil_log2 n < 2 * n"
proof (induction n rule: ceil_log2.induct)
  case (1 n)
  have eq: "ceil_log2 n = Suc (ceil_log2 ((n + 1) div 2))" using 1(2) by (subst ceil_log2.simps) simp
  show ?case
  proof (cases "n = 2")
    case True
    then show ?thesis by (simp add: eq ceil_log2.simps)
  next
    case False
    with 1 have "2 ^ ceil_log2 ((n + 1) div 2) < 2 * ((n + 1) div 2)" by force
    moreover have "even (2 ^ ceil_log2 ((n + 1) div 2) :: nat)"
      using 1(2) False by (subst ceil_log2.simps) auto
    ultimately have "2 ^ ceil_log2 ((n + 1) div 2) + 2 \<le> 2 * ((n + 1) div 2)" by presburger
    then show ?thesis using eq by simp
  qed
qed

lemma bracket_sizes:
  assumes "2 \<le> n" "R = ceil_log2 n"
  shows "1 \<le> R" "n \<le> 2 ^ R" "2 ^ R div 2 = (2 :: nat) ^ (R - 1)" "2 ^ R - n \<le> 2 ^ (R - 1)" "(2 ^ R - n) + 2 * (2 ^ (R - 1) - (2 ^ R - n)) = n"
proof -
  show R: "1 \<le> R" using assms by (simp add: ceil_log2.simps [of n])
  then obtain q where q: "R = Suc q" by (cases R) auto
  show up: "n \<le> 2 ^ R" using ceil_log2_upper assms by simp
  show "2 ^ R div 2 = (2 :: nat) ^ (R - 1)" by (simp add: q)
  have "2 ^ R < 2 * n" using ceil_log2_lower assms by simp
  with up show "2 ^ R - n \<le> 2 ^ (R - 1)" "(2 ^ R - n) + 2 * (2 ^ (R - 1) - (2 ^ R - n)) = n" by (simp_all add: q)
qed

section \<open>The first round\<close>

definition slots :: "'a option \<times> 'a option \<Rightarrow> 'a list" where
  "slots ab = (case fst ab of None \<Rightarrow> [] | Some x \<Rightarrow> [x]) @ (case snd ab of None \<Rightarrow> [] | Some y \<Rightarrow> [y])"

lemma slots_simps [simp]: "slots (Some x, None) = [x]" "slots (Some x, Some y) = [x, y]"
  by (simp_all add: slots_def)

lemma length_first_round [simp]: "length (first_round b n ps) = n"
  by (induction b n ps rule: first_round.induct) (simp_all add: Let_def)

lemma two_first: "2 \<le> length ps \<Longrightarrow> [ps ! 0, ps ! 1] @ drop 2 ps = ps"
  by (cases ps; cases "tl ps") auto

lemma first_round_seats:
  "b \<le> n \<Longrightarrow> b + 2 * (n - b) = length ps \<Longrightarrow>
   concat (map slots (first_round b n ps)) = ps \<and>
   (\<forall>i < n. fst (first_round b n ps ! i) \<noteq> None \<and> (snd (first_round b n ps ! i) = None \<longleftrightarrow> i < b))"
proof (induction b n ps rule: first_round.induct)
  case (2 byes n ps)
  show ?case
  proof (cases "byes > 0")
    case True
    with 2 have ps: "0 < length ps" by linarith
    have "concat (map slots (first_round (byes - 1) n (drop 1 ps))) = drop 1 ps \<and>
        (\<forall>i < n. fst (first_round (byes - 1) n (drop 1 ps) ! i) \<noteq> None \<and>
          (snd (first_round (byes - 1) n (drop 1 ps) ! i) = None \<longleftrightarrow> i < byes - 1))"
      using 2(1) [OF refl True] 2(3,4) True by simp
    with True ps show ?thesis
      by (cases ps) (auto simp: nth_Cons split: nat.splits)
  next
    case False
    with 2 have ps: "2 \<le> length ps" by simp
    have "concat (map slots (first_round 0 n (drop 2 ps))) = drop 2 ps \<and>
        (\<forall>i < n. fst (first_round 0 n (drop 2 ps) ! i) \<noteq> None \<and> (snd (first_round 0 n (drop 2 ps) ! i) = None \<longleftrightarrow> i < 0))"
      using 2(2) [OF refl False] 2(3,4) False by simp
    with False ps two_first [OF ps] show ?thesis
      by (auto simp: Let_def nth_Cons split: nat.splits)
  qed
qed simp

section \<open>Writing and reading a bracket\<close>

lemma write_rounds: "fold write_row (map WriteRound rs) w = w\<lparr>bracket_rounds := bracket_rounds w @ rs\<rparr>"
  by (induction rs arbitrary: w) simp_all

lemma write_matchups: "fold write_row (map WriteMatchup ms) w = w\<lparr>matchups := matchups w @ ms\<rparr>"
  by (induction ms arbitrary: w) simp_all

definition new_rounds :: "id \<Rightarrow> (nat \<Rightarrow> id) \<Rightarrow> nat \<Rightarrow> bracket_round list" where
  "new_rounds bid rid R = map (\<lambda>r. \<lparr>round_id = rid r, round_bracket = bid, round_number = r, round_name = getRoundName r R\<rparr>) [1..<R + 1]"

definition new_matchups :: "(nat \<Rightarrow> id) \<Rightarrow> participant list \<Rightarrow> matchup list" where
  "new_matchups rid ps =
     (let R = ceil_log2 (length ps)
      in map (first_matchup (rid 1)) (List.enumerate 0 (first_round (2 ^ R - length ps) (2 ^ R div 2) ps)) @
         concat (map (\<lambda>r. map (empty_matchup (rid (r + 1))) [0..<2 ^ R div 2 ^ (r + 1)]) [1..<R]))"

lemma bracket_writes_eq:
  "bracket_writes bid rid k ps =
     WriteBracket \<lparr>bracket_id = bid, bracket_competition = k, total_rounds = ceil_log2 (length ps)\<rparr> #
     map WriteRound (new_rounds bid rid (ceil_log2 (length ps))) @ map WriteMatchup (new_matchups rid ps)"
  by (simp add: bracket_writes_def new_rounds_def new_matchups_def Let_def map_concat comp_def)

lemma write_bracket:
  "fold write_row (bracket_writes bid rid k ps) w =
     w\<lparr>brackets := brackets w @ [\<lparr>bracket_id = bid, bracket_competition = k, total_rounds = ceil_log2 (length ps)\<rparr>],
       bracket_rounds := bracket_rounds w @ new_rounds bid rid (ceil_log2 (length ps)), matchups := matchups w @ new_matchups rid ps\<rparr>"
  by (simp add: bracket_writes_eq write_rounds write_matchups)

text \<open>The pairs of round \<open>r\<close>.\<close>

definition round_matchups :: "(nat \<Rightarrow> id) \<Rightarrow> participant list \<Rightarrow> nat \<Rightarrow> matchup list" where
  "round_matchups rid ps r =
     (let R = ceil_log2 (length ps)
      in if r = 1 then map (first_matchup (rid 1)) (List.enumerate 0 (first_round (2 ^ R - length ps) (2 ^ R div 2) ps))
         else map (empty_matchup (rid r)) [0..<2 ^ R div 2 ^ r])"

lemma filter_concat_one:
  assumes "r \<in> set xs" "distinct xs" "\<And>x y. y \<in> set (f x) \<Longrightarrow> P y \<longleftrightarrow> x = r"
  shows "filter P (concat (map f xs)) = f r"
proof -
  have one: "filter P (f x) = (if x = r then f r else [])" for x
    using assms(3) by (auto simp: filter_id_conv filter_empty_conv)
  from assms(1,2) show ?thesis
  proof (induction xs)
    case (Cons x xs)
    have "filter P (concat (map f xs)) = []" if "r \<notin> set xs"
      using that by (induction xs) (auto simp: one)
    with Cons show ?case by (auto simp: one)
  qed simp
qed

lemma filter_concat_none: "(\<And>x y. x \<in> set xs \<Longrightarrow> y \<in> set (f x) \<Longrightarrow> \<not> P y) \<Longrightarrow> filter P (concat (map f xs)) = []"
  by (induction xs) (auto simp: filter_empty_conv)

lemma new_matchups_of_round:
  assumes "inj rid" "1 \<le> r" "r \<le> ceil_log2 (length ps)"
  shows "filter (\<lambda>m. matchup_round m = rid r) (new_matchups rid ps) = round_matchups rid ps r"
proof -
  let ?R = "ceil_log2 (length ps)"
  let ?first = "map (first_matchup (rid 1)) (List.enumerate 0 (first_round (2 ^ ?R - length ps) (2 ^ ?R div 2) ps))"
  let ?later = "\<lambda>q. map (empty_matchup (rid (q + 1))) [0..<2 ^ ?R div 2 ^ (q + 1)]"
  have first: "matchup_round m = rid 1" if "m \<in> set ?first" for m using that by (auto simp: first_matchup_def)
  have later: "matchup_round m = rid (q + 1)" if "m \<in> set (?later q)" for m q using that by (auto simp: empty_matchup_def)
  show ?thesis
  proof (cases "r = 1")
    case True
    have "filter (\<lambda>m. matchup_round m = rid 1) (concat (map ?later [1..<?R])) = []"
    proof (rule filter_concat_none)
      fix q m assume "q \<in> set [1..<?R]" "m \<in> set (?later q)"
      with later [of m q] inj_eq [OF assms(1), of "q + 1" 1] show "matchup_round m \<noteq> rid 1" by simp
    qed
    moreover have "filter (\<lambda>m. matchup_round m = rid 1) ?first = ?first" by (rule filter_True) (use first in blast)
    ultimately show ?thesis by (simp add: True new_matchups_def round_matchups_def Let_def)
  next
    case False
    with assms(2) obtain q where q: "r = q + 1" "1 \<le> q" by (cases r) auto
    have "filter (\<lambda>m. matchup_round m = rid r) (concat (map ?later [1..<?R])) = ?later q"
    proof (rule filter_concat_one)
      show "q \<in> set [1..<?R]" using q assms(3) by simp
      show "matchup_round m = rid r \<longleftrightarrow> x = q" if "m \<in> set (?later x)" for x m
        using later [OF that] q(1) inj_eq [OF assms(1), of "x + 1" "q + 1"] by simp
    qed simp
    moreover have "filter (\<lambda>m. matchup_round m = rid r) ?first = []"
    proof -
      have "rid 1 \<noteq> rid r" using False inj_eq [OF assms(1), of 1 r] by auto
      with first show ?thesis unfolding filter_empty_conv by metis
    qed
    ultimately show ?thesis using False q by (simp add: new_matchups_def round_matchups_def Let_def)
  qed
qed

lemma first_matchup_numbers: "map match_number (map (first_matchup x) (List.enumerate n ys)) = map Suc [n..<n + length ys]"
proof (induction ys arbitrary: n)
  case (Cons y ys)
  have "match_number (first_matchup x (n, y)) = Suc n" by (cases y) (simp add: first_matchup_def)
  with Cons show ?case by (simp add: upt_conv_Cons del: upt_Suc)
qed simp

lemma round_sorted: "sort_key match_number (round_matchups rid ps r) = round_matchups rid ps r"
proof (rule sort_key_id_if_sorted)
  have sorted: "sorted (map Suc [a..<b])" for a b by (simp add: map_Suc_upt del: upt_Suc)
  have "map match_number (map (empty_matchup x) [0..<n]) = map Suc [0..<n]" for x n by (simp add: empty_matchup_def)
  with sorted show "sorted (map match_number (round_matchups rid ps r))"
    by (cases "r = 1") (simp_all only: round_matchups_def Let_def if_True if_False simp_thms first_matchup_numbers)
qed

lemma get_new_bracket:
  assumes "find_row bracket_competition k (brackets w) = None" "bid \<notin> round_bracket ` set (bracket_rounds w)"
    "\<forall>r. rid r \<notin> matchup_round ` set (matchups w)" "inj rid" "R = ceil_log2 (length ps)"
  shows "getBracket k (fold write_row (bracket_writes bid rid k ps) w) =
    Inr (\<lparr>bracket_id = bid, bracket_competition = k, total_rounds = R\<rparr>,
      map (\<lambda>r. (\<lparr>round_id = rid r, round_bracket = bid, round_number = r, round_name = getRoundName r R\<rparr>, round_matchups rid ps r)) [1..<R + 1])"
proof -
  have rounds: "filter (\<lambda>r. round_bracket r = bid) (bracket_rounds w @ new_rounds bid rid R) = new_rounds bid rid R"
  proof -
    have "filter (\<lambda>r. round_bracket r = bid) (bracket_rounds w) = []" using assms(2) by (auto simp: filter_empty_conv)
    moreover have "filter (\<lambda>r. round_bracket r = bid) (new_rounds bid rid R) = new_rounds bid rid R"
      by (rule filter_True) (auto simp: new_rounds_def)
    ultimately show ?thesis by simp
  qed
  have "map round_number (new_rounds bid rid R) = [1..<R + 1]" by (simp add: new_rounds_def comp_def del: upt_Suc)
  then have sorted: "sort_key round_number (new_rounds bid rid R) = new_rounds bid rid R"
    by (intro sort_key_id_if_sorted) (simp del: upt_Suc)
  have pairs: "sort_key match_number (filter (\<lambda>m. matchup_round m = rid r) (matchups w @ new_matchups rid ps)) = round_matchups rid ps r"
    if "r \<in> set [1..<R + 1]" for r
  proof -
    have "filter (\<lambda>m. matchup_round m = rid r) (matchups w) = []" unfolding filter_empty_conv using assms(3) by force
    moreover have "1 \<le> r" "r \<le> ceil_log2 (length ps)" using that assms(5) by (simp_all del: upt_Suc)
    ultimately show ?thesis using new_matchups_of_round [OF assms(4), of r ps] round_sorted by simp
  qed
  have "find_row bracket_competition k (brackets w @ [b]) = Some b" if "bracket_competition b = k" for b
    using assms(1) that by (simp add: find_row_append)
  then show ?thesis
    using pairs by (simp add: getBracket_def write_bracket assms(5) [symmetric] rounds sorted del: upt_Suc filter_append)
      (simp add: new_rounds_def comp_def del: upt_Suc filter_append)
qed

section \<open>Counting the matches\<close>

lemma powers_sum: "j \<le> R \<Longrightarrow> sum_list (map (\<lambda>r. 2 ^ (R - r)) [R + 1 - j..<R + 1]) + 1 = (2 :: nat) ^ j"
proof (induction j)
  case (Suc j)
  then have "R + 1 - Suc j < R + 1" "Suc (R + 1 - Suc j) = R + 1 - j" "R - (R + 1 - Suc j) = j" by simp_all
  with Suc upt_conv_Cons [of "R + 1 - Suc j" "R + 1"] show ?case by (simp del: upt_Suc)
qed simp

lemma pow_div: "r \<le> R \<Longrightarrow> 2 ^ R div 2 ^ r = (2 :: nat) ^ (R - r)"
  by (simp add: power_diff)

lemma length_round: "1 \<le> r \<Longrightarrow> r \<le> ceil_log2 (length ps) \<Longrightarrow> length (round_matchups rid ps r) = 2 ^ (ceil_log2 (length ps) - r)"
  using pow_div [of 1 "ceil_log2 (length ps)"] by (auto simp: round_matchups_def Let_def pow_div)

lemma first_pairs:
  assumes "2 \<le> length ps" "R = ceil_log2 (length ps)"
  shows "concat (map (\<lambda>m. slots (participant_1 m, participant_2 m)) (round_matchups rid ps 1)) = map part_id ps"
    "i < 2 ^ (R - 1) \<Longrightarrow> is_bye (round_matchups rid ps 1 ! i) = (i < 2 ^ R - length ps)"
    "i < 2 ^ (R - 1) \<Longrightarrow> winner (round_matchups rid ps 1 ! i) = (if i < 2 ^ R - length ps then participant_1 (round_matchups rid ps 1 ! i) else None)"
proof -
  note size = bracket_sizes [OF assms]
  let ?pairs = "first_round (2 ^ R - length ps) (2 ^ (R - 1)) ps"
  have round: "round_matchups rid ps 1 = map (first_matchup (rid 1)) (List.enumerate 0 ?pairs)"
    by (simp add: round_matchups_def Let_def assms(2) [symmetric] size(3))
  have seats: "concat (map slots ?pairs) = ps" "\<forall>i < 2 ^ (R - 1). fst (?pairs ! i) \<noteq> None \<and> (snd (?pairs ! i) = None \<longleftrightarrow> i < 2 ^ R - length ps)"
    using first_round_seats [of "2 ^ R - length ps" "2 ^ (R - 1)" ps] size(4,5) by simp_all
  have "concat (map (\<lambda>m. slots (participant_1 m, participant_2 m)) (map (first_matchup x) (List.enumerate n qs))) = map part_id (concat (map slots qs))"
    for x n qs
    by (induction qs arbitrary: n) (auto simp: first_matchup_def slots_def split: option.split)
  with round seats(1) show "concat (map (\<lambda>m. slots (participant_1 m, participant_2 m)) (round_matchups rid ps 1)) = map part_id ps" by simp
  have nth: "round_matchups rid ps 1 ! i = first_matchup (rid 1) (i, ?pairs ! i)" if "i < 2 ^ (R - 1)" for i
    using that unfolding round by (simp add: nth_enumerate_eq)
  show "is_bye (round_matchups rid ps 1 ! i) = (i < 2 ^ R - length ps)" if "i < 2 ^ (R - 1)"
    using nth [OF that] seats(2) that by (auto simp: first_matchup_def split: prod.splits)
  show "winner (round_matchups rid ps 1 ! i) = (if i < 2 ^ R - length ps then participant_1 (round_matchups rid ps 1 ! i) else None)" if "i < 2 ^ (R - 1)"
    using nth [OF that] seats(2) that by (auto simp: first_matchup_def split: prod.splits)
qed

lemma count_first: "(\<And>i. i < length xs \<Longrightarrow> P (xs ! i) \<longleftrightarrow> i < b) \<Longrightarrow> b \<le> length xs \<Longrightarrow> length (filter (\<lambda>x. \<not> P x) xs) + b = length xs"
proof -
  assume P: "\<And>i. i < length xs \<Longrightarrow> P (xs ! i) \<longleftrightarrow> i < b" and b: "b \<le> length xs"
  have "filter P (take b xs) = take b xs" "filter (\<lambda>x. \<not> P x) (drop b xs) = drop b xs" "filter (\<lambda>x. \<not> P x) (take b xs) = []"
    using P b by (auto simp: filter_id_conv filter_empty_conv in_set_conv_nth)
  moreover have "filter (\<lambda>x. \<not> P x) xs = filter (\<lambda>x. \<not> P x) (take b xs) @ filter (\<lambda>x. \<not> P x) (drop b xs)"
    by (metis append_take_drop_id filter_append)
  ultimately show ?thesis using b by simp
qed

lemma open_matches:
  assumes "2 \<le> length ps" "R = ceil_log2 (length ps)"
  shows "length (filter (\<lambda>m. \<not> is_bye m) (concat (map (round_matchups rid ps) [1..<R + 1]))) + 1 = length ps"
proof -
  note size = bracket_sizes [OF assms]
  have len1: "length (round_matchups rid ps 1) = 2 ^ (R - 1)" using length_round [of 1 ps rid] size(1) assms(2) by simp
  have first: "length (filter (\<lambda>m. \<not> is_bye m) (round_matchups rid ps 1)) + (2 ^ R - length ps) = 2 ^ (R - 1)"
    using count_first [of "round_matchups rid ps 1" is_bye "2 ^ R - length ps"] first_pairs(2) [OF assms] size(4) len1 by metis
  have later: "length (filter (\<lambda>m. \<not> is_bye m) (round_matchups rid ps r)) = 2 ^ (R - r)" if "r \<in> set [2..<R + 1]" for r
  proof -
    have "filter (\<lambda>m. \<not> is_bye m) (round_matchups rid ps r) = round_matchups rid ps r"
      using that by (auto simp: filter_id_conv round_matchups_def Let_def empty_matchup_def)
    moreover have "1 \<le> r" "r \<le> ceil_log2 (length ps)" using that assms(2) by (simp_all del: upt_Suc)
    ultimately show ?thesis using length_round [of r ps rid] assms(2) by simp
  qed
  have "[1..<R + 1] = 1 # [2..<R + 1]" using upt_conv_Cons [of 1 "R + 1"] size(1) by (simp add: numeral_2_eq_2 del: upt_Suc)
  then have "length (filter (\<lambda>m. \<not> is_bye m) (concat (map (round_matchups rid ps) [1..<R + 1]))) =
      length (filter (\<lambda>m. \<not> is_bye m) (round_matchups rid ps 1)) + sum_list (map (\<lambda>r. length (filter (\<lambda>m. \<not> is_bye m) (round_matchups rid ps r))) [2..<R + 1])"
    by (simp add: filter_concat length_concat comp_def del: upt_Suc)
  also have "sum_list (map (\<lambda>r. length (filter (\<lambda>m. \<not> is_bye m) (round_matchups rid ps r))) [2..<R + 1]) = sum_list (map (\<lambda>r. 2 ^ (R - r)) [2..<R + 1])"
    by (intro arg_cong [of _ _ sum_list] map_cong refl later)
  finally have total: "length (filter (\<lambda>m. \<not> is_bye m) (concat (map (round_matchups rid ps) [1..<R + 1]))) =
      length (filter (\<lambda>m. \<not> is_bye m) (round_matchups rid ps 1)) + sum_list (map (\<lambda>r. 2 ^ (R - r)) [2..<R + 1])" .
  have "sum_list (map (\<lambda>r. 2 ^ (R - r)) [2..<R + 1]) + 1 = (2 :: nat) ^ (R - 1)"
  proof -
    have "R + 1 - (R - 1) = 2" using size(1) by simp
    with powers_sum [of "R - 1" R] show ?thesis by (simp del: upt_Suc)
  qed
  with total first have "length (filter (\<lambda>m. \<not> is_bye m) (concat (map (round_matchups rid ps) [1..<R + 1]))) + 1 + (2 ^ R - length ps) =
      2 ^ (R - 1) + 2 ^ (R - 1)"
    by linarith
  moreover have "2 ^ (R - 1) + 2 ^ (R - 1) = (2 :: nat) ^ R" using size(1) by (cases R) simp_all
  ultimately show ?thesis using size(2) by linarith
qed

section \<open>Ranks\<close>

lemma better_iff: "standing q < standing p \<longleftrightarrow> score q > score p \<or> score q = score p \<and> joined_at q < joined_at p"
  by (auto simp: less_prod_def')

lemma count_before:
  assumes "sorted (map f xs)" "distinct (map f xs)" "i < length xs"
  shows "length (filter (\<lambda>y. f y < (f (xs ! i) :: 'b :: linorder)) xs) = i"
proof -
  have "f (xs ! j) < f (xs ! i) \<longleftrightarrow> j < i" if "j < length xs" for j
  proof -
    have mono: "f (xs ! a) < f (xs ! b)" if "a < b" "b < length xs" for a b
      using that assms(1,2) by (auto simp: sorted_iff_nth_mono_less distinct_conv_nth order_less_le)
    show ?thesis using mono [of i j] mono [of j i] that assms(3) by (metis less_asym less_irrefl linorder_neqE_nat)
  qed
  then have "{j. j < length xs \<and> f (xs ! j) < f (xs ! i)} = {..<i}" using assms(3) by auto
  then show ?thesis by (simp add: length_filter_conv_card)
qed

lemma filter_sort_length: "length (filter P (sort_key f xs)) = length (filter P xs)"
  by (metis filter_sort length_sort)

lemma count_better_place:
  assumes "distinct (map standing ps)" "i < length ps"
  shows "count_better (by_standing ps ! i) ps = i"
proof -
  have "distinct (map standing (by_standing ps))"
  proof -
    have "mset (map standing (by_standing ps)) = mset (map standing ps)" by (simp add: by_standing_def)
    with assms(1) show ?thesis by (metis mset_eq_imp_distinct_iff)
  qed
  from count_before [OF _ this, of i] assms(2) show ?thesis
    by (simp add: count_better_def better_iff [symmetric] by_standing_def filter_sort_length)
qed

section \<open>Counts\<close>

definition contest_ok :: "contest \<Rightarrow> bool" where
  "contest_ok w \<longleftrightarrow> unique_keys comp_id (competitions w) \<and> unique_keys part_id (participants w) \<and>
     unique_keys (\<lambda>p. (part_competition p, part_user p)) (participants w) \<and>
     part_competition ` set (participants w) \<subseteq> comp_id ` set (competitions w) \<and>
     (\<forall>c \<in> set (competitions w). comp_count c = int (length (participants_of (comp_id c) w)))"

datatype contest_request =
    CreateCompetition id string create_competition_dto id
  | UpdateCompetition id update_competition_dto id
  | Join id id id
  | Leave id id
  | Cancel "exn option" id id
  | GenerateBracket id "nat \<Rightarrow> id" "(nat \<times> exn) option" id seeding_metric id
  | AskRank id id

fun handle_contest :: "instant \<times> contest_request \<Rightarrow> contest \<Rightarrow> contest" where
  "handle_contest (now, CreateCompetition k invite dto u) w = snd (create_competition now k invite dto u w)"
| "handle_contest (now, UpdateCompetition k dto u) w = snd (update_competition now k dto u w)"
| "handle_contest (now, Join pid k u) w = snd (joinCompetition now pid None k u w)"
| "handle_contest (now, Leave k u) w = snd (leave now k u w)"
| "handle_contest (now, Cancel x k u) w = snd (cancel x k u w)"
| "handle_contest (now, GenerateBracket bid rid failure k metric u) w = snd (generateBracket bid rid failure k metric u w)"
| "handle_contest (now, AskRank k u) w = snd (getMyRank now k u w)"

text \<open>A step that keeps the participants and the counts.\<close>

lemma contest_ok_same:
  assumes "contest_ok w" "participants w' = participants w"
    "map (\<lambda>c. (comp_id c, comp_count c)) (competitions w') = map (\<lambda>c. (comp_id c, comp_count c)) (competitions w)"
  shows "contest_ok w'"
proof -
  have ids: "map comp_id (competitions w') = map comp_id (competitions w)"
    using arg_cong [OF assms(3), of "map fst"] by (simp add: comp_def)
  then have set_ids: "comp_id ` set (competitions w') = comp_id ` set (competitions w)" by (metis set_map)
  have pairs: "(\<lambda>c. (comp_id c, comp_count c)) ` set (competitions w') = (\<lambda>c. (comp_id c, comp_count c)) ` set (competitions w)"
    using assms(3) by (metis set_map)
  have "comp_count c = int (length (participants_of (comp_id c) w'))" if "c \<in> set (competitions w')" for c
  proof -
    have "(comp_id c, comp_count c) \<in> (\<lambda>c. (comp_id c, comp_count c)) ` set (competitions w)" using that pairs by blast
    with assms(1,2) show ?thesis by (auto simp: contest_ok_def participants_of_def)
  qed
  with assms(1,2) ids set_ids show ?thesis by (simp add: contest_ok_def)
qed

lemma save_competition:
  assumes "unique_keys comp_id cs" "find_row comp_id k cs = Some c" "comp_id c' = comp_id c" "comp_count c' = comp_count c"
  shows "map (\<lambda>c. (comp_id c, comp_count c)) (save_row comp_id c' cs) = map (\<lambda>c. (comp_id c, comp_count c)) cs"
proof -
  from assms(2) have c: "c \<in> set cs" by (auto dest: find_row_SomeD)
  then have "comp_id c' \<in> comp_id ` set cs" using assms(3) by simp
  then have "save_row comp_id c' cs = map (\<lambda>x. if comp_id x = comp_id c' then c' else x) cs" by (simp add: save_row_def update_row_def)
  moreover have "x = c" if "x \<in> set cs" "comp_id x = comp_id c" for x using assms(1) c that by (auto simp: distinct_map inj_on_def)
  ultimately show ?thesis using assms(3,4) by auto
qed

lemma update_count:
  assumes "contest_ok w" "k \<in> comp_id ` set (competitions w)" "unique_keys part_id ps" "unique_keys (\<lambda>p. (part_competition p, part_user p)) ps"
    "part_competition ` set ps \<subseteq> comp_id ` set (competitions w)"
    "\<And>j. int (length (filter (\<lambda>p. part_competition p = j) ps)) = int (length (participants_of j w)) + (if j = k then d else 0)"
    "participants w' = ps" "competitions w' = update_row comp_id k (\<lambda>c. c\<lparr>comp_count := comp_count c + d\<rparr>) (competitions w)"
  shows "contest_ok w'"
proof -
  have ids: "map comp_id (competitions w') = map comp_id (competitions w)"
    using assms(8) by (simp add: map_key_update_row)
  then have set_ids: "comp_id ` set (competitions w') = comp_id ` set (competitions w)" by (metis set_map)
  have "comp_count c = int (length (participants_of (comp_id c) w'))" if "c \<in> set (competitions w')" for c
    using that assms(1,6,7,8) by (auto simp: contest_ok_def participants_of_def update_row_def split: if_splits)
  with assms ids set_ids show ?thesis by (simp add: contest_ok_def)
qed

lemma create_competition_ok: "contest_ok w \<Longrightarrow> contest_ok (snd (create_competition now k invite dto u w))"
proof -
  assume ok: "contest_ok w"
  have "participants_of k w = []" if "k \<notin> comp_id ` set (competitions w)"
    using ok that by (auto simp: contest_ok_def participants_of_def filter_empty_conv)
  with ok show ?thesis
    by (auto simp: create_competition_def Let_def contest_ok_def participants_of_def)
qed

lemma join_ok: "contest_ok w \<Longrightarrow> contest_ok (snd (joinCompetition now pid None k u w))"
proof -
  assume ok: "contest_ok w"
  have "contest_ok (snd (join_commit now pid None k u w))" if "join_check now k u w = None"
  proof -
    from that have k: "k \<in> comp_id ` set (competitions w)"
      by (auto simp: join_check_def find_row_None_iff split: option.splits dest: find_row_SomeD)
    have "contest_ok (w\<lparr>participants := participants w @ [p], competitions := update_row comp_id k (\<lambda>c. c\<lparr>comp_count := comp_count c + 1\<rparr>) (competitions w)\<rparr>)"
      if "part_competition p = k" "part_user p = u" "part_id p \<notin> part_id ` set (participants w)" "find_participant k u (participants w) = None" for p
    proof (rule update_count [OF ok k, where d = 1])
      from that(4) have "\<forall>q \<in> set (participants w). \<not> (part_competition q = k \<and> part_user q = u)"
        by (auto simp: find_participant_def find_None_iff)
      with ok that show "unique_keys part_id (participants w @ [p])" "unique_keys (\<lambda>p. (part_competition p, part_user p)) (participants w @ [p])"
        "part_competition ` set (participants w @ [p]) \<subseteq> comp_id ` set (competitions w)" using k by (auto simp: contest_ok_def)
      show "int (length (filter (\<lambda>q. part_competition q = j) (participants w @ [p]))) = int (length (participants_of j w)) + (if j = k then 1 else 0)" for j
        using that(1) by (simp add: participants_of_def)
    qed simp_all
    with ok show ?thesis by (auto simp: join_commit_def Let_def)
  qed
  with ok show ?thesis by (auto simp: joinCompetition_def split: option.split)
qed

lemma filter_remove_one:
  assumes "unique_keys key xs" "x \<in> set xs"
  shows "int (length (filter P (filter (\<lambda>y. key y \<noteq> key x) xs))) = int (length (filter P xs)) - (if P x then 1 else 0)"
  using assms
proof (induction xs)
  case (Cons a xs)
  show ?case
  proof (cases "x = a")
    case True
    have "filter (\<lambda>y. key y \<noteq> key a) xs = xs"
      using Cons.prems(1) by (intro filter_True) (metis distinct.simps(2) image_eqI list.map(2) set_map)
    with True show ?thesis by simp
  next
    case False
    with Cons.prems have x: "x \<in> set xs" "key a \<noteq> key x" by auto
    from Cons.IH Cons.prems(1) x show ?thesis by (cases "P x") simp_all
  qed
qed simp

lemma leave_ok: "contest_ok w \<Longrightarrow> contest_ok (snd (leave now k u w))"
proof -
  assume ok: "contest_ok w"
  have "contest_ok (w\<lparr>participants := filter (\<lambda>q. part_id q \<noteq> part_id p) (participants w), matchups := ms,
      competitions := update_row comp_id k (\<lambda>c. c\<lparr>comp_count := comp_count c - 1\<rparr>) (competitions w)\<rparr>)"
    if "find_participant k u (participants w) = Some p" "find_row comp_id k (competitions w) = Some c" for p c ms
  proof (rule update_count [OF ok, where d = "- 1"])
    from that(1) have p: "p \<in> set (participants w)" "part_competition p = k" by (auto simp: find_participant_def find_Some_iff)
    show "k \<in> comp_id ` set (competitions w)" using that(2) by (auto dest: find_row_SomeD)
    show "int (length (filter (\<lambda>q. part_competition q = j) (filter (\<lambda>q. part_id q \<noteq> part_id p) (participants w)))) =
        int (length (participants_of j w)) + (if j = k then - 1 else 0)" for j
      using filter_remove_one [of part_id "participants w" p "\<lambda>q. part_competition q = j"] ok p by (auto simp: contest_ok_def participants_of_def)
  qed (use ok in \<open>auto simp: contest_ok_def intro: distinct_map_filter\<close>)
  with ok show ?thesis by (auto simp: leave_def split: option.split)
qed

lemma contest_requests_same:
  assumes "contest_ok w"
  shows "contest_ok (snd (update_competition now k dto u w))" "contest_ok (snd (cancel x k u w))"
    "contest_ok (snd (generateBracket bid rid failure k metric u w))" "contest_ok (snd (getMyRank now k u w))"
proof -
  have uk: "unique_keys comp_id (competitions w)" using assms by (simp add: contest_ok_def)
  show "contest_ok (snd (update_competition now k dto u w))"
    using assms save_competition [OF uk] by (auto simp: update_competition_def Let_def split: option.split intro: contest_ok_same)
  show "contest_ok (snd (cancel x k u w))"
    using assms save_competition [OF uk] by (auto simp: cancel_def Let_def split: option.split intro: contest_ok_same)
  have rows: "participants (fold write_row ws w) = participants w \<and> competitions (fold write_row ws w) = competitions w" for ws
  proof (induction ws arbitrary: w)
    case (Cons a ws)
    then show ?case by (cases a) simp_all
  qed simp
  then have "contest_ok (fold write_row ws w)" for ws using assms contest_ok_same by metis
  with assms show "contest_ok (snd (generateBracket bid rid failure k metric u w))"
    by (auto simp: generateBracket_def Let_def split: option.split)
  show "contest_ok (snd (getMyRank now k u w))"
    using assms by (auto simp: getMyRank_def fresh_rank_def Let_def split: option.split intro: contest_ok_same)
qed

interpretation contest_service: service handle_contest contest_ok "\<lambda>_ _. True"
proof
  fix w r assume "contest_ok w"
  then show "contest_ok (handle_contest r w) \<and> True"
    by (cases "(r, w)" rule: handle_contest.cases) (simp_all add: create_competition_ok join_ok leave_ok contest_requests_same)
qed simp_all

section \<open>Properties\<close>

lemma mset_seeded: "mset (seeded metric ps) = mset ps"
  by (cases metric) (simp_all add: seeded_def by_standing_def)

text \<open>
  C20. A bracket that was generated and is read back is a complete knock-out.  It has as many rounds
  as halvings are needed; round \<open>r\<close> (from zero) has \<open>2 ^ (R - 1 - r)\<close> pairs, so the last has one; the
  seats of the first round, read in order, are the participants in the order of their seeds, each
  exactly once; the byes go to the first seeds, who win them, and every other pair is open; and the
  matches to be played are one less than the participants.
\<close>

theorem generated_bracket_complete:
  assumes "generateBracket bid rid None k metric u w = (Inr b, w')" "inj rid" "bid \<notin> round_bracket ` set (bracket_rounds w)"
    "\<forall>r. rid r \<notin> matchup_round ` set (matchups w)"
    "ps = participants_of k w" "R = total_rounds b"
  shows "\<exists>rounds. getBracket k w' = Inr (b, rounds) \<and> length ps \<le> 2 ^ R \<and> 2 ^ R < 2 * length ps \<and> length rounds = R \<and>
    (\<forall>r < R. length (snd (rounds ! r)) = 2 ^ (R - 1 - r)) \<and>
    concat (map (\<lambda>m. slots (participant_1 m, participant_2 m)) (snd (rounds ! 0))) = map part_id (seeded metric ps) \<and>
    mset (seeded metric ps) = mset ps \<and>
    (\<forall>i < 2 ^ (R - 1). is_bye (snd (rounds ! 0) ! i) = (i < 2 ^ R - length ps) \<and>
       winner (snd (rounds ! 0) ! i) = (if i < 2 ^ R - length ps then participant_1 (snd (rounds ! 0) ! i) else None)) \<and>
    length (filter (\<lambda>m. \<not> is_bye m) (concat (map snd rounds))) + 1 = length ps"
proof -
  let ?ps = "seeded metric ps"
  have len: "length ?ps = length ps" using mset_seeded [of metric ps] by (metis size_mset)
  from assms(1,5) have g: "find_row bracket_competition k (brackets w) = None" "2 \<le> length ?ps"
    "b = \<lparr>bracket_id = bid, bracket_competition = k, total_rounds = ceil_log2 (length ?ps)\<rparr>" "w' = fold write_row (bracket_writes bid rid k ?ps) w"
    by (auto simp: generateBracket_def Let_def split: option.splits if_splits)
  have R: "R = ceil_log2 (length ?ps)" using assms(6) g(3) by simp
  define rounds where "rounds = map (\<lambda>r. (\<lparr>round_id = rid r, round_bracket = bid, round_number = r, round_name = getRoundName r R\<rparr>,
    round_matchups rid ?ps r)) [1..<R + 1]"
  have get: "getBracket k w' = Inr (b, rounds)"
    using get_new_bracket [OF g(1) assms(3,4,2) R] g(3,4) R by (simp add: rounds_def)
  note size = bracket_sizes [OF g(2) R]
  have nth: "snd (rounds ! r) = round_matchups rid ?ps (r + 1)" if "r < R" for r
    using that by (simp add: rounds_def del: upt_Suc)
  have lens: "length (snd (rounds ! r)) = 2 ^ (R - 1 - r)" if "r < R" for r
    using nth [OF that] length_round [of "r + 1" ?ps rid] that R by simp
  have zero: "snd (rounds ! 0) = round_matchups rid ?ps 1" using nth [of 0] size(1) by simp
  have snds: "map snd rounds = map (round_matchups rid ?ps) [1..<R + 1]" by (simp add: rounds_def comp_def del: upt_Suc)
  have low: "2 ^ R < 2 * length ps" using ceil_log2_lower [OF g(2)] R len by simp
  show ?thesis
    using get size(2) low lens first_pairs [OF g(2) R, where rid = rid] mset_seeded [of metric ps] open_matches [OF g(2) R, where rid = rid]
    unfolding len zero [symmetric] snds [symmetric]
    by (intro exI [of _ rounds]) (simp add: rounds_def del: upt_Suc)
qed

text \<open>
  The rank a participant asks for and the rank in the list of participants agree: when no two
  participants of a competition have the same score and time of joining, and no rank is stored, a
  participant that asks (and is not answered from the cache) gets the rank that every page of the
  list shows for it.
\<close>

theorem rank_agrees_with_list:
  assumes "fst (fresh_rank now k u w) = Inr d" "fst (getParticipants k page perPage w) = Inr (items, n)" "item \<in> set items" "pi_user item = u"
    "contest_ok w" "distinct (map standing (participants_of k w))" "\<forall>p \<in> set (participants_of k w). part_rank p = None"
  shows "pi_rank item = rr_rank d \<and> pi_score item = rr_score d"
proof -
  let ?ps = "participants_of k w"
  define limit where "limit = min (case perPage of Some n \<Rightarrow> n | None \<Rightarrow> 20) 50"
  define skip where "skip = (page - 1) * limit"
  define xs where "xs = take limit (drop skip (by_standing ?ps))"
  from assms(1) obtain p where p: "find_participant k u (participants w) = Some p" "rr_rank d = int (count_better p ?ps) + 1" "rr_score d = score p"
    by (auto simp: fresh_rank_def Let_def split: option.splits if_splits)
  from assms(2) have "items = map (to_item skip) (List.enumerate 0 xs)"
    by (auto simp: getParticipants_def Let_def xs_def skip_def limit_def split: if_splits)
  with assms(3) obtain i where i: "i < length xs" "item = to_item skip (i, xs ! i)"
    by (auto simp: in_set_enumerate_eq)
  let ?q = "by_standing ?ps ! (skip + i)"
  have "length (by_standing ?ps) = length ?ps" by (simp add: by_standing_def)
  with i(1) have at: "skip + i < length ?ps" and xi: "xs ! i = ?q" by (auto simp: xs_def)
  have q: "?q \<in> set ?ps" using at nth_mem [of "skip + i" "by_standing ?ps"] by (simp add: by_standing_def)
  have item: "pi_user item = part_user ?q" "pi_score item = score ?q" "pi_rank item = int (skip + i + 1)"
    using i(2) assms(7) q xi by (simp_all add: to_item_def)
  have "p \<in> set ?ps" "part_user p = u" "part_competition p = k" using p(1) by (auto simp: find_participant_def find_Some_iff participants_of_def)
  moreover have "part_user ?q = u" "part_competition ?q = k" using assms(4) item q by (auto simp: participants_of_def)
  ultimately have "?q = p" using assms(5) q by (auto simp: contest_ok_def participants_of_def distinct_map inj_on_def)
  with count_better_place [OF assms(6) at] p item show ?thesis by simp
qed


section \<open>Witnesses\<close>

definition empty_contest :: contest where
  "empty_contest = \<lparr>competitions = [], participants = [], brackets = [], bracket_rounds = [], matchups = [],
     contest_users = [], cancel_notes = [], rank_cache = []\<rparr>"

definition sample_competition :: create_competition_dto where
  "sample_competition = \<lparr>cc_title = ''t'', cc_description = ''d'', cc_start = 100, cc_end = 200, cc_deadline = Some 50, cc_prize = 0,
     cc_max = Some 3, cc_visibility = Public\<rparr>"

definition sample_requests :: "(instant \<times> contest_request) list" where
  "sample_requests = [(0, CreateCompetition ''c'' ''x'' sample_competition ''u''), (1, Join ''p1'' ''c'' ''u1''), (2, Join ''p2'' ''c'' ''u2''),
     (50, Join ''p3'' ''c'' ''u3''), (51, Join ''p4'' ''c'' ''u4''), (52, Leave ''c'' ''u1''), (20, Join ''p5'' ''c'' ''u5'')]"

definition sample_contest :: contest where
  "sample_contest = fold handle_contest sample_requests empty_contest"


definition round_key :: "nat \<Rightarrow> id" where
  "round_key r = replicate r CHR ''r''"

lemma inj_round_key: "inj round_key"
  by (rule injI) (metis length_replicate round_key_def)

lemma sample_contest_rows: "bracket_rounds sample_contest = []" "matchups sample_contest = []" "participants_of ''c'' sample_contest = participants sample_contest"
  "length (participants sample_contest) = 3" "map part_user (participants sample_contest) = [''u2'', ''u3'', ''u5'']"
  by code_simp+

lemma sample_bracket:
  "fst (generateBracket ''b'' round_key None ''c'' Score ''u'' sample_contest) = Inr \<lparr>bracket_id = ''b'', bracket_competition = ''c'', total_rounds = 2\<rparr>"
  by code_simp

theorem generated_bracket_complete_witness:
  "\<exists>rounds. getBracket ''c'' (snd (generateBracket ''b'' round_key None ''c'' Score ''u'' sample_contest)) =
     Inr (\<lparr>bracket_id = ''b'', bracket_competition = ''c'', total_rounds = 2\<rparr>, rounds) \<and>
   length rounds = 2 \<and> length (filter (\<lambda>m. \<not> is_bye m) (concat (map snd rounds))) = 2"
  using generated_bracket_complete [of "''b''" round_key "''c''" Score "''u''" sample_contest
      "\<lparr>bracket_id = ''b'', bracket_competition = ''c'', total_rounds = 2\<rparr>"
      "snd (generateBracket ''b'' round_key None ''c'' Score ''u'' sample_contest)" _ 2, OF _ inj_round_key _ _ refl] sample_bracket
  by (auto simp: sample_contest_rows prod_eq_iff)

lemma sample_ok: "contest_ok sample_contest"
  using contest_service.session [of empty_contest sample_requests] by (simp add: sample_contest_def empty_contest_def contest_ok_def)

lemma sample_rank: "fst (fresh_rank 60 ''c'' ''u3'' sample_contest) = Inr \<lparr>rr_rank = 3, rr_score = 0, rr_total = 3, rr_percentile = 3333\<rparr>"
  "fst (getParticipants ''c'' 2 (Some 2) sample_contest) = Inr ([\<lparr>pi_id = ''p3'', pi_user = ''u3'', pi_score = 0, pi_rank = 3\<rparr>], 3)"
  "map standing (participants sample_contest) = [(0, 2), (0, 50), (0, 20)]" "list_all (\<lambda>p. part_rank p = None) (participants sample_contest)"
  by code_simp+

theorem rank_agrees_with_list_witness: "pi_rank \<lparr>pi_id = ''p3'', pi_user = ''u3'', pi_score = 0, pi_rank = 3\<rparr> = 3"
  using rank_agrees_with_list [OF sample_rank(1,2), of "\<lparr>pi_id = ''p3'', pi_user = ''u3'', pi_score = 0, pi_rank = 3\<rparr>"] sample_ok sample_rank(3,4)
  by (simp add: sample_contest_rows list_all_iff)

section \<open>Weak points\<close>

text \<open>Two joins that both pass the check before either is written exceed the limit.\<close>

lemma concurrent_joins_exceed_limit:
  "let dto = sample_competition\<lparr>cc_max := Some 1\<rparr>; w = handle_contest (0, CreateCompetition ''c'' ''x'' dto ''u'') empty_contest;
       w2 = snd (join_commit 1 ''p2'' None ''c'' ''u2'' (snd (join_commit 1 ''p1'' None ''c'' ''u1'' w)))
   in join_check 1 ''c'' ''u1'' w = None \<and> join_check 1 ''c'' ''u2'' w = None \<and> map (\<lambda>c. (comp_count c, comp_max c)) (competitions w2) = [(2, 1)]"
  by code_simp

text \<open>A join whose increment fails is refused with an error, but the participant is in: the count stays behind, and a second try is refused as a duplicate.\<close>

lemma failed_increment_undercounts:
  "let w = handle_contest (0, CreateCompetition ''c'' ''x'' sample_competition ''u'') empty_contest;
       w1 = snd (joinCompetition 1 ''p1'' (Some QueryFailed) ''c'' ''u1'' w)
   in map comp_count (competitions w1) = [0] \<and> length (participants w1) = 1 \<and>
      fst (joinCompetition 2 ''p2'' None ''c'' ''u1'' w1) = Inl (Conflict ''You have already joined this competition'')"
  by code_simp

text \<open>A generation that fails halfway leaves a bracket without matchups that can neither be completed nor generated again.\<close>

lemma partial_bracket_stuck:
  "let w = snd (generateBracket ''b'' round_key (Some (3, QueryFailed)) ''c'' Score ''u'' sample_contest)
   in matchups w = [] \<and> length (brackets w) = 1 \<and>
      fst (generateBracket ''b2'' round_key None ''c'' Score ''u'' w) = Inl (Conflict ''Bracket already exists for this competition'')"
  by code_simp

text \<open>A participant who leaves after the bracket was generated leaves an empty seat; a bye loses its winner.\<close>

lemma leaving_empties_bracket:
  "let w = snd (leave 60 ''c'' ''u2'' (snd (generateBracket ''b'' round_key None ''c'' Score ''u'' sample_contest)))
   in map (\<lambda>m. (participant_1 m, participant_2 m, winner m)) (filter (\<lambda>m. is_bye m) (matchups w)) = [(None, None, None)]"
  by code_simp

text \<open>The rank is answered from the cache for five minutes, also after the participant has left.\<close>

lemma stale_rank_after_leaving:
  "let w = snd (leave 61 ''c'' ''u3'' (snd (getMyRank 60 ''c'' ''u3'' sample_contest)))
   in (case fst (getMyRank 62 ''c'' ''u3'' w) of Inr d \<Rightarrow> rr_total d = 3 | Inl _ \<Rightarrow> False) \<and> find_participant ''c'' ''u3'' (participants w) = None"
  by code_simp

end
