(* ===== verification/Event_Finalizer.thy ===== *)
theory Event_Finalizer
  imports Creator_Event_Facts "HOL-Library.List_Lexorder" "HOL-Library.Char_ord" "HOL-Library.Product_Lexorder" "HOL-Library.Multiset"
begin

text \<open>
  \<open>matches/creator-event-finalizer.service.ts\<close>: the consensus of the oracle submissions and the
  scheduled finalization of ended events, over the tables the indexer derives.

  The gateway is an argument: what it answers when asked for the submissions of an event, and the
  outcomes of the calls that finalize an event and return its bond; so are the outcomes of the writes.
  Outcomes are labels that are not names of members every JavaScript object has.  The settlement of a
  bond is written to fields that are no columns of the event: its save may fail, and leaves no trace in
  the tables.
\<close>

section \<open>Consensus\<close>

record submission =
  sub_outcome :: string
  sub_at :: int

record consensus =
  winningOutcome :: string
  tally_of :: "(string \<times> nat) list"
  quorumUsed :: nat
  totalSubmissions :: nat

datatype finalizer_error = QuorumNotMet nat nat | Failed exn

definition minimumQuorum :: "int option \<Rightarrow> nat" where
  "minimumQuorum configured = (case configured of Some n \<Rightarrow> if n > 0 then nat n else 3 | None \<Rightarrow> 3)"

text \<open>One pass over the submissions: the votes and the earliest time of each outcome.\<close>

record tally_row =
  t_outcome :: string
  t_votes :: nat
  t_earliest :: int

definition count_submission :: "submission \<Rightarrow> tally_row list \<Rightarrow> tally_row list" where
  "count_submission s ts =
     (if sub_outcome s \<in> t_outcome ` set ts
      then update_row t_outcome (sub_outcome s)
             (\<lambda>t. t\<lparr>t_votes := t_votes t + 1, t_earliest := (if sub_at s < t_earliest t then sub_at s else t_earliest t)\<rparr>) ts
      else ts @ [\<lparr>t_outcome = sub_outcome s, t_votes = 1, t_earliest = sub_at s\<rparr>])"

definition tally_submissions :: "submission list \<Rightarrow> tally_row list" where
  "tally_submissions subs = fold count_submission subs []"

definition better :: "tally_row \<Rightarrow> tally_row \<Rightarrow> tally_row" where
  "better t best =
     (if t_votes t > t_votes best then t
      else if t_votes t = t_votes best \<and>
        (t_earliest t < t_earliest best \<or> t_earliest t = t_earliest best \<and> t_outcome t < t_outcome best) then t
      else best)"

text \<open>The rows are visited in the order of their labels; without a row there is no winner, which the quorum excludes.\<close>

definition resolveConsensus :: "nat \<Rightarrow> submission list \<Rightarrow> (finalizer_error, consensus) result" where
  "resolveConsensus quorum subs =
     (if length subs < quorum then Inl (QuorumNotMet quorum (length subs))
      else case sort_key t_outcome (tally_submissions subs) of
             [] \<Rightarrow> Inl (Failed TypeError)
           | t # ts \<Rightarrow>
               Inr \<lparr>winningOutcome = t_outcome (fold better (t # ts) t), tally_of = map (\<lambda>t. (t_outcome t, t_votes t)) (tally_submissions subs),
                    quorumUsed = quorum, totalSubmissions = length subs\<rparr>)"

section \<open>Finalization\<close>

datatype gateway_call = FinalizeEvent int | ReturnBond int | SlashBond int

record finalizer =
  fin_tables :: derived
  gateway_log :: "gateway_call list"

record finalizer_env =
  f_now :: instant
  f_quorum :: nat
  f_submissions :: "int \<Rightarrow> (exn, submission list option) result"
  f_finalize :: "int \<Rightarrow> exn option"
  f_save :: "int \<Rightarrow> exn option"
  f_bond :: "int \<Rightarrow> exn option"
  f_save_settlement :: "int \<Rightarrow> exn option"

datatype outcome_of_event = Finalized | Skipped | Errored

definition MAX_FINALIZE_PER_TICK :: nat where "MAX_FINALIZE_PER_TICK = 20"

definition areAllMatchesResolved :: "id \<Rightarrow> finalizer \<Rightarrow> bool" where
  "areAllMatchesResolved k s \<longleftrightarrow> filter (\<lambda>m. match_event m = k \<and> \<not> result_submitted m) (match_rows (fin_tables s)) = []"

definition getOracleSubmissions :: "finalizer_env \<Rightarrow> creator_event \<Rightarrow> (exn, submission list) result" where
  "getOracleSubmissions env e =
     (case f_submissions env (on_chain_event_id e) of
        Inl x \<Rightarrow> Inl x
      | Inr raw \<Rightarrow> Inr (sort_key sub_at (case raw of Some subs \<Rightarrow> subs | None \<Rightarrow> [])))"

definition call_gateway :: "gateway_call \<Rightarrow> finalizer \<Rightarrow> finalizer" where
  "call_gateway c s = s\<lparr>gateway_log := gateway_log s @ [c]\<rparr>"

definition mark_finalized :: "creator_event \<Rightarrow> finalizer \<Rightarrow> finalizer" where
  "mark_finalized e s = s\<lparr>fin_tables := (fin_tables s)\<lparr>creator_events :=
     save_row ce_id (e\<lparr>ce_is_finalized := True\<rparr>) (creator_events (fin_tables s))\<rparr>\<rparr>"

definition settleFinalizationBond :: "finalizer_env \<Rightarrow> creator_event \<Rightarrow> bool \<Rightarrow> (finalizer, exn, unit) action" where
  "settleFinalizationBond env e correct s =
     (case f_bond env (on_chain_event_id e) of
        Some x \<Rightarrow> (Inl x, s)
      | None \<Rightarrow>
          let s1 = call_gateway (if correct then ReturnBond (on_chain_event_id e) else SlashBond (on_chain_event_id e)) s
          in case f_save_settlement env (on_chain_event_id e) of Some x \<Rightarrow> (Inl x, s1) | None \<Rightarrow> (Inr (), s1))"

definition finalize_one :: "finalizer_env \<Rightarrow> creator_event \<Rightarrow> finalizer \<Rightarrow> outcome_of_event \<times> finalizer" where
  "finalize_one env e s =
     (if \<not> areAllMatchesResolved (ce_id e) s then (Skipped, s)
      else case getOracleSubmissions env e of
             Inl x \<Rightarrow> (Errored, s)
           | Inr subs \<Rightarrow>
               (case resolveConsensus (f_quorum env) subs of
                  Inl (QuorumNotMet required received) \<Rightarrow> (Skipped, s)
                | Inl (Failed x) \<Rightarrow> (Errored, s)
                | Inr c \<Rightarrow>
                    (case f_finalize env (on_chain_event_id e) of
                       Some x \<Rightarrow> (Errored, s)
                     | None \<Rightarrow>
                         let s1 = call_gateway (FinalizeEvent (on_chain_event_id e)) s
                         in case f_save env (on_chain_event_id e) of
                              Some x \<Rightarrow> (Errored, s1)
                            | None \<Rightarrow>
                                (case settleFinalizationBond env e True (mark_finalized e s1) of
                                   (Inl x, s2) \<Rightarrow> (Errored, s2)
                                 | (Inr _, s2) \<Rightarrow> (Finalized, s2)))))"

definition due_events :: "finalizer_env \<Rightarrow> finalizer \<Rightarrow> creator_event list" where
  "due_events env s = take MAX_FINALIZE_PER_TICK
     (filter (\<lambda>e. ce_end_time e < f_now env \<and> \<not> ce_is_finalized e \<and> \<not> ce_is_cancelled e) (creator_events (fin_tables s)))"

definition finalizePendingEvents :: "finalizer_env \<Rightarrow> finalizer \<Rightarrow> finalizer" where
  "finalizePendingEvents env s = fold (\<lambda>e s. snd (finalize_one env e s)) (due_events env s) s"

definition count_outcome :: "outcome_of_event \<Rightarrow> nat \<times> nat \<times> nat \<Rightarrow> nat \<times> nat \<times> nat" where
  "count_outcome r = (\<lambda>(finalized, skipped, errors).
     case r of Finalized \<Rightarrow> (finalized + 1, skipped, errors) | Skipped \<Rightarrow> (finalized, skipped + 1, errors) | Errored \<Rightarrow> (finalized, skipped, errors + 1))"

definition triggerFinalization :: "finalizer_env \<Rightarrow> finalizer \<Rightarrow> (nat \<times> nat \<times> nat) \<times> finalizer" where
  "triggerFinalization env s =
     fold (\<lambda>e (n, s). let (r, s') = finalize_one env e s in (count_outcome r n, s')) (due_events env s) ((0, 0, 0), s)"

section \<open>What the consensus decides\<close>

definition votes_for :: "submission list \<Rightarrow> string \<Rightarrow> nat" where
  "votes_for subs oc = length (filter (\<lambda>s. sub_outcome s = oc) subs)"

definition first_time :: "submission list \<Rightarrow> string \<Rightarrow> int" where
  "first_time subs oc = Min (sub_at ` {s \<in> set subs. sub_outcome s = oc})"

definition tally_ok :: "submission list \<Rightarrow> tally_row list \<Rightarrow> bool" where
  "tally_ok subs ts \<longleftrightarrow> unique_keys t_outcome ts \<and> t_outcome ` set ts = sub_outcome ` set subs \<and>
     (\<forall>t \<in> set ts. t_votes t = votes_for subs (t_outcome t) \<and> t_earliest t = first_time subs (t_outcome t))"

lemma earliest_snoc:
  "first_time (subs @ [s]) oc = (if sub_outcome s \<noteq> oc then first_time subs oc else if oc \<in> sub_outcome ` set subs then min (sub_at s) (first_time subs oc) else sub_at s)"
proof (cases "sub_outcome s = oc")
  case True
  then have "{x \<in> set (subs @ [s]). sub_outcome x = oc} = insert s {x \<in> set subs. sub_outcome x = oc}" by auto
  then have *: "first_time (subs @ [s]) oc = Min (insert (sub_at s) (sub_at ` {x \<in> set subs. sub_outcome x = oc}))" by (simp add: first_time_def)
  show ?thesis
  proof (cases "oc \<in> sub_outcome ` set subs")
    case True
    then have "sub_at ` {x \<in> set subs. sub_outcome x = oc} \<noteq> {}" by auto
    with * True \<open>sub_outcome s = oc\<close> show ?thesis by (simp add: first_time_def)
  next
    case False
    then have "{x \<in> set subs. sub_outcome x = oc} = {}" by auto
    with * False \<open>sub_outcome s = oc\<close> show ?thesis by simp
  qed
next
  case False
  then have "{x \<in> set (subs @ [s]). sub_outcome x = oc} = {x \<in> set subs. sub_outcome x = oc}" by auto
  with False show ?thesis by (simp add: first_time_def)
qed

lemma votes_snoc: "votes_for (subs @ [s]) oc = votes_for subs oc + (if sub_outcome s = oc then 1 else 0)"
  by (simp add: votes_for_def)

lemma votes_absent: "oc \<notin> sub_outcome ` set subs \<Longrightarrow> votes_for subs oc = 0"
  by (auto simp: votes_for_def filter_empty_conv)

lemma count_submission_ok: "tally_ok subs ts \<Longrightarrow> tally_ok (subs @ [s]) (count_submission s ts)"
proof (cases "sub_outcome s \<in> t_outcome ` set ts")
  case True
  assume ok: "tally_ok subs ts"
  let ?f = "\<lambda>t. t\<lparr>t_votes := t_votes t + 1, t_earliest := (if sub_at s < t_earliest t then sub_at s else t_earliest t)\<rparr>"
  have c: "count_submission s ts = update_row t_outcome (sub_outcome s) ?f ts" using True by (simp add: count_submission_def)
  have keys: "map t_outcome (count_submission s ts) = map t_outcome ts" by (simp add: c map_key_update_row)
  have "t_votes t = votes_for (subs @ [s]) (t_outcome t) \<and> t_earliest t = first_time (subs @ [s]) (t_outcome t)" if "t \<in> set (count_submission s ts)" for t
  proof -
    from that c obtain t0 where t0: "t0 \<in> set ts" "t = (if t_outcome t0 = sub_outcome s then ?f t0 else t0)" by (auto simp: update_row_def)
    from ok t0(1) have "t_votes t0 = votes_for subs (t_outcome t0)" "t_earliest t0 = first_time subs (t_outcome t0)" "t_outcome t0 \<in> sub_outcome ` set subs"
      by (auto simp: tally_ok_def)
    with t0(2) show ?thesis by (auto simp: votes_snoc earliest_snoc)
  qed
  moreover have "t_outcome ` set (count_submission s ts) = sub_outcome ` set (subs @ [s])"
  proof -
    have "t_outcome ` set (count_submission s ts) = t_outcome ` set ts" using keys by (metis set_map)
    with ok True show ?thesis by (auto simp: tally_ok_def)
  qed
  ultimately show ?thesis using ok keys by (simp add: tally_ok_def)
next
  case False
  assume ok: "tally_ok subs ts"
  have c: "count_submission s ts = ts @ [\<lparr>t_outcome = sub_outcome s, t_votes = 1, t_earliest = sub_at s\<rparr>]" using False by (simp add: count_submission_def)
  have new: "sub_outcome s \<notin> sub_outcome ` set subs" using ok False by (simp add: tally_ok_def)
  have "t_outcome t \<noteq> sub_outcome s" if "t \<in> set ts" for t using False that by (metis image_eqI)
  with ok False new votes_absent [OF new] show ?thesis
    by (auto simp: c tally_ok_def votes_snoc earliest_snoc)
qed

lemma tally_correct: "tally_ok subs (tally_submissions subs)"
  unfolding tally_submissions_def
proof (induction subs rule: rev_induct)
  case (snoc s subs)
  from count_submission_ok [OF snoc] show ?case by simp
qed (simp add: tally_ok_def)

text \<open>Outcomes are ranked by their votes, then by their earliest submission, then by their label.\<close>

definition tally_key :: "tally_row \<Rightarrow> int \<times> int \<times> string" where
  "tally_key t = (- int (t_votes t), t_earliest t, t_outcome t)"

definition outcome_key :: "submission list \<Rightarrow> string \<Rightarrow> int \<times> int \<times> string" where
  "outcome_key subs oc = (- int (votes_for subs oc), first_time subs oc, oc)"

lemma better_min: "better t best = (if tally_key t < tally_key best then t else best)"
  by (auto simp: better_def tally_key_def less_prod_def')

lemma fold_better: "fold better ts t0 \<in> set (t0 # ts) \<and> (\<forall>x \<in> set (t0 # ts). tally_key (fold better ts t0) \<le> tally_key x)"
proof (induction ts arbitrary: t0)
  case (Cons t ts)
  let ?b = "better t t0"
  have b: "tally_key ?b \<le> tally_key t" "tally_key ?b \<le> tally_key t0" "?b \<in> {t, t0}" by (auto simp: better_min)
  from Cons [of ?b] b show ?case by (auto intro: order_trans)
qed simp

lemma consensus_cases:
  assumes "resolveConsensus quorum subs = Inr c"
  shows "winningOutcome c \<in> sub_outcome ` set subs" "oc \<in> sub_outcome ` set subs \<Longrightarrow> outcome_key subs (winningOutcome c) \<le> outcome_key subs oc"
    "quorum \<le> length subs" "tally_of c = map (\<lambda>t. (t_outcome t, t_votes t)) (tally_submissions subs)"
proof -
  from assms obtain t ts where t: "sort_key t_outcome (tally_submissions subs) = t # ts" "winningOutcome c = t_outcome (fold better (t # ts) t)"
    and rest: "quorum \<le> length subs" "tally_of c = map (\<lambda>t. (t_outcome t, t_votes t)) (tally_submissions subs)"
    by (auto simp: resolveConsensus_def split: if_splits list.splits)
  have set: "set (t # ts) = set (tally_submissions subs)" using t(1) by (metis set_sort)
  let ?w = "fold better (t # ts) t"
  have w: "?w \<in> set (tally_submissions subs)" "\<forall>x \<in> set (tally_submissions subs). tally_key ?w \<le> tally_key x"
    using fold_better [of "t # ts" t] set by auto
  note ok = tally_correct [of subs]
  have key: "tally_key x = outcome_key subs (t_outcome x)" if "x \<in> set (tally_submissions subs)" for x
    using ok that by (simp add: tally_ok_def tally_key_def outcome_key_def)
  have outs: "t_outcome ` set (tally_submissions subs) = sub_outcome ` set subs" using ok by (simp add: tally_ok_def)
  show "winningOutcome c \<in> sub_outcome ` set subs" using w(1) t(2) outs by blast
  show "outcome_key subs (winningOutcome c) \<le> outcome_key subs oc" if "oc \<in> sub_outcome ` set subs"
  proof -
    from that outs obtain x where "x \<in> set (tally_submissions subs)" "t_outcome x = oc" by (metis imageE)
    with w key t(2) show ?thesis by metis
  qed
  show "quorum \<le> length subs" "tally_of c = map (\<lambda>t. (t_outcome t, t_votes t)) (tally_submissions subs)" using rest by simp_all
qed

lemma resolveConsensus_returns: "0 < quorum \<Longrightarrow> quorum \<le> length subs \<Longrightarrow> \<exists>c. resolveConsensus quorum subs = Inr c"
proof -
  assume q: "0 < quorum" "quorum \<le> length subs"
  then have "sub_outcome ` set subs \<noteq> {}" by auto
  then have "tally_submissions subs \<noteq> []" using tally_correct [of subs] by (auto simp: tally_ok_def)
  then have "sort_key t_outcome (tally_submissions subs) \<noteq> []" by (metis length_0_conv length_sort)
  with q show ?thesis by (auto simp: resolveConsensus_def split: list.split)
qed

lemma keys_of_mset: "mset subs = mset subs' \<Longrightarrow> outcome_key subs oc = outcome_key subs' oc"
proof -
  assume m: "mset subs = mset subs'"
  have "votes_for subs oc = votes_for subs' oc"
    unfolding votes_for_def using m by (metis mset_filter size_mset)
  moreover have "set subs = set subs'" using m by (metis set_mset_mset)
  ultimately show ?thesis by (simp add: outcome_key_def first_time_def)
qed

section \<open>What the sweep does\<close>





lemma finalize_one_tables:
  "tables_of (fin_tables (snd (finalize_one env e s))) = tables_of (fin_tables s) \<or>
   tables_of (fin_tables (snd (finalize_one env e s))) = tables_of (fin_tables (mark_finalized e s))"
  by (auto simp: finalize_one_def settleFinalizationBond_def call_gateway_def mark_finalized_def tables_of_def Let_def
      split: sum.split finalizer_error.split option.split)







section \<open>Together with the indexer\<close>

text \<open>Scheduled sweeps, manual sweeps and indexed contract events, in any order.\<close>

datatype finalizer_request = Tick finalizer_env | Trigger finalizer_env | Index indexed_event

primrec finalizer_work :: "finalizer_request \<Rightarrow> finalizer \<Rightarrow> finalizer" where
  "finalizer_work (Tick env) s = finalizePendingEvents env s"
| "finalizer_work (Trigger env) s = snd (triggerFinalization env s)"
| "finalizer_work (Index r) s = s\<lparr>fin_tables := handle_event r (fin_tables s)\<rparr>"


definition no_finalizations :: "user list \<Rightarrow> finalizer" where
  "no_finalizations us = \<lparr>fin_tables = nothing_indexed us, gateway_log = []\<rparr>"





section \<open>Properties\<close>

text \<open>
  C25. The outcome the oracles agree on: it is one of the submitted outcomes, there are at least as many
  submissions as the quorum asks for, and every other outcome has fewer votes, or as many votes and a
  later first submission, or both the same and a label that sorts behind; the order in which the
  submissions arrive does not matter.
\<close>

theorem consensus_decides:
  assumes "resolveConsensus quorum subs = Inr c" "0 < quorum"
  shows "quorum \<le> length subs \<and> winningOutcome c \<in> sub_outcome ` set subs \<and>
    (\<forall>oc \<in> sub_outcome ` set subs - {winningOutcome c}.
       votes_for subs oc < votes_for subs (winningOutcome c) \<or>
       votes_for subs oc = votes_for subs (winningOutcome c) \<and>
         (first_time subs (winningOutcome c) < first_time subs oc \<or>
          first_time subs (winningOutcome c) = first_time subs oc \<and> winningOutcome c < oc)) \<and>
    (\<forall>subs'. mset subs' = mset subs \<longrightarrow> (\<exists>c'. resolveConsensus quorum subs' = Inr c' \<and> winningOutcome c' = winningOutcome c))"
proof -
  note c = consensus_cases [OF assms(1)]
  have rank: "votes_for subs oc < votes_for subs (winningOutcome c) \<or>
       votes_for subs oc = votes_for subs (winningOutcome c) \<and>
         (first_time subs (winningOutcome c) < first_time subs oc \<or>
          first_time subs (winningOutcome c) = first_time subs oc \<and> winningOutcome c < oc)"
    if "oc \<in> sub_outcome ` set subs - {winningOutcome c}" for oc
    using c(2) [of oc] that by (auto simp: outcome_key_def less_eq_prod_def le_less)
  have "\<exists>c'. resolveConsensus quorum subs' = Inr c' \<and> winningOutcome c' = winningOutcome c" if m: "mset subs' = mset subs" for subs'
  proof -
    have same: "length subs' = length subs" "set subs' = set subs" using m by (metis size_mset, metis set_mset_mset)
    from resolveConsensus_returns [OF assms(2), of subs'] c(3) same obtain c' where c': "resolveConsensus quorum subs' = Inr c'" by auto
    note d = consensus_cases [OF c']
    have "outcome_key subs (winningOutcome c') \<le> outcome_key subs (winningOutcome c)"
      using d(2) [of "winningOutcome c"] c(1) same keys_of_mset [OF m] by simp
    moreover have "outcome_key subs (winningOutcome c) \<le> outcome_key subs (winningOutcome c')" using c(2) d(1) same by simp
    ultimately have "outcome_key subs (winningOutcome c') = outcome_key subs (winningOutcome c)" by (rule order_antisym)
    with c' show ?thesis by (simp add: outcome_key_def)
  qed
  with c(1,3) rank show ?thesis by blast
qed


section \<open>Witnesses\<close>

definition sample_submissions :: "submission list" where
  "sample_submissions = [\<lparr>sub_outcome = ''B'', sub_at = 3\<rparr>, \<lparr>sub_outcome = ''A'', sub_at = 2\<rparr>, \<lparr>sub_outcome = ''B'', sub_at = 5\<rparr>, \<lparr>sub_outcome = ''A'', sub_at = 9\<rparr>]"

lemma sample_consensus: "resolveConsensus 3 sample_submissions =
    Inr \<lparr>winningOutcome = ''A'', tally_of = [(''B'', 2), (''A'', 2)], quorumUsed = 3, totalSubmissions = 4\<rparr>"
  by code_simp

theorem consensus_decides_witness:
  "votes_for sample_submissions ''B'' = votes_for sample_submissions ''A'' \<and> first_time sample_submissions ''A'' < first_time sample_submissions ''B'' \<or>
   votes_for sample_submissions ''B'' < votes_for sample_submissions ''A'' \<or> ''A'' < ''B''"
  using consensus_decides [OF sample_consensus] by (auto simp: sample_submissions_def)

definition sample_finalizer_env :: finalizer_env where
  "sample_finalizer_env = \<lparr>f_now = 99000, f_quorum = 3, f_submissions = (\<lambda>_. Inr (Some sample_submissions)), f_finalize = (\<lambda>_. None),
     f_save = (\<lambda>_. None), f_bond = (\<lambda>_. None), f_save_settlement = (\<lambda>_. None)\<rparr>"

definition sample_finalizer :: finalizer where
  "sample_finalizer = fold finalizer_work (map Index (butlast sample_events)) (no_finalizations [sample_member])"



section \<open>Weak points\<close>

text \<open>The gateway has none of the three methods the sweep asks it for: as it stands, a tick changes nothing.\<close>

lemma missing_method_blocks:
  assumes "\<forall>k. f_submissions env k = Inl TypeError"
  shows "finalizePendingEvents env s = s"
proof -
  have "snd (finalize_one env e t) = t" for e t using assms by (simp add: finalize_one_def getOracleSubmissions_def)
  then have "fold (\<lambda>e s. snd (finalize_one env e s)) es t = t" for es t by (induction es arbitrary: t) simp_all
  then show ?thesis by (simp add: finalizePendingEvents_def)
qed

text \<open>When the save after the contract call fails, the next sweep finalizes the event on the contract again.\<close>

lemma failed_save_finalizes_twice:
  "gateway_log (finalizePendingEvents sample_finalizer_env
      (finalizePendingEvents (sample_finalizer_env\<lparr>f_save := (\<lambda>k. if k = 1 then Some TypeError else None)\<rparr>) sample_finalizer)) =
    [FinalizeEvent 1, FinalizeEvent 2, ReturnBond 2, FinalizeEvent 1, ReturnBond 1]"
  by code_simp

text \<open>When returning the bond fails, the event is already stored as finalized, and no later sweep returns it.\<close>

lemma failed_bond_return_is_final:
  "gateway_log (finalizePendingEvents sample_finalizer_env
      (finalizePendingEvents (sample_finalizer_env\<lparr>f_bond := (\<lambda>k. if k = 1 then Some TypeError else None)\<rparr>) sample_finalizer)) =
    [FinalizeEvent 1, FinalizeEvent 2, ReturnBond 2]"
  by code_simp

text \<open>Twenty ended events with an unresolved match keep every other event from being looked at.\<close>

lemma unresolved_events_starve:
  assumes "MAX_FINALIZE_PER_TICK \<le> length es" "creator_events (fin_tables s) = es @ fs"
    "\<forall>e \<in> set es. ce_end_time e < f_now env \<and> \<not> ce_is_finalized e \<and> \<not> ce_is_cancelled e \<and> \<not> areAllMatchesResolved (ce_id e) s"
  shows "finalizePendingEvents env s = s"
proof -
  have "due_events env s = take MAX_FINALIZE_PER_TICK es" using assms by (auto simp: due_events_def filter_id_conv)
  then have "\<forall>e \<in> set (due_events env s). \<not> areAllMatchesResolved (ce_id e) s" using assms(3) by (auto dest: in_set_takeD)
  moreover have "\<forall>e \<in> set xs. \<not> areAllMatchesResolved (ce_id e) s \<Longrightarrow> fold (\<lambda>e s. snd (finalize_one env e s)) xs s = s" for xs
    by (induction xs) (simp_all add: finalize_one_def)
  ultimately show ?thesis by (simp add: finalizePendingEvents_def)
qed

end
