(* ===== verification/Auth.thy ===== *)
theory Auth
  imports Entities Js_Strings
begin

text \<open>
  \<open>auth/auth.service.ts\<close>: login by a signed challenge and sessions by rotating refresh tokens.

  Randomness, the clock and the libraries are arguments of every request: the Stellar signature check
  (which may throw), the digest of a token, the signing of an access token (which may fail), the fresh
  identifiers and the outcome of the insert of a refresh token.  The other writes succeed.  The columns
  of a new user the other services do not use take their defaults in the database and are left out.
  Addresses are ASCII.
\<close>

section \<open>State\<close>

record challenge_entry =
  expiresAt :: instant
  ch_used :: bool

record refresh_token =
  rt_id :: id
  rt_user :: id
  family_id :: id
  token_hash :: string
  previous_token_id :: "id option"
  rt_revoked_at :: "instant option"
  rt_expires_at :: instant

record auth_audit_event =
  event_type :: string
  audit_user :: id
  audit_family :: id
  audit_token :: id

record auth =
  challengeCache :: "(string \<times> challenge_entry) list"
  auth_users :: "user list"
  preferences :: "id list"
  refresh_tokens :: "refresh_token list"
  auth_audit_events :: "auth_audit_event list"

record auth_env =
  a_now :: instant
  a_nonce :: string
  a_raw :: string
  a_user_id :: id
  a_token_id :: id
  a_family :: id
  a_ttl_days :: "int option"
  a_digest :: "string \<Rightarrow> string"
  a_verify :: "string \<Rightarrow> string \<Rightarrow> string \<Rightarrow> (exn, bool) result"
  a_sign :: "id \<Rightarrow> string \<Rightarrow> (exn, string) result"
  a_insert :: "exn option"

interpretation refresh_token_table: repository rt_id "find_row rt_id" "save_row rt_id" "unique_keys rt_id"
  by (rule table_repository)

section \<open>Challenges\<close>

text \<open>A JavaScript \<open>Map\<close>: setting a present key keeps its position.\<close>

definition map_set :: "'k \<Rightarrow> 'v \<Rightarrow> ('k \<times> 'v) list \<Rightarrow> ('k \<times> 'v) list" where
  "map_set k v m = (if k \<in> fst ` set m then map (\<lambda>(x, y). if x = k then (x, v) else (x, y)) m else m @ [(k, v)])"

definition map_delete :: "'k \<Rightarrow> ('k \<times> 'v) list \<Rightarrow> ('k \<times> 'v) list" where
  "map_delete k m = filter (\<lambda>(x, y). x \<noteq> k) m"

definition TTL_MS :: int where "TTL_MS = 5 * 60 * 1000"

definition DEFAULT_REFRESH_TOKEN_TTL_DAYS :: int where "DEFAULT_REFRESH_TOKEN_TTL_DAYS = 30"

definition endsWith :: "string \<Rightarrow> string \<Rightarrow> bool" where
  "endsWith s suffix \<longleftrightarrow> length suffix \<le> length s \<and> drop (length s - length suffix) s = suffix"

definition challenge_text :: "auth_env \<Rightarrow> string \<Rightarrow> string" where
  "challenge_text env addr = ''InsightArena:nonce:'' @ bigint_to_string (a_now env) @ '':'' @ a_nonce env @ '':'' @ addr"

definition cleanupExpiredChallenges :: "instant \<Rightarrow> auth \<Rightarrow> auth" where
  "cleanupExpiredChallenges now s = s\<lparr>challengeCache := filter (\<lambda>(_, e). \<not> now > expiresAt e) (challengeCache s)\<rparr>"

definition generateChallenge :: "auth_env \<Rightarrow> string \<Rightarrow> auth \<Rightarrow> string \<times> auth" where
  "generateChallenge env addr s =
     (let ch = challenge_text env addr
      in (ch, s\<lparr>challengeCache := map_set ch \<lparr>expiresAt = a_now env + TTL_MS, ch_used = False\<rparr> (challengeCache s)\<rparr>))"

definition isValidChallenge :: "instant \<Rightarrow> string \<Rightarrow> auth \<Rightarrow> bool \<times> auth" where
  "isValidChallenge now ch s =
     (case map_of (challengeCache s) ch of
        None \<Rightarrow> (False, s)
      | Some e \<Rightarrow> if now > expiresAt e then (False, s\<lparr>challengeCache := map_delete ch (challengeCache s)\<rparr>) else (True, s))"

definition removeChallenge :: "string \<Rightarrow> auth \<Rightarrow> auth" where
  "removeChallenge ch s = s\<lparr>challengeCache := map_delete ch (challengeCache s)\<rparr>"

definition findValidChallengeForAddress :: "instant \<Rightarrow> string \<Rightarrow> auth \<Rightarrow> string option" where
  "findValidChallengeForAddress now addr s =
     map_option fst (List.find (\<lambda>(ch, e). endsWith ch ('':'' @ addr) \<and> now \<le> expiresAt e) (challengeCache s))"

definition verifyStellarSignature :: "auth_env \<Rightarrow> string \<Rightarrow> string \<Rightarrow> string \<Rightarrow> bool" where
  "verifyStellarSignature env addr ch sig = (case a_verify env addr ch sig of Inr b \<Rightarrow> b | Inl _ \<Rightarrow> False)"

definition normalizeStellarAddress :: "string \<Rightarrow> string" where
  "normalizeStellarAddress addr = map to_upper (js_trim addr)"

definition new_user :: "id \<Rightarrow> string \<Rightarrow> user" where
  "new_user k addr = \<lparr>user_id = k, stellar_address = addr, username = None, total_predictions = 0, total_staked_stroops = 0,
     reputation_score = 0, season_points = 0, role = ''user''\<rparr>"

definition upsert_user :: "auth_env \<Rightarrow> string \<Rightarrow> auth \<Rightarrow> user \<times> auth" where
  "upsert_user env addr s =
     (case List.find (\<lambda>u. stellar_address u = addr) (auth_users s) of
        Some u \<Rightarrow> (u, s)
      | None \<Rightarrow>
          let u = new_user (a_user_id env) addr;
              s1 = s\<lparr>auth_users := auth_users s @ [u]\<rparr>
          in (u, if user_id u \<in> set (preferences s1) then s1 else s1\<lparr>preferences := preferences s1 @ [user_id u]\<rparr>))"

definition verifySignature_of :: "auth_env \<Rightarrow> string \<Rightarrow> string \<Rightarrow> (auth, exn, user) action" where
  "verifySignature_of env addr sig s =
     (case findValidChallengeForAddress (a_now env) addr s of
        None \<Rightarrow> (Inl (Unauthorized ''No valid challenge found or challenge expired''), s)
      | Some ch \<Rightarrow>
          (case map_of (challengeCache s) ch of
             None \<Rightarrow> (Inl TypeError, s)
           | Some e \<Rightarrow>
               if ch_used e then (Inl (Unauthorized ''Challenge already used''), s)
               else if \<not> verifyStellarSignature env addr ch sig then (Inl (Unauthorized ''Invalid signature''), s)
               else
                 let s1 = s\<lparr>challengeCache := map_set ch (e\<lparr>ch_used := True\<rparr>) (challengeCache s)\<rparr>;
                     (u, s2) = upsert_user env (normalizeStellarAddress addr) s1
                 in (Inr u, s2)))"

section \<open>Refresh tokens\<close>

text \<open>The digest is a unique column: the insert of a known digest fails.\<close>

definition issueRefreshToken :: "auth_env \<Rightarrow> id \<Rightarrow> id \<Rightarrow> id option \<Rightarrow> (auth, exn, string) action" where
  "issueRefreshToken env user family previous s =
     (let ttlDays = (case a_ttl_days env of Some n \<Rightarrow> n | None \<Rightarrow> DEFAULT_REFRESH_TOKEN_TTL_DAYS);
          t = \<lparr>rt_id = a_token_id env, rt_user = user, family_id = family, token_hash = a_digest env (a_raw env),
               previous_token_id = previous, rt_revoked_at = None,
               rt_expires_at = a_now env + ttlDays * 24 * 60 * 60 * 1000\<rparr>
      in case a_insert env of
           Some x \<Rightarrow> (Inl x, s)
         | None \<Rightarrow>
             if token_hash t \<in> token_hash ` set (refresh_tokens s) \<or> rt_id t \<in> rt_id ` set (refresh_tokens s) then (Inl QueryFailed, s)
             else (Inr (a_raw env), s\<lparr>refresh_tokens := refresh_tokens s @ [t]\<rparr>))"

record login =
  access_token :: string
  refresh_of :: string
  login_user :: user

definition verifyChallenge :: "auth_env \<Rightarrow> string \<Rightarrow> string \<Rightarrow> (auth, exn, login) action" where
  "verifyChallenge env addr sig s =
     (case verifySignature_of env addr sig s of
        (Inl x, s1) \<Rightarrow> (Inl x, s1)
      | (Inr u, s1) \<Rightarrow>
          (case a_sign env (user_id u) (stellar_address u) of
             Inl x \<Rightarrow> (Inl x, s1)
           | Inr tok \<Rightarrow>
               (case issueRefreshToken env (user_id u) (a_family env) None s1 of
                  (Inl x, s2) \<Rightarrow> (Inl x, s2)
                | (Inr raw, s2) \<Rightarrow> (Inr \<lparr>access_token = tok, refresh_of = raw, login_user = u\<rparr>, s2))))"

text \<open>
  The rotation reads the token and the user, and writes afterwards; between the two other requests may
  run.  The first phase ends with a refusal, which may have revoked the family, or with the rows read.
\<close>

definition revoke_family :: "instant \<Rightarrow> id \<Rightarrow> auth \<Rightarrow> auth" where
  "revoke_family now f s = s\<lparr>refresh_tokens :=
     map (\<lambda>t. if family_id t = f \<and> rt_revoked_at t = None then t\<lparr>rt_revoked_at := Some now\<rparr> else t) (refresh_tokens s)\<rparr>"

definition rotate_check :: "auth_env \<Rightarrow> string \<Rightarrow> (auth, exn, refresh_token \<times> user) action" where
  "rotate_check env raw s =
     (case find_row token_hash (a_digest env raw) (refresh_tokens s) of
        None \<Rightarrow> (Inl (Unauthorized ''Invalid refresh token''), s)
      | Some t \<Rightarrow>
          if rt_expires_at t < a_now env then (Inl (Unauthorized ''Refresh token expired''), s)
          else if rt_revoked_at t \<noteq> None
          then (Inl (Unauthorized ''Refresh token reuse detected; session revoked''),
                (revoke_family (a_now env) (family_id t) s)\<lparr>auth_audit_events := auth_audit_events s @
                   [\<lparr>event_type = ''refresh_token_reuse_detected'', audit_user = rt_user t, audit_family = family_id t, audit_token = rt_id t\<rparr>]\<rparr>)
          else case find_row user_id (rt_user t) (auth_users s) of
                 None \<Rightarrow> (Inl (Unauthorized ''User not found or has been deleted''), s)
               | Some u \<Rightarrow> (Inr (t, u), s))"

definition rotate_commit :: "auth_env \<Rightarrow> refresh_token \<times> user \<Rightarrow> (auth, exn, string \<times> string) action" where
  "rotate_commit env = (\<lambda>(t, u) s.
     let s1 = s\<lparr>refresh_tokens := save_row rt_id (t\<lparr>rt_revoked_at := Some (a_now env)\<rparr>) (refresh_tokens s)\<rparr>
     in case issueRefreshToken env (user_id u) (family_id t) (Some (rt_id t)) s1 of
          (Inl x, s2) \<Rightarrow> (Inl x, s2)
        | (Inr raw, s2) \<Rightarrow>
            (case a_sign env (user_id u) (stellar_address u) of
               Inl x \<Rightarrow> (Inl x, s2)
             | Inr tok \<Rightarrow> (Inr (tok, raw), s2)))"

definition rotateRefreshToken :: "auth_env \<Rightarrow> string \<Rightarrow> (auth, exn, string \<times> string) action" where
  "rotateRefreshToken env raw s =
     (case rotate_check env raw s of
        (Inl x, s1) \<Rightarrow> (Inl x, s1)
      | (Inr tu, s1) \<Rightarrow> rotate_commit env tu s1)"

section \<open>The endpoints\<close>

text \<open>\<open>auth.controller.ts\<close>; a refresh answers with the expiry of the new access token.\<close>

definition week_ms :: int where "week_ms = 7 * 24 * 60 * 60 * 1000"

definition parseExpiryToMs :: "string \<Rightarrow> int" where
  "parseExpiryToMs expiry =
     (if expiry = [] then week_ms
      else case parse_digits 10 (butlast expiry) of
             None \<Rightarrow> week_ms
           | Some n \<Rightarrow>
               if last expiry = CHR ''d'' then int n * 24 * 60 * 60 * 1000
               else if last expiry = CHR ''h'' then int n * 60 * 60 * 1000
               else if last expiry = CHR ''m'' then int n * 60 * 1000
               else if last expiry = CHR ''s'' then int n * 1000
               else week_ms)"

definition refreshToken :: "auth_env \<Rightarrow> string option \<Rightarrow> string \<Rightarrow> (auth, exn, string \<times> string \<times> instant) action" where
  "refreshToken env expiresIn raw s =
     (case rotateRefreshToken env raw s of
        (Inl x, s1) \<Rightarrow> (Inl x, s1)
      | (Inr (tok, fresh), s1) \<Rightarrow>
          (Inr (tok, fresh, a_now env + parseExpiryToMs (if truthy expiresIn then the expiresIn else ''7d'')), s1))"

datatype auth_request =
    Challenge auth_env string
  | Verify auth_env string string
  | VerifyWallet auth_env string string string
  | Refresh auth_env "string option" string
  | Cleanup instant

primrec serve_auth :: "auth_request \<Rightarrow> auth \<Rightarrow> auth" where
  "serve_auth (Challenge env addr) s = snd (generateChallenge env addr s)"
| "serve_auth (Verify env addr sig) s = snd (verifyChallenge env addr sig s)"
| "serve_auth (VerifyWallet env addr ch sig) s = s"
| "serve_auth (Refresh env expiresIn raw) s = snd (refreshToken env expiresIn raw s)"
| "serve_auth (Cleanup now) s = cleanupExpiredChallenges now s"

end
