(* ===== verification/Auth_Facts.thy ===== *)
theory Auth_Facts
  imports Auth
begin

text \<open>
  What login and sessions guarantee: a challenge admits one login, by the holder of the address it was
  issued for and in time; a session has at most one usable refresh token, and ends for good when a
  spent token is presented again.  The requests run one after the other here; the last section shows
  what interleaving and failing writes change.
\<close>

section \<open>Challenges\<close>

text \<open>The logins a sequence of requests admits, with the challenge each was admitted by.\<close>

record acceptance =
  acc_env :: auth_env
  acc_challenge :: string
  acc_address :: string
  acc_signature :: string

primrec accepted :: "auth_request \<Rightarrow> auth \<Rightarrow> acceptance list" where
  "accepted (Challenge env addr) s = []"
| "accepted (Verify env addr sig) s =
     (case (findValidChallengeForAddress (a_now env) addr s, fst (verifySignature_of env addr sig s)) of
        (Some ch, Inr _) \<Rightarrow> [\<lparr>acc_env = env, acc_challenge = ch, acc_address = addr, acc_signature = sig\<rparr>]
      | _ \<Rightarrow> [])"
| "accepted (VerifyWallet env addr ch sig) s = []"
| "accepted (Refresh env expiresIn raw) s = []"
| "accepted (Cleanup now) s = []"

primrec acceptances :: "auth_request list \<Rightarrow> auth \<Rightarrow> acceptance list" where
  "acceptances [] s = []"
| "acceptances (r # rs) s = accepted r s @ acceptances rs (serve_auth r s)"

primrec challenge_of :: "auth_request \<Rightarrow> string list" where
  "challenge_of (Challenge env addr) = [challenge_text env addr]"
| "challenge_of (Verify env addr sig) = []"
| "challenge_of (VerifyWallet env addr ch sig) = []"
| "challenge_of (Refresh env expiresIn raw) = []"
| "challenge_of (Cleanup now) = []"

definition issued :: "auth_request list \<Rightarrow> string list" where
  "issued rs = concat (map challenge_of rs)"

lemma issued_simps [simp]: "issued [] = []" "issued (r # rs) = challenge_of r @ issued rs"
  by (simp_all add: issued_def)

lemma map_set_new: "k \<notin> fst ` set m \<Longrightarrow> map_set k v m = m @ [(k, v)]"
  by (simp add: map_set_def)

lemma keys_map_set: "k \<in> fst ` set m \<Longrightarrow> map fst (map_set k v m) = map fst m"
  by (auto simp: map_set_def)

lemma map_set_entries: "distinct (map fst m) \<Longrightarrow> k \<in> fst ` set m \<Longrightarrow> (x, y) \<in> set (map_set k v m) \<longleftrightarrow> (if x = k then y = v else (x, y) \<in> set m)"
  by (auto simp: map_set_def image_iff split: if_splits) force+

lemma upsert_cache [simp]: "challengeCache (snd (upsert_user env addr s)) = challengeCache s"
  "refresh_tokens (snd (upsert_user env addr s)) = refresh_tokens s"
  by (simp_all add: upsert_user_def Let_def split: option.split)

text \<open>An issued token is new, usable and of the given family.\<close>

definition issued_token :: "auth_env \<Rightarrow> id \<Rightarrow> id \<Rightarrow> id option \<Rightarrow> refresh_token" where
  "issued_token env user f p = \<lparr>rt_id = a_token_id env, rt_user = user, family_id = f, token_hash = a_digest env (a_raw env), previous_token_id = p,
     rt_revoked_at = None, rt_expires_at = a_now env + (case a_ttl_days env of Some n \<Rightarrow> n | None \<Rightarrow> DEFAULT_REFRESH_TOKEN_TTL_DAYS) * 24 * 60 * 60 * 1000\<rparr>"

lemma issue_cases:
  obtains (refused) x where "issueRefreshToken env user f p s = (Inl x, s)"
  | (stored) "issueRefreshToken env user f p s = (Inr (a_raw env), s\<lparr>refresh_tokens := refresh_tokens s @ [issued_token env user f p]\<rparr>)"
      "a_digest env (a_raw env) \<notin> token_hash ` set (refresh_tokens s)" "a_token_id env \<notin> rt_id ` set (refresh_tokens s)"
proof (cases "a_insert env = None \<and> a_digest env (a_raw env) \<notin> token_hash ` set (refresh_tokens s) \<and> a_token_id env \<notin> rt_id ` set (refresh_tokens s)")
  case True
  then show thesis using stored by (simp add: issueRefreshToken_def issued_token_def Let_def)
next
  case False
  then have "\<exists>x. issueRefreshToken env user f p s = (Inl x, s)" by (auto simp: issueRefreshToken_def Let_def split: option.split)
  then show thesis using refused by blast
qed

text \<open>A successful signature check spends a live, unused challenge of that address.\<close>

lemma verifySignature_cases:
  assumes "distinct (map fst (challengeCache s))"
  obtains (refused) x where "verifySignature_of env addr sig s = (Inl x, s)"
  | (admitted) ch e u s' where "verifySignature_of env addr sig s = (Inr u, s')" "findValidChallengeForAddress (a_now env) addr s = Some ch"
      "(ch, e) \<in> set (challengeCache s)" "\<not> ch_used e" "a_now env \<le> expiresAt e" "endsWith ch ('':'' @ addr)" "verifyStellarSignature env addr ch sig"
      "challengeCache s' = map_set ch (e\<lparr>ch_used := True\<rparr>) (challengeCache s)" "refresh_tokens s' = refresh_tokens s"
proof (cases "findValidChallengeForAddress (a_now env) addr s")
  case None
  then show thesis using refused by (simp add: verifySignature_of_def)
next
  case (Some ch)
  then obtain e where "List.find (\<lambda>(ch, e). endsWith ch ('':'' @ addr) \<and> a_now env \<le> expiresAt e) (challengeCache s) = Some (ch, e)"
    by (auto simp: findValidChallengeForAddress_def)
  then have e: "(ch, e) \<in> set (challengeCache s)" "endsWith ch ('':'' @ addr)" "a_now env \<le> expiresAt e" by (auto simp: find_Some_iff dest: nth_mem)
  have look: "map_of (challengeCache s) ch = Some e" using e(1) assms by simp
  show thesis
  proof (cases "ch_used e \<or> \<not> verifyStellarSignature env addr ch sig")
    case True
    then have "\<exists>x. verifySignature_of env addr sig s = (Inl x, s)" using Some look by (auto simp: verifySignature_of_def)
    then show thesis using refused by blast
  next
    case False
    let ?s1 = "s\<lparr>challengeCache := map_set ch (e\<lparr>ch_used := True\<rparr>) (challengeCache s)\<rparr>"
    have "verifySignature_of env addr sig s =
        (Inr (fst (upsert_user env (normalizeStellarAddress addr) ?s1)), snd (upsert_user env (normalizeStellarAddress addr) ?s1))"
      using False Some look by (simp add: verifySignature_of_def Let_def split_def)
    from admitted [OF this Some e(1)] False e show thesis by simp
  qed
qed

lemma verifyChallenge_cases:
  assumes "verifySignature_of env addr sig s = (Inr u, s1)"
  obtains (refused) x where "verifyChallenge env addr sig s = (Inl x, s1)"
  | (stored) l where "verifyChallenge env addr sig s = (Inr l, s1\<lparr>refresh_tokens := refresh_tokens s1 @ [issued_token env (user_id u) (a_family env) None]\<rparr>)"
      "a_digest env (a_raw env) \<notin> token_hash ` set (refresh_tokens s1)" "a_token_id env \<notin> rt_id ` set (refresh_tokens s1)"
proof (cases "a_sign env (user_id u) (stellar_address u)")
  case (Inl x)
  then show thesis using refused assms by (simp add: verifyChallenge_def)
next
  case (Inr tok)
  show thesis
  proof (cases rule: issue_cases [of env "user_id u" "a_family env" None s1])
    case refused
    then show thesis using that(1) assms Inr by (simp add: verifyChallenge_def)
  next
    case stored
    then show thesis using that(2) assms Inr by (simp add: verifyChallenge_def)
  qed
qed

lemma verify_cache: "challengeCache (snd (verifyChallenge env addr sig s)) = challengeCache (snd (verifySignature_of env addr sig s))"
proof (cases "verifySignature_of env addr sig s")
  case (Pair r s1)
  show ?thesis
  proof (cases r)
    case (Inr u)
    with Pair have *: "verifySignature_of env addr sig s = (Inr u, s1)" by simp
    from * show ?thesis by (cases rule: verifyChallenge_cases) (simp_all add: *)
  qed (simp add: verifyChallenge_def Pair)
qed

text \<open>The three ways a rotation can go: refused, reuse detected, or committed with or without a new token.\<close>

lemma rotate_cases:
  obtains (refused) x where "rotateRefreshToken env raw s = (Inl x, s)"
  | (reused) t as where "t \<in> set (refresh_tokens s)" "rt_revoked_at t \<noteq> None"
      "rotateRefreshToken env raw s = (Inl (Unauthorized ''Refresh token reuse detected; session revoked''), (revoke_family (a_now env) (family_id t) s)\<lparr>auth_audit_events := as\<rparr>)"
  | (spent) t r ts where "t \<in> set (refresh_tokens s)" "rt_revoked_at t = None" "a_now env \<le> rt_expires_at t" "token_hash t = a_digest env raw"
      "rotateRefreshToken env raw s = (r, s\<lparr>refresh_tokens := save_row rt_id (t\<lparr>rt_revoked_at := Some (a_now env)\<rparr>) (refresh_tokens s) @ ts\<rparr>)"
      "ts = [] \<and> (\<exists>x. r = Inl x) \<or> ts = [issued_token env (rt_user t) (family_id t) (Some (rt_id t))]"
      "ts \<noteq> [] \<Longrightarrow> a_digest env (a_raw env) \<notin> token_hash ` set (save_row rt_id (t\<lparr>rt_revoked_at := Some (a_now env)\<rparr>) (refresh_tokens s)) \<and>
         a_token_id env \<notin> rt_id ` set (save_row rt_id (t\<lparr>rt_revoked_at := Some (a_now env)\<rparr>) (refresh_tokens s))"
proof (cases "find_row token_hash (a_digest env raw) (refresh_tokens s)")
  case None
  then show thesis using refused by (simp add: rotateRefreshToken_def rotate_check_def)
next
  case (Some t)
  then have t: "t \<in> set (refresh_tokens s)" "token_hash t = a_digest env raw" by (auto dest: find_row_SomeD)
  show thesis
  proof (cases "rt_expires_at t < a_now env \<or> rt_revoked_at t = None \<and> find_row user_id (rt_user t) (auth_users s) = None")
    case True
    then have "\<exists>x. rotateRefreshToken env raw s = (Inl x, s)" using Some by (auto simp: rotateRefreshToken_def rotate_check_def)
    then show thesis using refused by blast
  next
    case False
    show thesis
    proof (cases "rt_revoked_at t")
      case (Some at)
      then show thesis using reused [OF t(1)] \<open>find_row token_hash _ _ = Some t\<close> False
        by (simp add: rotateRefreshToken_def rotate_check_def)
    next
      case None
      with False obtain u where u: "find_row user_id (rt_user t) (auth_users s) = Some u" "\<not> rt_expires_at t < a_now env" by auto
      then have uid: "user_id u = rt_user t" by (auto dest: find_row_SomeD)
      let ?s1 = "s\<lparr>refresh_tokens := save_row rt_id (t\<lparr>rt_revoked_at := Some (a_now env)\<rparr>) (refresh_tokens s)\<rparr>"
      have rot: "rotateRefreshToken env raw s = rotate_commit env (t, u) s"
        using Some None u by (simp add: rotateRefreshToken_def rotate_check_def)
      show thesis
      proof (cases rule: issue_cases [of env "user_id u" "family_id t" "Some (rt_id t)" ?s1])
        case (refused x)
        then have "rotateRefreshToken env raw s = (Inl x, s\<lparr>refresh_tokens := save_row rt_id (t\<lparr>rt_revoked_at := Some (a_now env)\<rparr>) (refresh_tokens s) @ []\<rparr>)"
          by (simp add: rot rotate_commit_def Let_def)
        from spent [OF t(1) None _ t(2) this] u(2) show thesis by simp
      next
        case stored
        then have "\<exists>r. rotateRefreshToken env raw s = (r, s\<lparr>refresh_tokens := save_row rt_id (t\<lparr>rt_revoked_at := Some (a_now env)\<rparr>) (refresh_tokens s) @
            [issued_token env (rt_user t) (family_id t) (Some (rt_id t))]\<rparr>)"
          by (simp add: rot rotate_commit_def Let_def uid split: sum.split)
        then obtain r where "rotateRefreshToken env raw s = (r, s\<lparr>refresh_tokens := save_row rt_id (t\<lparr>rt_revoked_at := Some (a_now env)\<rparr>) (refresh_tokens s) @
            [issued_token env (rt_user t) (family_id t) (Some (rt_id t))]\<rparr>)" by blast
        from spent [OF t(1) None _ t(2) this] u(2) stored(2,3) show thesis by simp
      qed
    qed
  qed
qed

lemma rotate_cache: "challengeCache (snd (rotateRefreshToken env raw s)) = challengeCache s"
  by (cases rule: rotate_cases [of env raw s]) (simp_all add: revoke_family_def)

lemma refresh_state: "snd (refreshToken env expiresIn raw s) = snd (rotateRefreshToken env raw s)"
  by (simp add: refreshToken_def split: prod.split sum.split)

text \<open>What a request does to the challenges: it may add its own, drop some, and mark some as used.\<close>

definition cache_step :: "string list \<Rightarrow> (string \<times> challenge_entry) list \<Rightarrow> (string \<times> challenge_entry) list \<Rightarrow> bool" where
  "cache_step new c c' \<longleftrightarrow> distinct (map fst c') \<and>
     (\<forall>(k, e') \<in> set c'. k \<in> set new \<or> (\<exists>e. (k, e) \<in> set c \<and> expiresAt e' = expiresAt e \<and> (ch_used e \<longrightarrow> ch_used e')))"

lemma cache_step_same: "distinct (map fst c) \<Longrightarrow> cache_step new c c"
  by (auto simp: cache_step_def)

lemma serve_cache:
  assumes "distinct (map fst (challengeCache s))" "fst ` set (challengeCache s) \<inter> set (challenge_of r) = {}"
  shows "cache_step (challenge_of r) (challengeCache s) (challengeCache (serve_auth r s))"
proof (cases r)
  case (Challenge env addr)
  with assms show ?thesis by (auto simp: generateChallenge_def Let_def map_set_new cache_step_def)
next
  case (Verify env addr sig)
  from assms(1) show ?thesis
  proof (cases rule: verifySignature_cases [of s env addr sig])
    case (refused x)
    with assms(1) Verify show ?thesis by (simp add: verify_cache cache_step_same)
  next
    case (admitted ch e u s')
    let ?c' = "map_set ch (e\<lparr>ch_used := True\<rparr>) (challengeCache s)"
    have ch: "ch \<in> fst ` set (challengeCache s)" using admitted(3) by force
    have "distinct (map fst ?c')" using keys_map_set [OF ch] assms(1) by simp
    moreover have "\<exists>e0. (k, e0) \<in> set (challengeCache s) \<and> expiresAt e' = expiresAt e0 \<and> (ch_used e0 \<longrightarrow> ch_used e')" if "(k, e') \<in> set ?c'" for k e'
      using that admitted(3) map_set_entries [OF assms(1) ch] by (auto split: if_splits)
    ultimately have "cache_step [] (challengeCache s) ?c'" by (auto simp: cache_step_def)
    with admitted Verify show ?thesis by (simp add: verify_cache)
  qed
next
  case (Cleanup now)
  with assms(1) show ?thesis by (auto simp: cleanupExpiredChallenges_def cache_step_def distinct_map_filter)
qed (use assms(1) in \<open>simp_all add: refresh_state rotate_cache cache_step_same\<close>)

lemma accepted_facts:
  assumes "distinct (map fst (challengeCache s))" "a \<in> set (accepted r s)"
  obtains e where "(acc_challenge a, e) \<in> set (challengeCache s)" "\<not> ch_used e" "a_now (acc_env a) \<le> expiresAt e"
    "endsWith (acc_challenge a) ('':'' @ acc_address a)" "verifyStellarSignature (acc_env a) (acc_address a) (acc_challenge a) (acc_signature a)"
    "accepted r s = [a]" "\<And>e'. (acc_challenge a, e') \<in> set (challengeCache (serve_auth r s)) \<Longrightarrow> ch_used e'" "challenge_of r = []"
proof -
  from assms(2) obtain env addr sig where r: "r = Verify env addr sig" by (cases r) auto
  from assms(1) show thesis
  proof (cases rule: verifySignature_cases [of s env addr sig])
    case (refused x)
    then show thesis using assms(2) r by (auto split: option.splits)
  next
    case (admitted ch e u s')
    then have a: "a = \<lparr>acc_env = env, acc_challenge = ch, acc_address = addr, acc_signature = sig\<rparr>" using assms(2) r by simp
    have ch: "ch \<in> fst ` set (challengeCache s)" using admitted(3) by force
    have "ch_used e'" if "(ch, e') \<in> set (challengeCache (serve_auth r s))" for e'
      using that admitted r map_set_entries [OF assms(1) ch, of ch e'] by (simp add: verify_cache)
    with that [of e] admitted a r show thesis by simp
  qed
qed

lemma acceptances_spent:
  assumes "distinct (map fst (challengeCache s))" "distinct (issued rs)" "fst ` set (challengeCache s) \<inter> set (issued rs) = {}"
  shows "distinct (map acc_challenge (acceptances rs s)) \<and>
    (\<forall>a \<in> set (acceptances rs s). acc_challenge a \<in> set (issued rs) \<or> (\<exists>e. (acc_challenge a, e) \<in> set (challengeCache s) \<and> \<not> ch_used e))"
  using assms
proof (induction rs arbitrary: s)
  case (Cons r rs)
  have step: "cache_step (challenge_of r) (challengeCache s) (challengeCache (serve_auth r s))"
    using Cons.prems by (intro serve_cache) auto
  then have d: "distinct (map fst (challengeCache (serve_auth r s)))" by (simp add: cache_step_def)
  have disj: "fst ` set (challengeCache (serve_auth r s)) \<inter> set (issued rs) = {}"
    using step Cons.prems(2,3) unfolding cache_step_def by fastforce
  from Cons.IH [OF d _ disj] Cons.prems(2)
  have IH: "distinct (map acc_challenge (acceptances rs (serve_auth r s)))"
    "\<And>a. a \<in> set (acceptances rs (serve_auth r s)) \<Longrightarrow> acc_challenge a \<in> set (issued rs) \<or>
       (\<exists>e. (acc_challenge a, e) \<in> set (challengeCache (serve_auth r s)) \<and> \<not> ch_used e)" by auto
  have later: "acc_challenge a \<in> set (issued (r # rs)) \<or> (\<exists>e. (acc_challenge a, e) \<in> set (challengeCache s) \<and> \<not> ch_used e)"
    if "a \<in> set (acceptances rs (serve_auth r s))" for a
    using IH(2) [OF that] step unfolding cache_step_def by fastforce
  show ?case
  proof (cases "accepted r s")
    case Nil
    then show ?thesis using IH(1) later by simp
  next
    case (Cons a as)
    then have a: "a \<in> set (accepted r s)" by simp
    from accepted_facts [OF Cons.prems(1) a] obtain e where e: "(acc_challenge a, e) \<in> set (challengeCache s)" "\<not> ch_used e" "accepted r s = [a]"
      and spent: "\<And>e'. (acc_challenge a, e') \<in> set (challengeCache (serve_auth r s)) \<Longrightarrow> ch_used e'" by metis
    have "acc_challenge a \<notin> set (issued rs)" using e(1) Cons.prems(3) by force
    then have "acc_challenge a \<notin> acc_challenge ` set (acceptances rs (serve_auth r s))" using IH(2) spent by fastforce
    then show ?thesis using IH(1) later e by auto
  qed
qed simp

definition from_request :: "auth_request set \<Rightarrow> string \<times> challenge_entry \<Rightarrow> bool" where
  "from_request R = (\<lambda>(k, e). \<exists>env addr. Challenge env addr \<in> R \<and> k = challenge_text env addr \<and> expiresAt e = a_now env + TTL_MS)"

lemma serve_origin:
  assumes "distinct (map fst (challengeCache s))" "fst ` set (challengeCache s) \<inter> set (challenge_of r) = {}"
    "\<forall>x \<in> set (challengeCache s). from_request R x" "r \<in> R"
  shows "\<forall>x \<in> set (challengeCache (serve_auth r s)). from_request R x"
proof (cases r)
  case (Challenge env addr)
  with assms(2,3,4) show ?thesis by (auto simp: generateChallenge_def Let_def map_set_new from_request_def)
next
  case (Verify env addr sig)
  have "\<exists>e. (k, e) \<in> set (challengeCache s) \<and> expiresAt e' = expiresAt e" if "(k, e') \<in> set (challengeCache (serve_auth r s))" for k e'
    using serve_cache [OF assms(1,2)] that Verify unfolding cache_step_def by fastforce
  with assms(3) show ?thesis by (force simp: from_request_def)
next
  case (Cleanup now)
  with assms(3) show ?thesis by (auto simp: cleanupExpiredChallenges_def)
qed (use assms(3) in \<open>simp_all add: refresh_state rotate_cache\<close>)

lemma acceptances_origin:
  assumes "distinct (map fst (challengeCache s))" "distinct (issued rs)" "fst ` set (challengeCache s) \<inter> set (issued rs) = {}"
    "\<forall>x \<in> set (challengeCache s). from_request R x" "set rs \<subseteq> R" "a \<in> set (acceptances rs s)"
  shows "\<exists>e. from_request R (acc_challenge a, e) \<and> a_now (acc_env a) \<le> expiresAt e \<and> endsWith (acc_challenge a) ('':'' @ acc_address a) \<and>
    verifyStellarSignature (acc_env a) (acc_address a) (acc_challenge a) (acc_signature a)"
  using assms
proof (induction rs arbitrary: s)
  case (Cons r rs)
  have step: "cache_step (challenge_of r) (challengeCache s) (challengeCache (serve_auth r s))"
    using Cons.prems by (intro serve_cache) auto
  then have d: "distinct (map fst (challengeCache (serve_auth r s)))" by (simp add: cache_step_def)
  have disj: "fst ` set (challengeCache (serve_auth r s)) \<inter> set (issued rs) = {}"
    using step Cons.prems(2,3) unfolding cache_step_def by fastforce
  have origin: "\<forall>x \<in> set (challengeCache (serve_auth r s)). from_request R x"
    using Cons.prems by (intro serve_origin) auto
  show ?case
  proof (cases "a \<in> set (accepted r s)")
    case True
    from accepted_facts [OF Cons.prems(1) True] Cons.prems(4) show ?thesis by metis
  next
    case False
    with Cons.IH [OF d _ disj origin] Cons.prems show ?thesis by simp
  qed
qed simp

definition nobody :: "user list \<Rightarrow> auth" where
  "nobody us = \<lparr>challengeCache = [], auth_users = us, preferences = [], refresh_tokens = [], auth_audit_events = []\<rparr>"

section \<open>Refresh tokens\<close>

definition live :: "id \<Rightarrow> auth \<Rightarrow> refresh_token list" where
  "live f s = filter (\<lambda>t. family_id t = f \<and> rt_revoked_at t = None) (refresh_tokens s)"




definition tokens_ok :: "auth \<Rightarrow> bool" where
  "tokens_ok s \<longleftrightarrow> unique_keys rt_id (refresh_tokens s) \<and> unique_keys token_hash (refresh_tokens s) \<and> (\<forall>f. length (live f s) \<le> 1)"












section \<open>Properties\<close>

lemma nobody_ok: "tokens_ok (nobody us)" "distinct (map fst (challengeCache (nobody us)))" "refresh_tokens (nobody us) = []"
  by (simp_all add: nobody_def tokens_ok_def live_def)

text \<open>
  C27. Whatever requests the service receives, provided that the challenges it issues differ from each
  other: every login it admits carries a valid signature by the given address of a challenge that the
  service itself issued, that names this address and is at most five minutes old; and no challenge
  admits a second login.
\<close>

theorem challenge_single_use:
  assumes "distinct (issued rs)"
  shows "distinct (map acc_challenge (acceptances rs (nobody us))) \<and>
    (\<forall>a \<in> set (acceptances rs (nobody us)).
       verifyStellarSignature (acc_env a) (acc_address a) (acc_challenge a) (acc_signature a) \<and> endsWith (acc_challenge a) ('':'' @ acc_address a) \<and>
       (\<exists>env addr. Challenge env addr \<in> set rs \<and> acc_challenge a = challenge_text env addr \<and> a_now (acc_env a) \<le> a_now env + TTL_MS))"
proof -
  have start: "fst ` set (challengeCache (nobody us)) \<inter> set (issued rs) = {}" "\<forall>x \<in> set (challengeCache (nobody us)). from_request (set rs) x"
    by (simp_all add: nobody_def)
  have "\<exists>e. from_request (set rs) (acc_challenge a, e) \<and> a_now (acc_env a) \<le> expiresAt e \<and> endsWith (acc_challenge a) ('':'' @ acc_address a) \<and>
    verifyStellarSignature (acc_env a) (acc_address a) (acc_challenge a) (acc_signature a)" if "a \<in> set (acceptances rs (nobody us))" for a
    using acceptances_origin [OF nobody_ok(2) assms start] that by simp
  with acceptances_spent [OF nobody_ok(2) assms start(1)] show ?thesis by (fastforce simp: from_request_def)
qed


section \<open>Witnesses\<close>

text \<open>A signature scheme and a digest for the examples: a signature is the address followed by the message.\<close>

definition sample_auth_env :: "instant \<Rightarrow> string \<Rightarrow> auth_env" where
  "sample_auth_env now key = \<lparr>a_now = now, a_nonce = key, a_raw = ''r'' @ key, a_user_id = ''u'' @ key, a_token_id = ''t'' @ key, a_family = ''f'' @ key,
     a_ttl_days = None, a_digest = (\<lambda>raw. ''h'' @ raw), a_verify = (\<lambda>addr ch sig. Inr (sig = addr @ ch)), a_sign = (\<lambda>u addr. Inr u), a_insert = None\<rparr>"

definition sample_login :: "auth_request list" where
  "sample_login = [Challenge (sample_auth_env 10 ''a'') ''G'', Verify (sample_auth_env 20 ''b'') ''G'' (''G'' @ challenge_text (sample_auth_env 10 ''a'') ''G''),
     Verify (sample_auth_env 21 ''c'') ''G'' (''G'' @ challenge_text (sample_auth_env 10 ''a'') ''G''), Refresh (sample_auth_env 30 ''d'') None ''rb'']"

lemma sample_login_runs:
  "map acc_challenge (acceptances sample_login (nobody [])) = [challenge_text (sample_auth_env 10 ''a'') ''G'']"
  "issued sample_login = [challenge_text (sample_auth_env 10 ''a'') ''G'']"
  "map (\<lambda>t. (rt_id t, rt_revoked_at t)) (refresh_tokens (fold serve_auth sample_login (nobody []))) = [(''tb'', Some 30), (''td'', None)]"
  by code_simp+

theorem challenge_single_use_witness:
  "distinct (map acc_challenge (acceptances sample_login (nobody []))) \<and> length (acceptances sample_login (nobody [])) = 1 \<and>
   list_all (\<lambda>a. endsWith (acc_challenge a) '':G'') (acceptances sample_login (nobody []))"
proof -
  have "length (acceptances sample_login (nobody [])) = length (map acc_challenge (acceptances sample_login (nobody [])))" by simp
  also have "\<dots> = 1" unfolding sample_login_runs by simp
  finally have one: "length (acceptances sample_login (nobody [])) = 1" .
  have addr: "list_all (\<lambda>a. acc_address a = ''G'') (acceptances sample_login (nobody []))" by code_simp
  from challenge_single_use [of sample_login "[]"] addr one show ?thesis by (simp add: sample_login_runs list_all_iff)
qed



section \<open>Weak points\<close>

text \<open>A login blocks the next one: the oldest unexpired challenge is taken, used or not, until it expires.\<close>

lemma used_challenge_blocks_login:
  "fst (verifyChallenge (sample_auth_env 40 ''x'') ''G'' (''G'' @ challenge_text (sample_auth_env 30 ''n'') ''G'')
     (fold serve_auth (sample_login @ [Challenge (sample_auth_env 30 ''n'') ''G'']) (nobody []))) = Inl (Unauthorized ''Challenge already used'')"
  by code_simp

text \<open>Anyone can ask for a challenge first: the owner's signature of the later one is then refused.\<close>

lemma foreign_challenge_blocks_login:
  "fst (verifyChallenge (sample_auth_env 40 ''x'') ''G'' (''G'' @ challenge_text (sample_auth_env 30 ''n'') ''G'')
     (fold serve_auth [Challenge (sample_auth_env 10 ''a'') ''G'', Challenge (sample_auth_env 30 ''n'') ''G''] (nobody []))) = Inl (Unauthorized ''Invalid signature'')"
  by code_simp

text \<open>Two rotations of one token that both pass the check leave two usable tokens, and no reuse is noticed.\<close>

definition sample_signed_in :: auth where
  "sample_signed_in = fold serve_auth (butlast sample_login) (nobody [])"

definition both_rotated :: auth where
  "both_rotated =
     (case (rotate_check (sample_auth_env 30 ''d'') ''rb'' sample_signed_in, rotate_check (sample_auth_env 30 ''e'') ''rb'' sample_signed_in) of
        ((Inr tu, _), (Inr tu', _)) \<Rightarrow> snd (rotate_commit (sample_auth_env 30 ''e'') tu' (snd (rotate_commit (sample_auth_env 30 ''d'') tu sample_signed_in)))
      | _ \<Rightarrow> sample_signed_in)"

lemma concurrent_rotations_fork: "length (live ''fb'' both_rotated) = 2" "auth_audit_events both_rotated = []"
  by code_simp+

text \<open>A rotation whose insert fails has already spent the token: the retry counts as theft and ends the session.\<close>

lemma failed_rotation_ends_session:
  "fst (rotateRefreshToken (sample_auth_env 50 ''e'') ''rb'' (snd (rotateRefreshToken ((sample_auth_env 30 ''d'')\<lparr>a_insert := Some QueryFailed\<rparr>) ''rb'' sample_signed_in))) =
     Inl (Unauthorized ''Refresh token reuse detected; session revoked'')"
  by code_simp

end
