(* ===== verification/Guards.thy ===== *)
theory Guards
  imports Auth_Facts
begin

text \<open>
  The guards of \<open>common/guards\<close> in the order \<open>app.module.ts\<close> registers them (throttling, JWT, roles), the
  route guards for bans and for the rate of predictions, and \<open>auth/rate-limit.service.ts\<close>.

  The throttler library, its storage and the JWT library are arguments: the storage answers an
  increment with the number of hits or fails, a token decodes to a subject or not, and passport reports
  an error, a user and an info object.
\<close>

section \<open>Requests\<close>

record http_request =
  rq_ip :: "string option"
  rq_remote :: "string option"
  rq_authorization :: "string option"

type_synonym decoder = "string \<Rightarrow> (exn, string option) result"

definition bearer :: "string option \<Rightarrow> string option" where
  "bearer header = (case header of Some h \<Rightarrow> if take 7 h = ''Bearer '' then Some (drop 7 h) else None | None \<Rightarrow> None)"

definition extractUserId :: "decoder \<Rightarrow> http_request \<Rightarrow> string option" where
  "extractUserId decode rq =
     (case bearer (rq_authorization rq) of
        None \<Rightarrow> None
      | Some token \<Rightarrow> (case decode token of Inr (Some sub) \<Rightarrow> if sub = [] then None else Some sub | _ \<Rightarrow> None))"

definition getTracker :: "decoder \<Rightarrow> http_request \<Rightarrow> string" where
  "getTracker decode rq =
     (case extractUserId decode rq of
        Some u \<Rightarrow> ''user:'' @ u
      | None \<Rightarrow> (case rq_ip rq of Some a \<Rightarrow> a | None \<Rightarrow> (case rq_remote rq of Some a \<Rightarrow> a | None \<Rightarrow> ''unknown'')))"

definition generateKey :: "decoder \<Rightarrow> http_request \<Rightarrow> string \<Rightarrow> string \<Rightarrow> string" where
  "generateKey decode rq suffix nam = ''throttle:'' @ nam @ '':'' @ getTracker decode rq @ '':'' @ suffix"

section \<open>The tiered throttler\<close>

text \<open>
  The guard is one object for all requests.  A request narrows its list of throttlers to its tier,
  waits for the library's check, and puts back the list it found.
\<close>

record throttle_guard =
  throttlers :: "string list"
  in_check :: "(nat \<times> string list) list"
  waved_through :: "(nat \<times> string) list"

definition enter_check :: "nat \<Rightarrow> string option \<Rightarrow> throttle_guard \<Rightarrow> throttle_guard" where
  "enter_check i tr g =
     (let tierName = (case tr of Some t \<Rightarrow> t | None \<Rightarrow> ''default'');
          tierThrottlers = filter (\<lambda>t. t = tierName) (throttlers g)
      in if tierThrottlers = [] then g\<lparr>waved_through := waved_through g @ [(i, tierName)]\<rparr>
         else g\<lparr>throttlers := tierThrottlers, in_check := (i, throttlers g) # in_check g\<rparr>)"

definition leave_check :: "nat \<Rightarrow> throttle_guard \<Rightarrow> throttle_guard" where
  "leave_check i g =
     (case map_of (in_check g) i of
        None \<Rightarrow> g
      | Some original \<Rightarrow> g\<lparr>throttlers := original, in_check := filter (\<lambda>(j, _). j \<noteq> i) (in_check g)\<rparr>)"

datatype throttle_step = Enter nat "string option" | Leave nat

primrec throttle :: "throttle_step \<Rightarrow> throttle_guard \<Rightarrow> throttle_guard" where
  "throttle (Enter i tr) g = enter_check i tr g"
| "throttle (Leave i) g = leave_check i g"

section \<open>Headers and status\<close>



type_synonym 's storage = "string \<Rightarrow> 's \<Rightarrow> (exn, nat) result \<times> 's"

record tier_status =
  status_limit :: int
  status_remaining :: int
  status_reset_at :: instant

definition status_key :: "string \<Rightarrow> string \<Rightarrow> string" where
  "status_key tr user = ''throttle:'' @ tr @ '':user:'' @ user"

definition tier_status_of :: "'s storage \<Rightarrow> instant \<Rightarrow> string \<Rightarrow> string \<Rightarrow> int \<times> int \<Rightarrow> 's \<Rightarrow> tier_status \<times> 's" where
  "tier_status_of incr now user tr = (\<lambda>(lmt, ttl) s.
     let (r, s') = incr (status_key tr user) s;
         used = (case r of Inr n \<Rightarrow> int n | Inl _ \<Rightarrow> 0)
     in (\<lparr>status_limit = lmt, status_remaining = max 0 (lmt - used), status_reset_at = now + ttl\<rparr>, s'))"

primrec getStatus :: "'s storage \<Rightarrow> instant \<Rightarrow> string \<Rightarrow> (string \<times> int \<times> int) list \<Rightarrow> 's \<Rightarrow> (string \<times> tier_status) list \<times> 's" where
  "getStatus incr now user [] s = ([], s)"
| "getStatus incr now user (t # ts) s =
     (let (r, s1) = tier_status_of incr now user (fst t) (snd t) s;
          (rs, s2) = getStatus incr now user ts s1
      in ((fst t, r) # rs, s2))"

definition getTierStatus :: "'s storage \<Rightarrow> instant \<Rightarrow> string \<Rightarrow> string \<Rightarrow> (string \<Rightarrow> (int \<times> int) option) \<Rightarrow> int \<times> int \<Rightarrow> 's \<Rightarrow> tier_status \<times> 's" where
  "getTierStatus incr now user tr tiers dflt s =
     tier_status_of incr now user tr (case tiers tr of Some c \<Rightarrow> c | None \<Rightarrow> dflt) s"

section \<open>Predictions\<close>



section \<open>Identity, roles and bans\<close>

record account =
  acc_user :: user
  is_banned :: bool
  ban_reason :: "string option"

datatype token_info = TokenExpired | JsonWebTokenProblem | OtherInfo

record passport_report =
  pass_err :: bool
  pass_user :: "account option"
  pass_info :: "token_info option"

text \<open>\<open>JwtStrategy.validate\<close>: the subject of a verified token must be a stored user.\<close>

definition validate :: "account list \<Rightarrow> id \<Rightarrow> (exn, account) result" where
  "validate accounts sub =
     (case List.find (\<lambda>a. user_id (acc_user a) = sub) accounts of
        None \<Rightarrow> Inl (Unauthorized ''Unauthorized'')
      | Some a \<Rightarrow> Inr a)"

definition handleRequest :: "passport_report \<Rightarrow> (exn, account) result" where
  "handleRequest p =
     (if pass_info p = Some TokenExpired then Inl (Unauthorized ''Token expired'')
      else if pass_err p \<or> pass_info p = Some JsonWebTokenProblem then Inl (Unauthorized ''Unauthorized'')
      else case pass_user p of None \<Rightarrow> Inl (Unauthorized ''Unauthorized'') | Some a \<Rightarrow> Inr a)"

definition jwt_guard :: "bool option \<Rightarrow> passport_report \<Rightarrow> (exn, account option) result" where
  "jwt_guard isPublic p =
     (if isPublic = Some True then Inr None
      else case handleRequest p of Inl x \<Rightarrow> Inl x | Inr a \<Rightarrow> Inr (Some a))"

definition roles_guard :: "string list option \<Rightarrow> account option \<Rightarrow> bool" where
  "roles_guard requiredRoles a =
     (case requiredRoles of
        None \<Rightarrow> True
      | Some rs \<Rightarrow> list_ex (\<lambda>r. map_option (role \<circ> acc_user) a = Some r) rs)"

definition ban_guard :: "account option \<Rightarrow> (exn, unit) result" where
  "ban_guard a =
     (case a of
        None \<Rightarrow> Inr ()
      | Some x \<Rightarrow>
          if is_banned x
          then Inl (Forbidden (''Your account has been banned. Reason: '' @ (if truthy (ban_reason x) then the (ban_reason x) else ''No reason provided'')))
          else Inr ())"

text \<open>What a route declares, and what its guards decide after the throttler; a guard that answers false is a refusal.\<close>

record route =
  isPublic :: "bool option"
  requiredRoles :: "string list option"
  ban_guarded :: bool

definition admit :: "route \<Rightarrow> passport_report \<Rightarrow> (exn, account option) result" where
  "admit rt p =
     (case jwt_guard (isPublic rt) p of
        Inl x \<Rightarrow> Inl x
      | Inr a \<Rightarrow>
          if \<not> roles_guard (requiredRoles rt) a then Inl (Forbidden ''Forbidden resource'')
          else if ban_guarded rt then (case ban_guard a of Inl x \<Rightarrow> Inl x | Inr _ \<Rightarrow> Inr a)
          else Inr a)"

text \<open>The routes of \<open>auth.controller.ts\<close> with their decorators.\<close>

datatype auth_route = PostChallenge | PostVerify | PostVerifyWallet | GetRateLimit | PostRefresh

definition route_of :: "auth_route \<Rightarrow> route" where
  "route_of r = \<lparr>isPublic = (if r = PostRefresh then Some True else None), requiredRoles = None, ban_guarded = False\<rparr>"

section \<open>What the guards let through\<close>

lemma handleRequest_iff:
  "handleRequest p = Inr a \<longleftrightarrow> pass_user p = Some a \<and> \<not> pass_err p \<and> pass_info p \<notin> {Some TokenExpired, Some JsonWebTokenProblem}"
  by (auto simp: handleRequest_def split: option.splits)

text \<open>
  Which requests reach a handler: on a public route those without role requirements, as nobody; on
  any other route those whose token passport accepted without an error, for a user who holds one of the
  required roles, if the route names any, and who is not banned, if the route guards against bans.
\<close>

theorem admitted_iff:
  "admit rt p = Inr a \<longleftrightarrow>
    (if isPublic rt = Some True then a = None \<and> requiredRoles rt = None
     else \<exists>x. a = Some x \<and> pass_user p = Some x \<and> \<not> pass_err p \<and> pass_info p \<notin> {Some TokenExpired, Some JsonWebTokenProblem} \<and>
       (case requiredRoles rt of None \<Rightarrow> True | Some rs \<Rightarrow> role (acc_user x) \<in> set rs) \<and> \<not> (ban_guarded rt \<and> is_banned x))"
proof (cases "isPublic rt = Some True")
  case True
  then show ?thesis
    by (auto simp: admit_def jwt_guard_def roles_guard_def ban_guard_def list_ex_iff split: option.splits)
next
  case False
  have "admit rt p = Inr a \<longleftrightarrow> (\<exists>x. handleRequest p = Inr x \<and> a = Some x \<and> roles_guard (requiredRoles rt) (Some x) \<and> \<not> (ban_guarded rt \<and> is_banned x))"
    using False by (auto simp: admit_def jwt_guard_def ban_guard_def split: sum.splits if_splits)
  moreover have "roles_guard (requiredRoles rt) (Some x) = (case requiredRoles rt of None \<Rightarrow> True | Some rs \<Rightarrow> role (acc_user x) \<in> set rs)" for x
    by (auto simp: roles_guard_def list_ex_iff split: option.split)
  ultimately show ?thesis using False by (auto simp: handleRequest_iff)
qed






section \<open>Witness\<close>






section \<open>Requests that are checked one at a time\<close>

lemma sequential_check:
  assumes "in_check g = []" "(case tr of Some t \<Rightarrow> t | None \<Rightarrow> ''default'') \<in> set (throttlers g)"
  shows "throttle (Leave i) (throttle (Enter i tr) g) = g"
  using assms by (auto simp: enter_check_def leave_check_def Let_def filter_empty_conv split: option.splits)

section \<open>Weak points\<close>

text \<open>
  The guard shares its list among overlapping requests: a tier that neither the list nor any list put
  aside holds is never checked again.
\<close>

lemma lost_tier_stays_lost:
  assumes "t \<notin> set (throttlers g)" "\<forall>(i, original) \<in> set (in_check g). t \<notin> set original"
  shows "t \<notin> set (throttlers (fold throttle xs g)) \<and> (\<forall>(i, original) \<in> set (in_check (fold throttle xs g)). t \<notin> set original)"
  using assms
proof (induction xs arbitrary: g)
  case (Cons x xs)
  have "t \<notin> set (throttlers (throttle x g)) \<and> (\<forall>(i, original) \<in> set (in_check (throttle x g)). t \<notin> set original)"
    using Cons.prems by (cases x) (auto simp: enter_check_def leave_check_def Let_def dest!: map_of_SomeD split: option.splits)
  with Cons.IH [of "throttle x g"] show ?case by simp
qed simp

text \<open>Two overlapping logins lose every other tier for good: from then on no other route is throttled.\<close>

definition sample_guard :: throttle_guard where
  "sample_guard = \<lparr>throttlers = [''default'', ''auth'', ''read'', ''write''], in_check = [], waved_through = []\<rparr>"

lemma overlapping_requests_lose_tiers:
  "fold throttle [Enter 1 (Some ''auth''), Enter 2 (Some ''auth''), Leave 1, Leave 2, Enter 3 (Some ''write''), Enter 4 None] sample_guard =
    \<lparr>throttlers = [''auth''], in_check = [], waved_through = [(3, ''write''), (4, ''default'')]\<rparr>"
  by code_simp

text \<open>The throttler runs before the token is verified: a forged subject is a bucket of its own.\<close>

lemma forged_subject_new_bucket:
  assumes "decode t = Inr (Some a)" "decode t' = Inr (Some b)" "a \<noteq> b" "a \<noteq> []" "b \<noteq> []"
    "rq_authorization rq = Some (''Bearer '' @ t)" "rq_authorization rq' = Some (''Bearer '' @ t')" "rq_ip rq = rq_ip rq'"
  shows "generateKey decode rq suffix nam \<noteq> generateKey decode rq' suffix nam"
  using assms by (simp add: generateKey_def getTracker_def extractUserId_def bearer_def)

text \<open>The status counts its own calls under a key the guard never uses.\<close>

lemma status_key_is_never_checked:
  assumes "extractUserId decode rq = Some u"
  shows "generateKey decode rq suffix tr \<noteq> status_key tr u"
  using assms by (simp add: generateKey_def getTracker_def status_key_def)

text \<open>The challenge and verification routes are not public: a login needs a token that only a login issues.\<close>

lemma login_needs_login:
  assumes "pass_user p = None" "r \<noteq> PostRefresh"
  shows "\<exists>m. admit (route_of r) p = Inl (Unauthorized m)"
  using assms by (simp add: admit_def jwt_guard_def handleRequest_def route_of_def)

end
