(* ===== verification/Api_Keys.thy ===== *)
theory Api_Keys
  imports Entities Js_Strings
begin

text \<open>
  \<open>auth/api-key.service.ts\<close>, \<open>auth/entities/api-key.entity.ts\<close> and \<open>common/guards/api-key.guard.ts\<close>: keys
  that are created, revoked, rotated with a grace window, and checked on every request.

  bcrypt is an argument: the hash of a new key (with its salt) and the comparison of a raw key with a
  stored hash; so are the clock, the random part of a key and the outcomes of the second write of a
  rotation and of the write of \<open>last_used_at\<close>.
\<close>

section \<open>Keys\<close>

record api_key =
  ak_id :: id
  ak_user :: id
  ak_name :: string
  key_prefix :: string
  key_hash :: string
  scopes :: "string list"
  ak_expires_at :: "instant option"
  ak_revoked_at :: "instant option"
  last_used_at :: "instant option"
  rotated_at :: "instant option"
  grace_expires_at :: "instant option"
  replaced_by_id :: "id option"
  ak_created_at :: instant

type_synonym key_table = "api_key list"

record key_env =
  k_now :: instant
  k_id :: id
  k_random :: string
  k_hash :: "string \<Rightarrow> string"
  k_mark :: "exn option"
  k_touch :: "exn option"

interpretation api_key_table: repository ak_id "find_row ak_id" "save_row ak_id" "unique_keys ak_id"
  by (rule table_repository)

definition LAST_USED_THROTTLE_MS :: int where "LAST_USED_THROTTLE_MS = 60000"

definition DEFAULT_ROTATION_GRACE_MS :: int where "DEFAULT_ROTATION_GRACE_MS = 24 * 60 * 60 * 1000"

definition KEY_PREFIX :: string where "KEY_PREFIX = ''ia_''"

definition past :: "instant \<Rightarrow> instant option \<Rightarrow> bool" where
  "past now t = (case t of Some x \<Rightarrow> x < now | None \<Rightarrow> False)"

definition isActive :: "instant \<Rightarrow> api_key \<Rightarrow> bool" where
  "isActive now k \<longleftrightarrow>
     (if ak_revoked_at k \<noteq> None then False
      else if past now (ak_expires_at k) then False
      else if rotated_at k \<noteq> None \<and> (grace_expires_at k = None \<or> past now (grace_expires_at k)) then False
      else True)"

text \<open>What the owner sees of a key; the hash is not part of it.\<close>

record key_item =
  item_id :: id
  item_name :: string
  item_prefix :: string
  item_scopes :: "string list"
  item_expires_at :: "instant option"
  item_last_used_at :: "instant option"
  item_revoked_at :: "instant option"
  item_rotated_at :: "instant option"
  item_grace_expires_at :: "instant option"
  item_replaced_by_id :: "id option"
  item_created_at :: instant

definition toListItem :: "api_key \<Rightarrow> key_item" where
  "toListItem k = \<lparr>item_id = ak_id k, item_name = ak_name k, item_prefix = key_prefix k, item_scopes = scopes k, item_expires_at = ak_expires_at k,
     item_last_used_at = last_used_at k, item_revoked_at = ak_revoked_at k, item_rotated_at = rotated_at k,
     item_grace_expires_at = grace_expires_at k, item_replaced_by_id = replaced_by_id k, item_created_at = ak_created_at k\<rparr>"

section \<open>Operations\<close>

definition raw_key :: "key_env \<Rightarrow> string" where
  "raw_key env = KEY_PREFIX @ k_random env"

definition new_api_key :: "key_env \<Rightarrow> id \<Rightarrow> string \<Rightarrow> string list \<Rightarrow> instant option \<Rightarrow> api_key" where
  "new_api_key env user nam scs expiry =
     \<lparr>ak_id = k_id env, ak_user = user, ak_name = nam, key_prefix = take 10 (raw_key env), key_hash = k_hash env (raw_key env),
      scopes = scs, ak_expires_at = expiry, ak_revoked_at = None, last_used_at = None, rotated_at = None, grace_expires_at = None,
      replaced_by_id = None, ak_created_at = k_now env\<rparr>"

definition create :: "key_env \<Rightarrow> id \<Rightarrow> string \<Rightarrow> string list \<Rightarrow> instant option \<Rightarrow> (key_table, exn, id \<times> string) action" where
  "create env user nam scs expiry ks = (Inr (k_id env, raw_key env), save_row ak_id (new_api_key env user nam scs expiry) ks)"

definition listForUser :: "id \<Rightarrow> key_table \<Rightarrow> key_item list" where
  "listForUser user ks = map toListItem (sort_key (\<lambda>k. - ak_created_at k) (filter (\<lambda>k. ak_user k = user) ks))"

definition find_owned :: "id \<Rightarrow> id \<Rightarrow> key_table \<Rightarrow> api_key option" where
  "find_owned k user ks = List.find (\<lambda>r. ak_id r = k \<and> ak_user r = user) ks"

definition revoke :: "key_env \<Rightarrow> id \<Rightarrow> id \<Rightarrow> (key_table, exn, key_item) action" where
  "revoke env k user ks =
     (case find_owned k user ks of
        None \<Rightarrow> (Inl (NotFound ''API key not found''), ks)
      | Some r \<Rightarrow>
          if ak_revoked_at r \<noteq> None then (Inl (Forbidden ''API key is already revoked''), ks)
          else let r' = r\<lparr>ak_revoked_at := Some (k_now env)\<rparr> in (Inr (toListItem r'), save_row ak_id r' ks))"

definition validateKey :: "(string \<Rightarrow> string \<Rightarrow> bool) \<Rightarrow> instant \<Rightarrow> string \<Rightarrow> key_table \<Rightarrow> (exn, api_key) result" where
  "validateKey compare now raw ks =
     (if take 3 raw \<noteq> KEY_PREFIX then Inl (Unauthorized ''Invalid API key format'')
      else
        let candidates = filter (\<lambda>k. key_prefix k = take 10 raw) ks
        in if candidates = [] then Inl (Unauthorized ''Invalid API key'')
           else case List.find (\<lambda>k. compare raw (key_hash k)) candidates of
                  None \<Rightarrow> Inl (Unauthorized ''Invalid API key'')
                | Some k \<Rightarrow>
                    if ak_revoked_at k \<noteq> None then Inl (Unauthorized ''API key has been revoked'')
                    else if past now (ak_expires_at k) then Inl (Unauthorized ''API key has expired'')
                    else if rotated_at k \<noteq> None \<and> (grace_expires_at k = None \<or> past now (grace_expires_at k))
                    then Inl (Unauthorized ''API key has been rotated'')
                    else Inr k)"

definition rotate :: "key_env \<Rightarrow> id \<Rightarrow> id \<Rightarrow> int option \<Rightarrow> (key_table, exn, id \<times> string) action" where
  "rotate env k user graceMs ks =
     (case find_owned k user ks of
        None \<Rightarrow> (Inl (NotFound ''API key not found''), ks)
      | Some r \<Rightarrow>
          if ak_revoked_at r \<noteq> None then (Inl (Forbidden ''Cannot rotate a revoked API key''), ks)
          else if rotated_at r \<noteq> None then (Inl (Forbidden ''API key has already been rotated''), ks)
          else
            let replacement = new_api_key env user (ak_name r) (scopes r) (ak_expires_at r);
                ks1 = save_row ak_id replacement ks;
                grace = (case graceMs of Some g \<Rightarrow> g | None \<Rightarrow> DEFAULT_ROTATION_GRACE_MS);
                r' = r\<lparr>rotated_at := Some (k_now env), grace_expires_at := Some (k_now env + grace), replaced_by_id := Some (ak_id replacement)\<rparr>
            in case k_mark env of
                 Some x \<Rightarrow> (Inl x, ks1)
               | None \<Rightarrow> (Inr (ak_id replacement, raw_key env), save_row ak_id r' ks1))"

definition touchLastUsed :: "key_env \<Rightarrow> api_key \<Rightarrow> key_table \<Rightarrow> key_table" where
  "touchLastUsed env k ks =
     (if k_now env - (case last_used_at k of Some t \<Rightarrow> t | None \<Rightarrow> 0) < LAST_USED_THROTTLE_MS then ks
      else case k_touch env of
             Some x \<Rightarrow> ks
           | None \<Rightarrow> update_row ak_id (ak_id k) (\<lambda>r. r\<lparr>last_used_at := Some (k_now env)\<rparr>) ks)"

section \<open>The guard\<close>

definition canActivate_key :: "(string \<Rightarrow> string \<Rightarrow> bool) \<Rightarrow> key_env \<Rightarrow> string option \<Rightarrow> string list option \<Rightarrow> (key_table, exn, api_key) action" where
  "canActivate_key compare env header requiredScopes ks =
     (if \<not> truthy header then (Inl (Unauthorized ''X-API-Key header is required''), ks)
      else case validateKey compare (k_now env) (the header) ks of
             Inl x \<Rightarrow> (Inl x, ks)
           | Inr k \<Rightarrow>
               let missing = filter (\<lambda>s. s \<notin> set (scopes k)) (case requiredScopes of Some ss \<Rightarrow> ss | None \<Rightarrow> [])
               in if missing \<noteq> [] then (Inl (Forbidden ''API key missing required scope(s)''), ks)
                  else (Inr k, touchLastUsed env k ks))"

section \<open>Requests\<close>

datatype key_request =
    CreateKey key_env id string "string list" "instant option"
  | RevokeKey key_env id id
  | RotateKey key_env id id "int option"
  | UseKey key_env "string option" "string list option"

primrec serve_key :: "(string \<Rightarrow> string \<Rightarrow> bool) \<Rightarrow> key_request \<Rightarrow> key_table \<Rightarrow> key_table" where
  "serve_key compare (CreateKey env user nam scs expiry) ks = snd (create env user nam scs expiry ks)"
| "serve_key compare (RevokeKey env k user) ks = snd (revoke env k user ks)"
| "serve_key compare (RotateKey env k user grace) ks = snd (rotate env k user grace ks)"
| "serve_key compare (UseKey env header required) ks = snd (canActivate_key compare env header required ks)"

primrec env_of :: "key_request \<Rightarrow> key_env" where
  "env_of (CreateKey env user nam scs expiry) = env"
| "env_of (RevokeKey env k user) = env"
| "env_of (RotateKey env k user grace) = env"
| "env_of (UseKey env header required) = env"

section \<open>What the table keeps\<close>

text \<open>What the service relies on from bcrypt: a raw key matches a hash only when it is the key that was hashed.\<close>

definition bcrypt_ok :: "(string \<Rightarrow> string \<Rightarrow> bool) \<Rightarrow> key_request \<Rightarrow> bool" where
  "bcrypt_ok compare r \<longleftrightarrow> (\<forall>raw raw'. compare raw (k_hash (env_of r) raw') \<longleftrightarrow> raw = raw')"

text \<open>Identifiers and random parts are generated once.\<close>

definition fresh_keys :: "key_request list \<Rightarrow> bool" where
  "fresh_keys rs \<longleftrightarrow> distinct (map (k_id \<circ> env_of) rs) \<and> distinct (map (raw_key \<circ> env_of) rs)"

definition row_of :: "(string \<Rightarrow> string \<Rightarrow> bool) \<Rightarrow> key_env \<Rightarrow> api_key \<Rightarrow> bool" where
  "row_of compare env k \<longleftrightarrow> ak_id k = k_id env \<and> key_prefix k = take 10 (raw_key env) \<and> (\<forall>raw. compare raw (key_hash k) \<longleftrightarrow> raw = raw_key env)"

definition evolves :: "api_key \<Rightarrow> api_key \<Rightarrow> bool" where
  "evolves k k' \<longleftrightarrow> ak_id k' = ak_id k \<and> ak_user k' = ak_user k \<and> scopes k' = scopes k \<and> key_prefix k' = key_prefix k \<and> key_hash k' = key_hash k \<and>
     ak_expires_at k' = ak_expires_at k \<and> (ak_revoked_at k \<noteq> None \<longrightarrow> ak_revoked_at k' = ak_revoked_at k) \<and>
     (rotated_at k \<noteq> None \<longrightarrow> rotated_at k' = rotated_at k \<and> grace_expires_at k' = grace_expires_at k)"

lemma evolves_refl: "evolves k k"
  by (simp add: evolves_def)

lemma evolves_trans: "evolves k k' \<Longrightarrow> evolves k' k'' \<Longrightarrow> evolves k k''"
  by (auto simp: evolves_def)

lemma evolves_row: "row_of compare env k \<Longrightarrow> evolves k k' \<Longrightarrow> row_of compare env k'"
  by (simp add: row_of_def evolves_def)

lemma past_mono: "past now t \<Longrightarrow> now \<le> now' \<Longrightarrow> past now' t"
  by (auto simp: past_def split: option.splits)

lemma active_before: "evolves k k' \<Longrightarrow> now \<le> now' \<Longrightarrow> isActive now' k' \<Longrightarrow> isActive now k"
  using past_mono [of now _ now'] by (auto simp: evolves_def isActive_def split: if_splits)

text \<open>A request adds at most a row with its own key, and changes the others only in the direction of \<open>evolves\<close>.\<close>

definition table_step :: "key_env \<Rightarrow> key_table \<Rightarrow> key_table \<Rightarrow> bool" where
  "table_step env ks ks' \<longleftrightarrow> unique_keys ak_id ks' \<and> (\<forall>k \<in> set ks. \<exists>k' \<in> set ks'. evolves k k') \<and>
     (\<forall>k' \<in> set ks'. (\<exists>k \<in> set ks. evolves k k') \<or>
        ak_id k' = k_id env \<and> key_prefix k' = take 10 (raw_key env) \<and> key_hash k' = k_hash env (raw_key env))"

lemma table_same: "unique_keys ak_id ks \<Longrightarrow> table_step env ks ks"
  unfolding table_step_def using evolves_refl by blast

lemma table_new:
  assumes "unique_keys ak_id ks" "k_id env \<notin> ak_id ` set ks"
  shows "table_step env ks (save_row ak_id (new_api_key env user nam scs expiry) ks)"
proof -
  let ?k = "new_api_key env user nam scs expiry"
  have k: "ak_id ?k = k_id env" "key_prefix ?k = take 10 (raw_key env)" "key_hash ?k = k_hash env (raw_key env)" by (simp_all add: new_api_key_def)
  have save: "save_row ak_id ?k ks = ks @ [?k]" using assms(2) k(1) by (simp add: save_row_def)
  have "unique_keys ak_id (ks @ [?k])" using assms k(1) by simp
  moreover have "\<exists>x' \<in> set (ks @ [?k]). evolves x x'" if "x \<in> set ks" for x
    using that evolves_refl [of x] by auto
  moreover have "(\<exists>x \<in> set ks. evolves x x') \<or> ak_id x' = k_id env \<and> key_prefix x' = take 10 (raw_key env) \<and> key_hash x' = k_hash env (raw_key env)"
    if "x' \<in> set (ks @ [?k])" for x' using that evolves_refl [of x'] k by auto
  ultimately show ?thesis unfolding table_step_def save by blast
qed

lemma table_update:
  assumes "unique_keys ak_id ks" "\<And>k. k \<in> set ks \<Longrightarrow> evolves k (f k)"
  shows "table_step env ks (map f ks)"
proof -
  have "map ak_id (map f ks) = map ak_id ks" using assms(2) by (simp add: evolves_def)
  then have "unique_keys ak_id (map f ks)" using assms(1) by (simp only:)
  then show ?thesis unfolding table_step_def using assms(2) by auto
qed

lemma table_save:
  assumes "unique_keys ak_id ks" "k \<in> set ks" "evolves k k'"
  shows "table_step env ks (save_row ak_id k' ks)"
proof -
  have "save_row ak_id k' ks = map (\<lambda>x. if x = k then k' else x) ks"
    using assms by (auto simp: save_row_def update_row_def evolves_def distinct_map inj_on_def)
  with table_update [OF assms(1), of "\<lambda>x. if x = k then k' else x"] assms(3) evolves_refl show ?thesis by simp
qed

lemma table_trans:
  assumes "table_step env ks ks1" "table_step env ks1 ks2"
  shows "table_step env ks ks2"
  unfolding table_step_def
proof (intro conjI ballI)
  show "unique_keys ak_id ks2" using assms(2) by (simp add: table_step_def)
  show "\<exists>k' \<in> set ks2. evolves k k'" if "k \<in> set ks" for k
    using assms that evolves_trans unfolding table_step_def by meson
  fix k' assume "k' \<in> set ks2"
  with assms(2) consider k1 where "k1 \<in> set ks1" "evolves k1 k'"
    | "ak_id k' = k_id env \<and> key_prefix k' = take 10 (raw_key env) \<and> key_hash k' = k_hash env (raw_key env)"
    unfolding table_step_def by blast
  then show "(\<exists>k \<in> set ks. evolves k k') \<or> ak_id k' = k_id env \<and> key_prefix k' = take 10 (raw_key env) \<and> key_hash k' = k_hash env (raw_key env)"
  proof cases
    case 1
    with assms(1) consider k where "k \<in> set ks" "evolves k k1" | "ak_id k1 = k_id env" "key_prefix k1 = take 10 (raw_key env)" "key_hash k1 = k_hash env (raw_key env)"
      unfolding table_step_def by blast
    then show ?thesis using 1(2) evolves_trans by cases (blast, simp add: evolves_def)
  qed simp
qed

lemma find_owned_SomeD: "find_owned k user ks = Some r \<Longrightarrow> r \<in> set ks \<and> ak_id r = k \<and> ak_user r = user"
  by (auto simp: find_owned_def find_Some_iff dest: nth_mem)

lemma serve_key_step:
  assumes uk: "unique_keys ak_id ks" and new: "k_id (env_of r) \<notin> ak_id ` set ks"
  shows "table_step (env_of r) ks (serve_key compare r ks)"
proof (cases r)
  case (CreateKey env user nam scs expiry)
  with table_new [OF uk] new show ?thesis by (simp add: create_def)
next
  case (RevokeKey env k user)
  show ?thesis
  proof (cases "find_owned k user ks")
    case (Some x)
    have x: "x \<in> set ks" using find_owned_SomeD [OF Some] by simp
    have "table_step env ks (save_row ak_id (x\<lparr>ak_revoked_at := Some (k_now env)\<rparr>) ks)" if "ak_revoked_at x = None"
      by (rule table_save [OF uk x]) (simp add: evolves_def that)
    with Some RevokeKey table_same [OF uk] show ?thesis by (simp add: revoke_def Let_def)
  qed (simp add: RevokeKey revoke_def table_same [OF uk])
next
  case (RotateKey env k user grace)
  show ?thesis
  proof (cases "find_owned k user ks")
    case (Some x)
    let ?ks1 = "save_row ak_id (new_api_key env user (ak_name x) (scopes x) (ak_expires_at x)) ks"
    have one: "table_step env ks ?ks1" using table_new [OF uk] new RotateKey by simp
    then have uk1: "unique_keys ak_id ?ks1" by (simp add: table_step_def)
    have x: "x \<in> set ?ks1" using find_owned_SomeD [OF Some] new RotateKey by (simp add: save_row_def new_api_key_def)
    have two: "table_step env ks (save_row ak_id (x\<lparr>rotated_at := at, grace_expires_at := g, replaced_by_id := i\<rparr>) ?ks1)" if "rotated_at x = None" for at g i
      by (rule table_trans [OF one table_save [OF uk1 x]]) (simp add: evolves_def that)
    from one two table_same [OF uk] Some RotateKey show ?thesis by (simp add: rotate_def Let_def split: option.split)
  qed (simp add: RotateKey rotate_def table_same [OF uk])
next
  case (UseKey env header required)
  have "table_step env ks (touchLastUsed env k ks)" for k
    unfolding touchLastUsed_def update_row_def using uk by (auto intro!: table_same table_update simp: evolves_def split: option.split)
  with UseKey table_same [OF uk] show ?thesis by (simp add: canActivate_key_def Let_def split: sum.split)
qed

text \<open>Every row carries the key of the request that created it.\<close>

definition keys_ok :: "(string \<Rightarrow> string \<Rightarrow> bool) \<Rightarrow> key_request list \<Rightarrow> key_table \<Rightarrow> bool" where
  "keys_ok compare rs ks \<longleftrightarrow> unique_keys ak_id ks \<and> (\<forall>k \<in> set ks. \<exists>r \<in> set rs. row_of compare (env_of r) k)"

lemma keys_keep:
  assumes "fresh_keys (rs @ rs')" "list_all (bcrypt_ok compare) rs'" "keys_ok compare rs ks"
  shows "keys_ok compare (rs @ rs') (fold (serve_key compare) rs' ks) \<and> (\<forall>k \<in> set ks. \<exists>k' \<in> set (fold (serve_key compare) rs' ks). evolves k k') \<and>
    (\<forall>k' \<in> set (fold (serve_key compare) rs' ks). (\<exists>k \<in> set ks. evolves k k') \<or> (\<exists>r \<in> set rs'. ak_id k' = k_id (env_of r)))"
  using assms
proof (induction rs' arbitrary: rs ks)
  case Nil
  then show ?case using evolves_refl by (simp, blast)
next
  case (Cons r rs')
  let ?ks = "serve_key compare r ks"
  have uk: "unique_keys ak_id ks" using Cons.prems(3) by (simp add: keys_ok_def)
  have "k_id (env_of r) \<notin> (k_id \<circ> env_of) ` set rs" using Cons.prems(1) by (auto simp: fresh_keys_def)
  moreover have "ak_id ` set ks \<subseteq> (k_id \<circ> env_of) ` set rs" using Cons.prems(3) by (fastforce simp: keys_ok_def row_of_def)
  ultimately have new: "k_id (env_of r) \<notin> ak_id ` set ks" by blast
  note step = serve_key_step [OF uk new, of compare, unfolded table_step_def]
  have "\<exists>q \<in> set (rs @ [r]). row_of compare (env_of q) k'" if k': "k' \<in> set ?ks" for k'
  proof -
    from step k' consider k where "k \<in> set ks" "evolves k k'"
      | "ak_id k' = k_id (env_of r)" "key_prefix k' = take 10 (raw_key (env_of r))" "key_hash k' = k_hash (env_of r) (raw_key (env_of r))" by blast
    then show ?thesis
    proof cases
      case 1
      with Cons.prems(3) evolves_row show ?thesis unfolding keys_ok_def by fastforce
    next
      case 2
      with Cons.prems(2) have "row_of compare (env_of r) k'" by (simp add: row_of_def bcrypt_ok_def)
      then show ?thesis by simp
    qed
  qed
  with step have ok: "keys_ok compare (rs @ [r]) ?ks" by (simp add: keys_ok_def)
  from Cons.IH [OF _ _ ok] Cons.prems(1,2)
  have IH: "keys_ok compare (rs @ r # rs') (fold (serve_key compare) rs' ?ks)" "\<forall>k \<in> set ?ks. \<exists>k' \<in> set (fold (serve_key compare) rs' ?ks). evolves k k'"
    "\<forall>k' \<in> set (fold (serve_key compare) rs' ?ks). (\<exists>k \<in> set ?ks. evolves k k') \<or> (\<exists>r \<in> set rs'. ak_id k' = k_id (env_of r))" by simp_all
  have "(\<exists>k \<in> set ks. evolves k k') \<or> (\<exists>q \<in> set (r # rs'). ak_id k' = k_id (env_of q))" if k': "k' \<in> set (fold (serve_key compare) rs' ?ks)" for k'
  proof -
    from IH(3) k' consider k1 where "k1 \<in> set ?ks" "evolves k1 k'" | "\<exists>q \<in> set rs'. ak_id k' = k_id (env_of q)" by blast
    then show ?thesis
    proof cases
      case 1
      with step consider k where "k \<in> set ks" "evolves k k1" | "ak_id k1 = k_id (env_of r)" by blast
      then show ?thesis using 1(2) evolves_trans by cases (blast, simp add: evolves_def)
    qed simp
  qed
  moreover have "\<exists>k' \<in> set (fold (serve_key compare) rs' ?ks). evolves k k'" if "k \<in> set ks" for k
    using step IH(2) that evolves_trans by meson
  ultimately show ?case using IH(1) by simp
qed

lemma fresh_same:
  assumes "fresh_keys rs" "r \<in> set rs" "q \<in> set rs"
  shows "raw_key (env_of r) = raw_key (env_of q) \<Longrightarrow> r = q" "k_id (env_of r) = k_id (env_of q) \<Longrightarrow> r = q"
  using assms by (auto simp: fresh_keys_def distinct_map inj_on_def)

lemma raw_key_prefix: "take 3 (raw_key env) = KEY_PREFIX"
  by (simp add: raw_key_def KEY_PREFIX_def)

lemma validate_iff:
  assumes "fresh_keys rs" "keys_ok compare rs ks"
  shows "validateKey compare now raw ks = Inr k \<longleftrightarrow>
    k \<in> set ks \<and> isActive now k \<and> (\<exists>r \<in> set rs. ak_id k = k_id (env_of r) \<and> raw = raw_key (env_of r))"
proof -
  let ?c = "filter (\<lambda>k. key_prefix k = take 10 raw) ks"
  have rows: "\<exists>r \<in> set rs. row_of compare (env_of r) k" if "k \<in> set ks" for k using assms(2) that by (simp add: keys_ok_def)
  have one: "List.find (\<lambda>k. compare raw (key_hash k)) ?c = Some k \<longleftrightarrow>
      k \<in> set ks \<and> (\<exists>r \<in> set rs. ak_id k = k_id (env_of r) \<and> raw = raw_key (env_of r))" (is "?find = Some k \<longleftrightarrow> ?row k") for k
  proof
    assume "?find = Some k"
    then have k: "k \<in> set ks" "compare raw (key_hash k)" by (auto simp: find_Some_iff dest: nth_mem)
    with rows [OF k(1)] show "?row k" by (auto simp: row_of_def)
  next
    assume "?row k"
    then obtain r where r: "k \<in> set ks" "r \<in> set rs" "ak_id k = k_id (env_of r)" "raw = raw_key (env_of r)" by blast
    from rows [OF r(1)] obtain q where q: "q \<in> set rs" "row_of compare (env_of q) k" by blast
    have "q = r" using fresh_same(2) [OF assms(1) q(1) r(2)] q(2) r(3) by (simp add: row_of_def)
    with q r have k: "k \<in> set ?c" "compare raw (key_hash k)" by (simp_all add: row_of_def)
    then obtain k' where k': "?find = Some k'" by (cases ?find) (auto simp: find_None_iff)
    then have k1: "k' \<in> set ks" "compare raw (key_hash k')" by (auto simp: find_Some_iff dest: nth_mem)
    from rows [OF k1(1)] obtain q' where q': "q' \<in> set rs" "row_of compare (env_of q') k'" by blast
    have "raw = raw_key (env_of q')" using q'(2) k1(2) unfolding row_of_def by blast
    then have "raw_key (env_of q') = raw_key (env_of r)" using r(4) by (rule subst)
    then have "q' = r" by (rule fresh_same(1) [OF assms(1) q'(1) r(2)])
    then have "ak_id k' = ak_id k" using q'(2) r(3) by (simp add: row_of_def)
    moreover have "inj_on ak_id (set ks)" using assms(2) by (simp add: keys_ok_def distinct_map)
    ultimately have "k' = k" using k1(1) r(1) by (simp add: inj_on_def)
    with k' show "?find = Some k" by simp
  qed
  have raw: "take 3 raw = KEY_PREFIX" if "raw = raw_key (env_of r)" for r using that raw_key_prefix by simp
  have "validateKey compare now raw ks = Inr k \<longleftrightarrow> take 3 raw = KEY_PREFIX \<and> List.find (\<lambda>k. compare raw (key_hash k)) ?c = Some k \<and> isActive now k"
    by (auto simp: validateKey_def isActive_def Let_def split: option.splits)
  with one [of k] raw show ?thesis by blast
qed

section \<open>Properties\<close>


text \<open>
  A key once refused is refused ever after, whatever requests follow: neither revocation nor expiry
  nor the end of a grace window is ever undone; and the key that is accepted belongs to the user and
  carries the scopes and the expiry it had before.
\<close>

theorem refused_key_stays_refused:
  assumes "fresh_keys (rs @ rs')" "list_all (bcrypt_ok compare) (rs @ rs')" "ks = fold (serve_key compare) rs []" "ks' = fold (serve_key compare) rs' ks"
    "r \<in> set rs" "now \<le> now'" "validateKey compare now' (raw_key (env_of r)) ks' = Inr k'"
  shows "\<exists>k. validateKey compare now (raw_key (env_of r)) ks = Inr k \<and> ak_id k = ak_id k' \<and> ak_user k = ak_user k' \<and> scopes k = scopes k' \<and>
    ak_expires_at k = ak_expires_at k'"
proof -
  have fresh: "fresh_keys rs" using assms(1) by (auto simp: fresh_keys_def)
  have ok: "keys_ok compare rs ks" using keys_keep [of "[]" rs compare "[]"] fresh assms(2,3) by (simp add: keys_ok_def)
  have ok': "keys_ok compare (rs @ rs') ks'"
    and old: "\<And>k'. k' \<in> set ks' \<Longrightarrow> (\<exists>k \<in> set ks. evolves k k') \<or> (\<exists>r \<in> set rs'. ak_id k' = k_id (env_of r))"
    using keys_keep [OF assms(1) _ ok] assms(2,4) by simp_all
  from assms(7) obtain q where k': "k' \<in> set ks'" "isActive now' k'" "q \<in> set (rs @ rs')" "ak_id k' = k_id (env_of q)" "raw_key (env_of r) = raw_key (env_of q)"
    unfolding validate_iff [OF assms(1) ok'] by blast
  have "q = r" using fresh_same(1) [OF assms(1) k'(3), of r] assms(5) k'(5) by simp
  moreover have "r \<notin> set rs'" using assms(1,5) by (auto simp: fresh_keys_def)
  ultimately have "\<not> (\<exists>p \<in> set rs'. ak_id k' = k_id (env_of p))" using k'(4) fresh_same(2) [OF assms(1), of r] assms(5) by auto
  with old [OF k'(1)] obtain k where k: "k \<in> set ks" "evolves k k'" by blast
  have "validateKey compare now (raw_key (env_of r)) ks = Inr k"
  proof (unfold validate_iff [OF fresh ok], intro conjI bexI [of _ r])
    show "k \<in> set ks" "isActive now k" "r \<in> set rs" "raw_key (env_of r) = raw_key (env_of r)"
      using k(1) active_before [OF k(2) assms(6) k'(2)] assms(5) by simp_all
    show "ak_id k = k_id (env_of r)" using k(2) k'(4) \<open>q = r\<close> by (simp add: evolves_def)
  qed
  with k(2) show ?thesis by (auto simp: evolves_def)
qed

section \<open>Witnesses\<close>

text \<open>The examples hash by prefixing a salt that depends on the request.\<close>

definition sample_key_env :: "instant \<Rightarrow> string \<Rightarrow> key_env" where
  "sample_key_env now key = \<lparr>k_now = now, k_id = ''id'' @ key, k_random = key, k_hash = (\<lambda>raw. ''$'' @ raw), k_mark = None, k_touch = None\<rparr>"

definition sample_compare :: "string \<Rightarrow> string \<Rightarrow> bool" where
  "sample_compare raw h \<longleftrightarrow> h = ''$'' @ raw"

definition sample_keys :: "key_request list" where
  "sample_keys = [CreateKey (sample_key_env 10 ''aa'') ''u'' ''bot'' [''markets:read''] None, RotateKey (sample_key_env 20 ''bb'') ''idaa'' ''u'' (Some 100)]"

lemma sample_bcrypt: "bcrypt_ok sample_compare (CreateKey (sample_key_env n k) u m ss x)" "bcrypt_ok sample_compare (RotateKey (sample_key_env n k) i u g)"
  "bcrypt_ok sample_compare (RevokeKey (sample_key_env n k) i u)"
  by (auto simp: bcrypt_ok_def sample_compare_def sample_key_env_def)

lemma sample_keys_fresh: "fresh_keys (sample_keys @ [RevokeKey (sample_key_env 40 ''cc'') ''idbb'' ''u''])" "fresh_keys sample_keys"
  by code_simp+

definition sample_table :: key_table where
  "sample_table = fold (serve_key sample_compare) sample_keys []"

lemma sample_table_runs:
  "map (\<lambda>k. (ak_id k, isActive 50 k, isActive 121 k)) sample_table = [(''idaa'', True, False), (''idbb'', True, True)]"
  by code_simp


theorem refused_key_stays_refused_witness:
  "list_ex (\<lambda>k. ak_id k = ''idaa'' \<and> scopes k = [''markets:read'']) sample_table"
proof -
  let ?rs' = "[RevokeKey (sample_key_env 40 ''cc'') ''idbb'' ''u'']"
  have ok: "list_all (bcrypt_ok sample_compare) (sample_keys @ ?rs')" by (simp add: sample_keys_def sample_bcrypt)
  let ?k = "hd (fold (serve_key sample_compare) ?rs' sample_table)"
  have run: "validateKey sample_compare 60 (raw_key (env_of (hd sample_keys))) (fold (serve_key sample_compare) ?rs' sample_table) = Inr ?k"
    "ak_id ?k = ''idaa''" "scopes ?k = [''markets:read'']" by code_simp+
  have ne: "sample_keys \<noteq> []" by (simp add: sample_keys_def)
  from refused_key_stays_refused [OF sample_keys_fresh(1) ok sample_table_def refl hd_in_set [OF ne] order_refl run(1)]
  obtain k where k: "validateKey sample_compare 60 (raw_key (env_of (hd sample_keys))) sample_table = Inr k" "ak_id k = ''idaa''" "scopes k = [''markets:read'']"
    using run(2,3) by auto
  from k(1) have "k \<in> set sample_table" by (auto simp: validateKey_def Let_def find_Some_iff dest: nth_mem split: if_splits option.splits)
  with k show ?thesis by (auto simp: list_ex_iff)
qed

section \<open>Rotation\<close>

text \<open>
  After a rotation the old key is accepted exactly when it was accepted before and the grace window is
  open; the new row has the name, owner, scopes and expiry of the old one.
\<close>

lemma rotation_within_grace:
  assumes "rotate env k user graceMs ks = (Inr (i, raw), ks')" "unique_keys ak_id ks" "k_id env \<notin> ak_id ` set ks"
  shows "\<exists>r r' n. r \<in> set ks \<and> ak_id r = k \<and> r' \<in> set ks' \<and> n \<in> set ks' \<and> ak_id r' = k \<and> ak_id n = i \<and>
    (\<forall>now. isActive now r' \<longleftrightarrow> isActive now r \<and> now \<le> k_now env + (case graceMs of Some g \<Rightarrow> g | None \<Rightarrow> DEFAULT_ROTATION_GRACE_MS)) \<and>
    ak_user n = user \<and> ak_user r = user \<and> scopes n = scopes r \<and> ak_expires_at n = ak_expires_at r \<and> ak_name n = ak_name r"
proof -
  let ?g = "case graceMs of Some g \<Rightarrow> g | None \<Rightarrow> DEFAULT_ROTATION_GRACE_MS"
  from assms(1) obtain r where r: "find_owned k user ks = Some r" "ak_revoked_at r = None" "rotated_at r = None" "i = k_id env"
    and ks': "ks' = save_row ak_id (r\<lparr>rotated_at := Some (k_now env), grace_expires_at := Some (k_now env + ?g), replaced_by_id := Some (k_id env)\<rparr>)
      (save_row ak_id (new_api_key env user (ak_name r) (scopes r) (ak_expires_at r)) ks)"
    by (auto simp: rotate_def Let_def new_api_key_def split: option.splits if_splits)
  let ?n = "new_api_key env user (ak_name r) (scopes r) (ak_expires_at r)"
  let ?r' = "r\<lparr>rotated_at := Some (k_now env), grace_expires_at := Some (k_now env + ?g), replaced_by_id := Some (k_id env)\<rparr>"
  have own: "r \<in> set ks" "ak_id r = k" "ak_user r = user" using find_owned_SomeD [OF r(1)] by simp_all
  have ks1: "save_row ak_id ?n ks = ks @ [?n]" using assms(3) by (simp add: save_row_def new_api_key_def)
  have neq: "ak_id ?n \<noteq> ak_id r" using own(1) assms(3) by (auto simp: new_api_key_def)
  have "?r' \<in> set ks'" "?n \<in> set ks'" using own(1) neq unfolding ks' ks1 by (force simp: save_row_def set_update_row)+
  moreover have "isActive now ?r' \<longleftrightarrow> isActive now r \<and> now \<le> k_now env + ?g" for now
    using r(2,3) by (auto simp: isActive_def past_def)
  ultimately show ?thesis using own r(4) by (intro exI [of _ r] exI [of _ ?r'] exI [of _ ?n]) (simp add: new_api_key_def)
qed

section \<open>Weak points\<close>

text \<open>Revoking the replacement leaves the rotated-out key valid for the rest of its grace window.\<close>

lemma revoked_replacement_leaves_old_key:
  "map (isActive 60) (fold (serve_key sample_compare) [RevokeKey (sample_key_env 40 ''cc'') ''idbb'' ''u''] sample_table) = [True, False]"
  by code_simp

text \<open>When the second write of a rotation fails, a replacement nobody received stays active, and the old key can be rotated again.\<close>

lemma failed_rotation_leaves_key:
  "map (\<lambda>k. (ak_id k, isActive 60 k, rotated_at k))
     (fold (serve_key sample_compare) [hd sample_keys, RotateKey ((sample_key_env 20 ''bb'')\<lparr>k_mark := Some QueryFailed\<rparr>) ''idaa'' ''u'' None] []) =
   [(''idaa'', True, None), (''idbb'', True, None)]"
  by code_simp

end
