(* ===== verification/Base64.thy ===== *)
theory Base64
  imports Js_Strings
begin

text \<open>
  What the cursors of the leaderboard use of JavaScript's strings: \<open>Buffer\<close> to and from base64 (decoding
  skips what is not in the alphabet and accepts the URL-safe letters), \<open>split\<close> at a character, and
  \<open>parseInt\<close>.  Strings are sequences of bytes.
\<close>

section \<open>base64\<close>

definition b64_char :: "nat \<Rightarrow> char" where
  "b64_char n =
     (if n < 26 then char_of (65 + n) else if n < 52 then char_of (71 + n) else if n < 62 then char_of (n - 4)
      else if n = 62 then CHR ''+'' else CHR ''/'')"

definition b64_val :: "char \<Rightarrow> nat option" where
  "b64_val c =
     (if 65 \<le> code c \<and> code c \<le> 90 then Some (code c - 65)
      else if 97 \<le> code c \<and> code c \<le> 122 then Some (code c - 71)
      else if 48 \<le> code c \<and> code c \<le> 57 then Some (code c + 4)
      else if c = CHR ''+'' \<or> c = CHR ''-'' then Some 62
      else if c = CHR ''/'' \<or> c = CHR ''_'' then Some 63
      else None)"

fun to_base64 :: "string \<Rightarrow> string" where
  "to_base64 [] = []"
| "to_base64 [a] = (let n = code a * 16 in [b64_char (n div 64), b64_char (n mod 64), CHR ''='', CHR ''=''])"
| "to_base64 [a, b] =
     (let n = (code a * 256 + code b) * 4
      in [b64_char (n div 4096), b64_char (n div 64 mod 64), b64_char (n mod 64), CHR ''=''])"
| "to_base64 (a # b # c # xs) =
     (let n = (code a * 256 + code b) * 256 + code c
      in [b64_char (n div 262144), b64_char (n div 4096 mod 64), b64_char (n div 64 mod 64), b64_char (n mod 64)] @ to_base64 xs)"

fun from_digits :: "nat list \<Rightarrow> string" where
  "from_digits (p # q # r # s # xs) =
     (let n = ((p * 64 + q) * 64 + r) * 64 + s
      in [char_of (n div 65536), char_of (n div 256 mod 256), char_of (n mod 256)] @ from_digits xs)"
| "from_digits [p, q, r] = (let n = (p * 64 + q) * 64 + r in [char_of (n div 1024), char_of (n div 4 mod 256)])"
| "from_digits [p, q] = [char_of ((p * 64 + q) div 16)]"
| "from_digits [p] = []"
| "from_digits [] = []"

definition from_base64 :: "string \<Rightarrow> string" where
  "from_base64 s = from_digits (List.map_filter b64_val s)"

lemma code_less: "code c < 256"
  by (simp add: code_def)

lemma char_of_code [simp]: "char_of (code c) = c"
  by (simp add: code_def)

lemma code_char_of: "n < 256 \<Longrightarrow> code (char_of n) = n"
  by (simp add: code_def)

lemma b64_val_char [simp]: "n < 64 \<Longrightarrow> b64_val (b64_char n) = Some n"
proof -
  assume "n < 64"
  then consider "n < 26" | "26 \<le> n" "n < 52" | "52 \<le> n" "n < 62" | "n = 62" | "n = 63" by linarith
  then show ?thesis
  proof cases
    case 3
    then obtain m where "n = 52 + m" "m < 10" using le_Suc_ex by force
    then show ?thesis by (simp add: b64_val_def b64_char_def code_char_of)
  qed (simp_all add: b64_val_def b64_char_def code_char_of code_def)
qed

lemma b64_val_pad [simp]: "b64_val (CHR ''='') = None"
  by (simp add: b64_val_def code_def)

lemma map_filter_b64 [simp]: "List.map_filter b64_val (c # cs) = (case b64_val c of Some n \<Rightarrow> [n] | None \<Rightarrow> []) @ List.map_filter b64_val cs"
  by (simp add: List.map_filter_simps split: option.split)

lemma byte_split: "c < 256 \<Longrightarrow> (m * 256 + c) div 256 = m" "c < 256 \<Longrightarrow> (m * 256 + c) mod 256 = (c :: nat)"
  by simp_all

lemma three_digits: "(n div 4096 * 64 + n div 64 mod 64) * 64 + n mod 64 = (n :: nat)"
proof -
  have "n div 4096 = n div 64 div 64" by (simp add: div_mult2_eq [symmetric])
  then show ?thesis by simp
qed

lemma four_digits: "((n div 262144 * 64 + n div 4096 mod 64) * 64 + n div 64 mod 64) * 64 + n mod 64 = (n :: nat)"
proof -
  have "n div 262144 = n div 64 div 4096" "n div 4096 = n div 64 div 64" by (simp_all add: div_mult2_eq [symmetric])
  with three_digits [of "n div 64"] show ?thesis by simp
qed

lemma from_to_base64: "from_base64 (to_base64 s) = s"
proof (induction s rule: to_base64.induct)
  case (2 a)
  have "code a * 16 div 64 < 64" using code_less [of a] by simp
  moreover have "(code a div 4 * 64 + code a * 16 mod 64) div 16 = code a"
  proof -
    have "code a * 16 mod 64 = code a mod 4 * 16" using mod_mult_mult2 [of "code a" 16 4] by simp
    then have "code a div 4 * 64 + code a * 16 mod 64 = (code a div 4 * 4 + code a mod 4) * 16" by (simp only: distrib_right)
    then show ?thesis by simp
  qed
  ultimately show ?case by (simp add: from_base64_def Let_def List.map_filter_simps)
next
  case (3 a b)
  let ?n = "(code a * 256 + code b) * 4"
  have n: "?n div 4096 < 64" using code_less [of a] code_less [of b] by simp
  have d: "?n div 1024 = code a" "?n div 4 mod 256 = code b" using code_less [of a] code_less [of b] by simp_all
  have "from_base64 (to_base64 [a, b]) = from_digits [?n div 4096, ?n div 64 mod 64, ?n mod 64]"
    using n by (simp add: from_base64_def Let_def del: div_mult_self1 div_mult_self2)
  also have "\<dots> = [a, b]" unfolding from_digits.simps Let_def three_digits d by simp
  finally show ?case .
next
  case (4 a b c xs)
  let ?n = "(code a * 256 + code b) * 256 + code c"
  have n: "?n div 262144 < 64" using code_less [of a] code_less [of b] code_less [of c] by simp
  have d: "?n div 65536 = code a" using code_less [of a] code_less [of b] code_less [of c] by simp
  have e: "?n div 256 mod 256 = code b" "?n mod 256 = code c" using code_less [of b] code_less [of c] by (simp_all only: byte_split)
  have "from_base64 (to_base64 (a # b # c # xs)) =
      from_digits (?n div 262144 # ?n div 4096 mod 64 # ?n div 64 mod 64 # ?n mod 64 # List.map_filter b64_val (to_base64 xs))"
    using n by (simp add: from_base64_def Let_def)
  also have "\<dots> = a # b # c # xs" unfolding from_digits.simps Let_def four_digits d e using 4 by (simp add: from_base64_def)
  finally show ?case .
qed (simp add: from_base64_def List.map_filter_simps)

section \<open>split and parseInt\<close>

fun split_at :: "char \<Rightarrow> string \<Rightarrow> string list" where
  "split_at c [] = [[]]"
| "split_at c (x # xs) =
     (if x = c then [] # split_at c xs
      else case split_at c xs of y # ys \<Rightarrow> (x # y) # ys | [] \<Rightarrow> [[x]])"

lemma split_at_nonempty: "split_at c s \<noteq> []"
  by (cases s) (auto split: list.split)

lemma split_at_append: "c \<notin> set xs \<Longrightarrow> split_at c (xs @ c # ys) = xs # split_at c ys"
  by (induction xs) auto

lemma split_at_none: "c \<notin> set xs \<Longrightarrow> split_at c xs = [xs]"
  by (induction xs) auto

lemma show_nat_is_digit: "c \<in> set (show_nat n) \<Longrightarrow> is_digit c"
  using show_nat_digits [of n] by (auto simp: is_digit_def code_digit_char)

lemma digits_of_show_nat: "takeWhile is_digit (show_nat n) = show_nat n"
  using show_nat_is_digit by (simp add: takeWhile_eq_all_conv)

lemma show_nat_colon: "c \<in> set (show_nat n) \<Longrightarrow> c \<noteq> CHR '':''"
  using show_nat_is_digit [of c n] by (auto simp: is_digit_def code_def)

lemma bigint_to_string_colon: "CHR '':'' \<notin> set (bigint_to_string n)"
  using show_nat_colon by (auto simp: bigint_to_string_def)

lemma parseInt_bigint_to_string: "parseInt (bigint_to_string n) = Some n"
proof (cases "n < 0")
  case True
  then show ?thesis
    by (simp add: bigint_to_string_def parseInt_def parse_digit_prefix_def digits_of_show_nat parse_show_nat minus_no_space)
next
  case False
  obtain c cs where s: "show_nat (nat n) = c # cs" by (cases "show_nat (nat n)") auto
  have "is_digit c" using show_nat_is_digit [of c "nat n"] s by simp
  then have "\<not> is_js_space c" "c \<noteq> CHR ''-''" "c \<noteq> CHR ''+''"
    by (auto simp: is_digit_def is_js_space_def code_def)
  with False s show ?thesis
    using digits_of_show_nat [of "nat n"] parse_show_nat [of "nat n"]
    by (simp add: bigint_to_string_def parseInt_def parse_digit_prefix_def)
qed

end
