(* ===== verification/Leaderboard.thy ===== *)
theory Leaderboard
  imports Entities Base64 "HOL-Library.List_Lexorder" "HOL-Library.Char_ord" "HOL-Library.Product_Lexorder"
begin

text \<open>
  \<open>leaderboard/leaderboard.service.ts\<close> and its scheduler: ranks, their history and snapshots, the pages of the
  board with their cursors and caches.  The coach of the same service is in \<open>Coach\<close>.

  A stored time of creation has microseconds, of which a JavaScript \<open>Date\<close> keeps the milliseconds.  The
  accuracy of an entry is kept as its two counts; its rendering with one decimal is left out.  Numbers
  in a cursor are integers: fractions and exponents, which no issued cursor has, are refused here.
  The clock, the calendar day of the server, fresh identifiers and the answers of the seasons service are
  arguments.
\<close>

section \<open>Rows\<close>

record board_user =
  bu_id :: id
  bu_username :: "string option"
  bu_address :: string
  bu_reputation :: int
  bu_season_points :: int
  bu_total :: nat
  bu_correct :: nat
  bu_winnings :: stroops
  bu_created_at :: instant
  bu_deleted :: bool

record leaderboard_entry =
  le_id :: id
  le_user :: id
  le_season :: "id option"
  le_rank :: int
  le_reputation :: int
  le_season_points :: int
  le_total :: nat
  le_correct :: nat
  le_winnings :: stroops
  le_created_us :: int

record leaderboard_history =
  lh_user :: id
  lh_date :: int
  lh_rank :: int
  lh_reputation :: int
  lh_season_points :: int
  lh_total :: nat
  lh_correct :: nat
  lh_winnings :: stroops
  lh_season :: "id option"

record leaderboard_snapshot =
  ls_user :: id
  ls_season :: "id option"
  ls_captured_at :: instant
  ls_rank :: int
  ls_score :: int

record entry_view =
  view_rank :: int
  view_user :: id
  view_username :: "string option"
  view_address :: string
  view_reputation :: int
  view_accuracy :: "nat \<times> nat"
  view_winnings :: stroops
  view_season_points :: int

record cursor_page =
  page_data :: "(entry_view \<times> string) list"
  nextCursor :: "string option"
  hasMore :: bool
  page_limit :: nat

record board =
  board_users :: "board_user list"
  board_rows :: "leaderboard_entry list"
  history_rows :: "leaderboard_history list"
  snapshot_rows :: "leaderboard_snapshot list"
  page_cache :: "(string \<times> cursor_page \<times> instant) list"
  top_cache :: "(string \<times> entry_view list \<times> instant) list"

definition CACHE_TTL_MS :: int where "CACHE_TTL_MS = 1 * 60 * 60 * 1000"

definition cache_get :: "instant \<Rightarrow> string \<Rightarrow> (string \<times> 'v \<times> instant) list \<Rightarrow> 'v option" where
  "cache_get now k c = (case map_of c k of Some (v, t) \<Rightarrow> if now < t then Some v else None | None \<Rightarrow> None)"

definition cache_put :: "instant \<Rightarrow> string \<Rightarrow> 'v \<Rightarrow> int \<Rightarrow> (string \<times> 'v \<times> instant) list \<Rightarrow> (string \<times> 'v \<times> instant) list" where
  "cache_put now k v ttl c = (k, v, now + ttl) # filter (\<lambda>(x, _). x \<noteq> k) c"

definition cache_del :: "string \<Rightarrow> (string \<times> 'v \<times> instant) list \<Rightarrow> (string \<times> 'v \<times> instant) list" where
  "cache_del k c = filter (\<lambda>(x, _). x \<noteq> k) c"

definition leaderboardCursor_key :: "id option \<Rightarrow> nat \<Rightarrow> string" where
  "leaderboardCursor_key season page =
     ''leaderboard:cursor:'' @ (case season of Some s \<Rightarrow> s | None \<Rightarrow> ''all'') @ '':page:'' @ show_nat page"

definition leaderboardTopN_key :: "nat \<Rightarrow> id option \<Rightarrow> string" where
  "leaderboardTopN_key n season = ''leaderboard:top:'' @ show_nat n @ '':'' @ (case season of Some s \<Rightarrow> s | None \<Rightarrow> ''all'')"

section \<open>The order of a board\<close>

definition score_of :: "id option \<Rightarrow> leaderboard_entry \<Rightarrow> int" where
  "score_of season e = (if season \<noteq> None then le_season_points e else le_reputation e)"

definition board_key :: "id option \<Rightarrow> leaderboard_entry \<Rightarrow> int \<times> int \<times> int \<times> string" where
  "board_key season e = (- score_of season e, le_rank e, le_created_us e, le_user e)"

definition board_of :: "id option \<Rightarrow> board \<Rightarrow> leaderboard_entry list" where
  "board_of season b = sort_key (board_key season) (filter (\<lambda>e. le_season e = season) (board_rows b))"

definition find_board_user :: "id \<Rightarrow> board \<Rightarrow> board_user option" where
  "find_board_user k b = find_row bu_id k (board_users b)"

definition view_of :: "board \<Rightarrow> leaderboard_entry \<Rightarrow> entry_view" where
  "view_of b e =
     (let u = find_board_user (le_user e) b
      in \<lparr>view_rank = le_rank e, view_user = le_user e, view_username = Option.bind u bu_username,
          view_address = (case u of Some x \<Rightarrow> bu_address x | None \<Rightarrow> []), view_reputation = le_reputation e,
          view_accuracy = (if le_total e > 0 then (le_correct e, le_total e) else (0, 1)), view_winnings = le_winnings e,
          view_season_points = le_season_points e\<rparr>)"

definition page_skip :: "nat option \<Rightarrow> nat \<Rightarrow> nat" where
  "page_skip page lmt = ((case page of Some p \<Rightarrow> p | None \<Rightarrow> 1) - 1) * lmt"

definition capped :: "nat option \<Rightarrow> nat" where
  "capped lmt = min (case lmt of Some n \<Rightarrow> n | None \<Rightarrow> 20) 100"

text \<open>The latest snapshot of a user: \<open>DISTINCT ON\<close> the user, by time of capture.\<close>

definition latest_snapshot :: "id \<Rightarrow> id option \<Rightarrow> board \<Rightarrow> leaderboard_snapshot option" where
  "latest_snapshot user season b =
     (case sort_key (\<lambda>s. - ls_captured_at s) (filter (\<lambda>s. ls_user s = user \<and> ls_season s = season) (snapshot_rows b)) of
        [] \<Rightarrow> None
      | s # _ \<Rightarrow> Some s)"

definition getLeaderboard :: "nat option \<Rightarrow> nat option \<Rightarrow> id option \<Rightarrow> board \<Rightarrow> (entry_view \<times> int option) list \<times> nat" where
  "getLeaderboard page lmt season b =
     (let rows = board_of season b;
          data = take (capped lmt) (drop (page_skip page (capped lmt)) rows)
      in (map (\<lambda>e. (view_of b e, map_option (\<lambda>s. ls_rank s - le_rank e) (latest_snapshot (le_user e) season b))) data, length rows))"

definition getTopLeaderboard :: "id \<Rightarrow> nat \<Rightarrow> board \<Rightarrow> entry_view list" where
  "getTopLeaderboard season n b = map (view_of b) (take (min n 20) (sort_key le_rank (filter (\<lambda>e. le_season e = Some season) (board_rows b))))"

section \<open>Cursors\<close>

definition encodeLeaderboardCursor :: "int \<Rightarrow> int \<Rightarrow> instant \<Rightarrow> string \<Rightarrow> string" where
  "encodeLeaderboardCursor score rnk createdAtMs user =
     to_base64 (bigint_to_string score @ '':'' @ bigint_to_string rnk @ '':'' @ bigint_to_string createdAtMs @ '':'' @ user)"

definition decodeLeaderboardCursor :: "string \<Rightarrow> (exn, int \<times> int \<times> instant \<times> string) result" where
  "decodeLeaderboardCursor cursor =
     (case split_at (CHR '':'') (from_base64 cursor) of
        [scoreStr, rankStr, createdAtStr, user] \<Rightarrow>
          (case (bigint scoreStr, parseInt rankStr, bigint createdAtStr) of
             (Some score, Some rnk, Some createdAtMs) \<Rightarrow>
               if user = [] then Inl (BadRequest ''Invalid pagination cursor'') else Inr (score, rnk, createdAtMs, user)
           | _ \<Rightarrow> Inl (BadRequest ''Invalid pagination cursor''))
      | _ \<Rightarrow> Inl (BadRequest ''Invalid pagination cursor''))"

definition js_millis :: "int \<Rightarrow> instant" where
  "js_millis us = us div 1000"

definition after_cursor :: "id option \<Rightarrow> int \<times> int \<times> instant \<times> string \<Rightarrow> leaderboard_entry \<Rightarrow> bool" where
  "after_cursor season = (\<lambda>(score, rnk, createdAtMs, user) e.
     score_of season e < score \<or>
     score_of season e = score \<and> le_rank e > rnk \<or>
     score_of season e = score \<and> le_rank e = rnk \<and> le_created_us e > createdAtMs * 1000 \<or>
     score_of season e = score \<and> le_rank e = rnk \<and> le_created_us e = createdAtMs * 1000 \<and> le_user e > user)"

definition cursor_of :: "id option \<Rightarrow> leaderboard_entry \<Rightarrow> string" where
  "cursor_of season e = encodeLeaderboardCursor (score_of season e) (le_rank e) (js_millis (le_created_us e)) (le_user e)"

definition cursor_page_of :: "id option \<Rightarrow> nat \<Rightarrow> board \<Rightarrow> leaderboard_entry list \<Rightarrow> cursor_page" where
  "cursor_page_of season lmt b rows =
     (let data = map (\<lambda>e. (view_of b e, cursor_of season e)) (take lmt (take (lmt + 1) rows));
          more = length (take (lmt + 1) rows) > lmt
      in \<lparr>page_data = data, nextCursor = (if more \<and> data \<noteq> [] then Some (snd (last data)) else None), hasMore = more, page_limit = lmt\<rparr>)"

definition getLeaderboardCursor :: "instant \<Rightarrow> string option \<Rightarrow> nat option \<Rightarrow> id option \<Rightarrow> (board, exn, cursor_page) action" where
  "getLeaderboardCursor now cursor lmt season b =
     (let key = leaderboardCursor_key season (if truthy cursor then 1 else 0);
          cached = cache_get now key (page_cache b)
      in if cached \<noteq> None \<and> \<not> truthy cursor then (Inr (the cached), b)
         else if truthy cursor then
           (case decodeLeaderboardCursor (the cursor) of
              Inl x \<Rightarrow> (Inl x, b)
            | Inr c \<Rightarrow> (Inr (cursor_page_of season (capped lmt) b (filter (after_cursor season c) (board_of season b))), b))
         else
           let p = cursor_page_of season (capped lmt) b (board_of season b)
           in (Inr p, b\<lparr>page_cache := cache_put now key p CACHE_TTL_MS (page_cache b)\<rparr>))"

definition getTopN :: "instant \<Rightarrow> nat \<Rightarrow> id option \<Rightarrow> board \<Rightarrow> entry_view list \<times> board" where
  "getTopN now n season b =
     (let lmt = min n 20;
          key = leaderboardTopN_key lmt season
      in case cache_get now key (top_cache b) of
           Some v \<Rightarrow> (v, b)
         | None \<Rightarrow>
             let data = map (view_of b) (take lmt (board_of season b))
             in (data, b\<lparr>top_cache := cache_put now key data CACHE_TTL_MS (top_cache b)\<rparr>))"

section \<open>Ranks\<close>

text \<open>
  The unique constraint on user and season does not see rows without a season, because nulls are distinct.
  Where it fires, the failed insert has aborted the surrounding transaction, and the update fails too.
\<close>

definition upsertEntry :: "leaderboard_entry \<Rightarrow> (leaderboard_entry list, exn, unit) action" where
  "upsertEntry e rows =
     (if le_season e \<noteq> None \<and> list_ex (\<lambda>r. le_user r = le_user e \<and> le_season r = le_season e) rows then (Inl QueryFailed, rows)
      else (Inr (), rows @ [e]))"

definition invalidateLeaderboardCache :: "id option \<Rightarrow> board \<Rightarrow> board" where
  "invalidateLeaderboardCache season b =
     b\<lparr>page_cache := cache_del (leaderboardCursor_key season 1) (cache_del (leaderboardCursor_key season 0) (page_cache b))\<rparr>"

record rank_env =
  r_id :: "nat \<Rightarrow> id"
  r_created_us :: int
  r_failure :: "exn option"

definition user_key :: "board_user \<Rightarrow> int \<times> int \<times> string" where
  "user_key u = (- bu_reputation u, bu_created_at u, bu_id u)"

definition findAll :: "board \<Rightarrow> board_user list" where
  "findAll b = filter (\<lambda>u. \<not> bu_deleted u) (board_users b)"

definition entry_for :: "rank_env \<Rightarrow> nat \<Rightarrow> board_user \<Rightarrow> leaderboard_entry" where
  "entry_for env i u =
     \<lparr>le_id = r_id env i, le_user = bu_id u, le_season = None, le_rank = int i + 1, le_reputation = bu_reputation u,
      le_season_points = bu_season_points u, le_total = bu_total u, le_correct = bu_correct u, le_winnings = bu_winnings u,
      le_created_us = r_created_us env\<rparr>"

primrec upsert_all :: "leaderboard_entry list \<Rightarrow> (leaderboard_entry list, exn, unit) action" where
  "upsert_all [] rows = (Inr (), rows)"
| "upsert_all (e # es) rows = (case upsertEntry e rows of (Inl x, rows') \<Rightarrow> (Inl x, rows') | (Inr _, rows') \<Rightarrow> upsert_all es rows')"

definition recalculateRanks :: "rank_env \<Rightarrow> (board, exn, unit) action" where
  "recalculateRanks env b =
     (let sorted = sort_key user_key (findAll b)
      in case (r_failure env, upsert_all (map (\<lambda>(i, u). entry_for env i u) (enumerate 0 sorted)) (board_rows b)) of
           (Some x, _) \<Rightarrow> (Inl x, b)
         | (None, Inl x, _) \<Rightarrow> (Inl x, b)
         | (None, Inr _, rows) \<Rightarrow> (Inr (), invalidateLeaderboardCache None (b\<lparr>board_rows := rows\<rparr>)))"

definition findByAddress :: "string \<Rightarrow> board \<Rightarrow> board_user option" where
  "findByAddress addr b = List.find (\<lambda>u. bu_address u = map to_upper (js_trim addr) \<and> \<not> bu_deleted u) (board_users b)"

definition getUserRank :: "string \<Rightarrow> board \<Rightarrow> (exn, leaderboard_entry) result" where
  "getUserRank addr b =
     (case findByAddress addr b of
        None \<Rightarrow> Inl (NotFound ''User not found'')
      | Some u \<Rightarrow>
          (case List.find (\<lambda>e. le_user e = bu_id u \<and> le_season e = None) (board_rows b) of
             None \<Rightarrow> Inl (NotFound ''No leaderboard entry found'')
           | Some e \<Rightarrow> Inr e))"

section \<open>History\<close>

text \<open>A condition on an undefined season is dropped from the query: it holds for every row.\<close>

definition season_matches :: "id option \<Rightarrow> id option \<Rightarrow> bool" where
  "season_matches wanted s = (case wanted of Some x \<Rightarrow> s = Some x | None \<Rightarrow> True)"

definition history_of :: "int \<Rightarrow> leaderboard_entry \<Rightarrow> leaderboard_history" where
  "history_of today e =
     \<lparr>lh_user = le_user e, lh_date = today, lh_rank = le_rank e, lh_reputation = le_reputation e, lh_season_points = le_season_points e,
      lh_total = le_total e, lh_correct = le_correct e, lh_winnings = le_winnings e, lh_season = le_season e\<rparr>"

definition add_history :: "int \<Rightarrow> leaderboard_entry \<Rightarrow> leaderboard_history list \<Rightarrow> leaderboard_history list" where
  "add_history today e hs =
     (if list_ex (\<lambda>h. lh_user h = le_user e \<and> lh_date h = today \<and> season_matches (le_season e) (lh_season h)) hs then hs
      else hs @ [history_of today e])"

definition createDailySnapshot :: "int \<Rightarrow> board \<Rightarrow> board" where
  "createDailySnapshot today b = b\<lparr>history_rows := fold (add_history today) (board_rows b) (history_rows b)\<rparr>"

definition previous_history :: "leaderboard_history \<Rightarrow> board \<Rightarrow> leaderboard_history option" where
  "previous_history h b =
     (case sort_key (\<lambda>x. - lh_date x)
        (filter (\<lambda>x. lh_user x = lh_user h \<and> lh_date x < lh_date h \<and> season_matches (lh_season h) (lh_season x)) (history_rows b)) of
        [] \<Rightarrow> None | x # _ \<Rightarrow> Some x)"

definition getHistory ::
  "int option \<Rightarrow> id option \<Rightarrow> id option \<Rightarrow> nat option \<Rightarrow> nat option \<Rightarrow> board \<Rightarrow> (leaderboard_history \<times> int option) list \<times> nat" where
  "getHistory date season user page lmt b =
     (let rows = filter (\<lambda>h. (case date of Some d \<Rightarrow> lh_date h = d | None \<Rightarrow> True) \<and>
                  (case season of Some s \<Rightarrow> lh_season h = Some s | None \<Rightarrow> date \<noteq> None \<or> lh_season h = None) \<and>
                  (case user of Some u \<Rightarrow> lh_user h = u | None \<Rightarrow> True)) (history_rows b);
          sorted = sort_key (\<lambda>h. (- lh_date h, lh_rank h)) rows;
          data = take (capped lmt) (drop (page_skip page (capped lmt)) sorted)
      in (map (\<lambda>h. (h, if user = None then None else map_option (\<lambda>p. lh_rank p - lh_rank h) (previous_history h b))) data, length rows))"

definition clamp :: "int option \<Rightarrow> int \<Rightarrow> int \<Rightarrow> int \<Rightarrow> int" where
  "clamp v dflt lo hi = min (max (case v of Some n \<Rightarrow> if n = 0 then dflt else n | None \<Rightarrow> dflt) lo) hi"

definition getHistoryForAddress ::
  "int \<Rightarrow> string \<Rightarrow> int option \<Rightarrow> int option \<Rightarrow> int option \<Rightarrow> board \<Rightarrow> (exn, leaderboard_history list \<times> nat) result" where
  "getHistoryForAddress today addr days page lmt b =
     (let validDays = clamp days 30 1 90;
          validLimit = clamp lmt 20 1 100;
          validPage = max (case page of Some n \<Rightarrow> if n = 0 then 1 else n | None \<Rightarrow> 1) 1
      in case findByAddress addr b of
           None \<Rightarrow> Inl (NotFound ''User with address not found'')
         | Some u \<Rightarrow>
             let rows = filter (\<lambda>h. lh_user h = bu_id u \<and> lh_date h \<ge> today - validDays) (history_rows b)
             in Inr (take (nat validLimit) (drop (nat ((validPage - 1) * validLimit)) (sort_key (\<lambda>h. - lh_date h) rows)), length rows))"

section \<open>Snapshots\<close>

definition snapshot_of :: "instant \<Rightarrow> leaderboard_entry \<Rightarrow> leaderboard_snapshot" where
  "snapshot_of now e =
     \<lparr>ls_user = le_user e, ls_season = le_season e, ls_captured_at = now, ls_rank = le_rank e,
      ls_score = (if truthy (le_season e) then le_season_points e else le_reputation e)\<rparr>"

definition createRankSnapshot :: "instant \<Rightarrow> board \<Rightarrow> board" where
  "createRankSnapshot now b = (if board_rows b = [] then b else b\<lparr>snapshot_rows := snapshot_rows b @ map (snapshot_of now) (board_rows b)\<rparr>)"

definition pruneSnapshots :: "instant \<Rightarrow> int option \<Rightarrow> board \<Rightarrow> board" where
  "pruneSnapshots now retention b =
     (let cutoff = now - (case retention of Some d \<Rightarrow> d | None \<Rightarrow> 30) * 24 * 60 * 60 * 1000
      in b\<lparr>snapshot_rows := filter (\<lambda>s. \<not> ls_captured_at s < cutoff) (snapshot_rows b)\<rparr>)"

definition handleRankSnapshot :: "instant \<Rightarrow> int option \<Rightarrow> board \<Rightarrow> board" where
  "handleRankSnapshot now retention b = pruneSnapshots now retention (createRankSnapshot now b)"

datatype snapshot_ranking = NoSnapshots | Ranking instant "leaderboard_snapshot list" nat

definition getSnapshots :: "instant \<Rightarrow> id option \<Rightarrow> nat option \<Rightarrow> nat option \<Rightarrow> board \<Rightarrow> snapshot_ranking" where
  "getSnapshots endOfDay season page lmt b =
     (let mine = filter (\<lambda>s. ls_season s = season) (snapshot_rows b)
      in case sort_key (\<lambda>s. - ls_captured_at s) (filter (\<lambda>s. ls_captured_at s \<le> endOfDay) mine) of
           [] \<Rightarrow> NoSnapshots
         | s # _ \<Rightarrow>
             let rows = filter (\<lambda>x. ls_captured_at x = ls_captured_at s) mine
             in Ranking (ls_captured_at s)
                  (take (capped lmt) (drop (page_skip page (capped lmt)) (sort_key ls_rank rows))) (length rows))"

definition within :: "instant option \<Rightarrow> instant option \<Rightarrow> instant \<Rightarrow> bool" where
  "within from to t \<longleftrightarrow> (case from of Some a \<Rightarrow> a \<le> t | None \<Rightarrow> True) \<and> (case to of Some z \<Rightarrow> t \<le> z | None \<Rightarrow> True)"

fun rank_deltas :: "int option \<Rightarrow> leaderboard_snapshot list \<Rightarrow> (instant \<times> int \<times> int \<times> int option) list" where
  "rank_deltas prev [] = []"
| "rank_deltas prev (s # ss) =
     (ls_captured_at s, ls_rank s, ls_score s, map_option (\<lambda>p. p - ls_rank s) prev) # rank_deltas (Some (ls_rank s)) ss"

definition getRankHistory ::
  "string \<Rightarrow> id option \<Rightarrow> instant option \<Rightarrow> instant option \<Rightarrow> board \<Rightarrow> (exn, id \<times> (instant \<times> int \<times> int \<times> int option) list) result" where
  "getRankHistory addr season from to b =
     (case findByAddress addr b of
        None \<Rightarrow> Inl (NotFound ''User with address not found'')
      | Some u \<Rightarrow>
          Inr (bu_id u, rank_deltas None (sort_key ls_captured_at
            (filter (\<lambda>s. ls_user s = bu_id u \<and> ls_season s = season \<and> within from to (ls_captured_at s)) (snapshot_rows b)))))"

end
