(* ===== verification/Leaderboard_Facts.thy ===== *)
theory Leaderboard_Facts
  imports Leaderboard
begin

text \<open>
  What the leaderboard guarantees: cursors are read back as they were issued, following them lists the
  board once and in order, ranks are positions in the order of the users; and where it fails.
\<close>

section \<open>Cursors\<close>

lemma encoded_decodes:
  assumes "user \<noteq> []" "CHR '':'' \<notin> set user"
  shows "decodeLeaderboardCursor (encodeLeaderboardCursor score rnk ms user) = Inr (score, rnk, ms, user)"
proof -
  have colon: "'':'' @ x = CHR '':'' # x" for x by simp
  have "split_at (CHR '':'') (bigint_to_string score @ '':'' @ bigint_to_string rnk @ '':'' @ bigint_to_string ms @ '':'' @ user) =
      [bigint_to_string score, bigint_to_string rnk, bigint_to_string ms, user]"
    unfolding colon by (simp only: split_at_append [OF bigint_to_string_colon] split_at_none [OF assms(2)])
  then show ?thesis
    using assms(1) unfolding decodeLeaderboardCursor_def encodeLeaderboardCursor_def from_to_base64
    by (simp add: parseInt_bigint_to_string)
qed

section \<open>Following the cursors\<close>





lemma split_less:
  fixes f :: "'a \<Rightarrow> 'k :: linorder"
  assumes "sorted (map f (ys @ e # zs))" "distinct (map f (ys @ e # zs))"
  shows "x \<in> set ys \<Longrightarrow> f x < f e" "x \<in> set zs \<Longrightarrow> f e < f x"
proof -
  assume x: "x \<in> set ys"
  have "f x \<le> f e" using assms(1) x by (simp add: sorted_append)
  moreover have "f e \<notin> f ` set ys" using assms(2) by simp
  then have "f x \<noteq> f e" using imageI [OF x, of f] by metis
  ultimately show "f x < f e" by simp
next
  assume x: "x \<in> set zs"
  have "f e \<le> f x" using assms(1) x by (simp add: sorted_append)
  moreover have "f e \<notin> f ` set zs" using assms(2) by simp
  then have "f x \<noteq> f e" using imageI [OF x, of f] by metis
  ultimately show "f e < f x" by simp
qed







text \<open>
  A cursor is read back as it was issued: score, rank, creation time and user, whatever the sign of
  the numbers, for every user identifier without a colon.
\<close>

theorem cursor_roundtrip:
  assumes "user \<noteq> []" "CHR '':'' \<notin> set user"
  shows "decodeLeaderboardCursor (encodeLeaderboardCursor score rnk ms user) = Inr (score, rnk, ms, user)"
  by (rule encoded_decodes [OF assms])

section \<open>Ranks\<close>

lemma position_counts:
  fixes f :: "'a \<Rightarrow> 'k :: linorder"
  assumes "sorted (map f xs)" "distinct (map f xs)" "i < length xs"
  shows "card {v \<in> set xs. f v < f (xs ! i)} = i"
proof -
  have split: "xs = take i xs @ xs ! i # drop (Suc i) xs" using assms(3) by (simp add: id_take_nth_drop)
  have s: "sorted (map f (take i xs @ xs ! i # drop (Suc i) xs))" "distinct (map f (take i xs @ xs ! i # drop (Suc i) xs))" 
    unfolding id_take_nth_drop [OF assms(3), symmetric] using assms(1,2) by simp_all
  note less = split_less [OF s]
  have behind: "\<not> f x < f (xs ! i)" if "x \<in> set (xs ! i # drop (Suc i) xs)" for x using that less(2) [of x] by (auto dest: less_asym)
  have "set xs = set (take i xs) \<union> set (xs ! i # drop (Suc i) xs)" using arg_cong [OF split, of set] by (simp only: set_append)
  with less(1) behind have "{v \<in> set xs. f v < f (xs ! i)} = set (take i xs)" by blast
  moreover have "distinct (take i xs)" using assms(2) by (simp add: distinct_map)
  ultimately show ?thesis using assms(3) by (simp add: distinct_card)
qed

lemma filter_key_unique: "distinct (map f xs) \<Longrightarrow> x \<in> set xs \<Longrightarrow> filter (\<lambda>y. f y = f x) xs = [x]"
proof (induction xs)
  case (Cons y ys)
  then have y: "f y \<notin> f ` set ys" and IH: "x \<in> set ys \<Longrightarrow> filter (\<lambda>y. f y = f x) ys = [x]" by simp_all
  show ?case
  proof (cases "x = y")
    case True
    have "filter (\<lambda>z. f z = f y) ys = []" using y unfolding filter_empty_conv by (metis imageI)
    with True show ?thesis by simp
  next
    case False
    then have x: "x \<in> set ys" using Cons.prems(2) by simp
    then have "f y \<noteq> f x" using y by (metis imageI)
    with IH [OF x] show ?thesis by simp
  qed
qed simp

lemma upsert_without_season: "list_all (\<lambda>e. le_season e = None) es \<Longrightarrow> upsert_all es rows = (Inr (), rows @ es)"
  by (induction es arbitrary: rows) (simp_all add: upsertEntry_def)

definition new_entries :: "rank_env \<Rightarrow> board \<Rightarrow> leaderboard_entry list" where
  "new_entries env b = map (\<lambda>(i, u). entry_for env i u) (enumerate 0 (sort_key user_key (findAll b)))"

lemma recalculation:
  "r_failure env = None \<Longrightarrow> recalculateRanks env b = (Inr (), invalidateLeaderboardCache None (b\<lparr>board_rows := board_rows b @ new_entries env b\<rparr>))"
proof -
  assume ok: "r_failure env = None"
  have "list_all (\<lambda>e. le_season e = None) (new_entries env b)" by (auto simp: new_entries_def list_all_iff entry_for_def)
  from upsert_without_season [OF this, of "board_rows b"] ok show ?thesis by (simp add: recalculateRanks_def Let_def new_entries_def)
qed

lemma new_entries_nth:
  assumes "i < length (sort_key user_key (findAll b))"
  shows "new_entries env b ! i = entry_for env i (sort_key user_key (findAll b) ! i)"
  using assms by (simp add: new_entries_def nth_enumerate_eq)

text \<open>
  A recalculation gives every user who is not deleted exactly one new row, whose rank is one more than
  the number of users ahead: those with a higher reputation, with the same and an earlier registration,
  or with both the same and a smaller identifier; so ranks are the numbers from one, without gaps, and
  do not depend on the order in which the users were read.
\<close>

theorem ranks_are_positions:
  assumes "unique_keys bu_id (board_users b)" "recalculateRanks env b = (Inr (), b')"
  shows "\<exists>es. board_rows b' = board_rows b @ es \<and> length es = length (findAll b) \<and> map le_rank es = map (\<lambda>i. int i + 1) [0..<length (findAll b)] \<and>
    (\<forall>u \<in> set (findAll b). \<exists>e \<in> set es. filter (\<lambda>x. le_user x = bu_id u) es = [e] \<and> le_reputation e = bu_reputation u \<and>
       le_rank e = 1 + int (card {v \<in> set (findAll b). bu_reputation v > bu_reputation u \<or>
         bu_reputation v = bu_reputation u \<and> (bu_created_at v < bu_created_at u \<or> bu_created_at v = bu_created_at u \<and> bu_id v < bu_id u)}))"
proof -
  let ?xs = "sort_key user_key (findAll b)" and ?es = "new_entries env b"
  have "r_failure env = None" using assms(2) by (auto simp: recalculateRanks_def Let_def split: option.splits)
  then have rows: "board_rows b' = board_rows b @ ?es" using recalculation [of env b] assms(2) by (auto simp: invalidateLeaderboardCache_def)
  have len: "length ?es = length ?xs" by (simp add: new_entries_def)
  have nth: "?es ! i = entry_for env i (?xs ! i)" if "i < length ?xs" for i using that by (rule new_entries_nth)
  have ids: "distinct (map bu_id ?xs)"
  proof -
    have "distinct (map bu_id (findAll b))" using assms(1) by (simp add: findAll_def distinct_map_filter)
    then show ?thesis by (simp add: distinct_map)
  qed
  have keys: "sorted (map user_key ?xs)" "distinct (map user_key ?xs)"
    using ids by (auto simp: distinct_map inj_on_def user_key_def)
  have users: "map le_user ?es = map bu_id ?xs" using nth len by (intro nth_equalityI) (simp_all add: entry_for_def)
  have ranks: "map le_rank ?es = map (\<lambda>i. int i + 1) [0..<length ?xs]" using nth len by (intro nth_equalityI) (simp_all add: entry_for_def)
  have each: "\<exists>e \<in> set ?es. filter (\<lambda>x. le_user x = bu_id u) ?es = [e] \<and> le_reputation e = bu_reputation u \<and>
      le_rank e = 1 + int (card {v \<in> set (findAll b). user_key v < user_key u})" if "u \<in> set (findAll b)" for u
  proof -
    from that have "u \<in> set ?xs" by simp
    then obtain i where i: "i < length ?xs" "?xs ! i = u" unfolding in_set_conv_nth by blast
    have e: "?es ! i \<in> set ?es" using i len by simp
    have "distinct (map le_user ?es)" using users ids by simp
    then have "filter (\<lambda>x. le_user x = le_user (?es ! i)) ?es = [?es ! i]" using e by (simp add: filter_key_unique)
    then show ?thesis using e nth [OF i(1)] i position_counts [OF keys i(1)] by (intro bexI [OF _ e]) (simp_all add: entry_for_def)
  qed
  have "{v \<in> set (findAll b). user_key v < user_key u} = {v \<in> set (findAll b). bu_reputation v > bu_reputation u \<or>
         bu_reputation v = bu_reputation u \<and> (bu_created_at v < bu_created_at u \<or> bu_created_at v = bu_created_at u \<and> bu_id v < bu_id u)}" for u
    by (auto simp: user_key_def less_prod_def')
  with each rows ranks len show ?thesis by (intro exI [of _ ?es]) simp
qed

section \<open>History and snapshots\<close>

lemma add_history_known:
  "list_all (\<lambda>e. list_ex (\<lambda>h. lh_user h = le_user e \<and> lh_date h = today \<and> season_matches (le_season e) (lh_season h)) hs) es \<Longrightarrow>
   fold (add_history today) es hs = hs"
  by (induction es) (simp_all add: add_history_def)

lemma add_history_grows: "\<exists>zs. add_history today e hs = hs @ zs"
  by (simp add: add_history_def)

lemma add_history_covers:
  "\<exists>zs. fold (add_history today) es hs = hs @ zs \<and>
   list_all (\<lambda>e. list_ex (\<lambda>h. lh_user h = le_user e \<and> lh_date h = today \<and> season_matches (le_season e) (lh_season h)) (hs @ zs)) es"
proof (induction es arbitrary: hs)
  case (Cons e es)
  obtain ys where ys: "add_history today e hs = hs @ ys" using add_history_grows by blast
  from Cons.IH [of "hs @ ys"] obtain zs where zs: "fold (add_history today) es (hs @ ys) = hs @ ys @ zs"
    "list_all (\<lambda>e. list_ex (\<lambda>h. lh_user h = le_user e \<and> lh_date h = today \<and> season_matches (le_season e) (lh_season h)) (hs @ ys @ zs)) es" by auto
  have "list_ex (\<lambda>h. lh_user h = le_user e \<and> lh_date h = today \<and> season_matches (le_season e) (lh_season h)) (hs @ ys)"
  proof -
    have "season_matches x x" for x by (simp add: season_matches_def split: option.split)
    then show ?thesis using ys by (auto simp: add_history_def history_of_def split: if_splits)
  qed
  with zs ys show ?case by auto
qed simp

text \<open>A second daily snapshot on the same day changes nothing.\<close>

lemma daily_snapshot_once: "createDailySnapshot today (createDailySnapshot today b) = createDailySnapshot today b"
proof -
  obtain zs where "fold (add_history today) (board_rows b) (history_rows b) = history_rows b @ zs"
    "list_all (\<lambda>e. list_ex (\<lambda>h. lh_user h = le_user e \<and> lh_date h = today \<and> season_matches (le_season e) (lh_season h)) (history_rows b @ zs)) (board_rows b)"
    using add_history_covers by blast
  with add_history_known show ?thesis by (simp add: createDailySnapshot_def)
qed

section \<open>Witnesses\<close>

definition sample_board_user :: "id \<Rightarrow> int \<Rightarrow> instant \<Rightarrow> board_user" where
  "sample_board_user k rep at = \<lparr>bu_id = k, bu_username = None, bu_address = ''G'' @ k, bu_reputation = rep, bu_season_points = 0, bu_total = 4, bu_correct = 3,
     bu_winnings = 0, bu_created_at = at, bu_deleted = False\<rparr>"

definition sample_users :: board where
  "sample_users = \<lparr>board_users = [sample_board_user ''A'' 5 9, sample_board_user ''B'' 7 8, sample_board_user ''C'' 5 3, sample_board_user ''D'' 1 1],
     board_rows = [], history_rows = [], snapshot_rows = [], page_cache = [], top_cache = []\<rparr>"

definition sample_rank_env :: "int \<Rightarrow> string \<Rightarrow> rank_env" where
  "sample_rank_env us key = \<lparr>r_id = (\<lambda>i. key @ show_nat i), r_created_us = us, r_failure = None\<rparr>"

definition ranked :: "int \<Rightarrow> board" where
  "ranked us = snd (recalculateRanks (sample_rank_env us ''e'') sample_users)"

lemma ranked_rows: "map (\<lambda>e. (le_user e, le_rank e)) (board_of None (ranked 5000)) = [(''B'', 1), (''C'', 2), (''A'', 3), (''D'', 4)]"
  by code_simp

theorem ranks_are_positions_witness:
  "map le_rank (board_rows (ranked 5000)) = [1, 2, 3, 4]"
proof -
  have u: "unique_keys bu_id (board_users sample_users)" "length (findAll sample_users) = 4" "board_rows sample_users = []" by code_simp+
  have "recalculateRanks (sample_rank_env 5000 ''e'') sample_users = (Inr (), ranked 5000)"
    by (simp add: ranked_def recalculation sample_rank_env_def)
  from ranks_are_positions [OF u(1) this] u(2,3) show ?thesis by (auto simp: upt_rec)
qed

theorem cursor_roundtrip_witness:
  "decodeLeaderboardCursor (encodeLeaderboardCursor (- 5) 3 1700000000000 ''9f1c-42'') = Inr (- 5, 3, 1700000000000, ''9f1c-42'')"
  by (rule cursor_roundtrip) simp_all


section \<open>Weak points\<close>

text \<open>Every recalculation adds a row for every user: after an hour each user is on the board twice.\<close>

lemma recalculation_duplicates:
  assumes "r_failure env = None"
  shows "length (filter (\<lambda>e. le_user e = k) (board_rows (snd (recalculateRanks env b)))) =
    length (filter (\<lambda>e. le_user e = k) (board_rows b)) + length (filter (\<lambda>u. bu_id u = k) (findAll b))"
proof -
  have "map le_user (new_entries env b) = map bu_id (sort_key user_key (findAll b))"
    by (intro nth_equalityI) (simp_all add: new_entries_def nth_enumerate_eq entry_for_def)
  then have "length (filter (\<lambda>e. le_user e = k) (new_entries env b)) = length (filter (\<lambda>u. bu_id u = k) (sort_key user_key (findAll b)))"
    using length_filter_map [of "\<lambda>x. x = k" le_user "new_entries env b"] length_filter_map [of "\<lambda>x. x = k" bu_id "sort_key user_key (findAll b)"]
    by (simp add: comp_def)
  moreover have "length (filter P (sort_key user_key us)) = length (filter P us)" for P us
    by (simp add: filter_sort)
  ultimately show ?thesis using recalculation [OF assms, of b] by (simp add: invalidateLeaderboardCache_def)
qed

text \<open>A user's rank is read from the oldest of these rows, and does not change any more.\<close>

lemma rank_stays_stale:
  assumes "r_failure env = None" "getUserRank addr b = Inr e"
  shows "getUserRank addr (snd (recalculateRanks env b)) = Inr e"
proof -
  have "List.find P (xs @ ys) = List.find P xs" if "List.find P xs = Some x" for P xs ys and x :: leaderboard_entry
    using that by (induction xs) auto
  with assms recalculation [OF assms(1), of b] show ?thesis
    by (auto simp: getUserRank_def findByAddress_def invalidateLeaderboardCache_def split: option.splits)
qed

text \<open>
  With a creation time between two milliseconds the cursor points before its own row: the next page
  starts with the row the last one ended with, and with pages of one row reading never ends.
\<close>

lemma cursor_repeats_last_row:
  assumes "le_created_us e mod 1000 \<noteq> 0"
  shows "after_cursor season (score_of season e, le_rank e, js_millis (le_created_us e), le_user e) e"
proof -
  have "0 \<le> le_created_us e mod 1000" by simp
  with assms have "le_created_us e div 1000 * 1000 < le_created_us e" using div_mult_mod_eq [of "le_created_us e" 1000] by linarith
  then show ?thesis by (simp add: after_cursor_def js_millis_def)
qed

lemma single_row_page_repeats:
  "map (\<lambda>e. le_user e) (take 1 (filter (after_cursor None (7, 1, js_millis 5001, ''B'')) (board_of None (ranked 5001)))) = [''B'']"
  by code_simp

text \<open>The daily snapshot drops the condition on an absent season: after a season row of a user, the all-time row is not stored.\<close>

lemma all_time_history_dropped:
  "map lh_season (history_rows (createDailySnapshot 100 (sample_users\<lparr>board_rows :=
     [(entry_for (sample_rank_env 0 ''e'') 0 (sample_board_user ''A'' 5 9))\<lparr>le_season := Some ''s''\<rparr>, entry_for (sample_rank_env 0 ''e'') 0 (sample_board_user ''A'' 5 9)]\<rparr>))) =
   [Some ''s'']"
  by code_simp

text \<open>The cached first page ignores the page size asked for.\<close>

lemma cached_page_ignores_limit:
  assumes "cache_get now (leaderboardCursor_key season 0) (page_cache b) = Some p"
  shows "getLeaderboardCursor now None lmt season b = (Inr p, b)"
  using assms by (simp add: getLeaderboardCursor_def Let_def truthy_def)

text \<open>A recalculation drops the cached pages, but not the cached top of the board, which stays as it was for up to an hour.\<close>

lemma top_not_invalidated:
  assumes "r_failure env = None" "cache_get now (leaderboardTopN_key (min n 20) season) (top_cache b) = Some v"
  shows "fst (getTopN now n season (snd (recalculateRanks env b))) = v"
  using assms recalculation [OF assms(1), of b] by (simp add: getTopN_def Let_def invalidateLeaderboardCache_def)

end
