(* ===== verification/Coach.thy ===== *)
theory Coach
  imports Entities Js_Strings Leaderboard "HOL-Library.Sublist"
begin

text \<open>
  The coach of \<open>leaderboard/leaderboard.service.ts\<close>: what a user's recent predictions say about accuracy,
  categories and streaks, cached per user and ISO week.

  Rates are rounded from the exact quotient of the two counts, which agrees with the floating-point
  computation for the at most thirty predictions that are analysed.  The order \<open>localeCompare\<close> gives
  to categories is an argument, a category's position in it.
\<close>

section \<open>Insights\<close>

definition MIN_RESOLVED_PREDICTIONS_FOR_INSIGHTS :: nat where "MIN_RESOLVED_PREDICTIONS_FOR_INSIGHTS = 5"

definition COACH_ANALYSIS_WINDOW :: nat where "COACH_ANALYSIS_WINDOW = 30"

definition MIN_CATEGORY_PREDICTIONS :: nat where "MIN_CATEGORY_PREDICTIONS = 3"

definition TREND_CHANGE_THRESHOLD_PP :: int where "TREND_CHANGE_THRESHOLD_PP = 10"

definition COACH_CACHE_TTL_MS :: int where "COACH_CACHE_TTL_MS = 8 * 24 * 60 * 60 * 1000"

record coach_row =
  cr_outcome :: string
  cr_market :: "market option"

record graded =
  gr_correct :: bool
  gr_category :: string

datatype trend_direction = Not_enough_data | Improving | Declining | Steady

record accuracy_trend =
  direction :: trend_direction
  recent_accuracy :: int
  prior_accuracy :: int

record category_stat =
  cs_category :: string
  cs_predictions :: nat
  cs_correct :: nat
  cs_accuracy_tenths :: int

record coach_insights =
  trend_of :: accuracy_trend
  best_category :: "category_stat option"
  worst_category :: "category_stat option"
  current_streak :: nat
  longest_streak :: nat
  total_resolved :: nat

definition round_half_up :: "int \<Rightarrow> int \<Rightarrow> int" where
  "round_half_up a b = (2 * a + b) div (2 * b)"

definition rate :: "graded list \<Rightarrow> int" where
  "rate rows = (if rows = [] then 0 else round_half_up (100 * int (length (filter gr_correct rows))) (int (length rows)))"

definition computeAccuracyTrend :: "graded list \<Rightarrow> accuracy_trend" where
  "computeAccuracyTrend xs =
     (let half = length xs div 2;
          prior = take half xs;
          recent = drop half xs;
          delta = rate recent - rate prior
      in \<lparr>direction = (if prior = [] \<or> recent = [] then Not_enough_data
                       else if delta > TREND_CHANGE_THRESHOLD_PP then Improving
                       else if delta < - TREND_CHANGE_THRESHOLD_PP then Declining
                       else Steady),
          recent_accuracy = rate recent, prior_accuracy = rate prior\<rparr>)"

definition count_category :: "graded \<Rightarrow> (string \<times> nat \<times> nat) list \<Rightarrow> (string \<times> nat \<times> nat) list" where
  "count_category g gs =
     (if gr_category g \<in> fst ` set gs
      then map (\<lambda>(c, n, k). if c = gr_category g then (c, n + 1, if gr_correct g then k + 1 else k) else (c, n, k)) gs
      else gs @ [(gr_category g, 1, if gr_correct g then 1 else 0)])"

definition qualified_stats :: "graded list \<Rightarrow> category_stat list" where
  "qualified_stats xs =
     map (\<lambda>(c, n, k). \<lparr>cs_category = c, cs_predictions = n, cs_correct = k, cs_accuracy_tenths = round_half_up (1000 * int k) (int n)\<rparr>)
       (filter (\<lambda>(c, n, k). \<not> n < MIN_CATEGORY_PREDICTIONS) (fold count_category xs []))"

definition computeCategoryStats :: "(string \<Rightarrow> int) \<Rightarrow> graded list \<Rightarrow> category_stat option \<times> category_stat option" where
  "computeCategoryStats position xs =
     (let sorted = sort_key (\<lambda>s. (- cs_accuracy_tenths s, - int (cs_predictions s), position (cs_category s))) (qualified_stats xs)
      in if qualified_stats xs = [] then (None, None) else (Some (hd sorted), Some (last sorted)))"

definition streak_step :: "graded \<Rightarrow> nat \<times> nat \<Rightarrow> nat \<times> nat" where
  "streak_step g = (\<lambda>(current, longest). if gr_correct g then (current + 1, max longest (current + 1)) else (0, longest))"

definition computeStreaks :: "graded list \<Rightarrow> nat \<times> nat" where
  "computeStreaks xs = fold streak_step xs (0, 0)"

definition gradable :: "coach_row \<Rightarrow> bool" where
  "gradable r = (case cr_market r of None \<Rightarrow> False | Some m \<Rightarrow> is_resolved m \<and> \<not> is_cancelled m \<and> resolved_outcome m \<noteq> None)"

definition graded_of :: "coach_row \<Rightarrow> graded" where
  "graded_of r = (let m = the (cr_market r) in \<lparr>gr_correct = (resolved_outcome m = Some (cr_outcome r)), gr_category = category m\<rparr>)"

definition analyzePredictionHistory :: "(string \<Rightarrow> int) \<Rightarrow> coach_row list \<Rightarrow> coach_insights option" where
  "analyzePredictionHistory position rows =
     (let resolved = filter gradable rows
      in if length resolved < MIN_RESOLVED_PREDICTIONS_FOR_INSIGHTS then None
         else
           let xs = map graded_of (rev resolved);
               (best, worst) = computeCategoryStats position xs;
               (current, longest) = computeStreaks xs
           in Some \<lparr>trend_of = computeAccuracyTrend xs, best_category = best, worst_category = worst,
                    current_streak = current, longest_streak = longest, total_resolved = length xs\<rparr>)"

definition resolved_by :: "id \<Rightarrow> world \<Rightarrow> prediction list" where
  "resolved_by user w =
     filter (\<lambda>p. pred_user p = user \<and> (case find_market (pred_market p) w of Some m \<Rightarrow> is_resolved m \<and> \<not> is_cancelled m | None \<Rightarrow> False)) (predictions w)"

definition computeCoachInsights :: "(string \<Rightarrow> int) \<Rightarrow> id \<Rightarrow> world \<Rightarrow> coach_insights option" where
  "computeCoachInsights position user w =
     analyzePredictionHistory position
       (map (\<lambda>p. \<lparr>cr_outcome = chosen_outcome p, cr_market = find_market (pred_market p) w\<rparr>)
         (take COACH_ANALYSIS_WINDOW (sort_key (\<lambda>p. - submitted_at p) (resolved_by user w))))"

section \<open>Weeks\<close>

text \<open>
  The calendar of JavaScript dates from 1970 on: the day a year starts with, by the formula of the
  language standard, and the year of a day.
\<close>

definition year_start :: "int \<Rightarrow> int" where
  "year_start y = 365 * (y - 1970) + (y - 1969) div 4 - (y - 1901) div 100 + (y - 1601) div 400"

lemma year_grows: "year_start y + 364 \<le> year_start (y + 1)" "year_start (y + 1) \<le> year_start y + 367"
proof -
  have up: "n div k \<le> (n + 1) div k" "(n + 1) div k \<le> n div k + 1" if "0 < k" for n k :: int
  proof -
    show "n div k \<le> (n + 1) div k" using that by (simp add: zdiv_mono1)
    have "(n + 1) div k \<le> (n + k) div k" using that by (intro zdiv_mono1) simp_all
    moreover have "(n + k) div k = n div k + 1" using that by (intro div_add_self2) simp
    ultimately show "(n + 1) div k \<le> n div k + 1" by simp
  qed
  have eq: "y + 1 - 1969 = (y - 1969) + 1" "y + 1 - 1901 = (y - 1901) + 1" "y + 1 - 1601 = (y - 1601) + 1" by simp_all
  have step: "year_start (y + 1) - year_start y = 365 + (((y - 1969) + 1) div 4 - (y - 1969) div 4) -
      (((y - 1901) + 1) div 100 - (y - 1901) div 100) + (((y - 1601) + 1) div 400 - (y - 1601) div 400)"
    unfolding year_start_def eq by simp
  have arith: "b + 364 \<le> a \<and> a \<le> b + 367"
    if "a - b = 365 + (p1 - p) - (q1 - q) + (r1 - r)" "p \<le> p1" "p1 \<le> p + 1" "q \<le> q1" "q1 \<le> q + 1" "r \<le> r1" "r1 \<le> r + 1"
    for a b p p1 q q1 r r1 :: int using that by linarith
  have "year_start y + 364 \<le> year_start (y + 1) \<and> year_start (y + 1) \<le> year_start y + 367"
    by (rule arith [OF step up(1) up(2) up(1) up(2) up(1) up(2)]) simp_all
  then show "year_start y + 364 \<le> year_start (y + 1)" "year_start (y + 1) \<le> year_start y + 367" by blast+
qed

function year_from :: "int \<Rightarrow> int \<Rightarrow> int" where
  "year_from y d = (if d < year_start (y + 1) then y else year_from (y + 1) d)"
  by pat_completeness auto
termination
proof (relation "measure (\<lambda>(y, d). nat (d + 1 - year_start y))", simp)
  fix y d :: int
  assume "\<not> d < year_start (y + 1)"
  moreover have "year_start y + 364 \<le> year_start (y + 1)" by (rule year_grows)
  ultimately show "((y + 1, d), y, d) \<in> measure (\<lambda>(y, d). nat (d + 1 - year_start y))" by simp
qed

declare year_from.simps [simp del]

definition getUTCFullYear :: "int \<Rightarrow> int" where
  "getUTCFullYear d = year_from 1970 d"

definition getUTCDay :: "int \<Rightarrow> int" where
  "getUTCDay d = (d + 4) mod 7"

definition getIsoWeekId :: "instant \<Rightarrow> string" where
  "getIsoWeekId now =
     (let d = now div 86400000;
          dayNumber = (if getUTCDay d = 0 then 7 else getUTCDay d);
          thursday = d + 4 - dayNumber;
          year = getUTCFullYear thursday;
          weekNo = (thursday - year_start year + 1 + 6) div 7
      in bigint_to_string year @ ''-W'' @ padStart 2 (CHR ''0'') (bigint_to_string weekNo))"

section \<open>The weekly cache\<close>

type_synonym coach_cache = "(string \<times> coach_insights option \<times> instant) list"

definition coachInsights_key :: "id \<Rightarrow> string \<Rightarrow> string" where
  "coachInsights_key user week = ''leaderboard:coach:'' @ user @ '':'' @ week"

definition getCoachInsights :: "(string \<Rightarrow> int) \<Rightarrow> instant \<Rightarrow> id \<Rightarrow> world \<Rightarrow> coach_cache \<Rightarrow> coach_insights option \<times> coach_cache" where
  "getCoachInsights position now user w c =
     (let key = coachInsights_key user (getIsoWeekId now)
      in case cache_get now key c of
           Some v \<Rightarrow> (v, c)
         | None \<Rightarrow> let v = computeCoachInsights position user w in (v, cache_put now key v COACH_CACHE_TTL_MS c))"

definition eligible :: "world \<Rightarrow> id list" where
  "eligible w = filter (\<lambda>u. length (resolved_by u w) \<ge> MIN_RESOLVED_PREDICTIONS_FOR_INSIGHTS) (remdups (map pred_user (predictions w)))"

definition refresh_one :: "(string \<Rightarrow> int) \<Rightarrow> instant \<Rightarrow> world \<Rightarrow> (id \<Rightarrow> exn option) \<Rightarrow> id \<Rightarrow> nat \<times> coach_cache \<Rightarrow> nat \<times> coach_cache" where
  "refresh_one position now w fails user = (\<lambda>(n, c).
     let c1 = cache_del (coachInsights_key user (getIsoWeekId (now - 7 * 24 * 60 * 60 * 1000))) c
     in case fails user of
          Some x \<Rightarrow> (n, c1)
        | None \<Rightarrow> (n + 1, cache_put now (coachInsights_key user (getIsoWeekId now)) (computeCoachInsights position user w) COACH_CACHE_TTL_MS c1))"

definition refreshWeeklyCoachInsights :: "(string \<Rightarrow> int) \<Rightarrow> instant \<Rightarrow> world \<Rightarrow> (id \<Rightarrow> exn option) \<Rightarrow> coach_cache \<Rightarrow> nat \<times> coach_cache" where
  "refreshWeeklyCoachInsights position now w fails c = fold (refresh_one position now w fails) (eligible w) (0, c)"

section \<open>Streaks\<close>

definition runs :: "graded list \<Rightarrow> graded list set" where
  "runs xs = {zs. sublist zs xs \<and> list_all gr_correct zs}"

lemma trailing_run: "suffix zs xs \<Longrightarrow> list_all gr_correct zs \<Longrightarrow> length zs \<le> length (takeWhile gr_correct (rev xs))"
proof -
  assume "suffix zs xs" and ok: "list_all gr_correct zs"
  then obtain ys where "xs = ys @ zs" by (auto simp: suffix_def)
  moreover have "takeWhile gr_correct (rev zs @ rev ys) = rev zs @ takeWhile gr_correct (rev ys)"
    using ok by (intro takeWhile_append2) (auto simp: list_all_iff)
  ultimately show ?thesis by simp
qed

lemma trailing_is_run: "rev (takeWhile gr_correct (rev xs)) \<in> runs xs"
proof -
  have "sublist (takeWhile gr_correct (rev xs)) (rev xs)" by simp
  then have "sublist (rev (takeWhile gr_correct (rev xs))) (rev (rev xs))" by (simp only: sublist_rev)
  then show ?thesis by (auto simp: runs_def list_all_iff dest: set_takeWhileD)
qed

lemma runs_grow: "zs \<in> runs xs \<Longrightarrow> zs \<in> runs (xs @ [x])"
  by (simp add: runs_def sublist_snoc)

lemma runs_snoc: "zs \<in> runs (xs @ [x]) \<Longrightarrow> zs \<in> runs xs \<or> length zs \<le> length (takeWhile gr_correct (rev (xs @ [x])))"
  unfolding runs_def mem_Collect_eq sublist_snoc using trailing_run by blast

lemma streaks_step:
  "computeStreaks (xs @ [x]) = streak_step x (computeStreaks xs)"
  by (simp add: computeStreaks_def)

lemma streaks_sound:
  "fst (computeStreaks xs) = length (takeWhile gr_correct (rev xs)) \<and>
   snd (computeStreaks xs) \<in> length ` runs xs \<and> (\<forall>zs \<in> runs xs. length zs \<le> snd (computeStreaks xs))"
proof (induction xs rule: rev_induct)
  case Nil
  then show ?case by (auto simp: computeStreaks_def runs_def)
next
  case (snoc x xs)
  obtain c l where cl: "computeStreaks xs = (c, l)" by fastforce
  with snoc have c: "c = length (takeWhile gr_correct (rev xs))" and l: "l \<in> length ` runs xs"
    and top: "\<And>zs. zs \<in> runs xs \<Longrightarrow> length zs \<le> l" by auto
  from l have l': "l \<in> length ` runs (xs @ [x])" using runs_grow by blast
  show ?case
  proof (cases "gr_correct x")
    case True
    then have tr: "length (takeWhile gr_correct (rev (xs @ [x]))) = c + 1" by (simp add: c)
    have res: "computeStreaks (xs @ [x]) = (c + 1, max l (c + 1))" by (simp add: streaks_step cl streak_step_def True)
    have "c + 1 \<in> length ` runs (xs @ [x])"
      using trailing_is_run [of "xs @ [x]"] tr by (metis image_eqI length_rev)
    with l' have "max l (c + 1) \<in> length ` runs (xs @ [x])" by (simp add: max_def)
    moreover have "length zs \<le> max l (c + 1)" if "zs \<in> runs (xs @ [x])" for zs
      using runs_snoc [OF that] top [of zs] by (auto simp: tr simp del: rev_append)
    ultimately show ?thesis unfolding res using tr by simp
  next
    case False
    then have tr: "length (takeWhile gr_correct (rev (xs @ [x]))) = 0" by simp
    have res: "computeStreaks (xs @ [x]) = (0, l)" by (simp add: streaks_step cl streak_step_def False)
    have "length zs \<le> l" if "zs \<in> runs (xs @ [x])" for zs
      using runs_snoc [OF that] top [of zs] by (auto simp: tr simp del: rev_append)
    then show ?thesis unfolding res using tr l' by simp
  qed
qed

text \<open>
  C22. The streaks of the coach are what their names say: the current one is the number of correct
  predictions at the end of the window, and the longest one is the length of the longest run of
  consecutive correct predictions anywhere in it.
\<close>

theorem streaks_correct:
  "computeStreaks xs =
     (length (takeWhile gr_correct (rev xs)), Max (length ` {zs. sublist zs xs \<and> list_all gr_correct zs}))"
proof -
  have fin: "finite (runs xs)"
    by (rule finite_subset [OF _ finite_lists_length_le [of "set xs" "length xs"]])
       (auto simp: runs_def sublist_length_le dest: set_mono_sublist)
  have "Max (length ` runs xs) = snd (computeStreaks xs)"
    using streaks_sound [of xs] fin by (intro Max_eqI) auto
  then show ?thesis using streaks_sound [of xs] by (simp add: runs_def prod_eq_iff)
qed

section \<open>Week identifiers\<close>

lemma year_from_bounds:
  "year_start y \<le> d \<Longrightarrow> year_start (year_from y d) \<le> d \<and> d < year_start (year_from y d + 1)"
proof (induction y d rule: year_from.induct)
  case (1 y d)
  show ?case
  proof (cases "d < year_start (y + 1)")
    case True
    with 1 show ?thesis by (simp add: year_from.simps [of y d])
  next
    case False
    then have eq: "year_from y d = year_from (y + 1) d" by (subst year_from.simps) simp
    show ?thesis unfolding eq by (rule 1(1)) (use False in simp_all)
  qed
qed

lemma year_of_day: "0 \<le> d \<Longrightarrow> year_start (getUTCFullYear d) \<le> d \<and> d \<le> year_start (getUTCFullYear d) + 366"
proof -
  assume "0 \<le> d"
  moreover have "year_start 1970 = 0" by (simp add: year_start_def)
  ultimately have "year_start 1970 \<le> d" by simp
  from year_from_bounds [OF this] year_grows(2) [of "year_from 1970 d"] show ?thesis by (simp add: getUTCFullYear_def)
qed

lemma iso_thursday:
  "d + 4 - (if getUTCDay d = 0 then 7 else getUTCDay d) = 7 * ((d + 3) div 7)"
proof -
  define q r where "q = (d + 3) div 7" and "r = (d + 3) mod 7"
  have d: "d + 3 = 7 * q + r" and r: "0 \<le> r" "r < 7" by (simp_all add: q_def r_def)
  have "getUTCDay d = (r + 1) mod 7"
  proof -
    have "d + 4 = (r + 1) + 7 * q" using d by simp
    then have "(d + 4) mod 7 = ((r + 1) + 7 * q) mod 7" by (rule arg_cong)
    then show ?thesis unfolding getUTCDay_def mod_mult_self2 .
  qed
  moreover have "(r + 1) mod 7 = (if r = 6 then 0 else r + 1)" using r by simp
  ultimately have "(if getUTCDay d = 0 then 7 else getUTCDay d) = r + 1" using r by simp
  moreover have "d + 4 - (r + 1) = 7 * q" using d by simp
  ultimately show ?thesis by (simp only: q_def)
qed

lemma two_digits:
  assumes "0 \<le> n" "n < 100"
  shows "padStart 2 (CHR ''0'') (bigint_to_string n) = [digit_char (nat n div 10), digit_char (nat n mod 10)]"
proof (cases "nat n < 10")
  case True
  then have "show_nat (nat n) = [digit_char (nat n)]" by (simp add: show_nat.simps)
  moreover have "digit_char 0 = CHR ''0''" by (simp add: digit_char_def char_of_def bit_0)
  ultimately show ?thesis using assms True by (simp add: padStart_def bigint_to_string_def)
next
  case False
  moreover from assms have "nat n div 10 < 10" by simp
  ultimately have "show_nat (nat n) = [digit_char (nat n div 10), digit_char (nat n mod 10)]"
    by (simp add: show_nat.simps [of "nat n"] show_nat.simps [of "nat n div 10"])
  then show ?thesis using assms by (simp add: padStart_def bigint_to_string_def)
qed

lemma digit_char_inj: "c < 10 \<Longrightarrow> d < 10 \<Longrightarrow> digit_char c = digit_char d \<Longrightarrow> c = d"
  using digit_val_digit_char by (metis option.inject)

lemma two_digits_inj:
  assumes "0 \<le> m" "m < 100" "0 \<le> n" "n < 100"
    and eq: "padStart 2 (CHR ''0'') (bigint_to_string m) = padStart 2 (CHR ''0'') (bigint_to_string n)"
  shows "m = n"
proof -
  from eq have "digit_char (nat m div 10) = digit_char (nat n div 10)" "digit_char (nat m mod 10) = digit_char (nat n mod 10)"
    using assms(1-4) by (simp_all add: two_digits)
  then have "nat m div 10 = nat n div 10" "nat m mod 10 = nat n mod 10"
    using assms(1-4) by (auto intro!: digit_char_inj)
  then have "nat m = nat n" by (metis div_mult_mod_eq)
  with assms show ?thesis by simp
qed

definition week_number :: "int \<Rightarrow> int" where
  "week_number th = (th - year_start (getUTCFullYear th) + 7) div 7"

lemma week_id:
  "getIsoWeekId t = (let th = 7 * ((t div 86400000 + 3) div 7)
     in bigint_to_string (getUTCFullYear th) @ ''-W'' @ padStart 2 (CHR ''0'') (bigint_to_string (week_number th)))"
  unfolding getIsoWeekId_def Let_def iso_thursday week_number_def by (simp add: add.commute)

lemma week_number_range: "0 \<le> th \<Longrightarrow> 1 \<le> week_number th \<and> week_number th \<le> 53"
  using year_of_day [of th] by (auto simp: week_number_def)

lemma bigint_to_string_inj: "bigint_to_string m = bigint_to_string n \<Longrightarrow> m = n"
  using bigint_to_string_inverse by (metis option.inject)

lemma week_id_inj:
  assumes "0 \<le> a" "0 \<le> b"
    and eq: "bigint_to_string (getUTCFullYear (7 * a)) @ ''-W'' @ padStart 2 (CHR ''0'') (bigint_to_string (week_number (7 * a))) =
      bigint_to_string (getUTCFullYear (7 * b)) @ ''-W'' @ padStart 2 (CHR ''0'') (bigint_to_string (week_number (7 * b)))"
  shows "a = b"
proof -
  from assms(1,2) have rng: "1 \<le> week_number (7 * a)" "week_number (7 * a) \<le> 53" "1 \<le> week_number (7 * b)" "week_number (7 * b) \<le> 53"
    using week_number_range by simp_all
  then have len: "length (''-W'' @ padStart 2 (CHR ''0'') (bigint_to_string (week_number (7 * a)))) =
      length (''-W'' @ padStart 2 (CHR ''0'') (bigint_to_string (week_number (7 * b))))"
    by (simp add: two_digits)
  from eq len have "bigint_to_string (getUTCFullYear (7 * a)) = bigint_to_string (getUTCFullYear (7 * b))"
    and pad: "padStart 2 (CHR ''0'') (bigint_to_string (week_number (7 * a))) = padStart 2 (CHR ''0'') (bigint_to_string (week_number (7 * b)))"
    using append_eq_append_conv by (blast, simp)
  then have y: "getUTCFullYear (7 * a) = getUTCFullYear (7 * b)" by (blast intro: bigint_to_string_inj)
  define s where "s = year_start (getUTCFullYear (7 * b))"
  from pad rng have "week_number (7 * a) = week_number (7 * b)" by (intro two_digits_inj) simp_all
  then have "(7 * a - s + 7) div 7 = (7 * b - s + 7) div 7" by (simp add: week_number_def y s_def)
  moreover have "(7 * c - s + 7) div 7 = c + (7 - s) div 7" for c
  proof -
    have "7 * c - s + 7 = (7 - s) + c * 7" by simp
    then have "(7 * c - s + 7) div 7 = ((7 - s) + c * 7) div 7" by (rule arg_cong)
    also have "\<dots> = c + (7 - s) div 7" by (rule div_mult_self1) simp
    finally show ?thesis .
  qed
  ultimately show "a = b" by simp
qed

text \<open>
  C23. Two instants from 1970 on have the same week identifier exactly when they lie in the same week
  from Monday to Sunday, so the weekly cache of the coach never serves one week's insights in another,
  nor computes them twice, at the turn of the year included.
\<close>

theorem week_ids_agree:
  assumes "0 \<le> t" "0 \<le> t'"
  shows "getIsoWeekId t = getIsoWeekId t' \<longleftrightarrow> (t div 86400000 + 3) div 7 = (t' div 86400000 + 3) div 7"
proof -
  from assms have "0 \<le> (t div 86400000 + 3) div 7" "0 \<le> (t' div 86400000 + 3) div 7" by simp_all
  from week_id_inj [OF this] show ?thesis unfolding week_id Let_def by metis
qed

theorem week_ids_agree_witness:
  "getIsoWeekId 1735603200000 = getIsoWeekId 1735689600000 \<and> getIsoWeekId 1735689600000 \<noteq> getIsoWeekId 1736121600000"
  using week_ids_agree [of 1735603200000 1735689600000] week_ids_agree [of 1735689600000 1736121600000] by simp

end
