(* ===== verification/Oracle.thy ===== *)
theory Oracle
  imports Complex_Main Creator_Events
begin

text \<open>
  \<open>oracle/oracle-reliability.service.ts\<close>, \<open>oracle/oracle.service.ts\<close> and the screening of
  \<open>oracle/submission-history.service.ts\<close>: the reliability of data sources with its decay, the weighted
  consensus on a match, and the detection of outliers.

  The numbers of the source are doubles; here they are exact rationals, so a comparison that hangs on
  the last bit of a rounded sum may differ.  A standard deviation is kept as its square, the variance, and
  a score as its square: the tests compare squares, which agrees since both sides are not negative.
  A configured number is what \<open>Number(...)\<close> reads, \<open>None\<close> where that is not a finite number.
\<close>

section \<open>Reliability\<close>

record reliability_row =
  rr_source :: string
  rr_total :: nat
  rr_correct :: nat
  rr_score :: "rat option"
  rr_updated_at :: instant

record reliability_history =
  rh_source :: string
  rh_match :: string
  rh_was_correct :: bool
  rh_previous :: "rat option"
  rh_new :: rat
  rh_total :: nat
  rh_correct :: nat

record reliability_env =
  re_now :: instant
  re_rate :: "rat option"
  re_period :: "rat option"
  re_floor :: "rat option"

definition WEIGHT_FLOOR :: rat where "WEIGHT_FLOOR = 1 / 10"

definition DEFAULT_WEIGHT :: rat where "DEFAULT_WEIGHT = 1"

definition DEFAULT_DECAY_RATE :: rat where "DEFAULT_DECAY_RATE = 1 / 20"

definition DEFAULT_DECAY_PERIOD_MS :: rat where "DEFAULT_DECAY_PERIOD_MS = 7 * 24 * 60 * 60 * 1000"

definition DEFAULT_DECAY_FLOOR :: rat where "DEFAULT_DECAY_FLOOR = 1 / 10"

definition getDecayRate :: "reliability_env \<Rightarrow> rat" where
  "getDecayRate env = (case re_rate env of Some r \<Rightarrow> if r \<ge> 0 then r else DEFAULT_DECAY_RATE | None \<Rightarrow> DEFAULT_DECAY_RATE)"

definition getDecayPeriodMs :: "reliability_env \<Rightarrow> rat" where
  "getDecayPeriodMs env = (case re_period env of Some p \<Rightarrow> if p > 0 then p else DEFAULT_DECAY_PERIOD_MS | None \<Rightarrow> DEFAULT_DECAY_PERIOD_MS)"

definition getDecayFloor :: "reliability_env \<Rightarrow> rat" where
  "getDecayFloor env = (case re_floor env of Some f \<Rightarrow> if f \<ge> 0 \<and> f \<le> 1 then f else DEFAULT_DECAY_FLOOR | None \<Rightarrow> DEFAULT_DECAY_FLOOR)"

definition applyDecay :: "reliability_env \<Rightarrow> reliability_row \<Rightarrow> rat option" where
  "applyDecay env r =
     (case rr_score r of
        None \<Rightarrow> None
      | Some score \<Rightarrow>
          let rate = getDecayRate env
          in if rate \<le> 0 then Some score
             else
               let elapsed = max 0 (re_now env - rr_updated_at r);
                   periods = \<lfloor>of_int elapsed / getDecayPeriodMs env\<rfloor>
               in if periods \<le> 0 then Some score
                  else Some (max (getDecayFloor env) (min 1 (score * (1 - rate) ^ nat periods))))"

text \<open>Saving a row stamps its time of update.\<close>

definition decayAndPersist :: "reliability_env \<Rightarrow> reliability_row \<Rightarrow> reliability_row list \<Rightarrow> reliability_row \<times> reliability_row list" where
  "decayAndPersist env r rows =
     (let decayed = applyDecay env r
      in if decayed = None \<or> decayed = rr_score r then (r, rows)
         else let r' = r\<lparr>rr_score := decayed, rr_updated_at := re_now env\<rparr> in (r', save_row rr_source r' rows))"

definition recordOutcome ::
  "reliability_env \<Rightarrow> string \<Rightarrow> string \<Rightarrow> bool \<Rightarrow> reliability_row list \<times> reliability_history list \<Rightarrow>
   reliability_row \<times> reliability_row list \<times> reliability_history list" where
  "recordOutcome env source matchId wasCorrect = (\<lambda>(rows, history).
     let (found, rows1) = (case find_row rr_source source rows of
                             Some r \<Rightarrow> (case decayAndPersist env r rows of (r', rows') \<Rightarrow> (Some r', rows'))
                           | None \<Rightarrow> (None, rows));
         previous = Option.bind found rr_score;
         r0 = (case found of Some r \<Rightarrow> r
               | None \<Rightarrow> \<lparr>rr_source = source, rr_total = 0, rr_correct = 0, rr_score = None, rr_updated_at = re_now env\<rparr>);
         t = rr_total r0 + 1;
         k = (if wasCorrect then rr_correct r0 + 1 else rr_correct r0);
         saved = r0\<lparr>rr_total := t, rr_correct := k, rr_score := Some (of_nat k / of_nat t), rr_updated_at := re_now env\<rparr>
     in (saved, save_row rr_source saved rows1,
         history @ [\<lparr>rh_source = source, rh_match = matchId, rh_was_correct = wasCorrect, rh_previous = previous,
                     rh_new = of_nat k / of_nat t, rh_total = t, rh_correct = k\<rparr>]))"

definition getWeight :: "reliability_env \<Rightarrow> string \<Rightarrow> reliability_row list \<Rightarrow> rat \<times> reliability_row list" where
  "getWeight env source rows =
     (let (decayed, rows1) = (case find_row rr_source source rows of
                                Some r \<Rightarrow> (case decayAndPersist env r rows of (r', rows') \<Rightarrow> (Some r', rows'))
                              | None \<Rightarrow> (None, rows));
          weight = (case Option.bind decayed rr_score of Some x \<Rightarrow> x | None \<Rightarrow> DEFAULT_WEIGHT)
      in (max WEIGHT_FLOOR (min 1 weight), rows1))"

primrec decay_all :: "reliability_env \<Rightarrow> reliability_row list \<Rightarrow> reliability_row list \<Rightarrow> reliability_row list \<times> reliability_row list" where
  "decay_all env [] rows = ([], rows)"
| "decay_all env (r # rs) rows =
     (let (r', rows1) = decayAndPersist env r rows; (rs', rows2) = decay_all env rs rows1 in (r' # rs', rows2))"

definition score_key :: "reliability_row \<Rightarrow> rat" where
  "score_key r = - (case rr_score r of Some x \<Rightarrow> x | None \<Rightarrow> - 1)"

text \<open>A descending order of the database puts nulls first.\<close>

definition getScores :: "reliability_env \<Rightarrow> reliability_row list \<Rightarrow> reliability_row list \<times> reliability_row list" where
  "getScores env rows =
     (let stored = filter (\<lambda>r. rr_score r = None) rows @ sort_key score_key (filter (\<lambda>r. rr_score r \<noteq> None) rows);
          (decayed, rows1) = decay_all env stored rows
      in (sort_key score_key decayed, rows1))"

definition getScoreBySource :: "reliability_env \<Rightarrow> string \<Rightarrow> reliability_row list \<Rightarrow> reliability_row option \<times> reliability_row list" where
  "getScoreBySource env source rows =
     (case find_row rr_source source rows of
        None \<Rightarrow> (None, rows)
      | Some r \<Rightarrow> (case decayAndPersist env r rows of (r', rows') \<Rightarrow> (Some r', rows')))"

section \<open>Submissions\<close>

datatype submission_status = SUB_PENDING | SUB_SUBMITTED | SUB_FAILED

datatype review_status = REVIEW_NOT_REQUIRED | REVIEW_HELD | REVIEW_APPROVED | REVIEW_REJECTED

datatype z_score = No_score | Sentinel | Z_squared rat

record oracle_submission =
  os_id :: id
  os_match :: string
  os_job :: string
  os_key :: string
  os_team_a :: string
  os_team_b :: string
  os_winner :: team
  os_confidence :: int
  os_source :: string
  os_result_at :: instant
  os_metadata :: "string option"
  os_status :: submission_status
  os_tx :: "string option"
  os_submitted_at :: "instant option"
  os_error :: "string option"
  os_retries :: nat
  os_is_anomaly :: bool
  os_z :: z_score
  os_review :: review_status
  os_reviewed_by :: "string option"
  os_reviewed_at :: "instant option"
  os_created_at :: instant

section \<open>Consensus\<close>

record submission_summary =
  ss_id :: id
  ss_source :: string
  ss_winner :: team
  ss_confidence :: int
  ss_is_anomaly :: bool
  ss_review :: review_status

record match_consensus =
  can_auto_finalize :: bool
  c_outcome :: "team option"
  eligible_participants :: nat
  minimum_required :: rat
  outcome_votes :: "(team \<times> rat) list"
  confidence_median :: "rat option"
  quarantined_count :: nat
  quarantined_submissions :: "submission_summary list"
  eligible_submissions :: "submission_summary list"
  c_reason :: string

definition DEFAULT_MIN_CONSENSUS_SOURCES :: rat where "DEFAULT_MIN_CONSENSUS_SOURCES = 2"

definition readNumberConfig :: "rat option \<Rightarrow> rat \<Rightarrow> rat" where
  "readNumberConfig raw fallback = (case raw of Some n \<Rightarrow> if n > 0 then n else fallback | None \<Rightarrow> fallback)"

definition isQuarantined :: "oracle_submission \<Rightarrow> bool" where
  "isQuarantined s \<longleftrightarrow> os_review s = REVIEW_HELD \<or> os_review s = REVIEW_REJECTED"

definition submissions_of :: "string \<Rightarrow> oracle_submission list \<Rightarrow> oracle_submission list" where
  "submissions_of matchId subs = sort_key os_created_at (filter (\<lambda>s. os_match s = matchId) subs)"

definition eligible_of :: "string \<Rightarrow> oracle_submission list \<Rightarrow> oracle_submission list" where
  "eligible_of matchId subs = filter (\<lambda>s. \<not> isQuarantined s \<and> os_status s \<noteq> SUB_FAILED) (submissions_of matchId subs)"

primrec load_weights :: "reliability_env \<Rightarrow> oracle_submission list \<Rightarrow> (string \<rightharpoonup> rat) \<Rightarrow> reliability_row list \<Rightarrow> (string \<rightharpoonup> rat) \<times> reliability_row list" where
  "load_weights env [] weights rows = (weights, rows)"
| "load_weights env (s # ss) weights rows =
     (let (weight, rows1) = getWeight env (os_source s) rows in load_weights env ss (weights(os_source s \<mapsto> weight)) rows1)"

definition weight_for :: "(string \<rightharpoonup> rat) \<Rightarrow> oracle_submission \<Rightarrow> rat" where
  "weight_for weights s = (case weights (os_source s) of Some x \<Rightarrow> if x = 0 then 1 else x | None \<Rightarrow> 1)"

definition add_vote :: "(string \<rightharpoonup> rat) \<Rightarrow> oracle_submission \<Rightarrow> (team \<times> rat) list \<times> rat \<Rightarrow> (team \<times> rat) list \<times> rat" where
  "add_vote weights s = (\<lambda>(cast, all).
     (map (\<lambda>(t, x). if t = os_winner s then (t, x + weight_for weights s) else (t, x)) cast, all + weight_for weights s))"

definition leading :: "(team \<times> rat) list \<Rightarrow> team option \<times> rat" where
  "leading cast = fold (\<lambda>(t, x) (best, top). if x > top then (Some t, x) else (best, top)) cast (None, 0)"

definition median :: "rat list \<Rightarrow> rat" where
  "median values =
     (let sorted = sort values; mid = length sorted div 2
      in if even (length sorted) then (sorted ! (mid - 1) + sorted ! mid) / 2 else sorted ! mid)"

definition medianConfidence :: "oracle_submission list \<Rightarrow> rat option" where
  "medianConfidence subs = (if subs = [] then None else Some (median (map (of_int \<circ> os_confidence) subs)))"

definition toSummary :: "oracle_submission \<Rightarrow> submission_summary" where
  "toSummary s = \<lparr>ss_id = os_id s, ss_source = os_source s, ss_winner = os_winner s, ss_confidence = os_confidence s,
     ss_is_anomaly = os_is_anomaly s, ss_review = os_review s\<rparr>"

definition getMatchConsensus ::
  "reliability_env \<Rightarrow> rat option \<Rightarrow> string \<Rightarrow> oracle_submission list \<Rightarrow> reliability_row list \<Rightarrow> match_consensus \<times> reliability_row list" where
  "getMatchConsensus env config matchId subs rows =
     (let eligible = eligible_of matchId subs;
          quarantined = filter isQuarantined (submissions_of matchId subs);
          (weights, rows1) = load_weights env eligible Map.empty rows;
          (cast, totalWeight) = fold (add_vote weights) eligible ([(TEAM_A, 0), (TEAM_B, 0), (DRAW, 0)], 0);
          (first, winningWeight) = leading cast;
          outcome = (if first \<noteq> None \<and> winningWeight \<le> totalWeight / 2 then None else first);
          minimum = readNumberConfig config DEFAULT_MIN_CONSENSUS_SOURCES;
          verdict = (if of_nat (length eligible) < minimum then ''insufficient_sources''
                     else if outcome = None then ''vote_tie'' else ''majority_reached'')
      in (\<lparr>can_auto_finalize = (verdict = ''majority_reached'' \<and> outcome \<noteq> None), c_outcome = outcome,
           eligible_participants = length eligible, minimum_required = minimum, outcome_votes = cast,
           confidence_median = medianConfidence eligible, quarantined_count = length quarantined,
           quarantined_submissions = map toSummary quarantined, eligible_submissions = map toSummary eligible,
           c_reason = verdict\<rparr>, rows1))"

section \<open>Outliers\<close>

record anomaly_env =
  an_threshold :: "rat option"
  an_min_samples :: "rat option"
  an_window :: "rat option"
  an_median_threshold :: "rat option"
  an_hold :: bool
  an_now :: instant

record anomaly_evaluation =
  ev_isAnomaly :: bool
  ev_z :: z_score
  ev_mean :: rat
  ev_variance :: rat
  ev_baselineMedian :: rat
  ev_medianDeviation :: "rat option"
  ev_sampleSize :: nat
  ev_threshold :: rat
  ev_reason :: string

record submission_flag =
  sf_submission :: id
  sf_match :: string
  sf_source :: string
  sf_observed :: int
  sf_mean :: rat
  sf_median :: rat
  sf_variance :: rat
  sf_deviation :: z_score
  sf_threshold :: rat
  sf_sample_size :: nat
  sf_held :: bool
  sf_created_at :: instant

definition mean :: "rat list \<Rightarrow> rat" where
  "mean values = sum_list values / of_nat (length values)"

definition variance :: "rat list \<Rightarrow> rat \<Rightarrow> rat" where
  "variance values m = sum_list (map (\<lambda>v. (v - m) * (v - m)) values) / of_nat (length values)"

definition baseline :: "anomaly_env \<Rightarrow> string \<Rightarrow> id option \<Rightarrow> oracle_submission list \<Rightarrow> rat list" where
  "baseline env source except subs =
     map (of_int \<circ> os_confidence) (take (nat \<lfloor>readNumberConfig (an_window env) 50\<rfloor>)
       (sort_key (\<lambda>s. - os_created_at s) (filter (\<lambda>s. os_source s = source \<and> except \<noteq> Some (os_id s)) subs)))"

definition evaluateAnomaly :: "anomaly_env \<Rightarrow> string \<Rightarrow> rat \<Rightarrow> id option \<Rightarrow> oracle_submission list \<Rightarrow> anomaly_evaluation" where
  "evaluateAnomaly env source v except subs =
     (let values = baseline env source except subs;
          threshold = readNumberConfig (an_threshold env) 3;
          m = mean values; vr = variance values m; med = median values; dev = \<bar>v - med\<bar>
      in if of_nat (length values) < readNumberConfig (an_min_samples env) 5
         then \<lparr>ev_isAnomaly = False, ev_z = No_score, ev_mean = (if values = [] then 0 else m), ev_variance = 0,
               ev_baselineMedian = (if values = [] then 0 else med), ev_medianDeviation = None,
               ev_sampleSize = length values, ev_threshold = threshold, ev_reason = ''insufficient_samples''\<rparr>
         else if vr = 0
         then \<lparr>ev_isAnomaly = (v \<noteq> m), ev_z = (if v \<noteq> m then Sentinel else Z_squared 0), ev_mean = m, ev_variance = vr,
               ev_baselineMedian = med, ev_medianDeviation = Some dev, ev_sampleSize = length values, ev_threshold = threshold,
               ev_reason = (if v \<noteq> m then ''zero_variance_outlier'' else ''within_threshold'')\<rparr>
         else
           let zExceeded = (v - m) * (v - m) > threshold * threshold * vr;
               medianExceeded = dev > readNumberConfig (an_median_threshold env) 15
           in \<lparr>ev_isAnomaly = (zExceeded \<or> medianExceeded), ev_z = Z_squared ((v - m) * (v - m) / vr), ev_mean = m, ev_variance = vr,
               ev_baselineMedian = med, ev_medianDeviation = Some dev, ev_sampleSize = length values, ev_threshold = threshold,
               ev_reason = (if zExceeded then ''deviation_exceeds_threshold''
                            else if medianExceeded then ''median_deviation_exceeds_threshold'' else ''within_threshold'')\<rparr>)"

definition flag_for :: "anomaly_env \<Rightarrow> oracle_submission \<Rightarrow> anomaly_evaluation \<Rightarrow> bool \<Rightarrow> submission_flag" where
  "flag_for env s ev held =
     \<lparr>sf_submission = os_id s, sf_match = os_match s, sf_source = os_source s, sf_observed = os_confidence s,
      sf_mean = ev_mean ev, sf_median = ev_baselineMedian ev, sf_variance = ev_variance ev, sf_deviation = ev_z ev,
      sf_threshold = ev_threshold ev, sf_sample_size = ev_sampleSize ev, sf_held = held, sf_created_at = an_now env\<rparr>"

text \<open>The answer is whether the submission is held.\<close>

definition screenSubmission ::
  "anomaly_env \<Rightarrow> oracle_submission \<Rightarrow> oracle_submission list \<times> submission_flag list \<Rightarrow> bool \<times> oracle_submission list \<times> submission_flag list" where
  "screenSubmission env s = (\<lambda>(subs, flags).
     let ev = evaluateAnomaly env (os_source s) (of_int (os_confidence s)) (Some (os_id s)) subs;
         held = (ev_isAnomaly ev \<and> an_hold env);
         s' = s\<lparr>os_is_anomaly := ev_isAnomaly ev, os_z := ev_z ev, os_review := (if held then REVIEW_HELD else os_review s)\<rparr>
     in (held, save_row os_id s' subs, if ev_isAnomaly ev then flags @ [flag_for env s' ev held] else flags))"

definition getFlags :: "string option \<Rightarrow> string option \<Rightarrow> bool \<Rightarrow> nat \<Rightarrow> nat \<Rightarrow> submission_flag list \<Rightarrow> submission_flag list \<times> nat" where
  "getFlags source matchId heldOnly page lmt flags =
     (let rows = filter (\<lambda>f. (truthy source \<longrightarrow> Some (sf_source f) = source) \<and> (truthy matchId \<longrightarrow> Some (sf_match f) = matchId) \<and>
                   (heldOnly \<longrightarrow> sf_held f)) flags;
          n = min lmt 100
      in (take n (drop ((page - 1) * n) (sort_key (\<lambda>f. - sf_created_at f) rows)), length rows))"

end
