(* ===== verification/Oracle_Webhook.thy ===== *)
theory Oracle_Webhook
  imports Oracle Webhooks
begin

text \<open>
  \<open>oracle/webhook.service.ts\<close> and the guards of the oracle routes: reported results are checked, stored, screened,
  submitted and retried, and held ones are reviewed.

  Digests, the parsing and printing of dates, fresh identifiers, the answers of the submission and of the
  database, and the clock are in the environment of a request.  An attempt that fails has changed nothing: in
  the source it fails before its first write.
\<close>

section \<open>State\<close>

record oracle_match =
  om_id :: id
  om_on_chain :: string
  om_event :: id
  om_team_a :: string
  om_team_b :: string
  om_time :: instant
  om_submitted :: bool
  om_winner :: "team option"

record oracle_assignment =
  oa_source :: string
  oa_event :: id
  oa_active :: bool

record match_report =
  mr_match :: string
  mr_winner :: team
  mr_confidence :: int
  mr_source :: string
  mr_timestamp :: string
  mr_metadata :: "string option"
  mr_key :: "string option"

record queued =
  q_id :: string
  q_match :: string
  q_winner :: team
  q_confidence :: int
  q_source :: string
  q_timestamp :: string
  q_metadata :: "string option"
  q_retries :: nat
  q_created_at :: instant
  q_next :: instant
  q_error :: "string option"

record oracle_state =
  om_rows :: "oracle_match list"
  os_rows :: "oracle_submission list"
  sf_rows :: "submission_flag list"
  submissionQueue :: "queued list"
  processedEventIds :: "(string \<times> instant) list"

datatype json_part = J_string string | J_number int

datatype attempt = Attempt_fails string | Attempt_ok string

record webhook_env =
  w_now :: instant
  w_window :: "int option"
  w_date :: "string \<Rightarrow> instant option"
  w_iso :: "instant \<Rightarrow> string"
  w_digest :: "json_part list \<Rightarrow> string"
  w_job :: string
  w_submission :: id
  w_save_error :: "exn option"
  w_attempt :: "string \<Rightarrow> attempt"
  w_update_ok :: "string \<Rightarrow> bool"
  w_anomaly :: anomaly_env

record webhook_response =
  wr_job :: string
  wr_status :: string
  wr_duplicate :: bool
  wr_submission :: "id option"

section \<open>Fresh payloads\<close>

definition DEFAULT_SIGNATURE_WINDOW_MS :: int where "DEFAULT_SIGNATURE_WINDOW_MS = 5 * 60 * 1000"

definition getSignatureWindowMs :: "webhook_env \<Rightarrow> int" where
  "getSignatureWindowMs env = (case w_window env of Some n \<Rightarrow> if n > 0 then n else DEFAULT_SIGNATURE_WINDOW_MS | None \<Rightarrow> DEFAULT_SIGNATURE_WINDOW_MS)"

fun team_name :: "team \<Rightarrow> string" where
  "team_name TEAM_A = ''TEAM_A''"
| "team_name TEAM_B = ''TEAM_B''"
| "team_name DRAW = ''DRAW''"

definition resolveEventId :: "webhook_env \<Rightarrow> match_report \<Rightarrow> string" where
  "resolveEventId env d =
     mr_source d @ '':'' @ (case mr_key d of
       Some k \<Rightarrow> k
     | None \<Rightarrow> w_digest env [J_string (mr_match d), J_string (mr_source d), J_string (team_name (mr_winner d)),
                 J_number (mr_confidence d), J_string (mr_timestamp d)])"

definition pruneExpiredEventIds :: "webhook_env \<Rightarrow> oracle_state \<Rightarrow> oracle_state" where
  "pruneExpiredEventIds env s = s\<lparr>processedEventIds := filter (\<lambda>(_, t). \<not> t \<le> w_now env) (processedEventIds s)\<rparr>"

definition rememberEventId :: "webhook_env \<Rightarrow> string \<Rightarrow> oracle_state \<Rightarrow> oracle_state" where
  "rememberEventId env k s =
     s\<lparr>processedEventIds := (k, w_now env + getSignatureWindowMs env) # filter (\<lambda>(x, _). x \<noteq> k) (processedEventIds s)\<rparr>"

definition assertFreshSignedPayload :: "webhook_env \<Rightarrow> match_report \<Rightarrow> (oracle_state, exn, string) action" where
  "assertFreshSignedPayload env d s =
     (case (if mr_timestamp d = [] then None else w_date env (mr_timestamp d)) of
        None \<Rightarrow> (Inl (BadRequest ''Webhook payload is missing a valid signed timestamp''), s)
      | Some t \<Rightarrow>
          if \<bar>w_now env - t\<bar> > getSignatureWindowMs env
          then (Inl (Conflict ''Webhook timestamp is outside the allowed window''), s)
          else
            let k = resolveEventId env d; s1 = pruneExpiredEventIds env s
            in if k \<in> fst ` set (processedEventIds s1) then (Inl (Conflict ''Webhook event has already been processed''), s1)
               else (Inr k, s1))"

definition resolveIdempotencyKey :: "webhook_env \<Rightarrow> match_report \<Rightarrow> string" where
  "resolveIdempotencyKey env d =
     (if truthy (mr_key d) then ''key:'' @ w_digest env [J_string (mr_source d), J_string (the (mr_key d))]
      else ''payload:'' @ w_digest env [J_string (mr_match d), J_string (mr_source d), J_string (team_name (mr_winner d)),
             J_number (mr_confidence d),
             J_string (case w_date env (mr_timestamp d) of None \<Rightarrow> mr_timestamp d | Some t \<Rightarrow> w_iso env t)])"

definition describeSubmissionState :: "oracle_submission \<Rightarrow> string" where
  "describeSubmissionState s =
     (if os_review s = REVIEW_HELD then ''held''
      else if os_review s = REVIEW_REJECTED then ''rejected''
      else case os_status s of SUB_SUBMITTED \<Rightarrow> ''submitted'' | SUB_FAILED \<Rightarrow> ''failed'' | _ \<Rightarrow> ''accepted'')"

definition replayDuplicate :: "oracle_submission \<Rightarrow> match_report \<Rightarrow> (exn, webhook_response) result" where
  "replayDuplicate e d =
     (if os_match e = mr_match d \<and> os_source e = mr_source d \<and> os_winner e = mr_winner d \<and> os_confidence e = mr_confidence d
      then Inr \<lparr>wr_job = os_job e, wr_status = describeSubmissionState e, wr_duplicate = True, wr_submission = Some (os_id e)\<rparr>
      else Inl (Conflict ''Idempotency key already used for a different result''))"

section \<open>Submitting and retrying\<close>

definition MAX_RETRIES :: nat where "MAX_RETRIES = 3"

definition RETRY_DELAYS :: "int list" where "RETRY_DELAYS = [60000, 300000, 900000]"

text \<open>A failed update of the record is logged and forgotten.\<close>

definition updateSubmissionRecord :: "webhook_env \<Rightarrow> string \<Rightarrow> (oracle_submission \<Rightarrow> oracle_submission) \<Rightarrow> oracle_state \<Rightarrow> oracle_state" where
  "updateSubmissionRecord env job f s =
     (case (w_update_ok env job, find_row os_job job (os_rows s)) of
        (True, Some r) \<Rightarrow> s\<lparr>os_rows := save_row os_id (f r) (os_rows s)\<rparr>
      | _ \<Rightarrow> s)"

definition simulateOracleSubmission :: "webhook_env \<Rightarrow> queued \<Rightarrow> string \<Rightarrow> oracle_state \<Rightarrow> oracle_state" where
  "simulateOracleSubmission env q tx s =
     (let s1 = (case find_row om_on_chain (q_match q) (om_rows s) of
                  Some m \<Rightarrow> s\<lparr>om_rows := save_row om_id (m\<lparr>om_submitted := True, om_winner := Some (q_winner q)\<rparr>) (om_rows s)\<rparr>
                | None \<Rightarrow> s)
      in updateSubmissionRecord env (q_id q)
           (\<lambda>r. r\<lparr>os_status := SUB_SUBMITTED, os_submitted_at := Some (w_now env), os_tx := Some tx, os_retries := q_retries q\<rparr>) s1)"

definition delete_job :: "string \<Rightarrow> oracle_state \<Rightarrow> oracle_state" where
  "delete_job k s = s\<lparr>submissionQueue := filter (\<lambda>q. q_id q \<noteq> k) (submissionQueue s)\<rparr>"

definition retry_delay :: "nat \<Rightarrow> int" where
  "retry_delay n = (if n - 1 < length RETRY_DELAYS then RETRY_DELAYS ! (n - 1) else last RETRY_DELAYS)"

definition handleRetry :: "webhook_env \<Rightarrow> queued \<Rightarrow> string \<Rightarrow> oracle_state \<Rightarrow> oracle_state" where
  "handleRetry env q err s =
     (let n = q_retries q + 1;
          s1 = updateSubmissionRecord env (q_id q) (\<lambda>r. r\<lparr>os_status := SUB_FAILED, os_error := Some err, os_retries := n\<rparr>) s
      in if n \<ge> MAX_RETRIES then delete_job (q_id q) s1
         else s1\<lparr>submissionQueue := update_row q_id (q_id q)
                  (\<lambda>_. q\<lparr>q_retries := n, q_error := Some err, q_next := w_now env + retry_delay n\<rparr>) (submissionQueue s1)\<rparr>)"

definition submitToOracle :: "webhook_env \<Rightarrow> queued \<Rightarrow> oracle_state \<Rightarrow> oracle_state" where
  "submitToOracle env q s =
     (case w_attempt env (q_id q) of
        Attempt_ok tx \<Rightarrow> delete_job (q_id q) (simulateOracleSubmission env q tx s)
      | Attempt_fails err \<Rightarrow> handleRetry env q err s)"

definition processRetries :: "webhook_env \<Rightarrow> oracle_state \<Rightarrow> oracle_state" where
  "processRetries env s = fold (submitToOracle env) (filter (\<lambda>q. q_next q \<le> w_now env) (submissionQueue s)) s"

section \<open>Reports\<close>

definition submission_for :: "webhook_env \<Rightarrow> match_report \<Rightarrow> oracle_match \<Rightarrow> instant \<Rightarrow> oracle_submission" where
  "submission_for env d m t =
     \<lparr>os_id = w_submission env, os_match = mr_match d, os_job = w_job env, os_key = resolveIdempotencyKey env d,
      os_team_a = om_team_a m, os_team_b = om_team_b m, os_winner = mr_winner d, os_confidence = mr_confidence d,
      os_source = mr_source d, os_result_at = t, os_metadata = mr_metadata d, os_status = SUB_PENDING, os_tx = None,
      os_submitted_at = None, os_error = None, os_retries = 0, os_is_anomaly = False, os_z = No_score,
      os_review = REVIEW_NOT_REQUIRED, os_reviewed_by = None, os_reviewed_at = None, os_created_at = w_now env\<rparr>"

definition job_for :: "webhook_env \<Rightarrow> match_report \<Rightarrow> queued" where
  "job_for env d =
     \<lparr>q_id = w_job env, q_match = mr_match d, q_winner = mr_winner d, q_confidence = mr_confidence d, q_source = mr_source d,
      q_timestamp = mr_timestamp d, q_metadata = mr_metadata d, q_retries = 0, q_created_at = w_now env, q_next = w_now env, q_error = None\<rparr>"

definition enqueue :: "queued \<Rightarrow> oracle_state \<Rightarrow> oracle_state" where
  "enqueue q s = s\<lparr>submissionQueue := save_row q_id q (submissionQueue s)\<rparr>"

text \<open>
  \<open>processMatchResult\<close> in its parts, between which other requests and the retries run: the checks, the insertion with
  the queueing of the job, the screening, the submission.  The insertion meets the unique index on the key: when another
  request has inserted the same key meanwhile, that one's row is replayed.  Any other failure of the insertion is
  swallowed, and the job is queued without a row.
\<close>

datatype check_outcome = Duplicate webhook_response | Ready oracle_match string

definition check_result :: "webhook_env \<Rightarrow> match_report \<Rightarrow> (oracle_state, exn, check_outcome) action" where
  "check_result env d s =
     (case assertFreshSignedPayload env d s of
        (Inl x, s1) \<Rightarrow> (Inl x, s1)
      | (Inr eventId, s1) \<Rightarrow>
          (case find_row os_key (resolveIdempotencyKey env d) (os_rows s1) of
             Some e \<Rightarrow> (case replayDuplicate e d of Inl x \<Rightarrow> (Inl x, s1) | Inr r \<Rightarrow> (Inr (Duplicate r), s1))
           | None \<Rightarrow>
               (case find_row om_on_chain (mr_match d) (om_rows s1) of
                  None \<Rightarrow> (Inl (NotFound ''Match not found''), s1)
                | Some m \<Rightarrow>
                    if om_submitted m then (Inl (Conflict ''Match has already been resolved''), s1)
                    else if w_now env - om_time m < - (60 * 60 * 1000) then (Inl (Conflict ''Match has not started yet''), s1)
                    else (Inr (Ready m eventId), s1))))"

datatype admission = Replayed webhook_response | Admitted queued "oracle_submission option"

definition store_result :: "webhook_env \<Rightarrow> match_report \<Rightarrow> oracle_match \<Rightarrow> string \<Rightarrow> (oracle_state, exn, admission) action" where
  "store_result env d m eventId s =
     (let row = submission_for env d m (the (w_date env (mr_timestamp d)));
          queue = (\<lambda>s. rememberEventId env eventId (enqueue (job_for env d) s))
      in if w_save_error env \<noteq> None then (Inr (Admitted (job_for env d) None), queue s)
         else case find_row os_key (os_key row) (os_rows s) of
                Some e \<Rightarrow> (case replayDuplicate e d of Inl x \<Rightarrow> (Inl x, s) | Inr r \<Rightarrow> (Inr (Replayed r), s))
              | None \<Rightarrow> (Inr (Admitted (job_for env d) (Some row)), queue (s\<lparr>os_rows := os_rows s @ [row]\<rparr>)))"

definition screen_result :: "webhook_env \<Rightarrow> queued \<Rightarrow> oracle_submission option \<Rightarrow> oracle_state \<Rightarrow> bool \<times> oracle_state" where
  "screen_result env q saved s =
     (case saved of
        None \<Rightarrow> (False, s)
      | Some r \<Rightarrow>
          (case screenSubmission (w_anomaly env) r (os_rows s, sf_rows s) of
             (held, subs, flags) \<Rightarrow>
               let s1 = s\<lparr>os_rows := subs, sf_rows := flags\<rparr> in (held, if held then delete_job (q_id q) s1 else s1)))"

definition finish_result :: "webhook_env \<Rightarrow> queued \<Rightarrow> oracle_submission option \<Rightarrow> oracle_state \<Rightarrow> webhook_response \<times> oracle_state" where
  "finish_result env q saved s =
     (let answer = (\<lambda>status. \<lparr>wr_job = q_id q, wr_status = status, wr_duplicate = False, wr_submission = map_option os_id saved\<rparr>)
      in case screen_result env q saved s of
           (True, s1) \<Rightarrow> (answer ''held'', s1)
         | (False, s1) \<Rightarrow> (answer ''accepted'', submitToOracle env q s1))"

definition processMatchResult :: "webhook_env \<Rightarrow> match_report \<Rightarrow> (oracle_state, exn, webhook_response) action" where
  "processMatchResult env d s =
     (case check_result env d s of
        (Inl x, s1) \<Rightarrow> (Inl x, s1)
      | (Inr (Duplicate r), s1) \<Rightarrow> (Inr r, s1)
      | (Inr (Ready m eventId), s1) \<Rightarrow>
          (case store_result env d m eventId s1 of
             (Inl x, s2) \<Rightarrow> (Inl x, s2)
           | (Inr (Replayed r), s2) \<Rightarrow> (Inr r, s2)
           | (Inr (Admitted q saved), s2) \<Rightarrow> (case finish_result env q saved s2 of (r, s3) \<Rightarrow> (Inr r, s3))))"

datatype review_decision = Approve | Reject

definition reviewSubmission :: "webhook_env \<Rightarrow> id \<Rightarrow> review_decision \<Rightarrow> string option \<Rightarrow> string option \<Rightarrow> (oracle_state, exn, bool) action" where
  "reviewSubmission env k decision reviewer remark s =
     (case find_row os_id k (os_rows s) of
        None \<Rightarrow> (Inl (NotFound ''Submission not found''), s)
      | Some r \<Rightarrow>
          if os_review r \<noteq> REVIEW_HELD then (Inl (Conflict ''Submission is not held for review''), s)
          else
            let r1 = r\<lparr>os_reviewed_by := reviewer, os_reviewed_at := Some (w_now env)\<rparr>
            in case decision of
                 Reject \<Rightarrow>
                   (Inr False, s\<lparr>os_rows := save_row os_id (r1\<lparr>os_review := REVIEW_REJECTED, os_status := SUB_FAILED,
                      os_error := Some (''Rejected in manual review'' @ (if truthy remark then '': '' @ the remark else []))\<rparr>) (os_rows s)\<rparr>)
               | Approve \<Rightarrow>
                   let s1 = s\<lparr>os_rows := save_row os_id (r1\<lparr>os_review := REVIEW_APPROVED, os_job := w_job env\<rparr>) (os_rows s)\<rparr>;
                       q = \<lparr>q_id = w_job env, q_match = os_match r, q_winner = os_winner r, q_confidence = os_confidence r,
                            q_source = os_source r, q_timestamp = w_iso env (os_result_at r), q_metadata = os_metadata r, q_retries = 0,
                            q_created_at = w_now env, q_next = w_now env, q_error = None\<rparr>
                   in (Inr True, submitToOracle env q (enqueue q s1)))"

definition getQueueStatus :: "oracle_state \<Rightarrow> nat \<times> nat \<times> nat" where
  "getQueueStatus s =
     (let jobs = submissionQueue s
      in (length jobs, length (filter (\<lambda>q. q_retries q = 0) jobs), length (filter (\<lambda>q. q_retries q > 0) jobs)))"

definition getJobStatus :: "string \<Rightarrow> oracle_state \<Rightarrow> queued option" where
  "getJobStatus k s = find_row q_id k (submissionQueue s)"

section \<open>Pending matches\<close>

definition getPendingMatches :: "instant \<Rightarrow> nat \<Rightarrow> nat \<Rightarrow> oracle_match list \<Rightarrow> (oracle_match \<times> int) list \<times> nat" where
  "getPendingMatches now page lmt ms =
     (let n = min lmt 100; pending = sort_key om_time (filter (\<lambda>m. om_time m < now \<and> \<not> om_submitted m) ms)
      in (map (\<lambda>m. (m, (now - om_time m) div 1000)) (take n (drop ((page - 1) * n) pending)), length pending))"

definition getStats :: "instant \<Rightarrow> oracle_match list \<Rightarrow> nat \<times> nat \<times> nat" where
  "getStats now ms =
     (let threshold = now - 24 * 60 * 60 * 1000
      in (length (filter (\<lambda>m. om_time m < now \<and> \<not> om_submitted m \<and> om_time m \<ge> threshold) ms),
          length (filter om_submitted ms),
          length (filter (\<lambda>m. om_time m < threshold \<and> \<not> om_submitted m) ms)))"

lemma stats_add_up: "(case getStats now ms of (pending, resolved, overdue) \<Rightarrow> pending + overdue) = snd (getPendingMatches now page lmt ms)"
  unfolding getStats_def getPendingMatches_def Let_def by (induction ms) (auto simp: length_sort)

section \<open>Guards\<close>

text \<open>
  A timestamp that is no number passes the test of its age, because a comparison with \<open>NaN\<close> is false.
\<close>

definition webhook_auth_guard :: "(string \<Rightarrow> string \<Rightarrow> string) \<Rightarrow> string \<Rightarrow> instant \<Rightarrow> string option \<Rightarrow> string option \<Rightarrow> string \<Rightarrow> (exn, unit) result" where
  "webhook_auth_guard hmac secret now signature timestamp body =
     (if secret = [] then Inl (Unauthorized ''Webhook authentication not configured'')
      else if \<not> truthy signature then Inl (Unauthorized ''Missing signature header'')
      else if \<not> truthy timestamp then Inl (Unauthorized ''Missing timestamp header'')
      else if (case parseInt (the timestamp) of Some t \<Rightarrow> \<bar>now div 1000 - t\<bar> > 300 | None \<Rightarrow> False)
      then Inl (Unauthorized ''Invalid timestamp'')
      else if hex_bytes (the signature) \<noteq> hex_bytes (hmac secret (the timestamp @ ''.'' @ body))
      then Inl (Unauthorized ''Invalid signature'')
      else Inr ())"

definition oracle_assignment_guard :: "string \<Rightarrow> string \<Rightarrow> oracle_match list \<Rightarrow> oracle_assignment list \<Rightarrow> (exn, unit) result" where
  "oracle_assignment_guard matchId source ms assignments =
     (if matchId = [] \<or> source = [] then Inr ()
      else case find_row om_on_chain matchId ms of
             None \<Rightarrow> Inr ()
           | Some m \<Rightarrow>
               (case List.find (\<lambda>a. oa_source a = source \<and> oa_active a) assignments of
                  None \<Rightarrow> Inl (Forbidden ''Data source is not a registered oracle'')
                | Some a \<Rightarrow> if oa_event a \<noteq> om_event m then Inl (Forbidden ''Data source is not authorized for this event'') else Inr ()))"

definition RATE_LIMIT_WINDOW :: int where "RATE_LIMIT_WINDOW = 60000"

definition RATE_LIMIT_MAX :: nat where "RATE_LIMIT_MAX = 100"

definition checkRateLimit :: "instant \<Rightarrow> string \<Rightarrow> (string \<rightharpoonup> nat \<times> instant) \<Rightarrow> bool \<times> (string \<rightharpoonup> nat \<times> instant)" where
  "checkRateLimit now who counts =
     (case counts who of
        None \<Rightarrow> (True, counts(who \<mapsto> (1, now + RATE_LIMIT_WINDOW)))
      | Some (n, reset) \<Rightarrow>
          if now > reset then (True, counts(who \<mapsto> (1, now + RATE_LIMIT_WINDOW)))
          else if n \<ge> RATE_LIMIT_MAX then (False, counts)
          else (True, counts(who \<mapsto> (n + 1, reset))))"

record oracle_auth =
  oracleApiKey :: "string option"
  aiAgentAddress :: "string option"
  nodeEnv :: string
  oa_verify :: "string \<Rightarrow> string \<Rightarrow> string \<Rightarrow> bool option"

definition verifyApiKey :: "oracle_auth \<Rightarrow> string option \<Rightarrow> (exn, unit) result" where
  "verifyApiKey cfg apiKey =
     (if \<not> truthy (oracleApiKey cfg) then Inl (Unauthorized ''Oracle API key not configured'')
      else if \<not> truthy apiKey \<or> apiKey \<noteq> oracleApiKey cfg then Inl (Unauthorized ''Invalid or missing API key'')
      else Inr ())"

text \<open>\<open>oa_verify\<close> is the signature check of the Stellar library, \<open>None\<close> where it throws.\<close>

definition verifyStellarSignature :: "oracle_auth \<Rightarrow> string option \<Rightarrow> string option \<Rightarrow> string option \<Rightarrow> (exn, unit) result" where
  "verifyStellarSignature cfg signature message caller =
     (if \<not> truthy signature \<or> \<not> truthy message \<or> \<not> truthy caller
      then Inl (Unauthorized ''Missing signature, message, or caller address'')
      else case oa_verify cfg (the caller) (the message) (the signature) of
             None \<Rightarrow> Inl (Unauthorized ''Signature verification failed'')
           | Some False \<Rightarrow> Inl (Unauthorized ''Invalid signature'')
           | Some True \<Rightarrow> if caller \<noteq> aiAgentAddress cfg then Inl (Unauthorized ''Caller address does not match authorized AI agent'') else Inr ())"

definition oracle_auth_guard ::
  "oracle_auth \<Rightarrow> instant \<Rightarrow> string option \<Rightarrow> string option \<Rightarrow> string option \<Rightarrow> string option \<Rightarrow>
   (string \<rightharpoonup> nat \<times> instant) \<Rightarrow> (exn, unit) result \<times> (string \<rightharpoonup> nat \<times> instant)" where
  "oracle_auth_guard cfg now caller apiKey signature message counts =
     (let who = (if truthy caller then the caller else ''unknown'')
      in case checkRateLimit now who counts of
           (False, counts1) \<Rightarrow> (Inl (Unauthorized ''Rate limit exceeded''), counts1)
         | (True, counts1) \<Rightarrow>
             (if nodeEnv cfg = ''development'' then verifyApiKey cfg apiKey else verifyStellarSignature cfg signature message caller, counts1))"

end
