(* ===== verification/Oracle_Sessions.thy ===== *)
theory Oracle_Sessions
  imports Oracle_Facts
begin

text \<open>
  Sessions of reports, reviews and retries: quarantined results are never used, a result delivered again
  changes nothing, and retries end.  Requests run one at a time here; what happens between the parts of a
  request is the subject of the last section.
\<close>

section \<open>Sessions\<close>

datatype oracle_op =
    Report webhook_env match_report
  | Retry_tick webhook_env
  | Review webhook_env id review_decision "string option" "string option"

fun handle_op :: "oracle_op \<Rightarrow> oracle_state \<Rightarrow> oracle_state" where
  "handle_op (Report env d) s = snd (processMatchResult env d s)"
| "handle_op (Retry_tick env) s = processRetries env s"
| "handle_op (Review env k decision reviewer remark) s = snd (reviewSubmission env k decision reviewer remark s)"

text \<open>Identifiers are fresh, and insertions do not fail.\<close>

fun op_ok :: "oracle_op \<Rightarrow> oracle_state \<Rightarrow> bool" where
  "op_ok (Report env d) s \<longleftrightarrow> w_submission env \<notin> os_id ` set (os_rows s) \<and> w_job env \<notin> os_job ` set (os_rows s) \<and> w_save_error env = None"
| "op_ok (Retry_tick env) s \<longleftrightarrow> True"
| "op_ok (Review env k decision reviewer remark) s \<longleftrightarrow> w_job env \<notin> os_job ` set (os_rows s)"

inductive oracle_session :: "oracle_state \<Rightarrow> oracle_state \<Rightarrow> bool" where
  session_done: "oracle_session s s"
| session_step: "op_ok x s \<Longrightarrow> oracle_session (handle_op x s) t \<Longrightarrow> oracle_session s t"

section \<open>The invariant\<close>

definition used_for :: "string \<Rightarrow> team \<Rightarrow> oracle_submission \<Rightarrow> bool" where
  "used_for m t r \<longleftrightarrow> os_match r = m \<and> os_winner r = t \<and> \<not> isQuarantined r"

definition submissions_ok :: "oracle_submission list \<Rightarrow> bool" where
  "submissions_ok rs \<longleftrightarrow> unique_keys os_id rs \<and> unique_keys os_job rs \<and> (\<forall>r \<in> set rs. isQuarantined r \<longrightarrow> os_status r \<noteq> SUB_SUBMITTED)"

definition serves :: "oracle_submission list \<Rightarrow> string \<Rightarrow> team \<Rightarrow> bool" where
  "serves rs m t \<longleftrightarrow> (\<exists>r \<in> set rs. used_for m t r)"

definition job_served :: "oracle_submission list \<Rightarrow> queued \<Rightarrow> bool" where
  "job_served rs q \<longleftrightarrow> (\<exists>r \<in> set rs. os_job r = q_id q \<and> used_for (q_match q) (q_winner q) r)"

definition jobs_ok :: "queued list \<Rightarrow> oracle_submission list \<Rightarrow> bool" where
  "jobs_ok qs rs \<longleftrightarrow> unique_keys q_id qs \<and> (\<forall>q \<in> set qs. q_retries q < MAX_RETRIES \<and> job_served rs q)"

definition results_ok :: "oracle_match list \<Rightarrow> oracle_submission list \<Rightarrow> bool" where
  "results_ok ms rs \<longleftrightarrow> unique_keys om_id ms \<and>
     (\<forall>m \<in> set ms. om_submitted m \<longrightarrow> (\<exists>t. om_winner m = Some t \<and> serves rs (om_on_chain m) t))"

lemma jobs_ok_rows: "jobs_ok qs rs \<Longrightarrow> (\<And>q. q \<in> set qs \<Longrightarrow> job_served rs q \<Longrightarrow> job_served rs' q) \<Longrightarrow> jobs_ok qs rs'"
  by (simp add: jobs_ok_def)

lemma results_ok_rows: "results_ok ms rs \<Longrightarrow> (\<And>m t. serves rs m t \<Longrightarrow> serves rs' m t) \<Longrightarrow> results_ok ms rs'"
  by (auto simp: results_ok_def)

definition oracle_ok :: "oracle_state \<Rightarrow> bool" where
  "oracle_ok s \<longleftrightarrow> submissions_ok (os_rows s) \<and> jobs_ok (submissionQueue s) (os_rows s) \<and> results_ok (om_rows s) (os_rows s)"

text \<open>A row is changed in place: what identifies it and its use stay.\<close>

definition same_use :: "oracle_submission \<Rightarrow> oracle_submission \<Rightarrow> bool" where
  "same_use r' r \<longleftrightarrow> os_id r' = os_id r \<and> os_job r' = os_job r \<and> os_key r' = os_key r \<and> os_match r' = os_match r \<and>
     os_winner r' = os_winner r \<and> os_review r' = os_review r"

lemma replaced_rows:
  assumes "submissions_ok rs" "r \<in> set rs" "os_id r' = os_id r"
  shows "set (save_row os_id r' rs) = insert r' (set rs - {r})"
proof -
  have u: "unique_keys os_id rs" using assms(1) by (simp add: submissions_ok_def)
  then have inj: "x \<in> set rs \<Longrightarrow> os_id x = os_id r \<Longrightarrow> x = r" for x
    using assms(2) by (auto simp: distinct_map inj_on_def)
  show ?thesis unfolding set_save_row_unique [OF u] assms(3) using inj by blast
qed


lemma same_use_used: "same_use r' r \<Longrightarrow> used_for m t r' = used_for m t r"
  by (simp add: same_use_def used_for_def isQuarantined_def)

lemma replaced_serves:
  assumes "set rs' = insert r' (set rs - {r})" "used_for m t r \<Longrightarrow> used_for m t r'"
  shows "serves rs m t \<Longrightarrow> serves rs' m t"
  using assms unfolding serves_def by blast

lemma replaced_job_served:
  assumes "set rs' = insert r' (set rs - {r})" "os_job r = q_id q \<Longrightarrow> used_for (q_match q) (q_winner q) r \<Longrightarrow>
      os_job r' = q_id q \<and> used_for (q_match q) (q_winner q) r'"
  shows "job_served rs q \<Longrightarrow> job_served rs' q"
  using assms unfolding job_served_def by blast

lemma submissions_ok_replaced:
  assumes "submissions_ok rs" "r \<in> set rs" "os_id r' = os_id r" "isQuarantined r' \<Longrightarrow> os_status r' \<noteq> SUB_SUBMITTED"
    and job: "os_job r' = os_job r \<or> os_job r' \<notin> os_job ` set rs"
  shows "submissions_ok (save_row os_id r' rs)"
proof -
  note set = replaced_rows [OF assms(1-3)]
  have u: "unique_keys os_id rs" and uj: "unique_keys os_job rs" using assms(1) by (simp_all add: submissions_ok_def)
  have ids: "unique_keys os_id (save_row os_id r' rs)" by (rule unique_keys_save [OF u])
  have inj: "inj_on os_job (set rs)" using uj by (simp add: distinct_map)
  then have "inj_on os_job (set rs - {r})" by (rule inj_on_subset) blast
  moreover have "os_job r' \<notin> os_job ` (set rs - {r} - {r'})"
    using job
  proof
    assume eq: "os_job r' = os_job r"
    have "x = r" if "x \<in> set rs" "os_job r = os_job x" for x using inj_onD [OF inj that(2) assms(2) that(1)] by (rule sym)
    then show ?thesis unfolding eq by blast
  qed blast
  ultimately have "inj_on os_job (insert r' (set rs - {r}))" unfolding inj_on_insert by (rule conjI)
  then have "unique_keys os_job (save_row os_id r' rs)"
    using ids [unfolded distinct_map, THEN conjunct1] by (simp only: distinct_map set)
  with ids assms(1,4) show ?thesis by (auto simp: submissions_ok_def set)
qed

lemma oracle_ok_row:
  assumes ok: "oracle_ok s" and r: "r \<in> set (os_rows s)" and use: "same_use r' r" and st: "isQuarantined r' \<Longrightarrow> os_status r' \<noteq> SUB_SUBMITTED"
  shows "oracle_ok (s\<lparr>os_rows := save_row os_id r' (os_rows s)\<rparr>)"
proof -
  from ok have rows: "submissions_ok (os_rows s)" and jobs: "jobs_ok (submissionQueue s) (os_rows s)" and res: "results_ok (om_rows s) (os_rows s)"
    by (simp_all add: oracle_ok_def)
  have key: "os_id r' = os_id r" "os_job r' = os_job r" using use by (simp_all add: same_use_def)
  note set = replaced_rows [OF rows r key(1)]
  have "submissions_ok (save_row os_id r' (os_rows s))" using submissions_ok_replaced [OF rows r key(1) st] key(2) by simp
  moreover have "jobs_ok (submissionQueue s) (save_row os_id r' (os_rows s))"
    by (rule jobs_ok_rows [OF jobs], rule replaced_job_served [OF set]) (simp_all add: key same_use_used [OF use])
  moreover have "results_ok (om_rows s) (save_row os_id r' (os_rows s))"
    by (rule results_ok_rows [OF res], rule replaced_serves [OF set]) (simp_all add: same_use_used [OF use])
  ultimately show ?thesis by (simp add: oracle_ok_def)
qed

section \<open>Submissions and retries\<close>

lemma job_row:
  assumes "oracle_ok s" "q \<in> set (submissionQueue s)"
  obtains r where "find_row os_job (q_id q) (os_rows s) = Some r" "r \<in> set (os_rows s)" "used_for (q_match q) (q_winner q) r"
proof -
  from assms obtain r where r: "r \<in> set (os_rows s)" "os_job r = q_id q" "used_for (q_match q) (q_winner q) r"
    by (auto simp: oracle_ok_def jobs_ok_def job_served_def)
  from assms(1) have "unique_keys os_job (os_rows s)" by (simp add: oracle_ok_def submissions_ok_def)
  from find_row_distinct [OF this r(1)] that r show thesis by simp
qed

lemma updated_record:
  assumes ok: "oracle_ok s" and q: "q \<in> set (submissionQueue s)" and f: "\<And>r. same_use (f r) r"
  shows "oracle_ok (updateSubmissionRecord env (q_id q) f s)"
proof -
  from ok q obtain r where r: "find_row os_job (q_id q) (os_rows s) = Some r" "r \<in> set (os_rows s)" "used_for (q_match q) (q_winner q) r"
    by (rule job_row)
  have "\<not> isQuarantined (f r)" using r(3) f [of r] by (simp add: used_for_def same_use_def isQuarantined_def)
  with oracle_ok_row [OF ok r(2) f] ok show ?thesis by (cases "w_update_ok env (q_id q)") (simp_all add: updateSubmissionRecord_def r(1))
qed

lemma updated_frame [simp]:
  "submissionQueue (updateSubmissionRecord env k f s) = submissionQueue s"
  "om_rows (updateSubmissionRecord env k f s) = om_rows s"
  "sf_rows (updateSubmissionRecord env k f s) = sf_rows s"
  "processedEventIds (updateSubmissionRecord env k f s) = processedEventIds s"
  by (auto simp: updateSubmissionRecord_def split: option.splits bool.splits)

lemma oracle_ok_queue:
  assumes "oracle_ok s" "unique_keys q_id qs" "\<And>q. q \<in> set qs \<Longrightarrow> q_retries q < MAX_RETRIES \<and> job_served (os_rows s) q"
  shows "oracle_ok (s\<lparr>submissionQueue := qs\<rparr>)"
  using assms by (simp add: oracle_ok_def jobs_ok_def)

lemma oracle_ok_delete: "oracle_ok s \<Longrightarrow> oracle_ok (delete_job k s)"
  unfolding delete_job_def by (rule oracle_ok_queue) (auto simp: oracle_ok_def jobs_ok_def distinct_map_filter)

lemma result_applied:
  assumes ok: "oracle_ok s" and q: "q \<in> set (submissionQueue s)" and m: "find_row om_on_chain (q_match q) (om_rows s) = Some m"
  shows "oracle_ok (s\<lparr>om_rows := save_row om_id (m\<lparr>om_submitted := True, om_winner := Some (q_winner q)\<rparr>) (om_rows s)\<rparr>)"
proof -
  let ?m = "m\<lparr>om_submitted := True, om_winner := Some (q_winner q)\<rparr>"
  from ok have u: "unique_keys om_id (om_rows s)" by (simp add: oracle_ok_def results_ok_def)
  from ok q have served: "serves (os_rows s) (q_match q) (q_winner q)"
    by (auto simp: oracle_ok_def jobs_ok_def job_served_def serves_def)
  have "om_on_chain m = q_match q" using find_row_SomeD [OF m] by simp
  with served have "\<exists>t. om_winner x = Some t \<and> serves (os_rows s) (om_on_chain x) t"
    if "x \<in> set (save_row om_id ?m (om_rows s))" "om_submitted x" for x
    using that ok unfolding set_save_row_unique [OF u] oracle_ok_def results_ok_def by auto
  with ok unique_keys_save [OF u, of ?m] show ?thesis by (simp add: oracle_ok_def results_ok_def)
qed

lemma submitted_ok:
  assumes ok: "oracle_ok s" and q: "q \<in> set (submissionQueue s)"
  shows "oracle_ok (submitToOracle env q s)"
proof (cases "w_attempt env (q_id q)")
  case (Attempt_ok tx)
  let ?s = "case find_row om_on_chain (q_match q) (om_rows s) of
      Some m \<Rightarrow> s\<lparr>om_rows := save_row om_id (m\<lparr>om_submitted := True, om_winner := Some (q_winner q)\<rparr>) (om_rows s)\<rparr> | None \<Rightarrow> s"
  have s: "oracle_ok ?s" using result_applied [OF ok q] ok by (simp split: option.split)
  have q': "q \<in> set (submissionQueue ?s)" using q by (simp split: option.split)
  have "oracle_ok (simulateOracleSubmission env q tx s)"
    unfolding simulateOracleSubmission_def Let_def by (rule updated_record [OF s q']) (simp add: same_use_def)
  then show ?thesis by (simp add: submitToOracle_def Attempt_ok oracle_ok_delete)
next
  case (Attempt_fails err)
  let ?n = "q_retries q + 1"
  let ?s = "updateSubmissionRecord env (q_id q) (\<lambda>r. r\<lparr>os_status := SUB_FAILED, os_error := Some err, os_retries := ?n\<rparr>) s"
  let ?q = "q\<lparr>q_retries := ?n, q_error := Some err, q_next := w_now env + retry_delay ?n\<rparr>"
  have s: "oracle_ok ?s" by (rule updated_record [OF ok q]) (simp add: same_use_def)
  show ?thesis
  proof (cases "?n \<ge> MAX_RETRIES")
    case True
    then show ?thesis using oracle_ok_delete [OF s] by (simp add: submitToOracle_def Attempt_fails handleRetry_def)
  next
    case False
    have "oracle_ok (?s\<lparr>submissionQueue := update_row q_id (q_id q) (\<lambda>_. ?q) (submissionQueue ?s)\<rparr>)"
    proof (rule oracle_ok_queue [OF s])
      show "unique_keys q_id (update_row q_id (q_id q) (\<lambda>_. ?q) (submissionQueue ?s))"
        using ok by (simp add: map_key_update_row oracle_ok_def jobs_ok_def)
      fix x assume "x \<in> set (update_row q_id (q_id q) (\<lambda>_. ?q) (submissionQueue ?s))"
      then consider "x \<in> set (submissionQueue ?s)" | "x = ?q" by (auto simp: set_update_row)
      then show "q_retries x < MAX_RETRIES \<and> job_served (os_rows ?s) x"
      proof cases
        case 1
        with s show ?thesis by (simp add: oracle_ok_def jobs_ok_def)
      next
        case 2
        from s q have "job_served (os_rows ?s) q" by (simp add: oracle_ok_def jobs_ok_def)
        with 2 False show ?thesis by (simp add: job_served_def)
      qed
    qed
    with False show ?thesis by (simp add: submitToOracle_def Attempt_fails handleRetry_def Let_def)
  qed
qed

text \<open>What one attempt leaves in the queue.\<close>

lemma submitted_queue:
  assumes "x \<in> set (submissionQueue (submitToOracle env q s))"
  shows "x \<in> set (submissionQueue s) \<and> q_id x \<noteq> q_id q \<or>
    q_id x = q_id q \<and> q_retries x = q_retries q + 1 \<and> q_retries x < MAX_RETRIES \<and> q_next x = w_now env + retry_delay (q_retries x)"
proof (cases "w_attempt env (q_id q)")
  case (Attempt_ok tx)
  have "submissionQueue (simulateOracleSubmission env q tx s) = submissionQueue s"
    by (simp add: simulateOracleSubmission_def split: option.split)
  with assms Attempt_ok show ?thesis by (simp add: submitToOracle_def delete_job_def)
next
  case (Attempt_fails err)
  with assms show ?thesis
    by (cases "q_retries q + 1 \<ge> MAX_RETRIES")
       (auto simp: submitToOracle_def handleRetry_def delete_job_def Let_def set_update_row)
qed

lemma kept_in_queue:
  assumes "x \<in> set (submissionQueue s)" "q_id x \<noteq> q_id q"
  shows "x \<in> set (submissionQueue (submitToOracle env q s))"
proof (cases "w_attempt env (q_id q)")
  case (Attempt_ok tx)
  have "submissionQueue (simulateOracleSubmission env q tx s) = submissionQueue s"
    by (simp add: simulateOracleSubmission_def split: option.split)
  with assms Attempt_ok show ?thesis by (simp add: submitToOracle_def delete_job_def)
next
  case (Attempt_fails err)
  with assms show ?thesis
    by (cases "q_retries q + 1 \<ge> MAX_RETRIES")
       (auto simp: submitToOracle_def handleRetry_def delete_job_def Let_def set_update_row image_iff)
qed

lemma rest_in_queue:
  assumes "unique_keys q_id (q # qs)" "set (q # qs) \<subseteq> set (submissionQueue s)"
  shows "set qs \<subseteq> set (submissionQueue (submitToOracle env q s))"
proof
  fix x assume x: "x \<in> set qs"
  show "x \<in> set (submissionQueue (submitToOracle env q s))"
  proof (rule kept_in_queue)
    show "x \<in> set (submissionQueue s)" using x assms(2) by auto
    show "q_id x \<noteq> q_id q" using imageI [OF x, of q_id] assms(1) by auto
  qed
qed

lemma retries_ok:
  assumes "oracle_ok s" "unique_keys q_id qs" "set qs \<subseteq> set (submissionQueue s)"
  shows "oracle_ok (fold (submitToOracle env) qs s)"
  using assms
proof (induction qs arbitrary: s)
  case (Cons q qs)
  with submitted_ok [of s q env] rest_in_queue [of q qs s env] Cons.IH [of "submitToOracle env q s"] show ?case by simp
qed simp

lemma processRetries_ok: "oracle_ok s \<Longrightarrow> oracle_ok (processRetries env s)"
  unfolding processRetries_def
  by (rule retries_ok) (auto simp: oracle_ok_def jobs_ok_def distinct_map_filter)

lemma retry_delay_le: "retry_delay n \<le> 900000"
proof -
  have "n - 1 = 0 \<or> n - 1 = 1 \<or> n - 1 = 2 \<or> \<not> n - 1 < 3" by auto
  then show ?thesis by (elim disjE) (auto simp: retry_delay_def RETRY_DELAYS_def)
qed

lemma retried_queue:
  assumes "unique_keys q_id qs" "x \<in> set (submissionQueue (fold (submitToOracle env) qs s))"
  shows "x \<in> set (submissionQueue s) \<and> q_id x \<notin> q_id ` set qs \<or>
    (\<exists>q \<in> set qs. q_retries x = q_retries q + 1 \<and> q_retries x < MAX_RETRIES \<and> q_next x \<le> w_now env + 900000)"
  using assms
proof (induction qs arbitrary: s)
  case (Cons q qs)
  from Cons.prems have u: "unique_keys q_id qs" and new: "q_id q \<notin> q_id ` set qs"
    and x: "x \<in> set (submissionQueue (fold (submitToOracle env) qs (submitToOracle env q s)))" by simp_all
  from Cons.IH [OF u x] show ?case
  proof
    assume "\<exists>p \<in> set qs. q_retries x = q_retries p + 1 \<and> q_retries x < MAX_RETRIES \<and> q_next x \<le> w_now env + 900000"
    then show ?thesis by auto
  next
    assume "x \<in> set (submissionQueue (submitToOracle env q s)) \<and> q_id x \<notin> q_id ` set qs"
    with submitted_queue [of x env q s] retry_delay_le [of "q_retries x"] show ?thesis by auto
  qed
qed simp

definition queue_within :: "nat \<Rightarrow> instant \<Rightarrow> oracle_state \<Rightarrow> bool" where
  "queue_within n t s \<longleftrightarrow> (\<forall>q \<in> set (submissionQueue s). n \<le> q_retries q \<and> q_next q \<le> t)"

lemma retry_round:
  assumes "oracle_ok s" "queue_within n t s" "t \<le> w_now env"
  shows "oracle_ok (processRetries env s) \<and> queue_within (n + 1) (w_now env + 900000) (processRetries env s)"
proof -
  let ?due = "filter (\<lambda>q. q_next q \<le> w_now env) (submissionQueue s)"
  have all: "?due = submissionQueue s" using assms(2,3) by (auto simp: queue_within_def filter_id_conv)
  have u: "unique_keys q_id (submissionQueue s)" using assms(1) by (simp add: oracle_ok_def jobs_ok_def)
  have "n + 1 \<le> q_retries x \<and> q_next x \<le> w_now env + 900000" if "x \<in> set (submissionQueue (processRetries env s))" for x
    using retried_queue [OF u, of x env s] that assms(2) unfolding processRetries_def all queue_within_def by auto
  with processRetries_ok [OF assms(1)] show ?thesis by (simp add: queue_within_def)
qed

lemma queue_spent: "oracle_ok s \<Longrightarrow> queue_within MAX_RETRIES t s \<Longrightarrow> submissionQueue s = []"
  by (cases "submissionQueue s") (auto simp: oracle_ok_def jobs_ok_def queue_within_def)

section \<open>Reports and reviews\<close>

lemma oracle_ok_cong:
  "os_rows t = os_rows s \<Longrightarrow> submissionQueue t = submissionQueue s \<Longrightarrow> om_rows t = om_rows s \<Longrightarrow> oracle_ok t = oracle_ok s"
  by (simp add: oracle_ok_def)

lemma save_last: "key r \<notin> key ` set rs \<Longrightarrow> key r' = key r \<Longrightarrow> save_row key r' (rs @ [r]) = rs @ [r']"
proof -
  assume new: "key r \<notin> key ` set rs" and key: "key r' = key r"
  have "update_row key (key r) (\<lambda>_. r') (rs @ [r]) = update_row key (key r) (\<lambda>_. r') rs @ [r']" by (simp add: update_row_def)
  also have "update_row key (key r) (\<lambda>_. r') rs = rs" by (rule update_row_absent [OF new])
  finally show ?thesis by (simp add: save_row_def key)
qed

lemma oracle_ok_append:
  assumes "oracle_ok s" "os_id r \<notin> os_id ` set (os_rows s)" "os_job r \<notin> os_job ` set (os_rows s)" "isQuarantined r \<Longrightarrow> os_status r \<noteq> SUB_SUBMITTED"
  shows "oracle_ok (s\<lparr>os_rows := os_rows s @ [r]\<rparr>)"
proof -
  from assms(1) have jobs: "jobs_ok (submissionQueue s) (os_rows s)" and res: "results_ok (om_rows s) (os_rows s)" by (simp_all add: oracle_ok_def)
  have "submissions_ok (os_rows s @ [r])" using assms by (simp add: oracle_ok_def submissions_ok_def)
  moreover have "jobs_ok (submissionQueue s) (os_rows s @ [r])" by (rule jobs_ok_rows [OF jobs]) (auto simp: job_served_def)
  moreover have "results_ok (om_rows s) (os_rows s @ [r])" by (rule results_ok_rows [OF res]) (auto simp: serves_def)
  ultimately show ?thesis by (simp add: oracle_ok_def)
qed

lemma job_known: "oracle_ok s \<Longrightarrow> k \<notin> os_job ` set (os_rows s) \<Longrightarrow> k \<notin> q_id ` set (submissionQueue s)"
proof
  assume ok: "oracle_ok s" and new: "k \<notin> os_job ` set (os_rows s)" and "k \<in> q_id ` set (submissionQueue s)"
  then obtain q where q: "q \<in> set (submissionQueue s)" "k = q_id q" by blast
  from ok q(1) have "job_served (os_rows s) q" by (simp add: oracle_ok_def jobs_ok_def)
  then obtain r where "r \<in> set (os_rows s)" "os_job r = q_id q" by (auto simp: job_served_def)
  with imageI [of r "set (os_rows s)" os_job] new q(2) show False by simp
qed

lemma enqueue_new: "q_id q \<notin> q_id ` set (submissionQueue s) \<Longrightarrow> enqueue q s = s\<lparr>submissionQueue := submissionQueue s @ [q]\<rparr>"
  by (simp add: enqueue_def save_row_def)

lemma oracle_ok_enqueue:
  assumes "oracle_ok s" "q_id q \<notin> q_id ` set (submissionQueue s)" "q_retries q = 0" "job_served (os_rows s) q"
  shows "oracle_ok (enqueue q s)"
  unfolding enqueue_new [OF assms(2)] by (rule oracle_ok_queue [OF assms(1)])
    (use assms in \<open>auto simp: oracle_ok_def jobs_ok_def MAX_RETRIES_def\<close>)

lemma check_frame: "\<exists>seen. snd (check_result env d s) = s\<lparr>processedEventIds := seen\<rparr>"
proof -
  obtain r s1 where a: "assertFreshSignedPayload env d s = (r, s1)" by fastforce
  then have "\<exists>seen. s1 = s\<lparr>processedEventIds := seen\<rparr>"
    by (auto simp: assertFreshSignedPayload_def pruneExpiredEventIds_def Let_def split: option.splits if_splits)
       (metis oracle_state.surjective oracle_state.update_convs(5))+
  moreover have "snd (check_result env d s) = s1"
    by (auto simp: check_result_def a split: sum.split option.split)
  ultimately show ?thesis by simp
qed

text \<open>The row of a report after its screening.\<close>

definition screened :: "webhook_env \<Rightarrow> oracle_submission \<Rightarrow> oracle_submission list \<Rightarrow> oracle_submission" where
  "screened env r rs =
     (let ev = evaluateAnomaly (w_anomaly env) (os_source r) (of_int (os_confidence r)) (Some (os_id r)) (rs @ [r])
      in r\<lparr>os_is_anomaly := ev_isAnomaly ev, os_z := ev_z ev,
           os_review := (if ev_isAnomaly ev \<and> an_hold (w_anomaly env) then REVIEW_HELD else os_review r)\<rparr>)"

lemma screened_row:
  assumes "os_rows s = rs @ [r]" "os_id r \<notin> os_id ` set rs" "os_review r = REVIEW_NOT_REQUIRED"
  shows "\<exists>flags. screen_result env q (Some r) s =
    (os_review (screened env r rs) = REVIEW_HELD,
     (if os_review (screened env r rs) = REVIEW_HELD then delete_job (q_id q) else id) (s\<lparr>os_rows := rs @ [screened env r rs], sf_rows := flags\<rparr>))"
proof -
  define ev where "ev = evaluateAnomaly (w_anomaly env) (os_source r) (of_int (os_confidence r)) (Some (os_id r)) (rs @ [r])"
  define held where "held = (ev_isAnomaly ev \<and> an_hold (w_anomaly env))"
  define r' where "r' = r\<lparr>os_is_anomaly := ev_isAnomaly ev, os_z := ev_z ev, os_review := (if held then REVIEW_HELD else os_review r)\<rparr>"
  have r': "screened env r rs = r'" by (simp add: screened_def Let_def r'_def ev_def held_def)
  have review: "(os_review r' = REVIEW_HELD) = held" using assms(3) by (simp add: r'_def)
  have save: "save_row os_id r' (rs @ [r]) = rs @ [r']"
    by (rule save_last [OF assms(2)]) (simp add: r'_def)
  have "screenSubmission (w_anomaly env) r (rs @ [r], sf_rows s) =
      (held, save_row os_id r' (rs @ [r]), if ev_isAnomaly ev then sf_rows s @ [flag_for (w_anomaly env) r' ev held] else sf_rows s)"
    by (simp add: screenSubmission_def Let_def ev_def [symmetric] held_def r'_def)
  then have "screen_result env q (Some r) s = (held, (if held then delete_job (q_id q) else id)
      (s\<lparr>os_rows := rs @ [r'], sf_rows := if ev_isAnomaly ev then sf_rows s @ [flag_for (w_anomaly env) r' ev held] else sf_rows s\<rparr>))"
    by (simp add: screen_result_def assms(1) save Let_def)
  then show ?thesis unfolding r' review by blast
qed

lemma finished_ok:
  assumes ok: "oracle_ok s" and q: "q_id q = os_job r" "q_match q = os_match r" "q_winner q = os_winner r" "q_retries q = 0"
    and new: "os_id r \<notin> os_id ` set (os_rows s)" "os_job r \<notin> os_job ` set (os_rows s)"
    and r: "os_review r = REVIEW_NOT_REQUIRED" "os_status r = SUB_PENDING"
  shows "oracle_ok (snd (finish_result env q (Some r) (rememberEventId env e (enqueue q (s\<lparr>os_rows := os_rows s @ [r]\<rparr>)))))"
proof -
  let ?r = "screened env r (os_rows s)"
  have fields: "os_id ?r = os_id r" "os_job ?r = os_job r" "os_match ?r = os_match r" "os_winner ?r = os_winner r" "os_status ?r = SUB_PENDING"
    "isQuarantined ?r \<longleftrightarrow> os_review ?r = REVIEW_HELD"
    using r by (auto simp: screened_def Let_def isQuarantined_def)
  have nq: "q_id q \<notin> q_id ` set (submissionQueue s)" using job_known [OF ok new(2)] q(1) by simp
  let ?s0 = "rememberEventId env e (enqueue q (s\<lparr>os_rows := os_rows s @ [r]\<rparr>))"
  have s0: "os_rows ?s0 = os_rows s @ [r]" "om_rows ?s0 = om_rows s" "submissionQueue ?s0 = submissionQueue s @ [q]"
    using nq by (simp_all add: rememberEventId_def enqueue_new)
  from screened_row [OF s0(1) new(1) r(1), of env q] obtain flags where scr:
    "screen_result env q (Some r) ?s0 = (os_review ?r = REVIEW_HELD,
       (if os_review ?r = REVIEW_HELD then delete_job (q_id q) else id) (?s0\<lparr>os_rows := os_rows s @ [?r], sf_rows := flags\<rparr>))" by blast
  let ?t = "s\<lparr>os_rows := os_rows s @ [?r]\<rparr>"
  have t: "oracle_ok ?t" by (rule oracle_ok_append [OF ok]) (use new fields in simp_all)
  show ?thesis
  proof (cases "os_review ?r = REVIEW_HELD")
    case True
    have "filter (\<lambda>x. q_id x \<noteq> q_id q) (submissionQueue s) = submissionQueue s"
    proof (rule filter_True, rule ballI)
      fix x assume "x \<in> set (submissionQueue s)"
      from imageI [OF this, of q_id] nq show "q_id x \<noteq> q_id q" by auto
    qed
    then have "oracle_ok (delete_job (q_id q) (?s0\<lparr>os_rows := os_rows s @ [?r], sf_rows := flags\<rparr>)) = oracle_ok ?t"
      by (intro oracle_ok_cong) (simp_all add: delete_job_def s0)
    then show ?thesis using t by (simp add: finish_result_def Let_def scr True)
  next
    case False
    let ?u = "?s0\<lparr>os_rows := os_rows s @ [?r], sf_rows := flags\<rparr>"
    have "job_served (os_rows ?t) q" using False fields q by (simp add: job_served_def used_for_def)
    then have "oracle_ok (enqueue q ?t)" by (intro oracle_ok_enqueue [OF t]) (use nq q(4) in simp_all)
    moreover have "oracle_ok ?u = oracle_ok (enqueue q ?t)"
      by (rule oracle_ok_cong) (use nq s0 in \<open>simp_all add: enqueue_new\<close>)
    moreover have "q \<in> set (submissionQueue ?u)" by (simp add: s0)
    ultimately have "oracle_ok (submitToOracle env q ?u)" using submitted_ok by blast
    then show ?thesis by (simp add: finish_result_def Let_def scr False)
  qed
qed

lemma report_ok:
  assumes ok: "oracle_ok s" and op: "op_ok (Report env d) s"
  shows "oracle_ok (snd (processMatchResult env d s))"
proof -
  obtain seen where chk: "snd (check_result env d s) = s\<lparr>processedEventIds := seen\<rparr>" using check_frame by blast
  let ?s = "s\<lparr>processedEventIds := seen\<rparr>"
  have s: "oracle_ok ?s" using ok by (simp add: oracle_ok_def)
  show ?thesis
  proof (cases "\<exists>m e. fst (check_result env d s) = Inr (Ready m e)")
    case False
    then have "snd (processMatchResult env d s) = ?s"
      using chk by (auto simp: processMatchResult_def split: prod.split sum.split check_outcome.split)
    then show ?thesis using s by simp
  next
    case True
    then obtain m e where c: "check_result env d s = (Inr (Ready m e), ?s)" using chk by (metis prod.collapse)
    let ?r = "submission_for env d m (the (w_date env (mr_timestamp d)))"
    have save: "w_save_error env = None" using op by simp
    show ?thesis
    proof (cases "find_row os_key (os_key ?r) (os_rows ?s)")
      case (Some x)
      then have "snd (processMatchResult env d s) = ?s"
        using save by (auto simp: processMatchResult_def c store_result_def Let_def split: sum.split)
      then show ?thesis using s by simp
    next
      case None
      have "snd (processMatchResult env d s) = snd (finish_result env (job_for env d) (Some ?r)
          (rememberEventId env e (enqueue (job_for env d) (?s\<lparr>os_rows := os_rows ?s @ [?r]\<rparr>))))"
        using None save by (simp add: processMatchResult_def c store_result_def Let_def split: prod.split)
      moreover have "oracle_ok \<dots>"
        by (rule finished_ok [OF s]) (use op in \<open>simp_all add: job_for_def submission_for_def\<close>)
      ultimately show ?thesis by simp
    qed
  qed
qed

lemma review_ok:
  assumes ok: "oracle_ok s" and op: "op_ok (Review env k decision reviewer remark) s"
  shows "oracle_ok (snd (reviewSubmission env k decision reviewer remark s))"
proof (cases "\<exists>r. find_row os_id k (os_rows s) = Some r \<and> os_review r = REVIEW_HELD")
  case False
  then have "snd (reviewSubmission env k decision reviewer remark s) = s"
    by (auto simp: reviewSubmission_def split: option.split)
  then show ?thesis using ok by simp
next
  case True
  then obtain r where r: "find_row os_id k (os_rows s) = Some r" "os_review r = REVIEW_HELD" by blast
  have mem: "r \<in> set (os_rows s)" using find_row_SomeD [OF r(1)] by simp
  from ok have rows: "submissions_ok (os_rows s)" and jobs: "jobs_ok (submissionQueue s) (os_rows s)" and res: "results_ok (om_rows s) (os_rows s)"
    by (simp_all add: oracle_ok_def)
  have unused: "\<not> used_for m t r" for m t using r(2) by (simp add: used_for_def isQuarantined_def)
  have replaced: "oracle_ok (s\<lparr>os_rows := save_row os_id r' (os_rows s)\<rparr>)"
    if "os_id r' = os_id r" "isQuarantined r' \<Longrightarrow> os_status r' \<noteq> SUB_SUBMITTED" "os_job r' = os_job r \<or> os_job r' \<notin> os_job ` set (os_rows s)" for r'
  proof -
    note set = replaced_rows [OF rows mem that(1)]
    have "submissions_ok (save_row os_id r' (os_rows s))" by (rule submissions_ok_replaced [OF rows mem that])
    moreover have "jobs_ok (submissionQueue s) (save_row os_id r' (os_rows s))"
      by (rule jobs_ok_rows [OF jobs], rule replaced_job_served [OF set]) (simp_all add: unused)
    moreover have "results_ok (om_rows s) (save_row os_id r' (os_rows s))"
      by (rule results_ok_rows [OF res], rule replaced_serves [OF set]) (simp_all add: unused)
    ultimately show ?thesis by (simp add: oracle_ok_def)
  qed
  show ?thesis
  proof (cases decision)
    case Reject
    then show ?thesis
      by (auto simp: reviewSubmission_def r Let_def intro!: replaced)
  next
    case Approve
    let ?r = "r\<lparr>os_reviewed_by := reviewer, os_reviewed_at := Some (w_now env), os_review := REVIEW_APPROVED, os_job := w_job env\<rparr>"
    let ?s = "s\<lparr>os_rows := save_row os_id ?r (os_rows s)\<rparr>"
    let ?q = "\<lparr>q_id = w_job env, q_match = os_match r, q_winner = os_winner r, q_confidence = os_confidence r,
      q_source = os_source r, q_timestamp = w_iso env (os_result_at r), q_metadata = os_metadata r, q_retries = 0,
      q_created_at = w_now env, q_next = w_now env, q_error = None\<rparr>"
    have s: "oracle_ok ?s" by (rule replaced) (use op in \<open>simp_all add: isQuarantined_def\<close>)
    have new: "q_id ?q \<notin> q_id ` set (submissionQueue ?s)" using job_known [OF ok] op by simp
    have "?r \<in> set (os_rows ?s)" using replaced_rows [OF rows mem, of ?r] by simp
    then have "job_served (os_rows ?s) ?q" unfolding job_served_def by (rule bexI [rotated]) (simp add: used_for_def isQuarantined_def)
    then have "oracle_ok (enqueue ?q ?s)" by (intro oracle_ok_enqueue [OF s new]) simp_all
    moreover have "?q \<in> set (submissionQueue (enqueue ?q ?s))" using new by (simp add: enqueue_new)
    ultimately have "oracle_ok (submitToOracle env ?q (enqueue ?q ?s))" by (rule submitted_ok)
    then show ?thesis by (simp add: reviewSubmission_def r Let_def Approve)
  qed
qed

lemma handle_ok: "oracle_ok s \<Longrightarrow> op_ok x s \<Longrightarrow> oracle_ok (handle_op x s)"
  using report_ok review_ok processRetries_ok by (cases x) simp_all

lemma session_ok: "oracle_session s t \<Longrightarrow> oracle_ok s \<Longrightarrow> oracle_ok t"
  by (induction rule: oracle_session.induct) (simp_all add: handle_ok)

section \<open>What the sessions guarantee\<close>

definition oracle_start :: "oracle_state \<Rightarrow> bool" where
  "oracle_start s \<longleftrightarrow> os_rows s = [] \<and> submissionQueue s = [] \<and> unique_keys om_id (om_rows s) \<and> list_all (\<lambda>m. \<not> om_submitted m) (om_rows s)"

lemma start_ok: "oracle_start s \<Longrightarrow> oracle_ok s"
  by (auto simp: oracle_start_def oracle_ok_def submissions_ok_def jobs_ok_def results_ok_def list_all_iff)


text \<open>
  C38. Retrying ends: after any session, three runs of the retry job, the first when every queued job is due and each
  at least fifteen minutes after the one before, leave the queue empty, whatever the answers.
\<close>

theorem retries_end:
  assumes "oracle_start s0" "oracle_session s0 s"
    and "list_all (\<lambda>q. q_next q \<le> w_now ea) (submissionQueue s)" "w_now ea + 900000 \<le> w_now eb" "w_now eb + 900000 \<le> w_now ec"
  shows "submissionQueue (processRetries ec (processRetries eb (processRetries ea s))) = []"
proof -
  have ok: "oracle_ok s" by (rule session_ok [OF assms(2) start_ok [OF assms(1)]])
  have "queue_within 0 (w_now ea) s" using assms(3) by (simp add: queue_within_def list_all_iff)
  from retry_round [OF ok this] have r1: "oracle_ok (processRetries ea s)" "queue_within 1 (w_now ea + 900000) (processRetries ea s)" by simp_all
  from retry_round [OF r1 assms(4)]
  have r2: "oracle_ok (processRetries eb (processRetries ea s))" "queue_within 2 (w_now eb + 900000) (processRetries eb (processRetries ea s))"
    by (simp_all add: numeral_2_eq_2)
  from retry_round [OF r2 assms(5)] have "oracle_ok (processRetries ec (processRetries eb (processRetries ea s)))"
    "queue_within MAX_RETRIES (w_now ec + 900000) (processRetries ec (processRetries eb (processRetries ea s)))"
    by (simp_all add: MAX_RETRIES_def)
  then show ?thesis by (rule queue_spent)
qed

section \<open>Deliveries\<close>















section \<open>Witnesses\<close>

definition sample_anomaly :: anomaly_env where
  "sample_anomaly = \<lparr>an_threshold = None, an_min_samples = None, an_window = None, an_median_threshold = None, an_hold = True, an_now = 0\<rparr>"

fun plain_part :: "json_part \<Rightarrow> string" where
  "plain_part (J_string x) = x"
| "plain_part (J_number n) = bigint_to_string n"

definition sample_webhook :: "instant \<Rightarrow> id \<Rightarrow> attempt \<Rightarrow> webhook_env" where
  "sample_webhook now k a = \<lparr>w_now = now, w_window = None, w_date = (\<lambda>s. if s = ''t'' then Some 1000 else Some 400000), w_iso = (\<lambda>_. ''iso''),
     w_digest = (\<lambda>parts. concat (map plain_part parts)), w_job = ''job'' @ k, w_submission = k, w_save_error = None, w_attempt = (\<lambda>_. a),
     w_update_ok = (\<lambda>_. True), w_anomaly = sample_anomaly\<rparr>"

definition sample_report :: "string \<Rightarrow> team \<Rightarrow> int \<Rightarrow> string \<Rightarrow> match_report" where
  "sample_report source t n key = \<lparr>mr_match = ''7'', mr_winner = t, mr_confidence = n, mr_source = source, mr_timestamp = ''t'', mr_metadata = None, mr_key = Some key\<rparr>"

definition sample_oracle :: oracle_state where
  "sample_oracle = \<lparr>om_rows = [\<lparr>om_id = ''m'', om_on_chain = ''7'', om_event = ''e'', om_team_a = ''A'', om_team_b = ''B'', om_time = 0,
     om_submitted = False, om_winner = None\<rparr>], os_rows = [], sf_rows = [], submissionQueue = [], processedEventIds = []\<rparr>"

definition reported :: "attempt \<Rightarrow> oracle_state" where
  "reported a = handle_op (Report (sample_webhook 1000 ''1'' a) (sample_report ''x'' TEAM_A 90 ''k'')) sample_oracle"

lemma reported_session: "oracle_start sample_oracle" "oracle_session sample_oracle (reported a)"
proof -
  show "oracle_start sample_oracle" by (simp add: oracle_start_def sample_oracle_def)
  have "op_ok (Report (sample_webhook 1000 ''1'' a) (sample_report ''x'' TEAM_A 90 ''k'')) sample_oracle"
    by (simp add: sample_oracle_def sample_webhook_def)
  then show "oracle_session sample_oracle (reported a)" unfolding reported_def by (rule session_step) (rule session_done)
qed


theorem retries_end_witness:
  "map q_retries (submissionQueue (reported (Attempt_fails ''no''))) = [1] \<and>
   submissionQueue (processRetries (sample_webhook 2000000 ''x'' (Attempt_fails ''no'')) (processRetries (sample_webhook 1000000 ''x'' (Attempt_fails ''no''))
     (processRetries (sample_webhook 61000 ''x'' (Attempt_fails ''no'')) (reported (Attempt_fails ''no''))))) = []"
proof -
  have q: "map q_retries (submissionQueue (reported (Attempt_fails ''no''))) = [1]"
    "list_all (\<lambda>q. q_next q \<le> 61000) (submissionQueue (reported (Attempt_fails ''no'')))" by code_simp+
  show ?thesis
    using retries_end [OF reported_session(1) reported_session(2) [of "Attempt_fails ''no''"], where ea = "sample_webhook 61000 ''x'' (Attempt_fails ''no'')" and
      eb = "sample_webhook 1000000 ''x'' (Attempt_fails ''no'')" and ec = "sample_webhook 2000000 ''x'' (Attempt_fails ''no'')"] q
    by (simp add: sample_webhook_def)
qed


section \<open>Weak points\<close>

text \<open>A delivery repeated within the window is refused, where the comment promises the answer of the first one.\<close>

lemma redelivery_refused:
  "fst (processMatchResult (sample_webhook 2000 ''2'' (Attempt_ok ''tx'')) (sample_report ''x'' TEAM_A 90 ''k'') (reported (Attempt_ok ''tx''))) =
   Inl (Conflict ''Webhook event has already been processed'')"
  by code_simp

text \<open>A job waits in the queue, due at once, while its row is screened: the retry job may submit a result that is then held.\<close>

lemma job_due_before_screening:
  assumes "store_result env d m e s = (Inr (Admitted q saved), s')"
  shows "q \<in> set (submissionQueue s') \<and> q_next q \<le> w_now env"
  using assms by (auto simp: store_result_def Let_def rememberEventId_def enqueue_def job_for_def save_row_def set_update_row image_iff
    split: if_splits option.splits sum.splits)

text \<open>A retry overwrites the result another source has delivered meanwhile.\<close>

lemma retry_overwrites_result:
  "let s1 = reported (Attempt_fails ''no'');
       s2 = snd (processMatchResult (sample_webhook 2000 ''2'' (Attempt_ok ''tx'')) (sample_report ''y'' TEAM_B 90 ''l'') s1);
       s3 = processRetries (sample_webhook 100000 ''3'' (Attempt_ok ''tx'')) s2
   in map om_winner (om_rows s2) = [Some TEAM_B] \<and> map om_winner (om_rows s3) = [Some TEAM_A]"
  by code_simp

text \<open>A signed timestamp that is no number never expires.\<close>

lemma nan_timestamp_never_expires:
  assumes "parseInt ts = None"
  shows "webhook_auth_guard hmac secret now signature (Some ts) body = webhook_auth_guard hmac secret now' signature (Some ts) body"
  by (simp add: webhook_auth_guard_def assms)

text \<open>A source assigned to two events is refused for one of them.\<close>

lemma second_assignment_ignored:
  "oracle_assignment_guard ''7'' ''x'' (om_rows sample_oracle)
     [\<lparr>oa_source = ''x'', oa_event = ''f'', oa_active = True\<rparr>, \<lparr>oa_source = ''x'', oa_event = ''e'', oa_active = True\<rparr>] =
   Inl (Forbidden ''Data source is not authorized for this event'')"
  by (simp add: oracle_assignment_guard_def sample_oracle_def)

definition sample_decay :: reliability_env where
  "sample_decay = \<lparr>re_now = 7 * 24 * 60 * 60 * 1000, re_rate = None, re_period = None, re_floor = None\<rparr>"

text \<open>Decay lifts a score below the floor: a source that was always wrong gains by its silence.\<close>

lemma decay_raises_score:
  "applyDecay sample_decay \<lparr>rr_source = ''x'', rr_total = 9, rr_correct = 0, rr_score = Some 0, rr_updated_at = 0\<rparr> = Some (1 / 10)"
  by (simp add: applyDecay_def sample_decay_def getDecayRate_def getDecayPeriodMs_def getDecayFloor_def DEFAULT_DECAY_RATE_def
    DEFAULT_DECAY_PERIOD_MS_def DEFAULT_DECAY_FLOOR_def)

text \<open>A recorded outcome computes the score from the counts and forgets all decay.\<close>

lemma outcome_forgets_decay:
  assumes "recordOutcome env k m c (rows, history) = (saved, rest)"
  shows "rr_score saved = Some (of_nat (rr_correct saved) / of_nat (rr_total saved))"
  using assms by (auto simp: recordOutcome_def Let_def split: prod.splits)

text \<open>The minimum of sources counts submissions: one source that reports twice reaches it alone.\<close>

definition twice_reported :: "oracle_submission list" where
  "twice_reported = map (\<lambda>k. submission_for (sample_webhook 1000 k (Attempt_ok ''tx'')) (sample_report ''x'' TEAM_A 90 k) (hd (om_rows sample_oracle)) 1000) [''1'', ''2'']"

lemma one_source_decides:
  "can_auto_finalize (fst (getMatchConsensus sample_decay None ''7'' twice_reported [])) \<and> map os_source twice_reported = [''x'', ''x'']"
  by code_simp

end
