(* ===== verification/Matches.thy ===== *)
theory Matches
  imports Creator_Event_Facts
begin

text \<open>
  \<open>matches/matches.service.ts\<close> and \<open>matches/external-result-ingestion.service.ts\<close> over the tables of
  \<open>Creator_Events\<close>: reading a match, submitting its result, its multiplier, and the results an external feed reports.

  An identifier in a request may be the number of the match on the chain; numbers with fractions or exponents,
  which no match has, are refused here.  Percentages are kept as counts.  The external identifier of a match and its
  dispute status are kept beside its row.
\<close>

section \<open>Matches\<close>

definition find_match :: "string \<Rightarrow> match_row list \<Rightarrow> match_row option" where
  "find_match k ms = List.find (\<lambda>m. match_id m = k \<or> (case bigint k of Some n \<Rightarrow> on_chain_match_id m = n | None \<Rightarrow> False)) ms"

definition predictions_for :: "id \<Rightarrow> match_prediction list \<Rightarrow> match_prediction list" where
  "predictions_for k ps = filter (\<lambda>p. mp_match p = k) ps"

definition getDistribution :: "id \<Rightarrow> match_prediction list \<Rightarrow> (team \<times> nat) list" where
  "getDistribution k ps =
     (if \<not> length (predictions_for k ps) > 0 then map (\<lambda>t. (t, 0)) [TEAM_A, TEAM_B, DRAW]
      else map (\<lambda>t. (t, length (filter (\<lambda>p. predicted_outcome p = t) (predictions_for k ps)))) [TEAM_A, TEAM_B, DRAW])"

definition getMatchDetail :: "string \<Rightarrow> match_row list \<Rightarrow> match_prediction list \<Rightarrow> (exn, match_row \<times> nat \<times> (team \<times> nat) list) result" where
  "getMatchDetail k ms ps =
     (case find_match k ms of
        None \<Rightarrow> Inl (NotFound ''Match not found'')
      | Some m \<Rightarrow> Inr (m, length (predictions_for (match_id m) ps), getDistribution (match_id m) ps))"

text \<open>The predictions come in the order the database gives them by time; page and total are counted from one.\<close>

definition getMatchPredictions ::
  "string \<Rightarrow> bool \<Rightarrow> nat \<Rightarrow> nat \<Rightarrow> (match_prediction \<Rightarrow> instant) \<Rightarrow> match_row list \<Rightarrow> match_prediction list \<Rightarrow>
   (exn, (team \<times> nat) list \<times> nat \<times> (match_prediction list \<times> nat) option) result" where
  "getMatchPredictions k includeUsers page lmt predicted_at ms ps =
     (case find_match k ms of
        None \<Rightarrow> Inl (NotFound ''Match not found'')
      | Some m \<Rightarrow>
          let mine = predictions_for (match_id m) ps
          in Inr (getDistribution (match_id m) ps, length mine,
                  if \<not> includeUsers then None
                  else if mine = [] then Some ([], 0)
                  else Some (take lmt (drop ((page - 1) * lmt) (sort_key (\<lambda>p. - predicted_at p) mine)), (length mine + lmt - 1) div lmt)))"

section \<open>Results\<close>

record result_dto =
  rd_home :: int
  rd_away :: int
  rd_winner :: team

definition validateResultConsistency :: "result_dto \<Rightarrow> (exn, unit) result" where
  "validateResultConsistency d =
     (if rd_winner d = DRAW \<and> rd_home d \<noteq> rd_away d then Inl (BadRequest ''winning_team DRAW requires equal home_score and away_score'')
      else if rd_winner d = TEAM_A \<and> rd_home d \<le> rd_away d then Inl (BadRequest ''winning_team TEAM_A requires home_score greater than away_score'')
      else if rd_winner d = TEAM_B \<and> rd_away d \<le> rd_home d then Inl (BadRequest ''winning_team TEAM_B requires away_score greater than home_score'')
      else Inr ())"

definition BASE_CORRECT_POINTS :: int where "BASE_CORRECT_POINTS = 1"

definition score_of_prediction :: "match_row \<Rightarrow> match_prediction \<Rightarrow> match_prediction" where
  "score_of_prediction m p =
     (let correct = (Some (predicted_outcome p) = winning_team m)
      in p\<lparr>is_correct := Some correct, points_earned := (if correct then BASE_CORRECT_POINTS * points_multiplier m else 0)\<rparr>)"

definition scorePredictions :: "match_row \<Rightarrow> match_prediction list \<Rightarrow> match_prediction list" where
  "scorePredictions m ps = map (\<lambda>p. if mp_match p = match_id m then score_of_prediction m p else p) ps"

record matches_state =
  ms_matches :: "match_row list"
  ms_predictions :: "match_prediction list"

text \<open>The result and the scores are two writes; \<open>fails\<close> is a failure of the second.\<close>

definition submitResult :: "instant \<Rightarrow> exn option \<Rightarrow> string \<Rightarrow> result_dto \<Rightarrow> string \<Rightarrow> (matches_state, exn, match_row) action" where
  "submitResult now fails k d submittedBy s =
     (case find_match k (ms_matches s) of
        None \<Rightarrow> (Inl (NotFound ''Match not found''), s)
      | Some m \<Rightarrow>
          if result_submitted m then (Inl (Conflict ''Result has already been submitted''), s)
          else if now < match_time m then (Inl (BadRequest ''Match has not started yet''), s)
          else case validateResultConsistency d of
                 Inl x \<Rightarrow> (Inl x, s)
               | Inr _ \<Rightarrow>
                   let saved = m\<lparr>home_score := Some (rd_home d), away_score := Some (rd_away d), winning_team := Some (rd_winner d),
                                 result_submitted := True, submitted_by := Some submittedBy, match_submitted_at := Some now\<rparr>;
                       s1 = s\<lparr>ms_matches := save_row match_id saved (ms_matches s)\<rparr>
                   in case fails of
                        Some x \<Rightarrow> (Inl x, s1)
                      | None \<Rightarrow> (Inr saved, s1\<lparr>ms_predictions := scorePredictions saved (ms_predictions s1)\<rparr>))"

definition updateMultiplier :: "id \<Rightarrow> int \<Rightarrow> (matches_state, exn, match_row) action" where
  "updateMultiplier k n s =
     (case find_row match_id k (ms_matches s) of
        None \<Rightarrow> (Inl (NotFound ''Match not found''), s)
      | Some m \<Rightarrow>
          if result_submitted m then (Inl (Conflict ''Cannot change points_multiplier''), s)
          else let saved = m\<lparr>points_multiplier := n\<rparr> in (Inr saved, s\<lparr>ms_matches := save_row match_id saved (ms_matches s)\<rparr>))"

section \<open>The external feed\<close>

record feed_result =
  fr_external :: string
  fr_home :: int
  fr_away :: int
  fr_winner :: team

record external_result =
  er_match :: id
  er_external :: string
  er_home :: int
  er_away :: int
  er_winner :: team

type_synonym result_value = "int option \<times> int option \<times> team option"

record divergence =
  dv_match :: id
  dv_source_a :: string
  dv_value_a :: result_value
  dv_source_b :: string
  dv_value_b :: result_value

record ingest_state =
  ig_matches :: "match_row list"
  ig_external :: "id \<rightharpoonup> string"
  ig_disputed :: "id list"
  ig_results :: "external_result list"
  ig_divergences :: "divergence list"

definition recordDivergence :: "match_row \<Rightarrow> string \<Rightarrow> result_value \<Rightarrow> feed_result \<Rightarrow> ingest_state \<Rightarrow> ingest_state" where
  "recordDivergence m name a r s =
     s\<lparr>ig_divergences := ig_divergences s @ [\<lparr>dv_match = match_id m, dv_source_a = name, dv_value_a = a, dv_source_b = ''external_feed'',
         dv_value_b = (Some (fr_home r), Some (fr_away r), Some (fr_winner r))\<rparr>],
       ig_disputed := match_id m # ig_disputed s\<rparr>"

definition conflicts :: "match_row \<Rightarrow> feed_result \<Rightarrow> bool" where
  "conflicts m r \<longleftrightarrow> result_submitted m \<and> (home_score m \<noteq> Some (fr_home r) \<or> away_score m \<noteq> Some (fr_away r) \<or> winning_team m \<noteq> Some (fr_winner r))"

definition differs :: "external_result \<Rightarrow> feed_result \<Rightarrow> bool" where
  "differs q r \<longleftrightarrow> er_home q \<noteq> fr_home r \<or> er_away q \<noteq> fr_away r \<or> er_winner q \<noteq> fr_winner r"

text \<open>\<open>fails\<close> says whether the alert to the administrators fails; it ends the run.\<close>

definition processResult :: "(id \<Rightarrow> exn option) \<Rightarrow> feed_result \<Rightarrow> (ingest_state, exn, unit) action" where
  "processResult fails r s =
     (case List.find (\<lambda>m. ig_external s (match_id m) = Some (fr_external r)) (ig_matches s) of
        None \<Rightarrow> (Inr (), s)
      | Some m \<Rightarrow>
          let alert = (\<lambda>s. (case fails (match_id m) of Some x \<Rightarrow> Inl x | None \<Rightarrow> Inr (), s))
          in if conflicts m r
             then alert (recordDivergence m ''match_submitted_result'' (home_score m, away_score m, winning_team m) r s)
             else case find_row er_match (match_id m) (ig_results s) of
                    Some q \<Rightarrow>
                      if differs q r
                      then alert (recordDivergence m ''queued_external_result'' (Some (er_home q), Some (er_away q), Some (er_winner q)) r s)
                      else (Inr (), s)
                  | None \<Rightarrow>
                      (Inr (), s\<lparr>ig_results := ig_results s @ [\<lparr>er_match = match_id m, er_external = fr_external r, er_home = fr_home r,
                         er_away = fr_away r, er_winner = fr_winner r\<rparr>]\<rparr>))"

primrec ingest :: "(id \<Rightarrow> exn option) \<Rightarrow> feed_result list \<Rightarrow> (ingest_state, exn, unit) action" where
  "ingest fails [] s = (Inr (), s)"
| "ingest fails (r # rs) s = (case processResult fails r s of (Inl x, s1) \<Rightarrow> (Inl x, s1) | (Inr _, s1) \<Rightarrow> ingest fails rs s1)"

section \<open>Sessions\<close>

datatype match_op = Submit_result instant "exn option" string result_dto string | Set_multiplier id int

fun handle_match :: "match_op \<Rightarrow> matches_state \<Rightarrow> matches_state" where
  "handle_match (Submit_result now fails k d who) s = snd (submitResult now fails k d who s)"
| "handle_match (Set_multiplier k n) s = snd (updateMultiplier k n s)"

definition result_ok :: "match_row \<Rightarrow> bool" where
  "result_ok m \<longleftrightarrow> (result_submitted m \<longrightarrow>
     (case (home_score m, away_score m) of (Some h, Some a) \<Rightarrow> winning_team m = Some (outcome_of_score h a) | _ \<Rightarrow> False))"

definition scored_by :: "match_row \<Rightarrow> match_prediction \<Rightarrow> bool" where
  "scored_by m p \<longleftrightarrow> result_submitted m \<and> is_correct p = Some (winning_team m = Some (predicted_outcome p)) \<and>
     points_earned p = (if winning_team m = Some (predicted_outcome p) then points_multiplier m else 0)"

definition scored_ok :: "match_row list \<Rightarrow> match_prediction \<Rightarrow> bool" where
  "scored_ok ms p \<longleftrightarrow> is_correct p \<noteq> None \<longrightarrow> list_ex (\<lambda>m. match_id m = mp_match p \<and> scored_by m p) ms"

definition match_inv :: "matches_state \<Rightarrow> bool" where
  "match_inv s \<longleftrightarrow> unique_keys match_id (ms_matches s) \<and> list_all result_ok (ms_matches s) \<and> list_all (scored_ok (ms_matches s)) (ms_predictions s)"

definition match_rel :: "matches_state \<Rightarrow> matches_state \<Rightarrow> bool" where
  "match_rel s t \<longleftrightarrow> set (filter result_submitted (ms_matches s)) \<subseteq> set (ms_matches t) \<and>
     map (\<lambda>p. (mp_id p, mp_match p, mp_user p, predicted_outcome p)) (ms_predictions t) =
     map (\<lambda>p. (mp_id p, mp_match p, mp_user p, predicted_outcome p)) (ms_predictions s)"

lemma valid_winner: "validateResultConsistency d = Inr u \<Longrightarrow> rd_winner d = outcome_of_score (rd_home d) (rd_away d)"
  by (cases "rd_winner d") (auto simp: validateResultConsistency_def outcome_of_score_def split: if_splits)

lemma open_match_replaced:
  assumes u: "unique_keys match_id ms" and m: "m \<in> set ms" "\<not> result_submitted m" and k: "match_id m' = match_id m"
  shows "set (save_row match_id m' ms) = insert m' (set ms - {m})"
    and "scored_ok ms p \<Longrightarrow> scored_ok (save_row match_id m' ms) p"
    and "set (filter result_submitted ms) \<subseteq> set (save_row match_id m' ms)"
proof -
  from u m(1) have inj: "x \<in> set ms \<Longrightarrow> match_id x = match_id m \<Longrightarrow> x = m" for x by (auto simp: distinct_map inj_on_def)
  show set: "set (save_row match_id m' ms) = insert m' (set ms - {m})" unfolding set_save_row_unique [OF u] k using inj by blast
  show "scored_ok ms p \<Longrightarrow> scored_ok (save_row match_id m' ms) p"
    using m(2) unfolding scored_ok_def list_ex_iff set scored_by_def by blast
  show "set (filter result_submitted ms) \<subseteq> set (save_row match_id m' ms)" unfolding set using m(2) by auto
qed

lemma find_match_mem: "find_match k ms = Some m \<Longrightarrow> m \<in> set ms"
  by (auto simp: find_match_def find_Some_iff)

lemma scored_predictions:
  assumes "m \<in> set ms" "result_submitted m" "list_all (scored_ok ms) ps"
  shows "list_all (scored_ok ms) (scorePredictions m ps)"
proof -
  have "scored_ok ms (score_of_prediction m p)" if "mp_match p = match_id m" for p
    using assms(1,2) that by (auto simp: scored_ok_def scored_by_def score_of_prediction_def BASE_CORRECT_POINTS_def Let_def list_ex_iff intro!: bexI [of _ m])
  with assms(3) show ?thesis by (auto simp: scorePredictions_def list_all_iff)
qed

definition decides :: "match_row \<Rightarrow> match_row \<Rightarrow> exn option \<Rightarrow> matches_state \<Rightarrow> matches_state \<Rightarrow> bool" where
  "decides m m' fails s t \<longleftrightarrow> m \<in> set (ms_matches s) \<and> \<not> result_submitted m \<and> match_id m' = match_id m \<and> result_submitted m' \<and> result_ok m' \<and>
     ms_matches t = save_row match_id m' (ms_matches s) \<and>
     ms_predictions t = (if fails = None then scorePredictions m' (ms_predictions s) else ms_predictions s)"

lemma submitResult_cases:
  "snd (submitResult now fails k d who s) = s \<or> (\<exists>m m'. decides m m' fails s (snd (submitResult now fails k d who s)))"
proof (cases "find_match k (ms_matches s)")
  case None
  then show ?thesis by (simp add: submitResult_def)
next
  case (Some m)
  let ?m = "m\<lparr>home_score := Some (rd_home d), away_score := Some (rd_away d), winning_team := Some (rd_winner d), result_submitted := True,
                submitted_by := Some who, match_submitted_at := Some now\<rparr>"
  show ?thesis
  proof (cases "result_submitted m \<or> now < match_time m \<or> (\<exists>x. validateResultConsistency d = Inl x)")
    case True
    then have "snd (submitResult now fails k d who s) = s" by (auto simp: submitResult_def Some split: sum.split)
    then show ?thesis ..
  next
    case False
    then obtain u where v: "validateResultConsistency d = Inr u" by (cases "validateResultConsistency d") auto
    have "result_ok ?m" using valid_winner [OF v] by (simp add: result_ok_def)
    with False v find_match_mem [OF Some] have "decides m ?m fails s (snd (submitResult now fails k d who s))"
      unfolding decides_def by (cases fails) (simp_all add: submitResult_def Some Let_def)
    then show ?thesis by blast
  qed
qed

lemma submit_keeps:
  assumes inv: "match_inv s"
  shows "match_inv (snd (submitResult now fails k d who s)) \<and> match_rel s (snd (submitResult now fails k d who s))"
proof -
  let ?t = "snd (submitResult now fails k d who s)"
  from submitResult_cases [of now fails k d who s] show ?thesis
  proof
    assume "?t = s"
    with inv show ?thesis by (auto simp: match_rel_def)
  next
    assume "\<exists>m m'. decides m m' fails s ?t"
    then obtain m m' where m: "m \<in> set (ms_matches s)" "\<not> result_submitted m"
      and m': "match_id m' = match_id m" "result_submitted m'" "result_ok m'"
      and t: "ms_matches ?t = save_row match_id m' (ms_matches s)"
        "ms_predictions ?t = (if fails = None then scorePredictions m' (ms_predictions s) else ms_predictions s)"
      unfolding decides_def by blast
    from inv have u: "unique_keys match_id (ms_matches s)" by (simp add: match_inv_def)
    note rep = open_match_replaced [OF u m m'(1)]
    have old: "list_all (scored_ok (ms_matches ?t)) (ms_predictions s)" using inv rep(2) by (auto simp: match_inv_def t list_all_iff)
    have "list_all (scored_ok (ms_matches ?t)) (ms_predictions ?t)"
      using old scored_predictions [OF _ m'(2) old] rep(1) by (simp add: t)
    moreover have "unique_keys match_id (ms_matches ?t)" unfolding t by (rule unique_keys_save [OF u])
    moreover have "list_all result_ok (ms_matches ?t)" using inv m'(3) rep(1) by (auto simp: t match_inv_def list_all_iff)
    moreover have "match_rel s ?t"
      using rep(3) by (auto simp: match_rel_def t scorePredictions_def score_of_prediction_def Let_def)
    ultimately show ?thesis by (simp add: match_inv_def)
  qed
qed

lemma multiplier_keeps:
  assumes inv: "match_inv s"
  shows "match_inv (snd (updateMultiplier k n s)) \<and> match_rel s (snd (updateMultiplier k n s))"
proof (cases "\<exists>m. find_row match_id k (ms_matches s) = Some m \<and> \<not> result_submitted m")
  case False
  then have "snd (updateMultiplier k n s) = s" by (auto simp: updateMultiplier_def split: option.split)
  with inv show ?thesis by (auto simp: match_rel_def)
next
  case True
  then obtain m where f: "find_row match_id k (ms_matches s) = Some m" and m: "\<not> result_submitted m" by blast
  have mem: "m \<in> set (ms_matches s)" using find_row_SomeD [OF f] by simp
  let ?m = "m\<lparr>points_multiplier := n\<rparr>"
  from inv have u: "unique_keys match_id (ms_matches s)" by (simp add: match_inv_def)
  note rep = open_match_replaced [OF u mem m, of ?m]
  have t: "snd (updateMultiplier k n s) = s\<lparr>ms_matches := save_row match_id ?m (ms_matches s)\<rparr>" using f m by (simp add: updateMultiplier_def Let_def)
  show ?thesis
    using inv rep unique_keys_save [OF u, of ?m] m by (auto simp: t match_inv_def match_rel_def list_all_iff result_ok_def)
qed

interpretation match_service: service handle_match match_inv match_rel
proof
  fix s r assume "match_inv s"
  then show "match_inv (handle_match r s) \<and> match_rel s (handle_match r s)"
    using submit_keeps multiplier_keeps by (cases r) simp_all
next
  fix s t u assume st: "match_rel s t" and tu: "match_rel t u"
  have "x \<in> set (ms_matches u)" if "x \<in> set (ms_matches s)" "result_submitted x" for x
    using st tu that by (auto simp: match_rel_def)
  with st tu show "match_rel s u" by (auto simp: match_rel_def)
qed (auto simp: match_rel_def)

text \<open>
  C40. Results of matches submitted by hand: after any sequence of submissions and changes of multipliers, with the
  scoring failing at any of them, every result names the winner its score says, a result once submitted and the
  multiplier it was submitted with never change, and every scored prediction has the points that result and
  multiplier give it.
\<close>

theorem match_results_consistent:
  assumes "match_inv s"
  shows "list_all result_ok (ms_matches (fold handle_match rs s)) \<and>
    list_all (scored_ok (ms_matches (fold handle_match rs s))) (ms_predictions (fold handle_match rs s)) \<and>
    set (filter result_submitted (ms_matches s)) \<subseteq> set (ms_matches (fold handle_match rs s))"
  using match_service.session [OF assms, of rs] by (simp add: match_inv_def match_rel_def)

section \<open>What the feed may do\<close>

text \<open>
  The feed never writes a result: it queues at most one value per match, the first it sees, and every disagreement
  marks its match as disputed.
\<close>

definition feed_ok :: "match_row list \<Rightarrow> ingest_state \<Rightarrow> bool" where
  "feed_ok ms s \<longleftrightarrow> ig_matches s = ms \<and> unique_keys er_match (ig_results s) \<and> list_all (\<lambda>d. dv_match d \<in> set (ig_disputed s)) (ig_divergences s)"

lemma processResult_ok: "feed_ok ms s \<Longrightarrow> feed_ok ms (snd (processResult fails r s))"
  by (auto simp: processResult_def Let_def feed_ok_def recordDivergence_def find_row_None_iff list_all_iff split: option.split)

lemma ingest_ok: "feed_ok ms s \<Longrightarrow> feed_ok ms (snd (ingest fails rs s))"
proof (induction rs arbitrary: s)
  case (Cons r rs)
  then show ?case using processResult_ok [OF Cons.prems, of fails r] by (auto split: prod.split sum.split)
qed simp

text \<open>A value that was taken or agreed with is taken no second time, whatever is queued after it.\<close>

definition extends :: "ingest_state \<Rightarrow> ingest_state \<Rightarrow> bool" where
  "extends t s \<longleftrightarrow> ig_matches t = ig_matches s \<and> ig_external t = ig_external s \<and> (\<exists>zs. ig_results t = ig_results s @ zs)"

lemma extends_trans: "extends u t \<Longrightarrow> extends t s \<Longrightarrow> extends u s"
  by (auto simp: extends_def)

lemma processResult_extends: "extends (snd (processResult fails r s)) s"
  by (auto simp: processResult_def Let_def extends_def recordDivergence_def split: option.split)

lemma processResult_settled:
  assumes p: "processResult fails r s = (Inr (), s')" and same: "ig_divergences s' = ig_divergences s" and t: "extends t s'"
  shows "processResult fails r t = (Inr (), t)"
proof (cases "List.find (\<lambda>m. ig_external s (match_id m) = Some (fr_external r)) (ig_matches s)")
  case None
  with p t show ?thesis by (simp add: processResult_def extends_def)
next
  case (Some m)
  from p t processResult_extends [of fails r s] have t': "List.find (\<lambda>m. ig_external t (match_id m) = Some (fr_external r)) (ig_matches t) = Some m"
    using Some by (simp add: extends_def)
  note found = Some
  have grows: "ig_divergences (recordDivergence m name v r s) \<noteq> ig_divergences s" for name v by (simp add: recordDivergence_def)
  have agree: "\<not> conflicts m r"
  proof
    assume "conflicts m r"
    with p Some have "s' = recordDivergence m ''match_submitted_result'' (home_score m, away_score m, winning_team m) r s"
      by (simp add: processResult_def Let_def)
    with grows same show False by simp
  qed
  have "\<exists>q. find_row er_match (match_id m) (ig_results s') = Some q \<and> \<not> differs q r"
  proof (cases "find_row er_match (match_id m) (ig_results s)")
    case None
    with p Some agree show ?thesis by (auto simp: processResult_def Let_def find_row_append differs_def)
  next
    case (Some q)
    show ?thesis
    proof (cases "differs q r")
      case True
      with p Some found agree
      have "s' = recordDivergence m ''queued_external_result'' (Some (er_home q), Some (er_away q), Some (er_winner q)) r s"
        by (simp add: processResult_def Let_def)
      with grows same show ?thesis by simp
    next
      case False
      with p Some found agree show ?thesis by (simp add: processResult_def Let_def)
    qed
  qed
  with t obtain q where "find_row er_match (match_id m) (ig_results t) = Some q" "\<not> differs q r"
    by (auto simp: extends_def find_row_append)
  with t' agree show ?thesis by (simp add: processResult_def Let_def)
qed

lemma divergences_grow: "\<exists>zs. ig_divergences (snd (processResult fails r s)) = ig_divergences s @ zs"
  by (auto simp: processResult_def Let_def recordDivergence_def split: option.split)

lemma ingest_divergences: "\<exists>zs. ig_divergences (snd (ingest fails rs s)) = ig_divergences s @ zs"
proof (induction rs arbitrary: s)
  case (Cons r rs)
  obtain a s1 where p: "processResult fails r s = (a, s1)" by fastforce
  obtain ys where "ig_divergences s1 = ig_divergences s @ ys" using divergences_grow [of fails r s] p by auto
  moreover obtain zs where "ig_divergences (snd (ingest fails rs s1)) = ig_divergences s1 @ zs" using Cons.IH by blast
  ultimately show ?case by (cases a) (auto simp: p)
qed simp

lemma ingest_extends: "extends (snd (ingest fails rs s)) s"
proof (induction rs arbitrary: s)
  case (Cons r rs)
  obtain a s1 where p: "processResult fails r s = (a, s1)" by fastforce
  have "extends s1 s" using processResult_extends [of fails r s] p by simp
  with Cons.IH [of s1] show ?case by (cases a) (auto simp: p intro: extends_trans)
qed (simp add: extends_def)

lemma ingest_settled:
  assumes "ingest fails rs s = (Inr (), s')" "ig_divergences s' = ig_divergences s" "extends t s'"
  shows "ingest fails rs t = (Inr (), t)"
  using assms
proof (induction rs arbitrary: s)
  case (Cons r rs)
  obtain a s1 where p: "processResult fails r s = (a, s1)" by fastforce
  with Cons.prems(1) have a: "a = Inr ()" and rest: "ingest fails rs s1 = (Inr (), s')" by (cases a; simp)+
  obtain ys zs where "ig_divergences s1 = ig_divergences s @ ys" "ig_divergences s' = ig_divergences s1 @ zs"
    using divergences_grow [of fails r s] ingest_divergences [of fails rs s1] p rest by auto
  with Cons.prems(2) have same: "ig_divergences s1 = ig_divergences s" "ig_divergences s' = ig_divergences s1" by simp_all
  have "extends s' s1" using ingest_extends [of fails rs s1] rest by simp
  with Cons.prems(3) have "extends t s1" by (rule extends_trans)
  from processResult_settled [OF p [unfolded a] same(1) this] Cons.IH [OF rest same(2) Cons.prems(3)] show ?case by simp
qed simp

text \<open>Polling an agreeing feed again changes nothing.\<close>

lemma agreeing_feed_settles:
  assumes "ingest fails rs s = (Inr (), s')" "ig_divergences s' = ig_divergences s"
  shows "ingest fails rs s' = (Inr (), s')"
  using ingest_settled [OF assms] by (simp add: extends_def)

section \<open>Weak points\<close>

definition match_sample :: match_row where
  "match_sample = \<lparr>match_id = ''m'', on_chain_match_id = 7, match_event = ''e'', team_a = ''A'', team_b = ''B'', match_time = 0, result_submitted = False,
     home_score = None, away_score = None, points_multiplier = 2, winning_team = None, submitted_by = None, match_submitted_at = None\<rparr>"

definition guess_sample :: match_prediction where
  "guess_sample = \<lparr>mp_id = ''p'', mp_match = ''m'', mp_user = ''u'', predicted_outcome = TEAM_A, predicted_home_score = Some 2, predicted_away_score = Some 1,
     points_earned = 0, is_correct = None\<rparr>"

definition sample_matches :: matches_state where
  "sample_matches = \<lparr>ms_matches = [match_sample], ms_predictions = [guess_sample]\<rparr>"

definition result_sample :: result_dto where
  "result_sample = \<lparr>rd_home = 2, rd_away = 1, rd_winner = TEAM_A\<rparr>"

theorem match_results_consistent_witness:
  "map points_earned (ms_predictions (fold handle_match [Submit_result 5 None ''7'' result_sample ''admin'', Set_multiplier ''m'' 3] sample_matches)) = [2] \<and>
   list_all result_ok (ms_matches (fold handle_match [Submit_result 5 None ''7'' result_sample ''admin'', Set_multiplier ''m'' 3] sample_matches))"
proof -
  have "match_inv sample_matches"
    by (simp add: match_inv_def sample_matches_def match_sample_def guess_sample_def result_ok_def scored_ok_def)
  from match_results_consistent [OF this, of "[Submit_result 5 None ''7'' result_sample ''admin'', Set_multiplier ''m'' 3]"]
  have "list_all result_ok (ms_matches (fold handle_match [Submit_result 5 None ''7'' result_sample ''admin'', Set_multiplier ''m'' 3] sample_matches))" by blast
  moreover have "map points_earned (ms_predictions (fold handle_match [Submit_result 5 None ''7'' result_sample ''admin'', Set_multiplier ''m'' 3] sample_matches)) = [2]"
    by code_simp
  ultimately show ?thesis by blast
qed

text \<open>When the scoring fails the result stays, and a repetition is refused: the predictions are never scored.\<close>

lemma failed_scoring_is_final:
  "let s = handle_match (Submit_result 5 (Some QueryFailed) ''7'' result_sample ''admin'') sample_matches
   in map is_correct (ms_predictions s) = [None] \<and>
      fst (submitResult 6 None ''7'' result_sample ''admin'' s) = Inl (Conflict ''Result has already been submitted'')"
  by code_simp

text \<open>The indexer gives an exact score four times the multiplier, the service only once.\<close>

lemma points_differ_from_indexer:
  "let m = hd (ms_matches (handle_match (Submit_result 5 None ''7'' result_sample ''admin'') sample_matches))
   in points_earned (grade m guess_sample) = 8 \<and> points_earned (score_of_prediction m guess_sample) = 2"
  by code_simp

text \<open>Every poll records the same disagreement again.\<close>

lemma divergence_repeats:
  assumes "List.find (\<lambda>m. ig_external s (match_id m) = Some (fr_external r)) (ig_matches s) = Some m"
    and "result_submitted m" "winning_team m \<noteq> Some (fr_winner r)" "fails (match_id m) = None"
  shows "length (ig_divergences (snd (ingest fails (replicate n r) s))) = length (ig_divergences s) + n"
  using assms
proof (induction n arbitrary: s)
  case (Suc n)
  let ?s = "recordDivergence m ''match_submitted_result'' (home_score m, away_score m, winning_team m) r s"
  have "processResult fails r s = (Inr (), ?s)" using Suc.prems by (simp add: processResult_def Let_def conflicts_def)
  moreover have "length (ig_divergences (snd (ingest fails (replicate n r) ?s))) = length (ig_divergences ?s) + n"
    by (rule Suc.IH) (use Suc.prems in \<open>simp_all add: recordDivergence_def\<close>)
  ultimately show ?case by (simp add: recordDivergence_def)
qed simp

end
