(* ===== verification/Spec2Isabelle.thy ===== *)
theory Spec2Isabelle
  imports Platform Retry Idempotency Season_Facts Webhook_Facts Indexer_Facts Competition_Facts Event_Finalizer
    Guards Api_Keys Leaderboard_Facts Coach Oracle_Sessions Matches
begin

text \<open>
  InsightArena is a prediction market platform: a NestJS backend (\<open>src/backend/src\<close>) over a
  PostgreSQL database, a set of Soroban smart contracts it calls through a gateway, and a web
  frontend.  This development models the backend services that hold the platform's money and
  decide its outcomes, and proves what they guarantee, one by one and together.

  \<^bold>\<open>How the code is modelled.\<close>  The database is the record \<open>world\<close> of theory \<open>Entities\<close>: one list per
  table, one record per TypeORM entity, together with the caches the services drop, the webhook
  events they emit and the log of the calls made on the contract, which no transaction can undo.
  A service method is one definition from its arguments and a world to a result (\<open>Inl\<close> the
  exception, \<open>Inr\<close> the value) and the world it leaves, guards and effects in the order of the
  source.  What the runtime or the environment decides is an argument: the clock, generated keys,
  random suffixes, the answer of an advisory lock, the answers of the RPC node, the validity of a
  key pair, whether the object-relational mapper loads a relation the query does not name.
  Amounts are integers (\<open>bigint\<close>), strings of decimal digits are parsed as JavaScript's \<open>BigInt\<close> does.

  \<^bold>\<open>The theories.\<close>
  \<^item> \<open>Prelude\<close>: tables as lists of rows with a key, the \<open>repository\<close> interface (a locale, interpreted
    for every table), shared lemmas and collections of simplification rules.
  \<^item> \<open>Js_Strings\<close>: the string and \<open>BigInt\<close> operations of JavaScript the services use.
  \<^item> \<open>Entities\<close>: the entities (\<open>*.entity.ts\<close>), the exceptions and the world.
  \<^item> \<open>Stroops\<close>, \<open>Slippage\<close>, \<open>Text_Sanitizer\<close>: \<open>predictions/dto/rewards-summary.dto.ts\<close>,
    \<open>predictions/services/slippage-checker.service.ts\<close>, \<open>common/text-sanitizer.util.ts\<close>.
  \<^item> \<open>Soroban\<close>, \<open>Retry\<close>: the gateway \<open>soroban/soroban.service.ts\<close> (calls, fee policy, submission with
    retries) and \<open>common/retry.util.ts\<close>.
  \<^item> \<open>Settlement_State\<close>, \<open>Markets\<close>, \<open>Market_Lifecycle\<close>: the settlement state machine, the handlers of
    \<open>markets/markets.service.ts\<close>, and the abstract life cycle they refine.
  \<^item> \<open>Settlement\<close>, \<open>Settlement_Safety\<close>, \<open>Settlement_Concurrency\<close>: \<open>markets/market-settlement.scheduler.ts\<close>;
    what one sweep achieves, and what holds under any interleaving of instances, crashes and
    requests (a step relation, invariants by rule induction).
  \<^item> \<open>Predictions\<close>, \<open>Prediction_Facts\<close>, \<open>Prediction_Reports\<close>: \<open>predictions/predictions.service.ts\<close>:
    submission, slips, notes, claims, rewards; the books; listings, profit and loss, CSV export.
  \<^item> \<open>Disputes\<close>, \<open>Dispute_Facts\<close>: \<open>disputes/disputes.service.ts\<close>: disputes, votes, escalation,
    evidence, the SLA sweep.
  \<^item> \<open>Platform\<close>: all these services on one world; what each leaves alone in the tables of the others,
    and the interface \<open>total_server\<close> that carries an invariant through a session.
  \<^item> \<open>Idempotency\<close>: \<open>common/idempotency\<close> and the global interceptor of \<open>common/interceptors\<close>: keys
    claimed, completed, released and expired, with concurrent requests as a step relation.
  \<^item> \<open>Seasons\<close>, \<open>Season_Facts\<close>: \<open>seasons/seasons.service.ts\<close> and its scheduler: creation, attribution,
    finalization, rollover with the frozen leaderboard, the ledger of rewards; how a season evolves,
    that its pool is paid once, and that the scheduler catches up.
  \<^item> \<open>Webhooks\<close>, \<open>Webhook_Facts\<close>: \<open>webhooks/services\<close> and \<open>webhooks/guards\<close>: endpoints, deliveries with
    retries and dead letters, and the guard of incoming events; how often a delivery is posted,
    that it ends, and that an event is not let through twice within the window.
  \<^item> \<open>Creator_Events\<close>, \<open>Creator_Event_Facts\<close>: the handlers of \<open>indexer/indexer.service.ts\<close> that build campaigns,
    matches, predictions with their points, standings and payouts from decoded contract events; their
    effect as a step relation on the tables, its invariant, and what no later event changes.
  \<^item> \<open>Indexer\<close>, \<open>Indexer_Facts\<close>: the rest of \<open>indexer/indexer.service.ts\<close> (polling, checkpoints, forks,
    retries, backfill) and \<open>indexer/reconciliation.service.ts\<close>; polling a truthful node refines one pass
    of the handlers over the chain, and catches up with its head.
  \<^item> \<open>Event_Finalizer\<close>: \<open>matches/creator-event-finalizer.service.ts\<close>: the oracle consensus and the
    sweeps that finalize ended events, interleaved with the indexer.
  \<^item> \<open>Auth\<close>, \<open>Auth_Facts\<close>: \<open>auth/auth.service.ts\<close> and its controller: challenges, logins and rotating
    refresh tokens.
  \<^item> \<open>Api_Keys\<close>: \<open>auth/api-key.service.ts\<close> and its guard: keys, grace windows and scopes.
  \<^item> \<open>Guards\<close>: \<open>common/guards\<close> and \<open>auth/rate-limit.service.ts\<close>: throttling of overlapping requests, identity,
    roles, bans and the rate of predictions.
  \<^item> \<open>Competitions\<close>, \<open>Competition_Facts\<close>: \<open>competitions/competitions.service.ts\<close>: joining and leaving, ranks,
    knock-out brackets; exact counts, ranks that agree, complete brackets.
  \<^item> \<open>Base64\<close>, \<open>Leaderboard\<close>, \<open>Leaderboard_Facts\<close>, \<open>Coach\<close>: \<open>leaderboard/leaderboard.service.ts\<close> and its
    scheduler: ranks, history, snapshots, pages with cursors, coach insights with their weekly cache;
    cursors decode to what they encode and walk a board completely, streaks and week identifiers are right.
  \<^item> \<open>Oracle\<close>, \<open>Oracle_Webhook\<close>, \<open>Oracle_Facts\<close>, \<open>Oracle_Sessions\<close>: \<open>oracle/\<close>: reliability of sources, weighted consensus,
    outliers, and the webhook that stores, screens, submits and retries reported results; the majority decides,
    quarantined results are not used, deliveries count once, retries end.
  \<^item> \<open>Matches\<close>: \<open>matches/matches.service.ts\<close> and \<open>external-result-ingestion.service.ts\<close>: results by hand and by feed.

  \<^bold>\<open>Bounds and fuel.\<close>  The loops of the source run over finite lists and are structural recursions,
  except the retry loops, which end by a measure on the attempts left, and the walk up an
  escalation chain, which need not end on an arbitrary table: it is a partial function, and it is
  proved to return on every table the service can produce.

  \<^bold>\<open>What the lemmas show.\<close>  Every definition of a service has lemmas for its outcomes (suffix
  \<open>_cases\<close>), for what it keeps (suffix \<open>_ok\<close>, \<open>_books\<close>) and for what it leaves alone
  (\<open>_frames\<close>, \<open>_others\<close>).  The properties rest on them.  Lemmas at the end of a theory record
  behaviours the comments of the source do not promise, on concrete inputs.

  \<^bold>\<open>Not modelled.\<close>  The contracts themselves (Rust), the frontend, controllers and validation pipes
  of the framework, migrations, and the delivery of notifications.  The final
  conversion of a decimal string to a double is left out: amounts stop at their exact decimal
  representation.  The remaining backend services (content flags, search, administration) are not modelled yet.
\<close>

text \<open>
  C1. The platform as a whole: from a fresh deployment (registered users without activity, empty
  tables), every session of requests, in any order and mixing market requests, predictions, slips,
  notes, claims, disputes, votes, SLA sweeps, scheduler ticks and manual retries, is answered to
  its end, and afterwards the books balance (every pool, participant count, stake total and
  prediction count is the sum over the stored predictions, and no row dangles), the markets and
  the disputes are well-formed, no market was attempted more than \<open>MAX_RETRY_ATTEMPTS\<close> times, and
  the contract was asked to resolve each market at most seven times.
\<close>

theorem platform_consistent:
  assumes "fresh_world w"
  shows "\<exists>q' w'. serve_all rs (q, w) = Some (q', w') \<and> books w' \<and> markets_ok (markets w') \<and> disputes_ok w' \<and>
    (\<forall>m \<in> set (markets w'). settlement_attempt_count m \<le> MAX_RETRY_ATTEMPTS \<and>
       resolves (on_chain_market_id m) (chain_log w') \<le> 7)"
proof -
  from platform.session_inv [of "(q, w)" rs] fresh_world_ok [OF assms]
  obtain q' w' where w': "serve_all rs (q, w) = Some (q', w')" "platform_ok w'" by auto
  have "settlement_attempt_count m \<le> MAX_RETRY_ATTEMPTS \<and> resolves (on_chain_market_id m) (chain_log w') \<le> 7"
    if "m \<in> set (markets w')" for m
    using w'(2) that
    by (auto simp: platform_ok_def sched_inv_def row_ok_def within_budget_def call_budget_def MAX_RETRY_ATTEMPTS_def
        of_bool_def split: if_splits)
  with w' show ?thesis by (auto simp: platform_ok_def sched_inv_def)
qed

definition sample_session :: "request list" where
  "sample_session =
    [MarketRequest sample_env 500 (Create ''x'' ''m1'' sample_dto sample_user),
     PredictionRequest sample_env True 600 (Submit ''p1'' sample_submit sample_user None),
     MarketRequest sample_env 2000 (Resolve ''m1'' ''A''),
     DisputeRequest sample_dispute_env 3000 (Raise ''d1'' ''m1'' ''wrong'' sample_user)]"

theorem platform_consistent_witness:
  "fresh_world (sample_world []) \<and>
   (\<exists>q' w'. serve_all sample_session ([], sample_world []) = Some (q', w') \<and> books w' \<and>
     markets_ok (markets w') \<and> disputes_ok w')"
proof -
  have fresh: "fresh_world (sample_world [])" by (simp add: fresh_world_def sample_simps)
  with platform_consistent [OF this, of sample_session "[]"] show ?thesis by blast
qed

end
